(* ===== verification/Prelude.thy ===== *)
theory Prelude
  imports Complex_Main "HOL-Library.Word" "HOL-Library.Log_Nat"
    "HOL-Library.List_Lexorder" "HOL-Library.Char_ord"
begin

text \<open>
  What every component of the development shares: the widths of the machine integers, the
  standard-library operations the sources call on numbers and sequences (\<open>std::clamp\<close>,
  \<open>std::llround\<close>, \<open>std::find_if\<close>, popping a prefix of a deque), and the
  collections of hints the component proofs use.
\<close>

unbundle bit_operations_syntax

named_theorems model_defs \<comment> \<open>definitions a proof unfolds to look at one operation\<close>
named_theorems inv_intros \<comment> \<open>preservation lemmas of a component's invariant\<close>
named_theorems frame_simps \<comment> \<open>fields an operation does not touch\<close>

section \<open>Machine integers\<close>

type_synonym u8 = "8 word"
type_synonym u16 = "16 word"
type_synonym u32 = "32 word"
type_synonym u64 = "64 word"

text \<open>Time points and durations of \<open>std::chrono\<close> are integers, in nanoseconds.\<close>

type_synonym nanos = int

abbreviation ms :: "int \<Rightarrow> nanos" where
  "ms k \<equiv> 1000000 * k"

text \<open>
  An operation that reads \<open>steady_clock::now()\<close> in several places gets a clock: \<open>clk k\<close> is
  the value read at its \<open>k\<close>-th place, the places numbered from 0 in the order of the source.
\<close>

type_synonym clock = "nat \<Rightarrow> nanos"

lemma of_nat_u64_add: "(of_nat (a + b) :: u64) = of_nat a + of_nat b"
  by simp

lemma unat_u16_le: "unat (w :: u16) \<le> 65535"
proof -
  have "unat w < 2 ^ LENGTH(16)" by (rule unsigned_less)
  then show ?thesis by simp
qed

lemma unat_u32_le: "unat (w :: u32) \<le> 4294967295"
proof -
  have "unat w < 2 ^ LENGTH(32)" by (rule unsigned_less)
  then show ?thesis by simp
qed

text \<open>Narrowing a value that fits.\<close>

lemma unat_ucast_u32: "unat (w :: u64) < 2 ^ 32 \<Longrightarrow> unat (ucast w :: u32) = unat w"
  by (simp add: unsigned_ucast_eq unsigned_take_bit_eq take_bit_nat_eq_self_iff)

lemma unat_ucast_u16: "unat (w :: u32) < 2 ^ 16 \<Longrightarrow> unat (ucast w :: u16) = unat w"
  by (simp add: unsigned_ucast_eq unsigned_take_bit_eq take_bit_nat_eq_self_iff)

lemma unat_of_nat_u64: "n < 2 ^ 64 \<Longrightarrow> unat (of_nat n :: u64) = n"
  by (simp add: unat_of_nat take_bit_nat_eq_self_iff)

lemma unat_ucast_u64 [simp]: "unat (ucast (w :: u32) :: u64) = unat w"
  using unat_u32_le [of w] unat_of_nat_u64 [of "unat w"] by simp

lemma ucast_u64_u32 [simp]: "(ucast (ucast (w :: u32) :: u64) :: u32) = w"
  by (rule word_unat_eq_iff [THEN iffD2]) (use unat_u32_le [of w] in \<open>simp add: unat_ucast_u32\<close>)

section \<open>std::clamp, std::llround\<close>

text \<open>\<open>std::clamp(v, lo, hi)\<close>: the comparisons in the library's order.\<close>

definition std_clamp :: "'a::linorder \<Rightarrow> 'a \<Rightarrow> 'a \<Rightarrow> 'a" where
  "std_clamp v lo hi = (if v < lo then lo else if hi < v then hi else v)"

lemma std_clamp_bounds: "lo \<le> hi \<Longrightarrow> lo \<le> std_clamp v lo hi \<and> std_clamp v lo hi \<le> hi"
  by (auto simp: std_clamp_def)

lemma std_clamp_ge [simp, intro]: "lo \<le> hi \<Longrightarrow> lo \<le> std_clamp v lo hi"
  by (simp add: std_clamp_bounds)

lemma std_clamp_le [simp, intro]: "lo \<le> hi \<Longrightarrow> std_clamp v lo hi \<le> hi"
  by (simp add: std_clamp_bounds)

lemma std_clamp_id [simp]: "lo \<le> v \<Longrightarrow> v \<le> hi \<Longrightarrow> std_clamp v lo hi = v"
  by (auto simp: std_clamp_def)

lemma std_clamp_idem: "lo \<le> hi \<Longrightarrow> std_clamp (std_clamp v lo hi) lo hi = std_clamp v lo hi"
  by (simp add: std_clamp_bounds)

lemma std_clamp_mono: "lo \<le> hi \<Longrightarrow> v \<le> w \<Longrightarrow> std_clamp v lo hi \<le> std_clamp w lo hi"
  by (auto simp: std_clamp_def)

text \<open>\<open>std::llround\<close>: to the nearest integer, halves away from zero.\<close>

definition llround :: "rat \<Rightarrow> int" where
  "llround q = (if 0 \<le> q then \<lfloor>q + 1 / 2\<rfloor> else - \<lfloor>1 / 2 - q\<rfloor>)"

lemma llround_nonneg: "0 \<le> q \<Longrightarrow> 0 \<le> llround q"
  by (simp add: llround_def)

lemma llround_of_int [simp]: "llround (of_int k) = k"
proof -
  have "\<lfloor>of_int k + 1 / 2 :: rat\<rfloor> = k" by (rule floor_unique) auto
  moreover have "\<lfloor>1 / 2 - of_int k :: rat\<rfloor> = - k" by (rule floor_unique) auto
  ultimately show ?thesis by (simp add: llround_def)
qed

lemma llround_mono_nonneg: "0 \<le> q \<Longrightarrow> q \<le> r \<Longrightarrow> llround q \<le> llround r"
  by (simp add: llround_def floor_mono)

section \<open>Sequences\<close>

text \<open>\<open>std::find_if\<close>: the index of the first element with a property.\<close>

fun find_index :: "('a \<Rightarrow> bool) \<Rightarrow> 'a list \<Rightarrow> nat option" where
  "find_index p [] = None"
| "find_index p (x # xs) = (if p x then Some 0 else map_option Suc (find_index p xs))"

lemma find_index_Some:
  "find_index p xs = Some i \<Longrightarrow> i < length xs \<and> p (xs ! i) \<and> (\<forall>j < i. \<not> p (xs ! j))"
proof (induction xs arbitrary: i)
  case Nil
  then show ?case by simp
next
  case (Cons x xs)
  show ?case
  proof (cases "p x")
    case True
    with Cons.prems show ?thesis by simp
  next
    case False
    with Cons.prems obtain k where "find_index p xs = Some k" "i = Suc k" by auto
    with Cons.IH [of k] False show ?thesis by (auto simp: less_Suc_eq_0_disj)
  qed
qed

lemma find_index_None [simp]: "find_index p xs = None \<longleftrightarrow> (\<forall>x \<in> set xs. \<not> p x)"
  by (induction xs) auto

lemma find_Some_set: "find p xs = Some x \<Longrightarrow> x \<in> set xs \<and> p x"
  by (induction xs) (auto split: if_splits)

lemma find_None_iff_ball: "find p xs = None \<longleftrightarrow> (\<forall>x \<in> set xs. \<not> p x)"
  by (induction xs) auto

text \<open>\<open>std::deque::pop_front\<close> in a loop that stops when empty or after \<open>n\<close> steps.\<close>

fun pop_fronts :: "nat \<Rightarrow> 'a list \<Rightarrow> nat \<Rightarrow> 'a list \<times> nat" where
  "pop_fronts n [] k = ([], k)"
| "pop_fronts n (x # xs) k = (if k < n then pop_fronts n xs (Suc k) else (x # xs, k))"

lemma pop_fronts_drop:
  "k \<le> n \<Longrightarrow> pop_fronts n xs k = (drop (n - k) xs, k + min (n - k) (length xs))"
proof (induction n xs k rule: pop_fronts.induct)
  case (1 n k)
  then show ?case by simp
next
  case (2 n x xs k)
  show ?case
  proof (cases "k < n")
    case True
    then have "n - k = Suc (n - Suc k)" by simp
    with True 2 show ?thesis by simp
  next
    case False
    with 2 show ?thesis by simp
  qed
qed

text \<open>Points are taken from the front and the rest stays: what a drained queue emitted.\<close>

lemma take_append_drop_length: "n \<le> length xs \<Longrightarrow> length (take n xs) + length (drop n xs) = length xs"
  by simp

end
