(* ===== verification/Text_Options.thy ===== *)
theory Text_Options
  imports Prelude "HOL-Library.Finite_Map"
begin

text \<open>
  Text handling and option parsing shared by the command line and the virtual controller
  hosts: \<open>trim\<close>, \<open>splitCsv\<close>, \<open>parseU32\<close>, \<open>parseBool\<close> and
  the \<open>option...\<close> accessors (written out in both
  \<open>EtherDreamVirtualControllerHost.cpp\<close> and \<open>LiberaProtocolVirtualControllerHost.cpp\<close>), and
  \<open>parseUnsigned\<close> and \<open>parseKeyValue\<close> of \<open>LinkRuntime.cpp\<close>. Strings are
  lists of bytes; \<open>std::stoull\<close> is written out with its leading blanks, its sign and its
  wrap-around, since the sources rely on it to reject bad input.
\<close>

section \<open>Character classes of the C locale\<close>

definition isspace :: "char \<Rightarrow> bool" where
  "isspace c \<longleftrightarrow> (of_char c :: nat) = 32 \<or> (9 \<le> (of_char c :: nat) \<and> (of_char c :: nat) \<le> 13)"

definition isdigit :: "char \<Rightarrow> bool" where
  "isdigit c \<longleftrightarrow> 48 \<le> (of_char c :: nat) \<and> (of_char c :: nat) \<le> 57"

definition tolower :: "char \<Rightarrow> char" where
  "tolower c = (if 65 \<le> (of_char c :: nat) \<and> (of_char c :: nat) \<le> 90
     then char_of ((of_char c :: nat) + 32) else c)"

section \<open>trim and splitCsv\<close>

definition trim :: "string \<Rightarrow> string" where
  "trim str = rev (dropWhile isspace (rev (dropWhile isspace str)))"

lemma dropWhile_append_last:
  "\<not> p x \<Longrightarrow> dropWhile p (xs @ [x]) = dropWhile p xs @ [x]"
  by (induction xs) auto

lemma hd_dropWhile_not: "dropWhile p xs \<noteq> [] \<Longrightarrow> \<not> p (hd (dropWhile p xs))"
  by (induction xs) auto

lemma trim_ends:
  assumes "trim str \<noteq> []"
  shows "\<not> isspace (hd (trim str)) \<and> \<not> isspace (last (trim str))"
proof
  let ?t = "dropWhile isspace str"
  let ?r = "dropWhile isspace (rev ?t)"
  from assms have r: "?r \<noteq> []" by (simp add: trim_def)
  then show "\<not> isspace (last (trim str))"
    by (simp add: trim_def last_rev hd_dropWhile_not)
  from r have t: "?t \<noteq> []" by (intro notI) simp
  then obtain x xs where x: "?t = x # xs" by (cases ?t) auto
  with hd_dropWhile_not [of isspace str] have nx: "\<not> isspace x" by simp
  then have "?r = dropWhile isspace (rev xs) @ [x]" by (simp add: x dropWhile_append_last)
  with nx show "\<not> isspace (hd (trim str))" by (simp add: trim_def)
qed

lemma trim_id:
  assumes "str = [] \<or> (\<not> isspace (hd str) \<and> \<not> isspace (last str))"
  shows "trim str = str"
proof (cases "str = []")
  case True
  then show ?thesis by (simp add: trim_def)
next
  case False
  with assms have h: "\<not> isspace (hd str)" and l: "\<not> isspace (last str)" by auto
  from False h have "dropWhile isspace str = str" by (cases str) auto
  moreover from False l have "dropWhile isspace (rev str) = rev str"
    by (cases str rule: rev_cases) auto
  ultimately show ?thesis by (simp add: trim_def)
qed

lemma trim_trim [simp]: "trim (trim str) = trim str"
  using trim_ends [of str] by (intro trim_id) blast

lemma set_trim: "set (trim str) \<subseteq> set str"
  by (auto simp: trim_def dest!: set_dropWhileD)

text \<open>The line ends at the end of a text are removed.\<close>

definition trimLogLine :: "string \<Rightarrow> string" where
  "trimLogLine line = rev (dropWhile (\<lambda>c. c = CHR 0x0A \<or> c = CHR 0x0D) (rev line))"

lemma trimLogLine_line:
  assumes "set line \<inter> {CHR 0x0A, CHR 0x0D} = {}" "set ends \<subseteq> {CHR 0x0A, CHR 0x0D}"
  shows "trimLogLine (line @ ends) = line"
proof -
  have "dropWhile (\<lambda>c. c = CHR 0x0A \<or> c = CHR 0x0D) (rev ends @ rev line) =
      dropWhile (\<lambda>c. c = CHR 0x0A \<or> c = CHR 0x0D) (rev line)"
    using assms(2) by (intro dropWhile_append2) auto
  also have "\<dots> = rev line"
    using assms(1) by (cases "rev line") (auto simp: rev_eq_Cons_iff)
  finally show ?thesis by (simp add: trimLogLine_def)
qed

function splitCsv :: "string \<Rightarrow> string list" where
  "splitCsv str =
     (if str = [] then []
      else let piece = takeWhile (\<lambda>c. c \<noteq> CHR '','') str;
               rest = dropWhile (\<lambda>c. c \<noteq> CHR '','') str;
               value = trim piece;
               values = (if value = [] then [] else [value])
           in if rest = [] then values else values @ splitCsv (tl rest))"
  by pat_completeness auto
termination
proof (relation "measure length", goal_cases)
  case 1
  show ?case by simp
next
  case (2 str piece rest v vs)
  have "length rest \<le> length str" using 2 by (simp add: length_dropWhile_le)
  moreover have "rest \<noteq> []" using 2 by simp
  ultimately have "length (tl rest) < length str" by (cases rest) auto
  with 2 show ?case by simp
qed

declare splitCsv.simps [simp del]

lemma splitCsv_elems:
  "v \<in> set (splitCsv str) \<Longrightarrow> v \<noteq> [] \<and> trim v = v \<and> CHR '','' \<notin> set v"
proof (induction str rule: splitCsv.induct)
  case (1 str)
  let ?piece = "takeWhile (\<lambda>c. c \<noteq> CHR '','') str"
  let ?rest = "dropWhile (\<lambda>c. c \<noteq> CHR '','') str"
  have ne: "str \<noteq> []" using "1.prems" by (auto simp: splitCsv.simps)
  have head: "CHR '','' \<notin> set (trim ?piece)" using set_trim [of ?piece] by (auto dest: set_takeWhileD)
  from "1.prems" ne consider "v = trim ?piece" "trim ?piece \<noteq> []"
    | "?rest \<noteq> []" "v \<in> set (splitCsv (tl ?rest))"
    by (subst (asm) splitCsv.simps) (auto simp: Let_def split: if_splits)
  then show ?case
  proof cases
    case 1
    with head show ?thesis by simp
  next
    case 2
    with "1.IH" [OF ne refl refl refl refl] show ?thesis by simp
  qed
qed

section \<open>std::stoull in base 10\<close>

definition digits_value :: "string \<Rightarrow> nat" where
  "digits_value ds = foldl (\<lambda>n c. 10 * n + (of_char c - 48)) 0 ds"

text \<open>\<open>None\<close> is the exception: no digits, or a magnitude beyond \<open>ULLONG_MAX\<close>.\<close>

definition stoull :: "string \<Rightarrow> (u64 \<times> nat) option" where
  "stoull s =
     (let s1 = dropWhile isspace s;
          signed = (s1 \<noteq> [] \<and> (hd s1 = CHR ''-'' \<or> hd s1 = CHR ''+''));
          neg = (s1 \<noteq> [] \<and> hd s1 = CHR ''-'');
          s2 = (if signed then tl s1 else s1);
          ds = takeWhile isdigit s2;
          n = digits_value ds
      in if ds = [] \<or> 2 ^ 64 - 1 < n then None
         else Some (if neg then - of_nat n else of_nat n, length s - length s2 + length ds))"

definition parseUnsigned :: "string \<Rightarrow> u64 option" where
  "parseUnsigned str =
     (case stoull str of
        None \<Rightarrow> None
      | Some (raw, parsed) \<Rightarrow> if parsed \<noteq> length str then None else Some raw)"

definition parseU32 :: "string \<Rightarrow> u32 option" where
  "parseU32 str =
     (case stoull str of
        None \<Rightarrow> None
      | Some (raw, parsed) \<Rightarrow>
          if parsed \<noteq> length str \<or> 4294967295 < raw then None else Some (ucast raw))"

definition parseBool :: "string \<Rightarrow> bool \<Rightarrow> bool" where
  "parseBool str fallback =
     (let value = map tolower (trim str)
      in if value = ''1'' \<or> value = ''true'' \<or> value = ''yes'' \<or> value = ''on'' then True
         else if value = ''0'' \<or> value = ''false'' \<or> value = ''no'' \<or> value = ''off'' then False
         else fallback)"

definition parseKeyValue :: "string \<Rightarrow> (string \<times> string) option" where
  "parseKeyValue str =
     (case find_index (\<lambda>c. c = CHR ''='') str of
        None \<Rightarrow> None
      | Some equals \<Rightarrow>
          if equals = 0 \<or> length str \<le> equals + 1 then None
          else Some (take equals str, drop (equals + 1) str))"

section \<open>Decimal printing, and that parsing reads it back\<close>

fun dec_digits :: "nat \<Rightarrow> string \<Rightarrow> string" where
  "dec_digits n acc =
     (let acc' = char_of (48 + n mod 10) # acc
      in if n < 10 then acc' else dec_digits (n div 10) acc')"

declare dec_digits.simps [simp del]

text \<open>\<open>std::to_string\<close> of an unsigned value.\<close>

definition to_string :: "nat \<Rightarrow> string" where
  "to_string n = dec_digits n []"

lemma of_char_digit: "d < 10 \<Longrightarrow> (of_char (char_of (48 + d :: nat)) :: nat) = 48 + d"
  by (simp add: of_char_of)

lemma isdigit_digit [simp]: "d < 10 \<Longrightarrow> isdigit (char_of (48 + d :: nat))"
  by (simp add: isdigit_def of_char_digit)

lemma dec_digits_digits: "\<forall>c \<in> set acc. isdigit c \<Longrightarrow> \<forall>c \<in> set (dec_digits n acc). isdigit c"
proof (induction n acc rule: dec_digits.induct)
  case (1 n acc)
  then show ?case by (subst dec_digits.simps) (auto simp: Let_def)
qed

lemma dec_digits_nonempty: "dec_digits n acc \<noteq> []"
proof (induction n acc rule: dec_digits.induct)
  case (1 n acc)
  then show ?case by (subst dec_digits.simps) (auto simp: Let_def)
qed

lemma digits_value_Cons:
  "foldl (\<lambda>n c. 10 * n + (of_char c - 48)) k ds = k * 10 ^ length ds + digits_value ds"
proof (induction ds arbitrary: k)
  case Nil
  then show ?case by (simp add: digits_value_def)
next
  case (Cons c ds)
  show ?case
    unfolding digits_value_def foldl_Cons length_Cons
    by (subst (1 2) Cons.IH) (simp add: algebra_simps)
qed

lemma digits_value_digit:
  "d < 10 \<Longrightarrow> digits_value (char_of (48 + d :: nat) # ds) = d * 10 ^ length ds + digits_value ds"
proof -
  assume d: "d < 10"
  have "digits_value (char_of (48 + d :: nat) # ds)
      = foldl (\<lambda>n c. 10 * n + (of_char c - 48)) (10 * 0 + (of_char (char_of (48 + d)) - 48)) ds"
    by (simp only: digits_value_def foldl_Cons)
  also have "(10 * 0 + (of_char (char_of (48 + d)) - 48) :: nat) = d"
    by (simp only: of_char_digit [OF d])
  finally show ?thesis by (simp only: digits_value_Cons)
qed

lemma digits_value_dec_digits:
  "digits_value (dec_digits n acc) = n * 10 ^ length acc + digits_value acc"
proof (induction n acc rule: dec_digits.induct)
  case (1 n acc)
  show ?case
  proof (cases "n < 10")
    case True
    then show ?thesis by (subst dec_digits.simps) (simp add: digits_value_digit)
  next
    case False
    let ?acc' = "char_of (48 + n mod 10) # acc"
    have "digits_value (dec_digits n acc) = digits_value (dec_digits (n div 10) ?acc')"
      using False by (subst dec_digits.simps) simp
    also have "\<dots> = n div 10 * 10 ^ length ?acc' + digits_value ?acc'"
      using 1 False by simp
    also have "\<dots> = (n div 10 * 10 + n mod 10) * 10 ^ length acc + digits_value acc"
      by (simp only: digits_value_digit list.size add.commute [of 0] power_add power_one_right
          distrib_right mod_less_divisor [of 10] zero_less_numeral) simp
    also have "\<dots> = n * 10 ^ length acc + digits_value acc"
      by (simp only: div_mult_mod_eq)
    finally show ?thesis .
  qed
qed

lemma isdigit_not_space [simp]: "isdigit c \<Longrightarrow> \<not> isspace c"
  by (auto simp: isdigit_def isspace_def)

lemma isdigit_not_sign [simp]: "\<not> isdigit CHR ''-''" "\<not> isdigit CHR ''+''"
  by (simp_all add: isdigit_def)

lemma stoull_digits:
  assumes "ds \<noteq> []" "\<forall>c \<in> set ds. isdigit c" "digits_value ds \<le> 2 ^ 64 - 1"
  shows "stoull ds = Some (of_nat (digits_value ds), length ds)"
proof -
  from assms(1,2) have hd: "isdigit (hd ds)" by simp
  with assms(1) have dw: "dropWhile isspace ds = ds" by (cases ds) auto
  from hd have sg: "hd ds \<noteq> CHR ''-''" "hd ds \<noteq> CHR ''+''" by auto
  from assms(2) have tw: "takeWhile isdigit ds = ds" by (simp add: takeWhile_eq_all_conv)
  from assms show ?thesis by (simp add: stoull_def dw sg tw Let_def)
qed

lemma to_string_digits: "\<forall>c \<in> set (to_string n). isdigit c"
  using dec_digits_digits [of "[]" n] by (simp add: to_string_def)

lemma digits_value_to_string: "digits_value (to_string n) = n"
  by (simp add: to_string_def digits_value_dec_digits) (simp add: digits_value_def)

lemma to_string_nonempty: "to_string n \<noteq> []"
  by (simp add: to_string_def dec_digits_nonempty)

lemma parseUnsigned_to_string:
  assumes "n \<le> 2 ^ 64 - 1"
  shows "parseUnsigned (to_string n) = Some (of_nat n)"
  using assms stoull_digits [of "to_string n"] to_string_digits [of n]
  by (simp add: parseUnsigned_def digits_value_to_string to_string_nonempty)

section \<open>Host configuration accessors\<close>

type_synonym options_map = "(string, string) fmap"

record host_config =
  cfg_sliceDurationUs :: u32
  cfg_options :: options_map

definition optionU16 :: "host_config \<Rightarrow> string \<Rightarrow> u16 \<Rightarrow> u16" where
  "optionU16 config key fallback =
     (case fmlookup (cfg_options config) key of
        None \<Rightarrow> fallback
      | Some it \<Rightarrow> (case parseU32 it of
          None \<Rightarrow> fallback
        | Some parsed \<Rightarrow> if 65535 < parsed then fallback else ucast parsed))"

definition optionU32 :: "host_config \<Rightarrow> string \<Rightarrow> u32 \<Rightarrow> u32" where
  "optionU32 config key fallback =
     (case fmlookup (cfg_options config) key of
        None \<Rightarrow> fallback
      | Some it \<Rightarrow> (case parseU32 it of None \<Rightarrow> fallback | Some parsed \<Rightarrow> parsed))"

definition optionString :: "host_config \<Rightarrow> string \<Rightarrow> string \<Rightarrow> string" where
  "optionString config key fallback =
     (case fmlookup (cfg_options config) key of None \<Rightarrow> fallback | Some it \<Rightarrow> trim it)"

definition optionBool :: "host_config \<Rightarrow> string \<Rightarrow> bool \<Rightarrow> bool" where
  "optionBool config key fallback =
     (case fmlookup (cfg_options config) key of None \<Rightarrow> fallback | Some it \<Rightarrow> parseBool it fallback)"

end
