(* ===== verification/Settings.thy ===== *)
theory Settings
  imports Text_Options "HOL-Library.List_Lexorder" "HOL-Library.Char_ord"
begin

text \<open>
  The settings files of the application: the four lists of lines that \<open>gui_main.cpp\<close> loads and
  saves, and the AVB settings of \<open>AvbSettings.cpp\<close>. A file is its content, \<open>None\<close> when it does
  not exist. What the AVB functions of the libera-laser library hold is a pair of lists. The code of
  the main window does not look at errors; that of the AVB settings does, and here they are
  kinds of files.
\<close>

section \<open>Lines\<close>

abbreviation newline :: char where "newline \<equiv> CHR 0x0A"
abbreviation tab :: char where "tab \<equiv> CHR 0x09"

text \<open>What repeated \<open>std::getline\<close> reads: a last line without newline counts if it is not empty.\<close>

fun getlines_acc :: "string \<Rightarrow> string \<Rightarrow> string list" where
  "getlines_acc acc [] = (if acc = [] then [] else [rev acc])"
| "getlines_acc acc (c # cs) = (if c = newline then rev acc # getlines_acc [] cs else getlines_acc (c # acc) cs)"

definition getlines :: "string \<Rightarrow> string list" where
  "getlines file = getlines_acc [] file"

definition isBlankChar :: "char \<Rightarrow> bool" where
  "isBlankChar c \<longleftrightarrow> c = CHR '' '' \<or> c = tab \<or> c = CHR 0x0D \<or> c = newline"

definition trimSettingLine :: "string \<Rightarrow> string" where
  "trimSettingLine line = rev (dropWhile isBlankChar (rev (dropWhile isBlankChar line)))"

text \<open>The lines that count: not empty after trimming, and no comment.\<close>

definition settingLines :: "string option \<Rightarrow> string list" where
  "settingLines file = (case file of None \<Rightarrow> [] | Some content \<Rightarrow>
     filter (\<lambda>line. line \<noteq> [] \<and> hd line \<noteq> CHR ''#'') (map trimSettingLine (getlines content)))"

definition printLines :: "string list \<Rightarrow> string" where
  "printLines ls = concat (map (\<lambda>line. line @ [newline]) ls)"

section \<open>The files of the main window\<close>

definition loadDisabledControllerTypes :: "string set \<Rightarrow> string option \<Rightarrow> string set" where
  "loadDisabledControllerTypes fallbackDisabledTypes file =
     (if file = None then fallbackDisabledTypes else set (settingLines file))"

definition saveDisabledControllerTypes :: "string set \<Rightarrow> string" where
  "saveDisabledControllerTypes disabledTypes = printLines (sorted_list_of_set disabledTypes)"

definition loadDefaultVirtualControllerHostId :: "string option \<Rightarrow> string" where
  "loadDefaultVirtualControllerHostId file =
     (case file of None \<Rightarrow> [] | Some content \<Rightarrow>
        (case getlines content of [] \<Rightarrow> [] | line # _ \<Rightarrow> trimSettingLine line))"

definition saveDefaultVirtualControllerHostId :: "string \<Rightarrow> string" where
  "saveDefaultVirtualControllerHostId hostId = (if hostId \<noteq> [] then printLines [hostId] else [])"

text \<open>A line of the routes: the part before the first tab and the part after it.\<close>

definition parseRoute :: "string \<Rightarrow> (string \<times> string) option" where
  "parseRoute line =
     (case find_index (\<lambda>c. c = tab) line of
        None \<Rightarrow> None
      | Some i \<Rightarrow>
          let controllerId = trimSettingLine (take i line); hostId = trimSettingLine (drop (i + 1) line)
          in if controllerId \<noteq> [] \<and> hostId \<noteq> [] then Some (controllerId, hostId) else None)"

definition loadControllerHostRoutes :: "string option \<Rightarrow> options_map" where
  "loadControllerHostRoutes file =
     foldl (\<lambda>routes line. case parseRoute line of None \<Rightarrow> routes | Some (c, h) \<Rightarrow> fmupd c h routes)
       fmempty (settingLines file)"

definition saveControllerHostRoutes :: "options_map \<Rightarrow> string" where
  "saveControllerHostRoutes routes =
     (let sortedRoutes = map (\<lambda>c. (c, the (fmlookup routes c))) (sorted_list_of_set (fset (fmdom routes)))
      in printLines (map (\<lambda>(c, h). c @ [tab] @ h) (filter (\<lambda>(c, h). c \<noteq> [] \<and> h \<noteq> []) sortedRoutes)))"

definition loadEnabledControllers :: "string option \<Rightarrow> string set" where
  "loadEnabledControllers file = set (settingLines file)"

definition saveEnabledControllers :: "string set \<Rightarrow> string" where
  "saveEnabledControllers enabledControllers = printLines (sorted_list_of_set enabledControllers)"

section \<open>The AVB file\<close>

record avb_config =
  av_deviceUid :: string
  av_preferredPointRate :: u32

record avb_state =
  as_configuredDevices :: "avb_config list"
  as_halfXYOutputControllers :: "string list"

text \<open>\<open>std::quoted\<close>: between quotation marks, which are escaped inside as the backslash is.\<close>

abbreviation quotation :: char where "quotation \<equiv> CHR 0x22"
abbreviation backslash :: char where "backslash \<equiv> CHR 0x5C"

definition quoted :: "string \<Rightarrow> string" where
  "quoted s = quotation # concat (map (\<lambda>c. if c = quotation \<or> c = backslash then [backslash, c] else [c]) s) @ [quotation]"

text \<open>
  Extraction from a string stream. A result is the value and the rest; \<open>None\<close> is a stream that
  has failed. \<open>readWord\<close> is \<open>operator>>\<close> into a string, which needs a character.
\<close>

definition skipws :: "string \<Rightarrow> string" where
  "skipws s = dropWhile isspace s"

definition readWord :: "string \<Rightarrow> (string \<times> string) option" where
  "readWord s =
     (let r = skipws s in
      if r = [] then None else Some (takeWhile (\<lambda>c. \<not> isspace c) r, dropWhile (\<lambda>c. \<not> isspace c) r))"

fun readQuotedBody :: "string \<Rightarrow> string \<Rightarrow> (string \<times> string) option" where
  "readQuotedBody acc [] = None"
| "readQuotedBody acc (c # cs) =
     (if c = backslash then (case cs of [] \<Rightarrow> None | d # ds \<Rightarrow> readQuotedBody (acc @ [d]) ds)
      else if c = quotation then Some (acc, cs)
      else readQuotedBody (acc @ [c]) cs)"

definition readQuoted :: "string \<Rightarrow> (string \<times> string) option" where
  "readQuoted s =
     (case skipws s of
        [] \<Rightarrow> None
      | c # cs \<Rightarrow> if c = quotation then readQuotedBody [] cs else readWord (c # cs))"

text \<open>A signed 64-bit decimal: sign, digits; out of range the stream fails.\<close>

definition readInt64 :: "string \<Rightarrow> (int \<times> string) option" where
  "readInt64 s =
     (let r = skipws s;
          neg = (r \<noteq> [] \<and> hd r = CHR ''-'');
          r1 = (if r \<noteq> [] \<and> (hd r = CHR ''-'' \<or> hd r = CHR ''+'') then tl r else r);
          ds = takeWhile isdigit r1;
          n = (if neg then - int (digits_value ds) else int (digits_value ds))
      in if ds = [] \<or> n < - (2 ^ 63) \<or> 2 ^ 63 \<le> n then None else Some (n, dropWhile isdigit r1))"

text \<open>One line: skipped, or an entry, or invalid.\<close>

datatype avb_entry = AvbSkip | AvbDevice avb_config | AvbHalfXY string | AvbInvalid

definition parseAvbLine :: "string \<Rightarrow> avb_entry" where
  "parseAvbLine line =
     (let fields = skipws line in
      if fields = [] \<or> hd fields = CHR ''#'' then AvbSkip
      else case readWord fields of
        None \<Rightarrow> AvbInvalid
      | Some (kind, r1) \<Rightarrow>
          (case readQuoted r1 of
             None \<Rightarrow> AvbInvalid
           | Some (ident, r2) \<Rightarrow>
               if ident = [] then AvbInvalid
               else if kind = ''device''
               then (case readInt64 r2 of
                   None \<Rightarrow> AvbInvalid
                 | Some (pointRate, r3) \<Rightarrow>
                     if 0 < pointRate \<and> pointRate \<le> 4294967295 \<and> skipws r3 = []
                     then AvbDevice \<lparr>av_deviceUid = ident, av_preferredPointRate = word_of_int pointRate\<rparr>
                     else AvbInvalid)
               else if kind = ''half-xy'' \<and> skipws r2 = [] then AvbHalfXY ident
               else AvbInvalid))"

fun readAvbLines :: "nat \<Rightarrow> string list \<Rightarrow> avb_state \<Rightarrow> nat + avb_state" where
  "readAvbLines n [] st = Inr st"
| "readAvbLines n (line # lines) st =
     (case parseAvbLine line of
        AvbSkip \<Rightarrow> readAvbLines (Suc n) lines st
      | AvbDevice config \<Rightarrow>
          readAvbLines (Suc n) lines (st\<lparr>as_configuredDevices := as_configuredDevices st @ [config]\<rparr>)
      | AvbHalfXY ident \<Rightarrow>
          readAvbLines (Suc n) lines (st\<lparr>as_halfXYOutputControllers := as_halfXYOutputControllers st @ [ident]\<rparr>)
      | AvbInvalid \<Rightarrow> Inl (Suc n))"

text \<open>
  The file as the program finds it: absent; with a message when that cannot be told; one that
  does not open; its content; and the part read before reading failed.
\<close>

datatype avb_file = AvbAbsent | AvbUnknown string | AvbLocked | AvbContent string | AvbBroken string

definition invalidLine :: "nat \<Rightarrow> string" where
  "invalidLine n = ''Invalid AVB setting on line '' @ to_string n @ ''.''"

definition no_avb :: avb_state where
  "no_avb = \<lparr>as_configuredDevices = [], as_halfXYOutputControllers = []\<rparr>"

text \<open>The library's settings are replaced only when the whole file was read.\<close>

definition loadAvbSettings :: "string \<Rightarrow> avb_file \<Rightarrow> avb_state \<Rightarrow> (string + unit) \<times> avb_state" where
  "loadAvbSettings path file st =
     (case file of
        AvbAbsent \<Rightarrow> (Inr (), st)
      | AvbUnknown message \<Rightarrow> (Inl (''Cannot read AVB settings: '' @ message), st)
      | AvbLocked \<Rightarrow> (Inl (''Cannot open AVB settings: '' @ path), st)
      | AvbContent content \<Rightarrow>
          (case readAvbLines 0 (getlines content) no_avb of
             Inl n \<Rightarrow> (Inl (invalidLine n), st)
           | Inr st' \<Rightarrow> (Inr (), st'))
      | AvbBroken content \<Rightarrow>
          (case readAvbLines 0 (getlines content) no_avb of
             Inl n \<Rightarrow> (Inl (invalidLine n), st)
           | Inr st' \<Rightarrow> (Inl (''Cannot finish reading AVB settings: '' @ path), st)))"

definition avbText :: "avb_state \<Rightarrow> string" where
  "avbText st =
     printLines (''# Libera Link AVB interfaces and per-bank output settings'' #
       map (\<lambda>config. ''device '' @ quoted (av_deviceUid config) @ '' '' @
              to_string (unat (av_preferredPointRate config))) (as_configuredDevices st) @
       map (\<lambda>ident. ''half-xy '' @ quoted ident) (as_halfXYOutputControllers st))"

text \<open>Saving, when the file can be written: the message, and the file afterwards. What a failed
  write leaves of the file is an input.\<close>

definition saveAvbSettings :: "string \<Rightarrow> avb_file option \<Rightarrow> avb_state \<Rightarrow> (string + unit) \<times> avb_file" where
  "saveAvbSettings path failed st =
     (case failed of
        None \<Rightarrow> (Inr (), AvbContent (avbText st))
      | Some left \<Rightarrow> (Inl (''AVB settings could not be saved to '' @ path @ ''.''), left))"

end
