(* ===== verification/Managers.thy ===== *)
theory Managers
  imports Settings
begin

text \<open>
  The controller managers that the libera-laser library has registered, as the settings window of
  \<open>gui_main.cpp\<close> lists them: one row per controller type, with a choice where several drivers
  implement the type.
\<close>

section \<open>The rows\<close>

record manager_info =
  mi_type :: string
  mi_displayName :: string
  mi_description :: string
  mi_driverId :: string
  mi_builtIn :: bool

definition managerTypes :: "manager_info list \<Rightarrow> string list" where
  "managerTypes managers = sort (remdups (filter (\<lambda>type. type \<noteq> []) (map mi_type managers)))"

definition implementationsOf :: "manager_info list \<Rightarrow> string \<Rightarrow> manager_info list" where
  "implementationsOf managers type = filter (\<lambda>m. mi_type m = type) managers"

text \<open>The driver in use: the saved one if it is there, else the built-in one.\<close>

definition selectedImplementation :: "options_map \<Rightarrow> string \<Rightarrow> manager_info list \<Rightarrow> manager_info option" where
  "selectedImplementation selectedDrivers type implementations =
     (case (case fmlookup selectedDrivers type of
              None \<Rightarrow> None
            | Some saved \<Rightarrow> find (\<lambda>m. mi_driverId m = saved) implementations) of
        Some m \<Rightarrow> Some m
      | None \<Rightarrow>
          (case find mi_builtIn implementations of
             Some m \<Rightarrow> Some m
           | None \<Rightarrow> if length implementations = 1 then Some (hd implementations) else None))"

text \<open>A row: a label with the type if it differs, or the driver shown and those offered, each with
  its label, whether it is marked, and its identifier.\<close>

datatype driver_row =
    SingleDriver string "string option"
  | DriverChoice string "(string \<times> bool \<times> string) list"

definition driverRow :: "manager_info list \<Rightarrow> options_map \<Rightarrow> string \<Rightarrow> driver_row" where
  "driverRow managers selectedDrivers type =
     (let implementations = implementationsOf managers type in
      if length implementations = 1
      then (let label = (if mi_displayName (hd implementations) = [] then type else mi_displayName (hd implementations))
            in SingleDriver label (if label \<noteq> type then Some (''('' @ type @ '')'') else None))
      else (let selected = selectedImplementation selectedDrivers type implementations
            in DriverChoice (case selected of Some m \<Rightarrow> mi_displayName m | None \<Rightarrow> ''Choose a driver'')
                 (map (\<lambda>m. (mi_displayName m @ (if mi_builtIn m then '' (built-in)'' else '' (plugin)''),
                            (case selected of Some s \<Rightarrow> mi_driverId s = mi_driverId m | None \<Rightarrow> False), mi_driverId m))
                    implementations)))"

definition driverRows :: "manager_info list \<Rightarrow> options_map \<Rightarrow> (string \<times> driver_row) list" where
  "driverRows managers selectedDrivers = map (\<lambda>type. (type, driverRow managers selectedDrivers type)) (managerTypes managers)"

text \<open>The drivers that can be chosen for a type.\<close>

definition offeredDrivers :: "manager_info list \<Rightarrow> string \<Rightarrow> string set" where
  "offeredDrivers managers type =
     (let implementations = implementationsOf managers type
      in if type = [] \<or> length implementations = 1 then {} else mi_driverId ` set implementations)"

section \<open>What is listed\<close>

lemma set_managerTypes: "set (managerTypes managers) = mi_type ` set managers - {[]}"
  by (auto simp: managerTypes_def)

lemma managerTypes_order: "sorted (managerTypes managers) \<and> distinct (managerTypes managers)"
  by (simp add: managerTypes_def)

lemma selected_offered:
  assumes "selectedImplementation selectedDrivers type implementations = Some m"
  shows "m \<in> set implementations"
  using assms by (auto simp: selectedImplementation_def find_Some_iff length_Suc_conv split: option.splits if_splits)

lemma selected_saved:
  assumes "fmlookup selectedDrivers type = Some d" "m \<in> set implementations" "mi_driverId m = d"
  shows "\<exists>s. selectedImplementation selectedDrivers type implementations = Some s \<and> mi_driverId s = d"
proof -
  have "find (\<lambda>m. mi_driverId m = d) implementations \<noteq> None"
    using assms(2,3) by (auto simp: find_None_iff)
  then obtain s where s: "find (\<lambda>m. mi_driverId m = d) implementations = Some s" by blast
  then have "mi_driverId s = d" by (auto simp: find_Some_iff)
  with s assms(1) show ?thesis by (simp add: selectedImplementation_def)
qed

lemma map_of_keys: "k \<in> set ks \<Longrightarrow> map_of (map (\<lambda>k. (k, f k)) ks) k = Some (f k)"
  by (induction ks) auto

lemma filter_only: "distinct xs \<Longrightarrow> d \<in> set xs \<Longrightarrow> filter (\<lambda>x. d = x) xs = [d]"
proof (induction xs)
  case (Cons x xs)
  then show ?case by (cases "d = x") (auto simp: filter_empty_conv)
qed simp

text \<open>C36: The settings window lists each type of controller that a manager has, once and in order;
  where several managers have the type, all are offered, in the order they were registered, and
  exactly the driver that was saved for the type is marked, if it is one of them and drivers
  have different identifiers.\<close>

theorem driver_rows_complete:
  assumes "distinct (map mi_driverId (implementationsOf managers type))" "type \<in> mi_type ` set managers" "type \<noteq> []"
    "fmlookup selectedDrivers type = Some d" "d \<in> mi_driverId ` set (implementationsOf managers type)"
  shows "sorted (map fst (driverRows managers selectedDrivers)) \<and> distinct (map fst (driverRows managers selectedDrivers)) \<and>
    set (map fst (driverRows managers selectedDrivers)) = mi_type ` set managers - {[]} \<and>
    map_of (driverRows managers selectedDrivers) type = Some (driverRow managers selectedDrivers type) \<and>
    (case driverRow managers selectedDrivers type of
       SingleDriver label note \<Rightarrow> offeredDrivers managers type = {}
     | DriverChoice preview choices \<Rightarrow>
         map (\<lambda>c. snd (snd c)) choices = map mi_driverId (implementationsOf managers type) \<and>
         offeredDrivers managers type = (\<lambda>c. snd (snd c)) ` set choices \<and>
         map (\<lambda>c. snd (snd c)) (filter (\<lambda>c. fst (snd c)) choices) = [d])"
proof -
  let ?impls = "implementationsOf managers type"
  have fst: "map fst (driverRows managers selectedDrivers) = managerTypes managers"
    by (simp add: driverRows_def comp_def)
  have row: "map_of (driverRows managers selectedDrivers) type = Some (driverRow managers selectedDrivers type)"
    using assms(2,3) by (simp add: driverRows_def map_of_keys set_managerTypes)
  obtain m where m: "m \<in> set ?impls" "mi_driverId m = d" using assms(5) by blast
  obtain s where s: "selectedImplementation selectedDrivers type ?impls = Some s" "mi_driverId s = d"
    using selected_saved [OF assms(4) m] by blast
  have one: "map mi_driverId (filter (\<lambda>m. d = mi_driverId m) ?impls) = [d]"
  proof -
    have "map mi_driverId (filter (\<lambda>m. d = mi_driverId m) ?impls) = filter (\<lambda>i. d = i) (map mi_driverId ?impls)"
      by (simp add: filter_map comp_def)
    also have "\<dots> = [d]" using assms(1,5) by (intro filter_only) simp_all
    finally show ?thesis .
  qed
  show ?thesis
    using fst row managerTypes_order [of managers] set_managerTypes [of managers] s one assms(3)
    by (auto simp: driverRow_def offeredDrivers_def Let_def filter_map comp_def image_image)
qed

definition sample_manager :: "string \<Rightarrow> string \<Rightarrow> string \<Rightarrow> bool \<Rightarrow> manager_info" where
  "sample_manager type name driver builtIn = \<lparr>mi_type = type, mi_displayName = name, mi_description = [],
     mi_driverId = driver, mi_builtIn = builtIn\<rparr>"

lemma sample_manager_simps [simp]:
  "mi_type (sample_manager t n d b) = t" "mi_displayName (sample_manager t n d b) = n"
  "mi_driverId (sample_manager t n d b) = d" "mi_builtIn (sample_manager t n d b) = b"
  by (simp_all add: sample_manager_def)

definition sample_managers :: "manager_info list" where
  "sample_managers = [sample_manager ''Helios'' ''Helios'' ''usb'' True, sample_manager ''AVB'' ''AVB'' ''avb'' True,
     sample_manager ''Helios'' ''Helios 2'' ''other'' False]"

theorem driver_rows_complete_witness:
  "map fst (driverRows sample_managers (fmap_of_list [(''Helios'', ''other'')])) = [''AVB'', ''Helios''] \<and>
   driverRow sample_managers (fmap_of_list [(''Helios'', ''other'')]) ''Helios'' =
     DriverChoice ''Helios 2'' [(''Helios (built-in)'', False, ''usb''), (''Helios 2 (plugin)'', True, ''other'')]"
proof -
  let ?saved = "fmap_of_list [(''Helios'', ''other'')]"
  have i: "implementationsOf sample_managers ''Helios'' =
      [sample_manager ''Helios'' ''Helios'' ''usb'' True, sample_manager ''Helios'' ''Helios 2'' ''other'' False]"
    by (simp add: implementationsOf_def sample_managers_def)
  have row: "driverRow sample_managers ?saved ''Helios'' =
     DriverChoice ''Helios 2'' [(''Helios (built-in)'', False, ''usb''), (''Helios 2 (plugin)'', True, ''other'')]"
    by (simp add: driverRow_def i selectedImplementation_def Let_def)
  have types: "mi_type ` set sample_managers = {''AVB'', ''Helios''}" by (auto simp: sample_managers_def)
  have "distinct (map mi_driverId (implementationsOf sample_managers ''Helios''))" "fmlookup ?saved ''Helios'' = Some ''other''"
    "''other'' \<in> mi_driverId ` set (implementationsOf sample_managers ''Helios'')" "''Helios'' \<in> mi_type ` set sample_managers"
    by (simp_all add: i types)
  with driver_rows_complete [of sample_managers "''Helios''" ?saved "''other''"]
  have "set (map fst (driverRows sample_managers ?saved)) = {''AVB'', ''Helios''} \<and>
      sorted (map fst (driverRows sample_managers ?saved)) \<and> distinct (map fst (driverRows sample_managers ?saved))"
    unfolding types by simp
  moreover have "set [''AVB'', ''Helios''] = {''AVB'', ''Helios''} \<and> sorted [''AVB'', ''Helios''] \<and> distinct [''AVB'', ''Helios'']"
    by (intro conjI) (simp, code_simp, simp)
  ultimately have "map fst (driverRows sample_managers ?saved) = [''AVB'', ''Helios'']"
    using sorted_distinct_set_unique by metis
  with row show ?thesis by simp
qed

end
