(* ===== verification/Floats.thy ===== *)
theory Floats
  imports Prelude
begin

text \<open>
  Floating-point numbers. The sources compute with \<open>float\<close> and \<open>double\<close>; every value they
  hold comes from an integer by division, multiplication, addition and subtraction, so it
  is a finite number, never a NaN or an infinity, and far from the underflow threshold. The model
  keeps such a value as the rational it stands for and applies the rounding of IEEE 754
  (to nearest, ties to even) after every operation: \<open>f32\<close> to the 24 bits of a \<open>float\<close>,
  \<open>f64\<close> to the 53 bits of a \<open>double\<close>. The exponent is not bounded.
\<close>

section \<open>Rounding to the nearest integer, ties to even\<close>

definition round_even :: "rat \<Rightarrow> int" where
  "round_even q =
     (let n = \<lfloor>q\<rfloor>; f = q - of_int n
      in if f < 1 / 2 then n else if 1 / 2 < f then n + 1 else if even n then n else n + 1)"

lemma round_even_of_int [simp]: "round_even (of_int k) = k"
  by (simp add: round_even_def)

lemma round_even_floor: "\<lfloor>q\<rfloor> \<le> round_even q" "round_even q \<le> \<lfloor>q\<rfloor> + 1"
  by (simp_all add: round_even_def Let_def)

lemma round_even_mono: "q \<le> r \<Longrightarrow> round_even q \<le> round_even r"
proof (cases "\<lfloor>q\<rfloor> = \<lfloor>r\<rfloor>")
  case True
  moreover assume "q \<le> r"
  ultimately show ?thesis by (auto simp: round_even_def Let_def)
next
  case False
  assume "q \<le> r"
  then have "\<lfloor>q\<rfloor> \<le> \<lfloor>r\<rfloor>" by (rule floor_mono)
  with False have "\<lfloor>q\<rfloor> + 1 \<le> \<lfloor>r\<rfloor>" by simp
  with round_even_floor [of q] round_even_floor [of r] show ?thesis by linarith
qed

section \<open>The binary exponent\<close>

text \<open>\<open>binexp q\<close> is the \<open>e\<close> with \<open>2\<^sup>e \<le> q < 2\<^sup>e\<^sup>+\<^sup>1\<close>, for \<open>0 < q\<close>.\<close>

definition pow2 :: "int \<Rightarrow> rat" where
  "pow2 e = (if 0 \<le> e then 2 ^ nat e else 1 / 2 ^ nat (- e))"

definition binexp :: "rat \<Rightarrow> int" where
  "binexp q = (case quotient_of q of (a, b) \<Rightarrow>
     (let e = bitlen a - bitlen b in if pow2 e \<le> q then e else e - 1))"

lemma pow2_powi: "pow2 e = 2 powi e"
  by (simp add: pow2_def power_int_def power_one_over)

lemma pow2_pos [simp]: "0 < pow2 e" "0 \<le> pow2 e" "pow2 e \<noteq> 0"
  by (simp_all add: pow2_powi)

lemma pow2_add: "pow2 (a + b) = pow2 a * pow2 b"
  by (simp add: pow2_powi power_int_add)

lemma pow2_less: "a < b \<Longrightarrow> pow2 a < pow2 b"
  by (simp add: pow2_powi power_int_strict_increasing)

lemma pow2_le: "a \<le> b \<Longrightarrow> pow2 a \<le> pow2 b"
  using pow2_less [of a b] by (cases "a = b") auto

lemma pow2_nat: "pow2 (int n) = 2 ^ n"
  by (simp add: pow2_def)

lemma bitlen_pow2:
  assumes "0 < a"
  shows "pow2 (bitlen a - 1) \<le> of_int a" and "of_int a < pow2 (bitlen a)"
proof -
  from assms have b: "1 \<le> bitlen a"
    by (metis bitlen_eq_zero_iff bitlen_nonneg int_one_le_iff_zero_less order_less_le linorder_not_less)
  from bitlen_bounds [OF assms]
  have lo: "2 ^ nat (bitlen a - 1) \<le> a" and hi: "a < 2 ^ nat (bitlen a)" by auto
  from lo have "(of_int (2 ^ nat (bitlen a - 1)) :: rat) \<le> of_int a" by (simp only: of_int_le_iff)
  with b show "pow2 (bitlen a - 1) \<le> of_int a" by (simp add: pow2_def)
  from hi have "(of_int a :: rat) < of_int (2 ^ nat (bitlen a))" by (simp only: of_int_less_iff)
  with b show "of_int a < pow2 (bitlen a)" by (simp add: pow2_def)
qed

lemma binexp_bounds:
  assumes "0 < q"
  shows "pow2 (binexp q) \<le> q" and "q < pow2 (binexp q + 1)"
proof -
  obtain a b where ab: "quotient_of q = (a, b)" by force
  then have b: "0 < b" by (rule quotient_of_denom_pos)
  from ab have q: "q = of_int a / of_int b" by (rule quotient_of_div)
  with assms b have a: "0 < a" by (simp add: zero_less_divide_iff)
  define e where "e = bitlen a - bitlen b"
  have "pow2 (e - 1) * of_int b \<le> pow2 (e - 1) * pow2 (bitlen b)"
    using bitlen_pow2(2) [OF b] by (simp add: mult_left_mono less_imp_le)
  also have "\<dots> = pow2 (bitlen a - 1)"
    by (simp add: e_def pow2_add [symmetric] algebra_simps)
  also have "\<dots> \<le> of_int a" by (rule bitlen_pow2(1) [OF a])
  finally have lo: "pow2 (e - 1) \<le> q" using b by (simp add: q pos_le_divide_eq)
  have "of_int a < pow2 (bitlen a)" by (rule bitlen_pow2(2) [OF a])
  also have "\<dots> = pow2 (e + 1) * pow2 (bitlen b - 1)"
    by (simp add: e_def pow2_add [symmetric] algebra_simps)
  also have "\<dots> \<le> pow2 (e + 1) * of_int b"
    using bitlen_pow2(1) [OF b] by (simp add: mult_left_mono)
  finally have hi: "q < pow2 (e + 1)" using b by (simp add: q pos_divide_less_eq)
  have be: "binexp q = (if pow2 e \<le> q then e else e - 1)"
    by (simp add: binexp_def ab e_def Let_def)
  from lo hi show "pow2 (binexp q) \<le> q" and "q < pow2 (binexp q + 1)"
    by (auto simp: be)
qed

lemma binexp_mono:
  assumes "0 < q" "q \<le> r"
  shows "binexp q \<le> binexp r"
proof (rule ccontr)
  assume "\<not> binexp q \<le> binexp r"
  then have "pow2 (binexp r + 1) \<le> pow2 (binexp q)" by (intro pow2_le) simp
  with binexp_bounds(1) [of q] binexp_bounds(2) [of r] assms show False by simp
qed

section \<open>Rounding to \<open>p\<close> significant bits\<close>

definition fround_pos :: "nat \<Rightarrow> rat \<Rightarrow> rat" where
  "fround_pos p q =
     (let ulp = pow2 (binexp q + 1 - int p) in of_int (round_even (q / ulp)) * ulp)"

definition fround :: "nat \<Rightarrow> rat \<Rightarrow> rat" where
  "fround p q = (if q = 0 then 0 else if 0 < q then fround_pos p q else - fround_pos p (- q))"

abbreviation f32 :: "rat \<Rightarrow> rat" where "f32 \<equiv> fround 24"
abbreviation f64 :: "rat \<Rightarrow> rat" where "f64 \<equiv> fround 53"

lemma fround_0 [simp]: "fround p 0 = 0"
  by (simp add: fround_def)

lemma fround_pos_bounds:
  assumes "0 < q" "0 < p"
  shows "pow2 (binexp q) \<le> fround_pos p q" and "fround_pos p q \<le> pow2 (binexp q + 1)"
proof -
  define e where "e = binexp q"
  define u where "u = pow2 (e + 1 - int p)"
  have u: "0 < u" by (simp add: u_def)
  have 1: "pow2 e = 2 ^ (p - 1) * u"
    using assms(2) by (simp add: u_def pow2_nat [symmetric] pow2_add [symmetric] of_nat_diff)
  have 2: "pow2 (e + 1) = 2 ^ p * u"
    by (simp add: u_def pow2_nat [symmetric] pow2_add [symmetric])
  from binexp_bounds [OF assms(1)] have "2 ^ (p - 1) * u \<le> q" "q < 2 ^ p * u"
    by (simp_all only: 1 [symmetric] 2 [symmetric] e_def)
  with u have "of_int (2 ^ (p - 1)) \<le> q / u" "q / u \<le> of_int (2 ^ p)"
    by (simp_all add: pos_le_divide_eq pos_divide_le_eq)
  from round_even_mono [OF this(1)] round_even_mono [OF this(2)]
  have "2 ^ (p - 1) \<le> round_even (q / u)" "round_even (q / u) \<le> 2 ^ p"
    by (metis round_even_of_int)+
  then have "(of_int (2 ^ (p - 1)) :: rat) \<le> of_int (round_even (q / u))"
    "(of_int (round_even (q / u)) :: rat) \<le> of_int (2 ^ p)"
    by (simp_all only: of_int_le_iff)
  then have "2 ^ (p - 1) * u \<le> of_int (round_even (q / u)) * u"
    "of_int (round_even (q / u)) * u \<le> 2 ^ p * u"
    using u by (simp_all add: mult_right_mono)
  then show "pow2 (binexp q) \<le> fround_pos p q" "fround_pos p q \<le> pow2 (binexp q + 1)"
    by (simp_all add: fround_pos_def Let_def 1 2 flip: e_def u_def)
qed

lemma fround_pos_mono:
  assumes "0 < q" "q \<le> r" "0 < p"
  shows "fround_pos p q \<le> fround_pos p r"
proof (cases "binexp q = binexp r")
  case True
  with assms show ?thesis
    by (auto simp: fround_pos_def Let_def divide_right_mono intro!: mult_right_mono round_even_mono)
next
  case False
  with binexp_mono [OF assms(1,2)] have "binexp q + 1 \<le> binexp r" by simp
  then have "pow2 (binexp q + 1) \<le> pow2 (binexp r)" by (rule pow2_le)
  with fround_pos_bounds(2) [of q p] fround_pos_bounds(1) [of r p] assms show ?thesis by simp
qed

lemma fround_pos_ge0: "0 < q \<Longrightarrow> 0 < p \<Longrightarrow> 0 < fround_pos p q"
  using fround_pos_bounds(1) [of q p] pow2_pos(1) [of "binexp q"] by linarith

lemma fround_nonneg: "0 \<le> q \<Longrightarrow> 0 < p \<Longrightarrow> 0 \<le> fround p q"
  using fround_pos_ge0 [of q p] by (auto simp: fround_def)

lemma fround_pos_iff [simp]: "0 < p \<Longrightarrow> 0 < fround p q \<longleftrightarrow> 0 < q"
  using fround_pos_ge0 [of q p] fround_pos_ge0 [of "- q" p] by (auto simp: fround_def)

lemma fround_eq_0 [simp]: "0 < p \<Longrightarrow> fround p q = 0 \<longleftrightarrow> q = 0"
  using fround_pos_ge0 [of q p] fround_pos_ge0 [of "- q" p] by (auto simp: fround_def)

lemma fround_minus [simp]: "fround p (- q) = - fround p q"
  by (simp add: fround_def)

lemma fround_mono:
  assumes "q \<le> r" "0 < p"
  shows "fround p q \<le> fround p r"
proof -
  consider "0 < q" | "q \<le> 0" "0 \<le> r" | "r < 0" using assms(1) by linarith
  then show ?thesis
  proof cases
    case 1
    with assms show ?thesis by (simp add: fround_def fround_pos_mono)
  next
    case 2
    have "0 \<le> fround p (- q)" "0 \<le> fround p r" using 2 assms(2) by (simp_all only: fround_nonneg neg_0_le_iff_le)
    then show ?thesis by simp
  next
    case 3
    with assms have "fround p (- r) \<le> fround p (- q)"
      by (simp add: fround_def fround_pos_mono)
    then show ?thesis by simp
  qed
qed

text \<open>A power of two is a floating-point number.\<close>

lemma fround_pow2 [simp]:
  assumes "0 < p"
  shows "fround p (pow2 e) = pow2 e"
proof -
  have b: "binexp (pow2 e) = e"
  proof (rule antisym)
    show "binexp (pow2 e) \<le> e"
      using binexp_bounds(1) [of "pow2 e"] pow2_less [of e "binexp (pow2 e)"] by fastforce
    show "e \<le> binexp (pow2 e)"
      using binexp_bounds(2) [of "pow2 e"] pow2_le [of "binexp (pow2 e) + 1" e] by fastforce
  qed
  have "pow2 e = of_int (2 ^ (p - 1)) * pow2 (e + 1 - int p)"
    using assms by (simp add: pow2_nat [symmetric] pow2_add [symmetric] of_nat_diff)
  then have "pow2 e / pow2 (e + 1 - int p) = of_int (2 ^ (p - 1))" by (simp add: field_simps)
  then have "round_even (pow2 e / pow2 (e + 1 - int p)) = 2 ^ (p - 1)"
    by (metis round_even_of_int)
  then have "fround_pos p (pow2 e) = of_int (2 ^ (p - 1)) * pow2 (e + 1 - int p)"
    by (simp add: fround_pos_def b Let_def)
  also have "\<dots> = pow2 e"
    using assms by (simp add: pow2_nat [symmetric] pow2_add [symmetric] of_nat_diff)
  finally show ?thesis by (simp add: fround_def)
qed

lemma fround_1 [simp]: "0 < p \<Longrightarrow> fround p 1 = 1"
  using fround_pow2 [of p 0] by (simp add: pow2_def)

lemma fround_2 [simp]: "0 < p \<Longrightarrow> fround p 2 = 2"
  using fround_pow2 [of p 1] by (simp add: pow2_def)

text \<open>A ratio of channel values stays between 0 and 1, and is 0 only for 0.\<close>

lemma fround_unit: "0 \<le> q \<Longrightarrow> q \<le> 1 \<Longrightarrow> 0 < p \<Longrightarrow> 0 \<le> fround p q \<and> fround p q \<le> 1"
  using fround_mono [of 0 q p] fround_mono [of q 1 p] by simp

text \<open>Small integers are exact.\<close>

lemma fround_of_int:
  assumes "0 < k" "k < 2 ^ p"
  shows "fround p (of_int k) = of_int k"
proof -
  let ?q = "of_int k :: rat"
  let ?e = "binexp ?q"
  have q: "0 < ?q" using assms by simp
  have "?q < 2 ^ p" using assms(2) by (metis of_int_less_iff of_int_numeral of_int_power)
  with binexp_bounds(1) [OF q] have "pow2 ?e < pow2 (int p)"
    unfolding pow2_nat by (rule order.strict_trans1)
  then have e: "?e < int p" using pow2_le [of "int p" ?e] by (cases "int p \<le> ?e") auto
  define n where "n = nat (int p - ?e - 1)"
  have ulp: "pow2 (?e + 1 - int p) * 2 ^ n = 1"
    using e pow2_add [of "?e + 1 - int p" "int n"] by (simp add: n_def pow2_nat flip: pow2_nat) (simp add: pow2_def)
  then have "?q / pow2 (?e + 1 - int p) = of_int (k * 2 ^ n)"
    by (simp add: divide_eq_eq ac_simps)
  then have "fround_pos p ?q = of_int (k * 2 ^ n) * pow2 (?e + 1 - int p)"
    by (simp only: fround_pos_def Let_def round_even_of_int)
  also have "\<dots> = ?q" using ulp by (simp add: ac_simps)
  finally show ?thesis using q by (simp add: fround_def)
qed

lemma fround_of_nat: "n < 2 ^ p \<Longrightarrow> fround p (of_nat n) = of_nat n"
proof (cases "n = 0")
  case False
  assume "n < 2 ^ p"
  then have "int n < 2 ^ p" by (metis of_nat_less_iff of_nat_numeral of_nat_power)
  with False fround_of_int [of "int n" p] show ?thesis by simp
qed simp

lemma fround_numeral [simp]: "numeral n < (2 :: nat) ^ p \<Longrightarrow> fround p (numeral n) = numeral n"
  using fround_of_nat [of "numeral n" p] by simp

text \<open>A 16-bit channel as a fraction of its maximum.\<close>

lemma f32_channel_unit:
  "0 \<le> f32 (of_nat (unat (w :: u16)) / 65535) \<and> f32 (of_nat (unat w) / 65535) \<le> 1"
proof -
  have "(of_nat (unat w) :: rat) \<le> of_nat 65535" using unat_u16_le [of w] by (simp only: of_nat_le_iff)
  then have "0 \<le> (of_nat (unat w) / 65535 :: rat) \<and> (of_nat (unat w) / 65535 :: rat) \<le> 1"
    by (simp del: of_nat_unat)
  then show ?thesis by (intro fround_unit) simp_all
qed

end
