(* ===== verification/Host_Api.thy ===== *)
theory Host_Api
  imports Floats Text_Options
begin

text \<open>
  The contract between virtual controller hosts and linked targets, after
  \<open>virtual_controller/VirtualControllerHost.hpp\<close>: the data that crosses it, the calls a host
  makes on a \<open>TargetSink\<close>, and the laws a sink promises, as the locale
  \<open>target_sink\<close>. A host model returns the sink calls it makes as a list
  (\<open>sink_call\<close>); \<open>run_sink_calls\<close> performs such a list on a sink.
  Container sizes (\<open>std::size_t\<close>) are natural numbers; counters keep their 64 bits.
\<close>

section \<open>Data\<close>

text \<open>
  \<open>libera::core::LaserPoint\<close> has the eight float members the sources read and write.
\<close>

record laser_point =
  lp_x :: rat
  lp_y :: rat
  lp_r :: rat
  lp_g :: rat
  lp_b :: rat
  lp_i :: rat
  lp_u1 :: rat
  lp_u2 :: rat

record slice_submission =
  sl_points :: "laser_point list"
  sl_durationUs :: u32
  sl_effectivePointRate :: "u32 option"
  sl_discontinuous :: bool

record frame_submission =
  fs_slices :: "slice_submission list"
  fs_effectivePointRate :: "u32 option"
  fs_targetBeginTime :: "nanos option"
  fs_clearTransportPrefetch :: bool

record target_status =
  ts_queuedPoints :: nat
  ts_maxQueuedPoints :: nat
  ts_controllerPrefetchedPoints :: nat
  ts_controllerTransportBufferedPoints :: nat
  ts_controllerBufferedPoints :: nat
  ts_totalBufferedPoints :: nat
  ts_targetBufferedPoints :: nat
  ts_outputPointRate :: u32
  ts_observedInputPointRate :: u32
  ts_observedInputFrameRate :: rat
  ts_observedControllerFrameRate :: rat
  ts_latencyMs :: u32
  ts_receivedFrames :: u64
  ts_controllerSubmittedFrames :: u64
  ts_receivedPoints :: u64
  ts_droppedPoints :: u64
  ts_underrunEvents :: u64
  ts_underrunPoints :: u64
  ts_buffering :: bool

record submission_result =
  sr_accepted :: bool
  sr_submittedPoints :: nat
  sr_acceptedPoints :: nat
  sr_droppedPoints :: nat
  sr_status :: target_status

record target_info =
  ti_id :: string
  ti_label :: string
  ti_type :: string
  ti_maxPointRate :: u32

record vc_endpoint =
  ep_targetId :: string
  ep_label :: string
  ep_value :: string
  ep_kind :: string
  ep_protocol :: string
  ep_transport :: string
  ep_address :: string
  ep_port :: u16
  ep_channels :: u32
  ep_attributes :: options_map

section \<open>Calls on a sink\<close>

datatype sink_call =
    SubmitContinuous slice_submission
  | ReplaceFrame frame_submission
  | SubmitFrame frame_submission
  | SetScannerSync int bool
  | Reset

text \<open>A sink's operations; each reads the clock through its first argument.\<close>

record 's sink_ops =
  so_submitContinuous :: "clock \<Rightarrow> slice_submission \<Rightarrow> 's \<Rightarrow> submission_result \<times> 's"
  so_replaceFrame :: "clock \<Rightarrow> frame_submission \<Rightarrow> 's \<Rightarrow> submission_result \<times> 's"
  so_submitFrame :: "clock \<Rightarrow> frame_submission \<Rightarrow> 's \<Rightarrow> submission_result \<times> 's"
  so_setScannerSync :: "int \<Rightarrow> bool \<Rightarrow> 's \<Rightarrow> 's"
  so_reset :: "'s \<Rightarrow> 's"

fun apply_sink_call :: "'s sink_ops \<Rightarrow> clock \<Rightarrow> sink_call \<Rightarrow> 's \<Rightarrow> 's" where
  "apply_sink_call so clk (SubmitContinuous sub) s = snd (so_submitContinuous so clk sub s)"
| "apply_sink_call so clk (ReplaceFrame sub) s = snd (so_replaceFrame so clk sub s)"
| "apply_sink_call so clk (SubmitFrame sub) s = snd (so_submitFrame so clk sub s)"
| "apply_sink_call so clk (SetScannerSync off en) s = so_setScannerSync so off en s"
| "apply_sink_call so clk Reset s = so_reset so s"

fun run_sink_calls :: "'s sink_ops \<Rightarrow> (clock \<times> sink_call) list \<Rightarrow> 's \<Rightarrow> 's" where
  "run_sink_calls so [] s = s"
| "run_sink_calls so ((clk, c) # cs) s = run_sink_calls so cs (apply_sink_call so clk c s)"

lemma run_sink_calls_append:
  "run_sink_calls so (xs @ ys) s = run_sink_calls so ys (run_sink_calls so xs s)"
  by (induction so xs s rule: run_sink_calls.induct) auto

section \<open>What a sink promises\<close>

text \<open>
  \<open>queue\<close> is the local queue of points, \<open>capacity\<close> its configured bound. Every operation
  keeps the sink's invariant and its capacity, a queue never exceeds the capacity, and a
  reset empties the queue. A refused submission leaves the queue as it was.
\<close>

locale target_sink =
  fixes so :: "'s sink_ops"
    and inv :: "'s \<Rightarrow> bool"
    and queue :: "'s \<Rightarrow> laser_point list"
    and capacity :: "'s \<Rightarrow> nat"
  assumes inv_apply: "inv s \<Longrightarrow> inv (apply_sink_call so clk c s)"
    and capacity_apply: "capacity (apply_sink_call so clk c s) = capacity s"
    and queue_bound: "inv s \<Longrightarrow> length (queue s) \<le> capacity s"
    and queue_reset: "queue (so_reset so s) = []"
    and empty_slice_refused: "sl_points sub = [] \<Longrightarrow>
      \<not> sr_accepted (fst (so_submitContinuous so clk sub s)) \<and>
      queue (snd (so_submitContinuous so clk sub s)) = queue s"
begin

lemma inv_run: "inv s \<Longrightarrow> inv (run_sink_calls so cs s)"
  by (induction cs arbitrary: s) (auto simp: inv_apply)

lemma capacity_run: "capacity (run_sink_calls so cs s) = capacity s"
  by (induction cs arbitrary: s) (auto simp: capacity_apply)

lemma run_bounded: "inv s \<Longrightarrow> length (queue (run_sink_calls so cs s)) \<le> capacity s"
  using queue_bound [OF inv_run] capacity_run by metis

lemma run_reset_last: "queue (run_sink_calls so (cs @ [(clk, Reset)]) s) = []"
  by (simp add: run_sink_calls_append queue_reset)

end

section \<open>Virtual controller hosts\<close>

text \<open>
  A target as hosts and the runtime hold it: the sink behind the shared pointer (an address)
  and its identity, which never changes.
\<close>

record link_target =
  lt_ref :: nat
  lt_info :: target_info

text \<open>
  The methods of \<open>VirtualControllerHost\<close> on a host of type \<open>'h\<close> in a world \<open>'w\<close> (the
  operating system): an error message is \<open>Some\<close>, success \<open>None\<close>.
\<close>

record ('h, 'w) host_ops =
  ho_displayName :: "'h \<Rightarrow> string"
  ho_start :: "link_target list \<Rightarrow> 'h \<Rightarrow> 'w \<Rightarrow> string option \<times> 'h \<times> 'w"
  ho_stop :: "'h \<Rightarrow> 'w \<Rightarrow> 'h \<times> 'w"
  ho_running :: "'h \<Rightarrow> bool"
  ho_endpoints :: "'h \<Rightarrow> vc_endpoint list"
  ho_supportsDynamicTargets :: "'h \<Rightarrow> bool"
  ho_addTarget :: "link_target \<Rightarrow> 'h \<Rightarrow> 'w \<Rightarrow> string option \<times> 'h \<times> 'w"
  ho_removeTarget :: "string \<Rightarrow> 'h \<Rightarrow> 'w \<Rightarrow> string option \<times> 'h \<times> 'w"

definition defaultAddTarget :: "link_target \<Rightarrow> 'h \<Rightarrow> 'w \<Rightarrow> string option \<times> 'h \<times> 'w" where
  "defaultAddTarget target h w =
     (Some ''Virtual controller host does not support adding targets while running.'', h, w)"

definition defaultRemoveTarget :: "string \<Rightarrow> 'h \<Rightarrow> 'w \<Rightarrow> string option \<times> 'h \<times> 'w" where
  "defaultRemoveTarget targetId h w =
     (Some ''Virtual controller host does not support removing targets while running.'', h, w)"

text \<open>
  What the runtime relies on: a stopped host does not run, and offers no endpoint if it ran; a
  started one runs and, if it was idle, serves its targets and nothing else; a failed start leaves a
  host that did not run not running, and dynamic changes keep a host running.
\<close>

definition idle_host :: "('h, 'w) host_ops \<Rightarrow> 'h \<Rightarrow> bool" where
  "idle_host ops h \<longleftrightarrow> \<not> ho_running ops h \<and> ho_endpoints ops h = []"

locale virtual_host =
  fixes ops :: "('h, 'w) host_ops"
  assumes stop_stops: "ho_stop ops h w = (h', w') \<Longrightarrow> \<not> ho_running ops h'"
    and stop_clears: "ho_stop ops h w = (h', w') \<Longrightarrow> ho_running ops h \<Longrightarrow> ho_endpoints ops h' = []"
    and start_runs: "ho_start ops ts h w = (None, h', w') \<Longrightarrow> ho_running ops h'"
    and start_serves: "ho_start ops ts h w = (None, h', w') \<Longrightarrow> idle_host ops h \<Longrightarrow>
      ep_targetId ` set (ho_endpoints ops h') = (ti_id \<circ> lt_info) ` set ts"
    and start_fails: "ho_start ops ts h w = (Some err, h', w') \<Longrightarrow> \<not> ho_running ops h \<Longrightarrow>
      \<not> ho_running ops h'"
    and add_runs: "ho_running ops h \<Longrightarrow> ho_addTarget ops t h w = (res, h', w') \<Longrightarrow> ho_running ops h'"
    and remove_runs: "ho_running ops h \<Longrightarrow> ho_removeTarget ops tid h w = (res, h', w') \<Longrightarrow>
      ho_running ops h'"
begin

lemma stop_idle: "ho_stop ops h w = (h', w') \<Longrightarrow> ho_running ops h \<Longrightarrow> idle_host ops h'"
  using stop_stops stop_clears by (auto simp: idle_host_def)

lemma stopped [simp]: "\<not> ho_running ops (fst (ho_stop ops h w))"
  using stop_stops [of h w] by (metis prod.collapse)

lemma start_then_stop:
  "ho_start ops ts h w = (res, h1, w1) \<Longrightarrow> ho_stop ops h1 w1 = (h2, w2) \<Longrightarrow> \<not> ho_running ops h2"
  using stop_stops by blast

lemma start_outcome:
  "\<not> ho_running ops h \<Longrightarrow> ho_start ops ts h w = (res, h', w') \<Longrightarrow> ho_running ops h' \<longleftrightarrow> res = None"
  using start_runs [of ts h w h' w'] start_fails [of ts h w _ h' w'] by (cases res) auto

end

end
