(* ===== verification/Libera_Target.thy ===== *)
theory Libera_Target
  imports Host_Api
begin

text \<open>
  \<open>LiberaTarget\<close> of \<open>LinkRuntime.cpp\<close>: the queue between a virtual controller host and
  a laser controller. Hosts put points in (\<open>submitContinuous\<close>, \<open>replaceFrame\<close>,
  \<open>submitFrame\<close>), the controller's callback takes them out (\<open>fillFromQueue\<close>), and the
  target adapts its point rate and its latency on the way.

  The controller itself is a \<open>libera::core::LaserController\<close> of the libera-laser
  library: an abstract state \<open>'c\<close> with its methods in a record \<open>'c controller_ops\<close>, an
  argument of every operation that calls it. The constructor dereferences the controller
  unconditionally, so \<open>controller_\<close> is never null and the \<open>if (!controller_)\<close> exits are not
  represented. One call is one atomic step; the text the logger receives is kept as the
  fields it prints.
\<close>

section \<open>The controller the target drives\<close>

record buffer_breakdown =
  bb_totalBufferedPoints :: nat
  bb_prefetchedPoints :: nat
  bb_transportBufferedPoints :: nat

text \<open>\<open>fr_time\<close> is \<open>None\<close> where the code leaves the frame's default time.\<close>

record frame =
  fr_points :: "laser_point list"
  fr_time :: "nanos option"

record 'c controller_ops =
  co_setPointRate :: "u32 \<Rightarrow> 'c \<Rightarrow> 'c"
  co_getPointRate :: "'c \<Rightarrow> u32"
  co_setArmed :: "bool \<Rightarrow> 'c \<Rightarrow> 'c"
  co_installCallback :: "'c \<Rightarrow> 'c"
  co_clearCallback :: "'c \<Rightarrow> 'c"
  co_sendFrame :: "frame \<Rightarrow> 'c \<Rightarrow> bool \<times> 'c"
  co_clearFrameQueue :: "'c \<Rightarrow> 'c"
  co_clearPrefetch :: "'c \<Rightarrow> 'c"
  co_setScannerSync :: "rat \<Rightarrow> 'c \<Rightarrow> 'c"
  co_setScannerSyncEnabled :: "bool \<Rightarrow> 'c \<Rightarrow> 'c"
  co_bufferBreakdown :: "'c \<Rightarrow> buffer_breakdown option"
  co_submittedFrames :: "'c \<Rightarrow> u64"
  co_defaultPoint :: laser_point

section \<open>State\<close>

record downstream =
  db_pointsInBuffer :: nat
  db_prefetchedPoints :: nat
  db_transportBufferedPoints :: nat
  db_valid :: bool

definition no_downstream :: downstream where
  "no_downstream = \<lparr>db_pointsInBuffer = 0, db_prefetchedPoints = 0,
     db_transportBufferedPoints = 0, db_valid = False\<rparr>"

record counters =
  c_receivedSlices :: u64
  c_receivedFrames :: u64
  c_receivedPoints :: u64
  c_receivedLitPoints :: u64
  c_callbackCalls :: u64
  c_callbackUnderrunEvents :: u64
  c_callbackUnderrunPoints :: u64
  c_emittedPoints :: u64
  c_blankFillPoints :: u64
  c_droppedPoints :: u64

definition zero_counters :: counters where
  "zero_counters = \<lparr>c_receivedSlices = 0, c_receivedFrames = 0, c_receivedPoints = 0,
     c_receivedLitPoints = 0, c_callbackCalls = 0, c_callbackUnderrunEvents = 0,
     c_callbackUnderrunPoints = 0, c_emittedPoints = 0, c_blankFillPoints = 0,
     c_droppedPoints = 0\<rparr>"

record stats_snapshot =
  ss_receivedSlices :: u64
  ss_receivedFrames :: u64
  ss_controllerSubmittedFrames :: u64
  ss_receivedPoints :: u64
  ss_receivedLitPoints :: u64
  ss_callbackCalls :: u64
  ss_callbackUnderrunEvents :: u64
  ss_callbackUnderrunPoints :: u64
  ss_emittedPoints :: u64
  ss_blankFillPoints :: u64
  ss_droppedPoints :: u64
  ss_queuedPoints :: nat
  ss_controllerPrefetchedPoints :: nat
  ss_controllerTransportBufferedPoints :: nat
  ss_controllerBufferedPoints :: nat
  ss_totalBufferedPoints :: nat
  ss_outputPointRate :: u32
  ss_observedInputPointRate :: u32
  ss_observedInputFrameRate :: rat
  ss_observedControllerFrameRate :: rat
  ss_latencyMs :: u32
  ss_targetBufferedPoints :: nat
  ss_buffering :: bool

definition zero_stats :: stats_snapshot where
  "zero_stats = \<lparr>ss_receivedSlices = 0, ss_receivedFrames = 0, ss_controllerSubmittedFrames = 0,
     ss_receivedPoints = 0, ss_receivedLitPoints = 0, ss_callbackCalls = 0,
     ss_callbackUnderrunEvents = 0, ss_callbackUnderrunPoints = 0, ss_emittedPoints = 0,
     ss_blankFillPoints = 0, ss_droppedPoints = 0, ss_queuedPoints = 0,
     ss_controllerPrefetchedPoints = 0, ss_controllerTransportBufferedPoints = 0,
     ss_controllerBufferedPoints = 0, ss_totalBufferedPoints = 0, ss_outputPointRate = 0,
     ss_observedInputPointRate = 0, ss_observedInputFrameRate = 0,
     ss_observedControllerFrameRate = 0, ss_latencyMs = 0, ss_targetBufferedPoints = 0,
     ss_buffering = False\<rparr>"

record fill_request =
  rq_minimumPointsRequired :: nat
  rq_maximumPointsRequired :: nat
  rq_allowShortRead :: bool

text \<open>The lines a target logs, by the values they print.\<close>

datatype target_log =
    LogUnderrun fill_request nat nat nat nat nat bool
      \<comment> \<open>request, available, downstream, missing, target, queue now, buffering hold\<close>
  | LogAutoLatency u32 u32
  | LogStats stats_snapshot "u64 list"
      \<comment> \<open>the snapshot and the deltas since the previous line\<close>

record 'c target =
  t_controller :: 'c
  t_info :: target_info
  t_maxPointRateValue :: u32
  t_maxQueuedPoints :: nat
  t_currentPointRate :: u32
  t_latencyMs :: u32
  t_maxLatencyMs :: u32
  t_autoLatency :: bool
  t_hasLogger :: bool
  t_log :: "target_log list"
  t_commandedInputPps :: u32
  t_lastLatencyIncrease :: nanos
  t_lastLatencyUnderrunSample :: nanos
  t_latencyUnderrunAccumulator :: nat
  t_pendingPoints :: "laser_point list"
  t_lastOutputPoint :: laser_point
  t_haveLastOutputPoint :: bool
  t_hasSeenInput :: bool
  t_frameReplacementMode :: bool
  t_lastInputAt :: nanos
  t_buffering :: bool
  t_lastUnderrunLog :: nanos
  t_counters :: counters
  t_observedInputFrameRateMilli :: u32
  t_observedControllerFrameRateMilli :: u32
  t_lastObserved :: downstream
  t_lastStatsLog :: nanos
  t_lastStats :: stats_snapshot

definition bump :: "(counters \<Rightarrow> counters) \<Rightarrow> 'c target \<Rightarrow> 'c target" where
  [simp]: "bump f t = t\<lparr>t_counters := f (t_counters t)\<rparr>"

section \<open>Point predicates\<close>

definition isLitPoint :: "laser_point \<Rightarrow> bool" where
  "isLitPoint p \<longleftrightarrow> 0 < lp_i p \<and> (0 < lp_r p \<or> 0 < lp_g p \<or> 0 < lp_b p)"

definition isBlankForBoundary :: "laser_point \<Rightarrow> bool" where
  "isBlankForBoundary p \<longleftrightarrow> f32 (f32 (lp_r p + lp_g p) + lp_b p) < f32 (1 / 100)"

definition countLitPoints :: "laser_point list \<Rightarrow> nat" where
  "countLitPoints points = length (filter isLitPoint points)"

section \<open>Construction\<close>

definition installPointCallback :: "'c controller_ops \<Rightarrow> 'c target \<Rightarrow> 'c target" where
  "installPointCallback co t = t\<lparr>t_controller := co_installCallback co (t_controller t)\<rparr>"

definition newLiberaTarget ::
  "'c controller_ops \<Rightarrow> 'c \<Rightarrow> target_info \<Rightarrow> nat \<Rightarrow> u32 \<Rightarrow> u32 \<Rightarrow> bool \<Rightarrow> bool \<Rightarrow> 'c target" where
  "newLiberaTarget co controller info maxQueuedPoints latencyMs maxLatencyMs autoLatency logger =
     (let maxPointRateValue = (if 0 < ti_maxPointRate info then ti_maxPointRate info else 100000);
          initialRate = (if ti_type info = ''AVB'' then co_getPointRate co controller
                         else min 30000 maxPointRateValue);
          startingRate = max initialRate 1000;
          controller' = co_setArmed co True (co_setPointRate co startingRate controller)
      in installPointCallback co
           \<lparr>t_controller = controller', t_info = info, t_maxPointRateValue = maxPointRateValue,
            t_maxQueuedPoints = max maxQueuedPoints 1000, t_currentPointRate = startingRate,
            t_latencyMs = latencyMs, t_maxLatencyMs = max maxLatencyMs latencyMs,
            t_autoLatency = autoLatency, t_hasLogger = logger, t_log = [],
            t_commandedInputPps = startingRate, t_lastLatencyIncrease = 0,
            t_lastLatencyUnderrunSample = 0, t_latencyUnderrunAccumulator = 0,
            t_pendingPoints = [], t_lastOutputPoint = co_defaultPoint co,
            t_haveLastOutputPoint = False, t_hasSeenInput = False,
            t_frameReplacementMode = False, t_lastInputAt = 0, t_buffering = True,
            t_lastUnderrunLog = 0, t_counters = zero_counters,
            t_observedInputFrameRateMilli = 0, t_observedControllerFrameRateMilli = 0,
            t_lastObserved = no_downstream, t_lastStatsLog = 0, t_lastStats = zero_stats\<rparr>)"

definition destroyLiberaTarget :: "'c controller_ops \<Rightarrow> 'c target \<Rightarrow> 'c" where
  "destroyLiberaTarget co t = co_clearCallback co (t_controller t)"

section \<open>Rates and limits\<close>

definition inferCommandedPointRate :: "nat \<Rightarrow> rat \<Rightarrow> u32" where
  "inferCommandedPointRate pointCount durationUs =
     (if pointCount = 0 \<or> durationUs \<le> 0 then 0
      else let inferredRate = f64 (f64 (1000000 * f64 (of_nat pointCount)) / durationUs)
           in if inferredRate \<le> 0 then 0 else word_of_int (llround inferredRate))"

definition rat_of_word :: "'a::len word \<Rightarrow> rat" where
  "rat_of_word w = of_nat (unat w)"

definition targetBufferedPoints :: "'c target \<Rightarrow> nat" where
  "targetBufferedPoints t =
     (let rawPoints =
            f64 (f64 (rat_of_word (t_currentPointRate t) * rat_of_word (t_latencyMs t)) / 1000);
          minPoints = 1000;
          maxPoints = max minPoints (t_maxQueuedPoints t - 1)
      in std_clamp (nat (llround rawPoints)) minPoints maxPoints)"

definition livePointLimit :: "nat \<Rightarrow> rat \<Rightarrow> 'c target \<Rightarrow> nat" where
  "livePointLimit multiplier minimumSeconds t =
     (let targetMultiplier = max multiplier 1;
          targetPoints = targetBufferedPoints t;
          pointRate = t_currentPointRate t;
          minimumPoints = (if 0 < pointRate
            then nat (llround (f64 (rat_of_word pointRate * minimumSeconds))) else 3000);
          targetWindow = (if t_maxQueuedPoints t div targetMultiplier < targetPoints
            then t_maxQueuedPoints t else targetPoints * targetMultiplier);
          livePoints = max targetWindow minimumPoints
      in std_clamp livePoints 1000 (t_maxQueuedPoints t))"

definition liveContinuousPointLimit :: "'c target \<Rightarrow> nat" where
  "liveContinuousPointLimit t = livePointLimit 2 (f64 (1 / 10)) t"

definition liveReplacementPointLimit :: "'c target \<Rightarrow> nat" where
  "liveReplacementPointLimit t = livePointLimit 1 (f64 (1 / 20)) t"

definition maybeUpdatePointRate :: "'c controller_ops \<Rightarrow> u32 \<Rightarrow> 'c target \<Rightarrow> 'c target" where
  "maybeUpdatePointRate co commandedPointRate t =
     (if commandedPointRate = 0 then t
      else let proposed = std_clamp commandedPointRate 1000 (t_maxPointRateValue t);
               t1 = t\<lparr>t_commandedInputPps := proposed\<rparr>
           in if proposed = t_currentPointRate t1 then t1
              else let ctl = co_setPointRate co proposed (t_controller t1);
                       actualRate = (if ti_type (t_info t) = ''AVB'' then co_getPointRate co ctl
                                     else proposed)
                   in t1\<lparr>t_controller := ctl, t_currentPointRate := actualRate\<rparr>)"

definition downstreamBufferSnapshot ::
  "'c controller_ops \<Rightarrow> bool \<Rightarrow> 'c target \<Rightarrow> downstream \<times> 'c target" where
  "downstreamBufferSnapshot co allowControllerQuery t =
     (if \<not> allowControllerQuery then (t_lastObserved t, t)
      else case co_bufferBreakdown co (t_controller t) of
        None \<Rightarrow> (no_downstream, t\<lparr>t_lastObserved := no_downstream\<rparr>)
      | Some b \<Rightarrow>
          (let snapshot = \<lparr>db_pointsInBuffer = bb_totalBufferedPoints b,
                 db_prefetchedPoints = bb_prefetchedPoints b,
                 db_transportBufferedPoints = bb_transportBufferedPoints b, db_valid = True\<rparr>
           in (snapshot, t\<lparr>t_lastObserved := snapshot\<rparr>)))"

section \<open>Statistics and results\<close>

definition getStatsSnapshot :: "'c controller_ops \<Rightarrow> 'c target \<Rightarrow> stats_snapshot \<times> 'c target" where
  "getStatsSnapshot co t =
     (case downstreamBufferSnapshot co True t of (d, t') \<Rightarrow>
       (let c = t_counters t; queued = length (t_pendingPoints t) in
        (\<lparr>ss_receivedSlices = c_receivedSlices c, ss_receivedFrames = c_receivedFrames c,
          ss_controllerSubmittedFrames = co_submittedFrames co (t_controller t),
          ss_receivedPoints = c_receivedPoints c, ss_receivedLitPoints = c_receivedLitPoints c,
          ss_callbackCalls = c_callbackCalls c,
          ss_callbackUnderrunEvents = c_callbackUnderrunEvents c,
          ss_callbackUnderrunPoints = c_callbackUnderrunPoints c,
          ss_emittedPoints = c_emittedPoints c, ss_blankFillPoints = c_blankFillPoints c,
          ss_droppedPoints = c_droppedPoints c, ss_queuedPoints = queued,
          ss_controllerPrefetchedPoints = db_prefetchedPoints d,
          ss_controllerTransportBufferedPoints = db_transportBufferedPoints d,
          ss_controllerBufferedPoints = db_pointsInBuffer d,
          ss_totalBufferedPoints = queued + db_pointsInBuffer d,
          ss_outputPointRate = t_currentPointRate t,
          ss_observedInputPointRate = t_commandedInputPps t,
          ss_observedInputFrameRate = f64 (rat_of_word (t_observedInputFrameRateMilli t) / 1000),
          ss_observedControllerFrameRate =
            f64 (rat_of_word (t_observedControllerFrameRateMilli t) / 1000),
          ss_latencyMs = t_latencyMs t, ss_targetBufferedPoints = targetBufferedPoints t,
          ss_buffering = t_buffering t\<rparr>, t')))"

definition targetStatusSnapshot :: "'c controller_ops \<Rightarrow> 'c target \<Rightarrow> target_status \<times> 'c target" where
  "targetStatusSnapshot co t =
     (case getStatsSnapshot co t of (s, t') \<Rightarrow>
       (\<lparr>ts_queuedPoints = ss_queuedPoints s, ts_maxQueuedPoints = t_maxQueuedPoints t,
         ts_controllerPrefetchedPoints = ss_controllerPrefetchedPoints s,
         ts_controllerTransportBufferedPoints = ss_controllerTransportBufferedPoints s,
         ts_controllerBufferedPoints = ss_controllerBufferedPoints s,
         ts_totalBufferedPoints = ss_totalBufferedPoints s,
         ts_targetBufferedPoints = ss_targetBufferedPoints s,
         ts_outputPointRate = ss_outputPointRate s,
         ts_observedInputPointRate = ss_observedInputPointRate s,
         ts_observedInputFrameRate = ss_observedInputFrameRate s,
         ts_observedControllerFrameRate = ss_observedControllerFrameRate s,
         ts_latencyMs = ss_latencyMs s, ts_receivedFrames = ss_receivedFrames s,
         ts_controllerSubmittedFrames = ss_controllerSubmittedFrames s,
         ts_receivedPoints = ss_receivedPoints s, ts_droppedPoints = ss_droppedPoints s,
         ts_underrunEvents = ss_callbackUnderrunEvents s,
         ts_underrunPoints = ss_callbackUnderrunPoints s, ts_buffering = ss_buffering s\<rparr>, t'))"

definition makeSubmissionResult ::
  "'c controller_ops \<Rightarrow> bool \<Rightarrow> nat \<Rightarrow> nat \<Rightarrow> 'c target \<Rightarrow> submission_result \<times> 'c target" where
  "makeSubmissionResult co accepted submittedPoints droppedPoints t =
     (case targetStatusSnapshot co t of (st, t') \<Rightarrow>
       (\<lparr>sr_accepted = accepted, sr_submittedPoints = submittedPoints,
         sr_acceptedPoints =
           (if accepted then submittedPoints - min submittedPoints droppedPoints else 0),
         sr_droppedPoints = droppedPoints, sr_status = st\<rparr>, t'))"

section \<open>Continuous input\<close>

text \<open>The blank points right before index \<open>j\<close>, counted backwards.\<close>

fun blankRun :: "laser_point list \<Rightarrow> nat \<Rightarrow> nat" where
  "blankRun q 0 = 0"
| "blankRun q (Suc j) = (if isBlankForBoundary (q ! j) then Suc (blankRun q j) else 0)"

text \<open>A cut is a lit point after at least two blank ones.\<close>

definition isCut :: "laser_point list \<Rightarrow> nat \<Rightarrow> bool" where
  "isCut q i \<longleftrightarrow> \<not> isBlankForBoundary (q ! i) \<and> isBlankForBoundary (q ! (i - 1)) \<and> 2 \<le> blankRun q i"

definition desiredDropFor :: "nat \<Rightarrow> laser_point list \<Rightarrow> nat" where
  "desiredDropFor limit q =
     (let desiredDrop = length q - limit;
          searchStart = min (max desiredDrop 1) (length q)
      in case find (isCut q) [searchStart ..< length q] of
           Some i \<Rightarrow> i
         | None \<Rightarrow> desiredDrop)"

text \<open>The locked section: append, then drop from the front when over the limit.\<close>

definition enqueueContinuous ::
  "laser_point list \<Rightarrow> nat \<Rightarrow> laser_point list \<Rightarrow> laser_point list \<times> nat" where
  "enqueueContinuous points limit pending =
     (let q = pending @ points
      in if limit < length q then pop_fronts (desiredDropFor limit q) q 0
         else (q, 0))"

text \<open>What \<open>submitContinuous\<close> does before it takes the queue's lock.\<close>

definition acceptSlice :: "'c controller_ops \<Rightarrow> slice_submission \<Rightarrow> 'c target \<Rightarrow> 'c target" where
  "acceptSlice co submission t =
     (let pointCount = length (sl_points submission);
          t1 = (installPointCallback co t)\<lparr>t_frameReplacementMode := False\<rparr>;
          t2 = bump (\<lambda>c. c\<lparr>c_receivedSlices := c_receivedSlices c + 1,
                           c_receivedPoints := c_receivedPoints c + of_nat pointCount\<rparr>) t1;
          t3 = maybeUpdatePointRate co
                 (case sl_effectivePointRate submission of
                    Some r \<Rightarrow> r
                  | None \<Rightarrow> inferCommandedPointRate pointCount
                              (rat_of_word (sl_durationUs submission))) t2
      in snd (downstreamBufferSnapshot co True t3))"

definition submitContinuous ::
  "'c controller_ops \<Rightarrow> clock \<Rightarrow> slice_submission \<Rightarrow> 'c target \<Rightarrow> submission_result \<times> 'c target" where
  "submitContinuous co clk submission t =
     (let pointCount = length (sl_points submission) in
      if pointCount = 0 then makeSubmissionResult co False 0 0 t
      else
        let t4 = acceptSlice co submission t;
            limit = liveContinuousPointLimit t4;
            litCount = countLitPoints (sl_points submission);
            t5 = bump (\<lambda>c. c\<lparr>c_receivedLitPoints := c_receivedLitPoints c + of_nat litCount\<rparr>) t4
        in case enqueueContinuous (sl_points submission) limit (t_pendingPoints t5) of
             (q, dropCount) \<Rightarrow>
               let t6 = t5\<lparr>t_hasSeenInput := True, t_lastInputAt := clk 0, t_pendingPoints := q\<rparr>;
                   t7 = (if 0 < dropCount
                         then bump (\<lambda>c. c\<lparr>c_droppedPoints := c_droppedPoints c + of_nat dropCount\<rparr>) t6
                         else t6)
               in makeSubmissionResult co True pointCount dropCount t7)"

section \<open>Frame input\<close>

definition validSlices :: "frame_submission \<Rightarrow> slice_submission list" where
  "validSlices submission = filter (\<lambda>s. sl_points s \<noteq> []) (fs_slices submission)"

definition framePoints :: "frame_submission \<Rightarrow> laser_point list" where
  "framePoints submission = concat (map sl_points (validSlices submission))"

text \<open>\<open>totalDurationUs\<close> is a 64-bit sum of 32-bit durations.\<close>

definition frameDurationUs :: "frame_submission \<Rightarrow> u64" where
  "frameDurationUs submission = foldl (\<lambda>d s. d + ucast (sl_durationUs s)) 0 (validSlices submission)"

fun dropWhileOver :: "nat \<Rightarrow> nat \<Rightarrow> 'a list \<Rightarrow> nat \<Rightarrow> 'a list \<times> nat" where
  "dropWhileOver bound extra [] k = ([], k)"
| "dropWhileOver bound extra (x # xs) k =
     (if bound < length (x # xs) + extra then dropWhileOver bound extra xs (Suc k)
      else (x # xs, k))"

definition countFrame :: "nat \<Rightarrow> frame_submission \<Rightarrow> 'c target \<Rightarrow> 'c target" where
  "countFrame lit submission t =
     bump (\<lambda>c. c\<lparr>c_receivedSlices := c_receivedSlices c + of_nat (length (validSlices submission)),
                 c_receivedFrames := c_receivedFrames c + 1,
                 c_receivedPoints := c_receivedPoints c + of_nat (length (framePoints submission)),
                 c_receivedLitPoints := c_receivedLitPoints c + of_nat lit\<rparr>) t"

definition replaceFrame ::
  "'c controller_ops \<Rightarrow> clock \<Rightarrow> frame_submission \<Rightarrow> 'c target \<Rightarrow> submission_result \<times> 'c target" where
  "replaceFrame co clk submission t =
     (if fs_slices submission = [] then makeSubmissionResult co False 0 0 t
      else
        let t1 = installPointCallback co t;
            points = framePoints submission;
            totalPointCount = length points;
            totalLitCount = countLitPoints points
        in if points = [] then makeSubmissionResult co False 0 0 t1
           else
             let limit = liveReplacementPointLimit t1;
                 replacement = (if limit < length points then take limit points else points);
                 t2 = countFrame totalLitCount submission
                        (t1\<lparr>t_frameReplacementMode := True, t_buffering := False\<rparr>)
             in case downstreamBufferSnapshot co True t2 of (d, t3) \<Rightarrow>
                (case dropWhileOver (t_maxQueuedPoints t3) (db_pointsInBuffer d) replacement 0 of
                   (q, dropCount) \<Rightarrow>
                     let t4 = t3\<lparr>t_hasSeenInput := True, t_lastInputAt := clk 0,
                                 t_pendingPoints := q\<rparr>;
                         t5 = (if 0 < dropCount
                               then bump (\<lambda>c. c\<lparr>c_droppedPoints := c_droppedPoints c + of_nat dropCount\<rparr>) t4
                               else t4);
                         t6 = maybeUpdatePointRate co
                                (inferCommandedPointRate totalPointCount
                                   (f64 (rat_of_word (frameDurationUs submission)))) t5;
                         t7 = (if fs_clearTransportPrefetch submission
                               then t6\<lparr>t_controller := co_clearPrefetch co (t_controller t6)\<rparr>
                               else t6)
                     in makeSubmissionResult co True totalPointCount dropCount t7))"

definition submitFrame ::
  "'c controller_ops \<Rightarrow> clock \<Rightarrow> frame_submission \<Rightarrow> 'c target \<Rightarrow> submission_result \<times> 'c target" where
  "submitFrame co clk submission t =
     (if fs_slices submission = [] then makeSubmissionResult co False 0 0 t
      else
        let points = framePoints submission;
            totalPointCount = length points;
            totalLitCount = countLitPoints points
        in if points = [] then makeSubmissionResult co False 0 0 t
           else
             let t1 = countFrame totalLitCount submission
                        (t\<lparr>t_frameReplacementMode := False, t_buffering := False\<rparr>);
                 frameRate = (case fs_effectivePointRate submission of
                     Some r \<Rightarrow> r
                   | None \<Rightarrow> inferCommandedPointRate totalPointCount
                               (f64 (rat_of_word (frameDurationUs submission))));
                 t2 = maybeUpdatePointRate co frameRate t1;
                 fr = \<lparr>fr_points = points, fr_time = fs_targetBeginTime submission\<rparr>;
                 t3 = t2\<lparr>t_pendingPoints := [], t_hasSeenInput := True, t_lastInputAt := clk 0\<rparr>
             in case co_sendFrame co fr (t_controller t3) of (accepted, ctl) \<Rightarrow>
                  let dropped = (if accepted then 0 else totalPointCount);
                      t4 = t3\<lparr>t_controller := ctl\<rparr>;
                      t5 = (if accepted then t4
                            else bump (\<lambda>c. c\<lparr>c_droppedPoints := c_droppedPoints c + of_nat dropped\<rparr>) t4)
                  in makeSubmissionResult co accepted totalPointCount dropped t5)"

section \<open>Scanner sync, status, reset\<close>

definition setScannerSync :: "'c controller_ops \<Rightarrow> int \<Rightarrow> bool \<Rightarrow> 'c target \<Rightarrow> 'c target" where
  "setScannerSync co offsetNs enabled t =
     (let clampedOffsetNs = f64 (of_int (max offsetNs 0));
          ctl = co_setScannerSync co (f64 (clampedOffsetNs / 100000)) (t_controller t)
      in t\<lparr>t_controller := co_setScannerSyncEnabled co enabled ctl\<rparr>)"

definition resetTarget :: "'c controller_ops \<Rightarrow> 'c target \<Rightarrow> 'c target" where
  "resetTarget co t =
     (let t1 = t\<lparr>t_pendingPoints := [], t_hasSeenInput := False, t_haveLastOutputPoint := False,
                 t_lastInputAt := 0, t_buffering := True, t_frameReplacementMode := False,
                 t_commandedInputPps := t_currentPointRate t, t_lastObserved := no_downstream,
                 t_observedInputFrameRateMilli := 0, t_observedControllerFrameRateMilli := 0\<rparr>
      in installPointCallback co
           (t1\<lparr>t_controller := co_clearPrefetch co (co_clearFrameQueue co (t_controller t1))\<rparr>))"

section \<open>The controller's callback\<close>

definition isAwaitingInputLocked :: "nanos \<Rightarrow> nanos \<Rightarrow> 'c target \<Rightarrow> bool" where
  "isAwaitingInputLocked now idleThreshold t =
     (if \<not> t_hasSeenInput t then True
      else if t_pendingPoints t \<noteq> [] then False
      else idleThreshold \<le> now - t_lastInputAt t)"

definition fallbackPoint :: "'c controller_ops \<Rightarrow> 'c target \<Rightarrow> laser_point" where
  "fallbackPoint co t =
     (if t_haveLastOutputPoint t
      then (t_lastOutputPoint t)\<lparr>lp_r := 0, lp_g := 0, lp_b := 0, lp_i := 0\<rparr>
      else co_defaultPoint co)"

definition appendFallbackPoints ::
  "'c controller_ops \<Rightarrow> 'c target \<Rightarrow> laser_point list \<Rightarrow> nat \<Rightarrow> laser_point list" where
  "appendFallbackPoints co t out count = out @ replicate count (fallbackPoint co t)"

definition maybeIncreaseLatencyOnUnderrun ::
  "nanos \<Rightarrow> nat \<Rightarrow> nat \<Rightarrow> nat \<Rightarrow> 'c target \<Rightarrow> 'c target" where
  "maybeIncreaseLatencyOnUnderrun now missingPoints minimumPointsRequired targetPoints t =
     (if \<not> t_autoLatency t \<or> minimumPointsRequired = 0 then t
      else
        let acc0 = (if ms 2000 < now - t_lastLatencyUnderrunSample t then 0
                    else t_latencyUnderrunAccumulator t);
            acc = acc0 + missingPoints;
            t1 = t\<lparr>t_lastLatencyUnderrunSample := now, t_latencyUnderrunAccumulator := acc\<rparr>
        in if now - t_lastLatencyIncrease t1 < ms 3000 then t1
           else
             let threshold = max (minimumPointsRequired div 2) (max 100 (targetPoints div 3))
             in if acc < threshold then t1
                else
                  let before = t_latencyMs t1 in
                  if t_maxLatencyMs t1 \<le> before then t1\<lparr>t_latencyUnderrunAccumulator := 0\<rparr>
                  else
                    let step = max 10 (before div 10);
                        after = min (t_maxLatencyMs t1) (before + step);
                        t2 = t1\<lparr>t_latencyMs := after, t_lastLatencyIncrease := now,
                                t_latencyUnderrunAccumulator := 0\<rparr>
                    in if after \<noteq> before \<and> t_hasLogger t2
                       then t2\<lparr>t_log := t_log t2 @ [LogAutoLatency before after]\<rparr> else t2)"

text \<open>The idle test and the rate limit read the clock separately.\<close>

definition logUnderrunIfDue ::
  "nanos \<Rightarrow> nanos \<Rightarrow> fill_request \<Rightarrow> nat \<Rightarrow> nat \<Rightarrow> nat \<Rightarrow> nat \<Rightarrow> bool \<Rightarrow> 'c target \<Rightarrow> 'c target" where
  "logUnderrunIfDue now1 now2 req available downstreamPoints missing targetPoints bufferingHold t =
     (if isAwaitingInputLocked now1 (ms 2000) t then t
      else if now2 - t_lastUnderrunLog t < ms 1000 then t
      else
        let t1 = t\<lparr>t_lastUnderrunLog := now2\<rparr>
        in if \<not> t_hasLogger t1 then t1
           else t1\<lparr>t_log := t_log t1 @ [LogUnderrun req available downstreamPoints missing
                     targetPoints (length (t_pendingPoints t1)) bufferingHold]\<rparr>)"

definition fillBufferingHold ::
  "'c controller_ops \<Rightarrow> clock \<Rightarrow> fill_request \<Rightarrow> laser_point list \<Rightarrow> nat \<Rightarrow> 'c target \<Rightarrow>
   laser_point list \<times> 'c target" where
  "fillBufferingHold co clk req out targetPoints t =
     (let missing = rq_minimumPointsRequired req;
          t1 = bump (\<lambda>c. c\<lparr>c_callbackUnderrunEvents := c_callbackUnderrunEvents c + 1,
                           c_callbackUnderrunPoints := c_callbackUnderrunPoints c + of_nat missing\<rparr>) t;
          t2 = logUnderrunIfDue (clk 1) (clk 2) req (length (t_pendingPoints t))
                 (db_pointsInBuffer (t_lastObserved t)) missing targetPoints True t1;
          out' = appendFallbackPoints co t2 out missing
      in (out', bump (\<lambda>c. c\<lparr>c_blankFillPoints := c_blankFillPoints c + of_nat missing\<rparr>) t2))"

definition fillUnderrun ::
  "'c controller_ops \<Rightarrow> clock \<Rightarrow> fill_request \<Rightarrow> laser_point list \<Rightarrow> nat \<Rightarrow> nat \<Rightarrow> 'c target \<Rightarrow>
   laser_point list \<times> 'c target" where
  "fillUnderrun co clk req out availableAtStart targetPoints t =
     (let blankCount = rq_minimumPointsRequired req - length out;
          frameMode = t_frameReplacementMode t;
          t1 = bump (\<lambda>c. c\<lparr>c_callbackUnderrunEvents := c_callbackUnderrunEvents c + 1,
                           c_callbackUnderrunPoints := c_callbackUnderrunPoints c + of_nat blankCount\<rparr>) t;
          t2 = (if \<not> frameMode
                then maybeIncreaseLatencyOnUnderrun (clk 1) blankCount
                       (rq_minimumPointsRequired req) targetPoints t1
                else t1);
          t3 = logUnderrunIfDue (clk 2) (clk 3) req availableAtStart
                 (db_pointsInBuffer (t_lastObserved t)) blankCount targetPoints False t2;
          out' = appendFallbackPoints co t3 out blankCount;
          t4 = bump (\<lambda>c. c\<lparr>c_blankFillPoints := c_blankFillPoints c + of_nat blankCount\<rparr>) t3
      in (out', t4\<lparr>t_buffering := \<not> frameMode\<rparr>))"

definition fillFromQueue ::
  "'c controller_ops \<Rightarrow> clock \<Rightarrow> fill_request \<Rightarrow> laser_point list \<Rightarrow> 'c target \<Rightarrow>
   laser_point list \<times> 'c target" where
  "fillFromQueue co clk req out t =
     (if rq_maximumPointsRequired req = 0 then (out, t)
      else
        let t1 = bump (\<lambda>c. c\<lparr>c_callbackCalls := c_callbackCalls c + 1\<rparr>) t;
            d = fst (downstreamBufferSnapshot co False t1);
            availableAtStart = length (t_pendingPoints t1);
            targetPoints = targetBufferedPoints t1;
            frameMode = t_frameReplacementMode t1;
            sourceIdle = isAwaitingInputLocked (clk 0) (ms 2000) t1;
            allowShortRead = (rq_allowShortRead req \<and> \<not> sourceIdle)
        in if \<not> frameMode \<and> \<not> allowShortRead \<and> t_buffering t1 \<and>
              availableAtStart + db_pointsInBuffer d < targetPoints
           then fillBufferingHold co clk req out targetPoints t1
           else
             let t2 = t1\<lparr>t_buffering := False\<rparr>;
                 toWrite = min (rq_maximumPointsRequired req) availableAtStart;
                 out' = out @ take toWrite (t_pendingPoints t2);
                 t3 = bump (\<lambda>c. c\<lparr>c_emittedPoints := c_emittedPoints c + of_nat toWrite\<rparr>)
                        (t2\<lparr>t_pendingPoints := drop toWrite (t_pendingPoints t2)\<rparr>);
                 t4 = (if 0 < toWrite
                       then t3\<lparr>t_lastOutputPoint := last out', t_haveLastOutputPoint := True\<rparr>
                       else t3)
             in if length out' < rq_minimumPointsRequired req
                then if allowShortRead
                     then (out', if \<not> frameMode then t4\<lparr>t_buffering := True\<rparr> else t4)
                     else fillUnderrun co clk req out' availableAtStart targetPoints t4
                else (out', t4))"

section \<open>The periodic statistics line\<close>

definition frameRateMilli :: "u64 \<Rightarrow> rat \<Rightarrow> u32" where
  "frameRateMilli delta elapsedSeconds =
     word_of_int (llround (f64 (f64 (f64 (rat_of_word delta) * 1000) / elapsedSeconds)))"

definition statsDeltas :: "stats_snapshot \<Rightarrow> stats_snapshot \<Rightarrow> u64 list" where
  "statsDeltas s l =
     [ss_receivedSlices s - ss_receivedSlices l, ss_receivedFrames s - ss_receivedFrames l,
      (if ss_controllerSubmittedFrames l \<le> ss_controllerSubmittedFrames s
       then ss_controllerSubmittedFrames s - ss_controllerSubmittedFrames l else 0),
      ss_receivedPoints s - ss_receivedPoints l, ss_receivedLitPoints s - ss_receivedLitPoints l,
      ss_callbackCalls s - ss_callbackCalls l,
      ss_callbackUnderrunEvents s - ss_callbackUnderrunEvents l,
      ss_callbackUnderrunPoints s - ss_callbackUnderrunPoints l,
      ss_emittedPoints s - ss_emittedPoints l, ss_blankFillPoints s - ss_blankFillPoints l,
      ss_droppedPoints s - ss_droppedPoints l]"

definition logStatsIfDue :: "'c controller_ops \<Rightarrow> clock \<Rightarrow> 'c target \<Rightarrow> 'c target" where
  "logStatsIfDue co clk t =
     (if \<not> t_hasLogger t then t
      else
        let now = clk 0; previous = t_lastStatsLog t in
        if previous \<noteq> 0 \<and> now - previous < ms 1000 then t
        else
          case getStatsSnapshot co (t\<lparr>t_lastStatsLog := now\<rparr>) of (stats, t1) \<Rightarrow>
            let awaitingInput = isAwaitingInputLocked (clk 1) (ms 2000) t1;
                elapsedSeconds = (if previous = 0 then 1
                  else max (f64 (1 / 1000)) (f64 (f64 (of_int (now - previous)) / 1000000000)));
                deltas = statsDeltas stats (t_lastStats t1);
                inMilli = frameRateMilli (deltas ! 1) elapsedSeconds;
                outMilli = frameRateMilli (deltas ! 2) elapsedSeconds;
                t2 = t1\<lparr>t_observedInputFrameRateMilli := inMilli,
                        t_observedControllerFrameRateMilli := outMilli\<rparr>;
                stats' = stats\<lparr>ss_observedInputFrameRate := f64 (rat_of_word inMilli / 1000),
                               ss_observedControllerFrameRate := f64 (rat_of_word outMilli / 1000)\<rparr>
            in if awaitingInput \<and> deltas ! 0 = 0 \<and> deltas ! 3 = 0 \<and> deltas ! 4 = 0
               then t2\<lparr>t_lastStats := stats'\<rparr>
               else t2\<lparr>t_log := t_log t2 @ [LogStats stats' deltas], t_lastStats := stats'\<rparr>)"

section \<open>Everything that happens to a target\<close>

definition libera_sink :: "'c controller_ops \<Rightarrow> 'c target sink_ops" where
  "libera_sink co = \<lparr>so_submitContinuous = submitContinuous co, so_replaceFrame = replaceFrame co,
     so_submitFrame = submitFrame co, so_setScannerSync = setScannerSync co,
     so_reset = resetTarget co\<rparr>"

text \<open>
  A host calls the sink, the controller's callback asks for points (into an empty vector),
  a host or the monitor thread reads the status, the monitor thread logs.
\<close>

datatype target_event = Call sink_call | Fill fill_request | Status | LogTick

fun target_step :: "'c controller_ops \<Rightarrow> clock \<Rightarrow> target_event \<Rightarrow> 'c target \<Rightarrow> 'c target" where
  "target_step co clk (Call c) t = apply_sink_call (libera_sink co) clk c t"
| "target_step co clk (Fill req) t = snd (fillFromQueue co clk req [] t)"
| "target_step co clk Status t = snd (targetStatusSnapshot co t)"
| "target_step co clk LogTick t = logStatsIfDue co clk t"

inductive target_reachable :: "'c controller_ops \<Rightarrow> 'c target \<Rightarrow> bool" for co where
  created: "target_reachable co (newLiberaTarget co ctl info maxQ lat maxLat auto logger)"
| stepped: "target_reachable co t \<Longrightarrow> target_reachable co (target_step co clk ev t)"

end
