(* ===== verification/Registry.thy ===== *)
theory Registry
  imports Host_Api
begin

text \<open>
  \<open>virtual_controller/VirtualControllerHostRegistry.cpp\<close>: the process-wide registry of
  virtual controller hosts. The singleton and its mutex become an explicit state; a factory
  is a partial function from a configuration to a host of the abstract type \<open>'h\<close>, \<open>None\<close>
  standing for the null pointer, and an empty \<open>std::function\<close> is \<open>None\<close> in its field. The
  locale \<open>host_directory\<close> is what the runtime and the command line rely on.
\<close>

section \<open>Data\<close>

datatype vc_option_type = OptString | OptInteger | OptBoolean | OptDecimal | OptChoice

record vc_option =
  vo_key :: string
  vo_displayName :: string
  vo_description :: string
  vo_type :: vc_option_type
  vo_defaultValue :: string
  vo_choices :: "string list"
  vo_required :: bool

record vc_host_info =
  hi_id :: string
  hi_displayName :: string
  hi_description :: string
  hi_options :: "vc_option list"
  hi_defaultSelection :: bool
  hi_separateInstancePerTarget :: bool

record 'h registration =
  rg_info :: vc_host_info
  rg_factory :: "(host_config \<Rightarrow> 'h option) option"

record 'h registry =
  rs_orderedInfos :: "vc_host_info list"
  rs_registrationsById :: "string \<rightharpoonup> 'h registration"

definition empty_registry :: "'h registry" where
  "empty_registry = \<lparr>rs_orderedInfos = [], rs_registrationsById = Map.empty\<rparr>"

section \<open>Operations\<close>

definition withDisplayName :: "'h registration \<Rightarrow> 'h registration" where
  "withDisplayName registration =
     (if hi_displayName (rg_info registration) = []
      then registration\<lparr>rg_info := (rg_info registration)
             \<lparr>hi_displayName := hi_id (rg_info registration)\<rparr>\<rparr>
      else registration)"

definition add_registration :: "'h registration \<Rightarrow> 'h registry \<Rightarrow> 'h registry" where
  "add_registration reg state = state\<lparr>rs_orderedInfos := rs_orderedInfos state @ [rg_info reg],
     rs_registrationsById := (rs_registrationsById state)(hi_id (rg_info reg) \<mapsto> reg)\<rparr>"

definition registerVirtualControllerHost ::
  "'h registration \<Rightarrow> 'h registry \<Rightarrow> (string + unit) \<times> 'h registry" where
  "registerVirtualControllerHost registration state =
     (if hi_id (rg_info registration) = []
      then (Inl ''Virtual controller host registration requires a non-empty id.'', state)
      else
        let reg = withDisplayName registration in
        if rg_factory reg = None
        then (Inl ''Virtual controller host registration requires a factory.'', state)
        else if rs_registrationsById state (hi_id (rg_info reg)) \<noteq> None
        then (Inl (''Virtual controller host \"'' @ hi_id (rg_info reg) @
                     ''\" is already registered.''), state)
        else (Inr (), add_registration reg state))"

definition availableVirtualControllerHosts :: "'h registry \<Rightarrow> vc_host_info list" where
  "availableVirtualControllerHosts state = rs_orderedInfos state"

definition findVirtualControllerHost :: "string \<Rightarrow> 'h registry \<Rightarrow> vc_host_info option" where
  "findVirtualControllerHost key state =
     (case rs_registrationsById state key of None \<Rightarrow> None | Some reg \<Rightarrow> Some (rg_info reg))"

definition defaultVirtualControllerHost :: "'h registry \<Rightarrow> vc_host_info option" where
  "defaultVirtualControllerHost state =
     (let infos = availableVirtualControllerHosts state in
      case find hi_defaultSelection infos of
        Some info \<Rightarrow> Some info
      | None \<Rightarrow> (if infos \<noteq> [] then Some (hd infos) else None))"

definition createVirtualControllerHost ::
  "string \<Rightarrow> host_config \<Rightarrow> 'h registry \<Rightarrow> string + 'h" where
  "createVirtualControllerHost key config state =
     (case rs_registrationsById state key of
        None \<Rightarrow> Inl (''Unknown virtual controller host \"'' @ key @ ''\".'')
      | Some reg \<Rightarrow>
          (case rg_factory reg of
             None \<Rightarrow> Inl ''std::bad_function_call''
           | Some factory \<Rightarrow>
               (case factory config of
                  None \<Rightarrow> Inl (''Virtual controller host factory for \"'' @ key @ ''\" returned null.'')
                | Some host \<Rightarrow> Inr host)))"

text \<open>The registrars of the translation units run one after another at start-up.\<close>

definition registerAll :: "'h registration list \<Rightarrow> 'h registry" where
  "registerAll regs = foldl (\<lambda>s r. snd (registerVirtualControllerHost r s)) empty_registry regs"

section \<open>The contract of the registry\<close>

text \<open>The hosts a link may use: those of \<open>ops\<close>, created idle by the registry.\<close>

locale linked_hosts = virtual_host ops for ops :: "('h, 'w) host_ops" +
  fixes reg :: "'h registry"
  assumes creates_idle: "createVirtualControllerHost hostId config reg = Inr h \<Longrightarrow> idle_host ops h"

locale host_directory =
  fixes inv :: "'s \<Rightarrow> bool"
    and available :: "'s \<Rightarrow> vc_host_info list"
    and find_host :: "string \<Rightarrow> 's \<Rightarrow> vc_host_info option"
    and default_host :: "'s \<Rightarrow> vc_host_info option"
  assumes ids_distinct: "inv s \<Longrightarrow> distinct (map hi_id (available s))"
    and find_available: "inv s \<Longrightarrow>
      find_host key s = Some info \<longleftrightarrow> info \<in> set (available s) \<and> hi_id info = key"
    and default_available: "inv s \<Longrightarrow> default_host s = Some info \<Longrightarrow> info \<in> set (available s)"
    and default_exists: "inv s \<Longrightarrow> available s \<noteq> [] \<Longrightarrow> default_host s \<noteq> None"
begin

lemma find_id: "inv s \<Longrightarrow> find_host key s = Some info \<Longrightarrow> hi_id info = key"
  by (simp add: find_available)

lemma find_default: "inv s \<Longrightarrow> default_host s = Some info \<Longrightarrow> find_host (hi_id info) s = Some info"
  by (simp add: find_available default_available)

lemma default_some: "inv s \<Longrightarrow> find_host key s \<noteq> None \<Longrightarrow> default_host s \<noteq> None"
  using default_exists [of s] find_available [of s] by (cases "available s = []") auto

end

section \<open>The registry keeps it\<close>

definition registry_inv :: "'h registry \<Rightarrow> bool" where
  "registry_inv s \<longleftrightarrow> distinct (map hi_id (rs_orderedInfos s)) \<and>
     (\<forall>key reg. rs_registrationsById s key = Some reg \<longrightarrow>
        rg_info reg \<in> set (rs_orderedInfos s) \<and> hi_id (rg_info reg) = key \<and> rg_factory reg \<noteq> None) \<and>
     (\<forall>info \<in> set (rs_orderedInfos s). hi_id info \<noteq> [] \<and> hi_displayName info \<noteq> [] \<and>
        (\<exists>reg. rs_registrationsById s (hi_id info) = Some reg \<and> rg_info reg = info))"

lemma registry_inv_empty: "registry_inv empty_registry"
  by (simp add: registry_inv_def empty_registry_def)

lemma registry_inv_info:
  "registry_inv s \<Longrightarrow> info \<in> set (rs_orderedInfos s) \<Longrightarrow>
     \<exists>r. rs_registrationsById s (hi_id info) = Some r \<and> rg_info r = info"
  unfolding registry_inv_def by blast

lemma registry_inv_absent:
  assumes "registry_inv s" "rs_registrationsById s key = None" "info \<in> set (rs_orderedInfos s)"
  shows "hi_id info \<noteq> key"
  using registry_inv_info [OF assms(1,3)] assms(2) by auto

lemma registry_inv_add:
  assumes inv: "registry_inv s" and ne: "hi_id (rg_info reg) \<noteq> []" "hi_displayName (rg_info reg) \<noteq> []"
    and fac: "rg_factory reg \<noteq> None" and new: "rs_registrationsById s (hi_id (rg_info reg)) = None"
  shows "registry_inv (add_registration reg s)"
proof -
  have fresh: "hi_id info \<noteq> hi_id (rg_info reg)" if "info \<in> set (rs_orderedInfos s)" for info
    by (rule registry_inv_absent [OF inv new that])
  then have "hi_id (rg_info reg) \<notin> hi_id ` set (rs_orderedInfos s)" by force
  then have "distinct (map hi_id (rs_orderedInfos (add_registration reg s)))"
    using inv by (simp add: registry_inv_def add_registration_def)
  moreover have "rg_info r \<in> set (rs_orderedInfos (add_registration reg s)) \<and>
      hi_id (rg_info r) = key \<and> rg_factory r \<noteq> None"
    if "rs_registrationsById (add_registration reg s) key = Some r" for key r
    using that inv fac by (auto simp: registry_inv_def add_registration_def split: if_splits)
  moreover have "hi_id info \<noteq> [] \<and> hi_displayName info \<noteq> [] \<and>
      (\<exists>r. rs_registrationsById (add_registration reg s) (hi_id info) = Some r \<and> rg_info r = info)"
    if "info \<in> set (rs_orderedInfos (add_registration reg s))" for info
  proof (cases "info = rg_info reg")
    case True
    then show ?thesis using ne by (simp add: add_registration_def)
  next
    case False
    with that have old: "info \<in> set (rs_orderedInfos s)" by (simp add: add_registration_def)
    then have "hi_id info \<noteq> hi_id (rg_info reg)" by (rule fresh)
    then show ?thesis using old inv by (simp add: registry_inv_def add_registration_def)
  qed
  ultimately show ?thesis unfolding registry_inv_def by blast
qed

lemma withDisplayName_simps [simp]:
  "hi_id (rg_info (withDisplayName r)) = hi_id (rg_info r)"
  "rg_factory (withDisplayName r) = rg_factory r"
  "hi_id (rg_info r) \<noteq> [] \<Longrightarrow> hi_displayName (rg_info (withDisplayName r)) \<noteq> []"
  by (simp_all add: withDisplayName_def)

lemma registry_inv_register:
  assumes "registry_inv s"
  shows "registry_inv (snd (registerVirtualControllerHost reg s))"
  using assms registry_inv_add [OF assms, of "withDisplayName reg"]
  unfolding registerVirtualControllerHost_def Let_def by (simp split: if_split)

lemma registry_inv_all: "registry_inv (registerAll regs)"
proof -
  have "registry_inv s \<Longrightarrow> registry_inv (foldl (\<lambda>s r. snd (registerVirtualControllerHost r s)) s regs)" for s
    by (induction regs arbitrary: s) (simp_all add: registry_inv_register)
  then show ?thesis by (simp add: registerAll_def registry_inv_empty)
qed

lemma registry_find:
  assumes "registry_inv s"
  shows "findVirtualControllerHost key s = Some info \<longleftrightarrow>
    info \<in> set (availableVirtualControllerHosts s) \<and> hi_id info = key"
proof (cases "rs_registrationsById s key")
  case None
  then show ?thesis using registry_inv_absent [OF assms None]
    by (auto simp: findVirtualControllerHost_def availableVirtualControllerHosts_def)
next
  case (Some r)
  with assms have r: "rg_info r \<in> set (rs_orderedInfos s)" "hi_id (rg_info r) = key"
    by (simp_all add: registry_inv_def)
  have "rg_info r = info" if i: "info \<in> set (rs_orderedInfos s)" "hi_id info = key"
    using registry_inv_info [OF assms i(1)] i(2) Some by auto
  with Some r show ?thesis
    by (auto simp: findVirtualControllerHost_def availableVirtualControllerHosts_def)
qed

interpretation reg: host_directory registry_inv availableVirtualControllerHosts
  findVirtualControllerHost defaultVirtualControllerHost
proof (unfold_locales, goal_cases)
  case (1 s)
  then show ?case by (simp add: registry_inv_def availableVirtualControllerHosts_def)
next
  case (2 s key info)
  then show ?case by (rule registry_find)
next
  case (3 s info)
  then show ?case
    by (auto simp: defaultVirtualControllerHost_def availableVirtualControllerHosts_def Let_def
        split: option.splits if_splits dest: find_Some_set)
next
  case (4 s)
  then show ?case
    by (simp add: defaultVirtualControllerHost_def availableVirtualControllerHosts_def Let_def
        split: option.splits)
qed

section \<open>Properties\<close>

text \<open>After any sequence of registrations the identifiers offered are distinct, looking a
  host up finds exactly the offered host with that identifier, and whenever a host is offered
  there is a default one, which can itself be looked up.\<close>

theorem registry_consistent:
  "distinct (map hi_id (availableVirtualControllerHosts (registerAll regs))) \<and>
   (findVirtualControllerHost key (registerAll regs) = Some info \<longleftrightarrow>
      info \<in> set (availableVirtualControllerHosts (registerAll regs)) \<and> hi_id info = key) \<and>
   (case defaultVirtualControllerHost (registerAll regs) of
      None \<Rightarrow> availableVirtualControllerHosts (registerAll regs) = []
    | Some d \<Rightarrow> findVirtualControllerHost (hi_id d) (registerAll regs) = Some d)"
proof (intro conjI)
  show "case defaultVirtualControllerHost (registerAll regs) of
      None \<Rightarrow> availableVirtualControllerHosts (registerAll regs) = []
    | Some d \<Rightarrow> findVirtualControllerHost (hi_id d) (registerAll regs) = Some d"
    using reg.find_default [OF registry_inv_all [of regs]] reg.default_exists [OF registry_inv_all [of regs]]
    by (cases "defaultVirtualControllerHost (registerAll regs)") auto
qed (rule reg.ids_distinct [OF registry_inv_all], rule reg.find_available [OF registry_inv_all])

text \<open>Registering a host with a factory and a fresh, non-empty identifier succeeds, makes
  it the last offered host and the one found under its identifier, and changes no other
  lookup; a second registration of an identifier is refused and changes nothing.\<close>

theorem register_then_find:
  assumes "hi_id (rg_info r) \<noteq> []" "rg_factory r \<noteq> None"
  shows "case registerVirtualControllerHost r s of (result, s') \<Rightarrow>
    (if findVirtualControllerHost (hi_id (rg_info r)) s = None
     then result = Inr () \<and>
       (\<exists>info. findVirtualControllerHost (hi_id (rg_info r)) s' = Some info \<and>
          hi_id info = hi_id (rg_info r) \<and> hi_displayName info \<noteq> [] \<and>
          availableVirtualControllerHosts s' = availableVirtualControllerHosts s @ [info]) \<and>
       (\<forall>key. key \<noteq> hi_id (rg_info r) \<longrightarrow>
          findVirtualControllerHost key s' = findVirtualControllerHost key s) \<and>
       fst (registerVirtualControllerHost r s') \<noteq> Inr ()
     else result \<noteq> Inr () \<and> s' = s)"
  using assms withDisplayName_simps(3) [of r]
  by (simp add: registerVirtualControllerHost_def findVirtualControllerHost_def add_registration_def
      availableVirtualControllerHosts_def Let_def split: option.splits)

definition sample_registration :: "unit registration" where
  "sample_registration = \<lparr>rg_info = \<lparr>hi_id = ''idn'', hi_displayName = [], hi_description = [],
     hi_options = [], hi_defaultSelection = True, hi_separateInstancePerTarget = False\<rparr>,
     rg_factory = Some (\<lambda>_. Some ())\<rparr>"

theorem register_then_find_witness:
  "fst (registerVirtualControllerHost sample_registration empty_registry) = Inr ()"
  using register_then_find [of sample_registration empty_registry]
  by (simp add: sample_registration_def findVirtualControllerHost_def empty_registry_def
      split: prod.splits)

text \<open>What the registry holds was registered, so it creates what the factories create.\<close>

lemma register_registrations:
  "rs_registrationsById (snd (registerVirtualControllerHost r s)) key = Some reg \<Longrightarrow>
     rs_registrationsById s key = Some reg \<or> rg_factory reg = rg_factory r"
  by (auto simp: registerVirtualControllerHost_def add_registration_def withDisplayName_def Let_def
      split: if_splits)

lemma registerAll_factory:
  "rs_registrationsById (registerAll regs) key = Some reg \<Longrightarrow> \<exists>r \<in> set regs. rg_factory reg = rg_factory r"
proof (induction regs rule: rev_induct)
  case Nil
  then show ?case by (simp add: registerAll_def empty_registry_def)
next
  case (snoc r regs)
  then show ?case using register_registrations [of r "registerAll regs" key reg]
    by (auto simp: registerAll_def)
qed

lemma registered_factory:
  assumes "createVirtualControllerHost hostId config (registerAll regs) = Inr h"
  shows "\<exists>r \<in> set regs. \<exists>f. rg_factory r = Some f \<and> f config = Some h"
proof -
  from assms obtain reg f where "rs_registrationsById (registerAll regs) hostId = Some reg"
    "rg_factory reg = Some f" "f config = Some h"
    by (auto simp: createVirtualControllerHost_def split: option.splits)
  with registerAll_factory [of regs hostId reg] show ?thesis by metis
qed

end
