(* ===== verification/Cli.thy ===== *)
theory Cli
  imports Registry
begin

text \<open>
  The command line of \<open>LinkRuntime.cpp\<close>: \<open>LinkOptions\<close>, \<open>parseOptions\<close> and the bounds of
  what it accepts. The text printed on the standard streams is in \<open>Cli_Text\<close>; as in the code,
  the options parsed so far are kept when parsing ends in an error.
\<close>

section \<open>Options\<close>

record vc_route =
  vr_controllerId :: string
  vr_hostId :: string
  vr_hostInstanceKey :: string
  vr_options :: options_map

record link_options =
  lo_discoveryTimeoutMs :: u32
  lo_maxDacs :: nat
  lo_sliceDurationUs :: u32
  lo_maxQueuedPoints :: nat
  lo_latencyMs :: u32
  lo_maxLatencyMs :: u32
  lo_autoLatency :: bool
  lo_virtualControllerHostId :: string
  lo_virtualControllerHostOptions :: options_map
  lo_virtualControllerRoutes :: "vc_route list"
  lo_disabledControllerTypes :: "string set"
  lo_selectedControllerDrivers :: options_map

definition default_options :: link_options where
  "default_options = \<lparr>lo_discoveryTimeoutMs = 5000, lo_maxDacs = 0, lo_sliceDurationUs = 15000,
     lo_maxQueuedPoints = 300000, lo_latencyMs = 50, lo_maxLatencyMs = 1500,
     lo_autoLatency = True, lo_virtualControllerHostId = [],
     lo_virtualControllerHostOptions = fmempty, lo_virtualControllerRoutes = [],
     lo_disabledControllerTypes = {''IDN''}, lo_selectedControllerDrivers = fmempty\<rparr>"

datatype parse_result = Ok | Help | Error

section \<open>Parsing\<close>

text \<open>The options that take a number.\<close>

definition setNumericOption :: "string \<Rightarrow> u64 \<Rightarrow> link_options \<Rightarrow> link_options option" where
  "setNumericOption arg raw options =
     (if arg = ''--discovery-timeout-ms''
      then Some (options\<lparr>lo_discoveryTimeoutMs := ucast (min raw 4294967295)\<rparr>)
      else if arg = ''--max-dacs'' then Some (options\<lparr>lo_maxDacs := unat raw\<rparr>)
      else if arg = ''--slice-us''
      then Some (options\<lparr>lo_sliceDurationUs := ucast (max raw 1000)\<rparr>)
      else if arg = ''--max-queue-points''
      then Some (options\<lparr>lo_maxQueuedPoints := unat (max raw 1000)\<rparr>)
      else if arg = ''--latency-ms''
      then Some (options\<lparr>lo_latencyMs := ucast (std_clamp raw 0 10000)\<rparr>)
      else if arg = ''--max-latency-ms''
      then Some (options\<lparr>lo_maxLatencyMs := ucast (std_clamp raw 0 30000)\<rparr>)
      else None)"

text \<open>An option with its value, for the options other than \<open>--help\<close> and \<open>--no-auto-latency\<close>.\<close>

definition setValueOption :: "string \<Rightarrow> string \<Rightarrow> link_options \<Rightarrow> link_options option" where
  "setValueOption arg val options =
     (if arg = ''--virtual-controller''
      then Some (options\<lparr>lo_virtualControllerHostId := val\<rparr>)
      else if arg = ''--disable-controller-type''
      then Some (options\<lparr>lo_disabledControllerTypes := insert val (lo_disabledControllerTypes options)\<rparr>)
      else if arg = ''--enable-controller-type''
      then Some (options\<lparr>lo_disabledControllerTypes := lo_disabledControllerTypes options - {val}\<rparr>)
      else if arg = ''--virtual-controller-opt''
      then (case parseKeyValue val of
              None \<Rightarrow> None
            | Some (k, v) \<Rightarrow> Some (options\<lparr>lo_virtualControllerHostOptions :=
                fmupd k v (lo_virtualControllerHostOptions options)\<rparr>))
      else (case parseUnsigned val of
              None \<Rightarrow> None
            | Some raw \<Rightarrow> setNumericOption arg raw options))"

definition finishOptions :: "'h registry \<Rightarrow> link_options \<Rightarrow> parse_result \<times> link_options" where
  "finishOptions registry options =
     (let options' = (if lo_maxLatencyMs options < lo_latencyMs options
                      then options\<lparr>lo_maxLatencyMs := lo_latencyMs options\<rparr> else options)
      in if lo_virtualControllerHostId options' \<noteq> [] \<and>
            findVirtualControllerHost (lo_virtualControllerHostId options') registry = None
         then (Error, options') else (Ok, options'))"

text \<open>\<open>parseOptions\<close> on the arguments after the program's name.\<close>

fun parseOptions :: "'h registry \<Rightarrow> string list \<Rightarrow> link_options \<Rightarrow> parse_result \<times> link_options" where
  "parseOptions registry [] options = finishOptions registry options"
| "parseOptions registry (arg # rest) options =
     (if arg = ''--help'' then (Help, options)
      else if arg = ''--no-auto-latency''
      then parseOptions registry rest (options\<lparr>lo_autoLatency := False\<rparr>)
      else case rest of
        [] \<Rightarrow> (Error, options)
      | val # rest' \<Rightarrow>
          (case setValueOption arg val options of
             None \<Rightarrow> (Error, options)
           | Some options' \<Rightarrow> parseOptions registry rest' options'))"

section \<open>What is accepted\<close>

definition options_ok :: "link_options \<Rightarrow> bool" where
  "options_ok o' \<longleftrightarrow> 1000 \<le> lo_maxQueuedPoints o' \<and> lo_latencyMs o' \<le> 10000 \<and>
     lo_maxLatencyMs o' \<le> 30000"

lemma options_ok_default: "options_ok default_options"
  by (simp add: options_ok_def default_options_def)

lemma options_ok_updates [simp]:
  "options_ok (p\<lparr>lo_virtualControllerHostId := x\<rparr>) = options_ok p"
  "options_ok (p\<lparr>lo_disabledControllerTypes := d\<rparr>) = options_ok p"
  "options_ok (p\<lparr>lo_virtualControllerHostOptions := m\<rparr>) = options_ok p"
  "options_ok (p\<lparr>lo_autoLatency := b\<rparr>) = options_ok p"
  by (simp_all add: options_ok_def)

lemma ucast_clamp_le:
  assumes "b \<le> 30000"
  shows "(ucast (std_clamp (raw :: u64) 0 b) :: u32) \<le> ucast b"
proof -
  have u: "unat (ucast w :: u32) = unat w" if "w \<le> b" for w :: u64
  proof -
    from that assms have "w \<le> 30000" by simp
    then show ?thesis by (simp add: unat_ucast_u32 word_le_nat_alt)
  qed
  have "std_clamp raw 0 b \<le> b" by simp
  then show ?thesis using u [of "std_clamp raw 0 b"] u [of b] by (simp add: word_le_nat_alt)
qed

lemma options_ok_numeric:
  assumes "options_ok p" "setNumericOption arg raw p = Some q"
  shows "options_ok q"
proof -
  have "1000 \<le> unat (max raw 1000)"
    using max.cobounded2 [of 1000 raw] unfolding word_le_nat_alt by simp
  moreover have "(ucast (std_clamp raw 0 10000) :: u32) \<le> 10000"
    using ucast_clamp_le [of 10000 raw] by simp
  moreover have "(ucast (std_clamp raw 0 30000) :: u32) \<le> 30000"
    using ucast_clamp_le [of 30000 raw] by simp
  ultimately show ?thesis
    using assms by (auto simp: setNumericOption_def options_ok_def split: if_splits)
qed

lemma options_ok_value:
  "options_ok p \<Longrightarrow> setValueOption arg val p = Some q \<Longrightarrow> options_ok q"
  by (auto simp: setValueOption_def split: if_splits option.splits prod.splits
      intro: options_ok_numeric)

lemma options_ok_parse:
  assumes "options_ok p" "parseOptions registry args p = (Ok, q)"
  shows "options_ok q \<and> lo_latencyMs q \<le> lo_maxLatencyMs q \<and>
    (lo_virtualControllerHostId q = [] \<or>
     findVirtualControllerHost (lo_virtualControllerHostId q) registry \<noteq> None)"
  using assms
proof (induction registry args p rule: parseOptions.induct)
  case (1 registry options)
  then show ?case
    by (auto simp: finishOptions_def Let_def options_ok_def word_le_nat_alt word_less_nat_alt split: if_splits)
next
  case (2 registry arg rest options)
  then show ?case
    by (auto split: if_splits list.splits option.splits intro: options_ok_value)
qed

section \<open>Properties\<close>

text \<open>When the command line is accepted, the queue bound is at least 1000 points, the
  latency at most 10 s, its cap at most 30 s and not below it, and the virtual controller
  host, if one is named, is registered.\<close>

theorem parse_options_bounds:
  assumes "parseOptions registry args default_options = (Ok, q)"
  shows "1000 \<le> lo_maxQueuedPoints q \<and> lo_latencyMs q \<le> 10000 \<and>
    lo_maxLatencyMs q \<le> 30000 \<and> lo_latencyMs q \<le> lo_maxLatencyMs q \<and>
    (lo_virtualControllerHostId q = [] \<or>
     findVirtualControllerHost (lo_virtualControllerHostId q) registry \<noteq> None)"
  using options_ok_parse [OF options_ok_default assms] by (simp add: options_ok_def)

theorem parse_options_bounds_witness:
  "lo_latencyMs (default_options\<lparr>lo_autoLatency := False\<rparr>) \<le> 10000"
proof -
  have "parseOptions (empty_registry :: unit registry) [''--no-auto-latency''] default_options =
      (Ok, default_options\<lparr>lo_autoLatency := False\<rparr>)"
    by (simp add: finishOptions_def default_options_def)
  from parse_options_bounds [OF this] show ?thesis by simp
qed

text \<open>The arguments that set the numeric options to given values.\<close>

definition numericArgs :: "link_options \<Rightarrow> string list" where
  "numericArgs w =
     [''--discovery-timeout-ms'', to_string (unat (lo_discoveryTimeoutMs w)),
      ''--max-dacs'', to_string (lo_maxDacs w),
      ''--slice-us'', to_string (unat (lo_sliceDurationUs w)),
      ''--max-queue-points'', to_string (lo_maxQueuedPoints w),
      ''--latency-ms'', to_string (unat (lo_latencyMs w)),
      ''--max-latency-ms'', to_string (unat (lo_maxLatencyMs w))]"

lemma setValue_numeric:
  assumes "arg \<notin> {''--virtual-controller'', ''--disable-controller-type'',
      ''--enable-controller-type'', ''--virtual-controller-opt''}" "n < 2 ^ 64"
  shows "setValueOption arg (to_string n) p = setNumericOption arg (of_nat n) p"
  using assms parseUnsigned_to_string [of n] by (simp add: setValueOption_def)

text \<open>Printing numeric options and parsing them back is the identity: the arguments written
  for a configuration within the accepted ranges are accepted and give that configuration.\<close>

theorem parse_numeric_roundtrip:
  assumes "1000 \<le> lo_sliceDurationUs w" "1000 \<le> lo_maxQueuedPoints w"
    "lo_maxQueuedPoints w < 2 ^ 64" "lo_maxDacs w < 2 ^ 64" "lo_latencyMs w \<le> 10000"
    "lo_maxLatencyMs w \<le> 30000" "lo_latencyMs w \<le> lo_maxLatencyMs w"
  shows "parseOptions registry (numericArgs w) default_options =
    (Ok, default_options\<lparr>lo_discoveryTimeoutMs := lo_discoveryTimeoutMs w, lo_maxDacs := lo_maxDacs w,
       lo_sliceDurationUs := lo_sliceDurationUs w, lo_maxQueuedPoints := lo_maxQueuedPoints w,
       lo_latencyMs := lo_latencyMs w, lo_maxLatencyMs := lo_maxLatencyMs w\<rparr>)"
proof -
  have b: "unat x < 18446744073709551616" for x :: u32 using unat_u32_le [of x] by simp
  have m1: "min (ucast x :: u64) 4294967295 = ucast x" for x :: u32
    using unat_u32_le [of x] by (simp add: min_def word_le_nat_alt)
  have m2: "max (of_nat n :: u64) 1000 = of_nat n" if "1000 \<le> n" "n < 2 ^ 64" for n
    using that by (simp add: max_def word_le_nat_alt unat_of_nat_u64)
  have m3: "std_clamp (ucast x :: u64) 0 k = ucast x" if "unat x \<le> unat k" for x :: u32 and k
    using that by (simp add: word_le_nat_alt)
  have m4: "max (ucast x :: u64) 1000 = ucast x" if "1000 \<le> unat x" for x :: u32
    using that by (intro max.absorb1) (simp add: word_le_nat_alt)
  show ?thesis
    using assms
    by (simp add: numericArgs_def setValue_numeric setNumericOption_def b m1 m2 m3 m4
        word_le_nat_alt word_less_nat_alt unat_of_nat_u64 finishOptions_def default_options_def Let_def)
qed

theorem parse_numeric_roundtrip_witness:
  "parseOptions (empty_registry :: unit registry) (numericArgs default_options) default_options =
    (Ok, default_options)"
  using parse_numeric_roundtrip [of default_options empty_registry]
  by (simp add: default_options_def)

text \<open>The slice duration is narrowed to 32 bits after its lower bound of 1000 was applied,
  so the option keeps only the value modulo \<open>2 ^ 32\<close>, which may lie below that bound.\<close>

theorem slice_us_wraps:
  assumes "1000 \<le> n" "n < 2 ^ 64"
  shows "\<exists>q. parseOptions registry [''--slice-us'', to_string n] default_options = (Ok, q) \<and>
    unat (lo_sliceDurationUs q) = n mod 2 ^ 32"
proof -
  have "max (of_nat n :: u64) 1000 = of_nat n"
    using assms by (simp add: max_def word_le_nat_alt unat_of_nat_u64)
  moreover have "unat (ucast (of_nat n :: u64) :: u32) = n mod 2 ^ 32"
    using assms by (simp add: unsigned_ucast_eq unsigned_take_bit_eq unat_of_nat_u64 take_bit_eq_mod)
  ultimately show ?thesis
    using assms by (simp add: setValue_numeric setNumericOption_def finishOptions_def
        default_options_def Let_def)
qed

theorem slice_us_wraps_witness:
  "\<exists>q. parseOptions (empty_registry :: unit registry) [''--slice-us'', to_string 4294967296]
      default_options = (Ok, q) \<and> unat (lo_sliceDurationUs q) = 0"
  using slice_us_wraps [of 4294967296 empty_registry] by simp

end
