(* ===== verification/Discovery.thy ===== *)
theory Discovery
  imports Libera_Target Cli
begin

text \<open>
  Controller discovery in \<open>LinkRuntime.cpp\<close>: the polling loop that waits for the list of
  controllers to settle, which controllers may be linked, their snapshots, and the target
  built for one. \<open>libera::core::ControllerInfo\<close> and its two subclasses the code casts to are a
  record of what the code reads from them: a failed \<open>dynamic_cast\<close> is \<open>None\<close>.
\<close>

section \<open>Controllers\<close>

datatype usage_state = Idle | Active | BusyExclusive | Unknown

record controller_info =
  ci_label :: string
  ci_id :: string
  ci_type :: string
  ci_driverId :: string
  ci_maxPointRate :: u32
  ci_usage :: usage_state
  ci_heliosUsb :: "bool option"
  ci_etherDreamHardware :: "string option"

record discovered_snapshot =
  dc_label :: string
  dc_id :: string
  dc_type :: string
  dc_driverId :: string
  dc_maxPointRate :: u32
  dc_usage :: string
  dc_linkable :: bool
  dc_note :: string

definition describeController :: "controller_info \<Rightarrow> string" where
  "describeController info =
     ci_label info @ '' ['' @ ci_type info @ '':'' @ ci_id info @ '']''"

text \<open>\<open>None\<close>: the controller may be linked; otherwise the reason why not.\<close>

definition unlinkableReason :: "controller_info \<Rightarrow> string option" where
  "unlinkableReason info =
     (if ci_type info = ''Helios'' \<and> ci_heliosUsb info = Some False
      then Some ''already an IDN network Helios controller''
      else if ci_type info = ''EtherDream'' \<and>
        (case ci_etherDreamHardware info of None \<Rightarrow> False | Some hw \<Rightarrow> take 4 hw = ''hw0-'')
      then Some ''virtual Ether Dream endpoint''
      else None)"

definition shouldLinkController :: "controller_info \<Rightarrow> bool \<times> string" where
  "shouldLinkController info =
     (case unlinkableReason info of Some reason \<Rightarrow> (False, reason) | None \<Rightarrow> (True, []))"

definition isControllerSelected :: "string set \<Rightarrow> controller_info \<Rightarrow> bool" where
  "isControllerSelected selectedControllerIds info \<longleftrightarrow>
     selectedControllerIds = {} \<or> ci_id info \<in> selectedControllerIds"

fun usageStateLabel :: "usage_state \<Rightarrow> string" where
  "usageStateLabel Idle = ''Idle''"
| "usageStateLabel Active = ''Active''"
| "usageStateLabel BusyExclusive = ''Busy''"
| "usageStateLabel Unknown = ''Unknown''"

definition makeDiscoveredControllerSnapshot :: "controller_info \<Rightarrow> discovered_snapshot" where
  "makeDiscoveredControllerSnapshot info =
     \<lparr>dc_label = ci_label info, dc_id = ci_id info, dc_type = ci_type info,
      dc_driverId = ci_driverId info, dc_maxPointRate = ci_maxPointRate info,
      dc_usage = usageStateLabel (ci_usage info), dc_linkable = fst (shouldLinkController info),
      dc_note = snd (shouldLinkController info)\<rparr>"

text \<open>A null entry of the discovered list is \<open>None\<close>.\<close>

definition buildDiscoveredControllerSnapshots ::
  "controller_info option list \<Rightarrow> discovered_snapshot list" where
  "buildDiscoveredControllerSnapshots discovered =
     map makeDiscoveredControllerSnapshot (List.map_filter (\<lambda>x. x) discovered)"

definition makeLiberaTarget ::
  "'c controller_ops \<Rightarrow> 'c \<Rightarrow> controller_info \<Rightarrow> link_options \<Rightarrow> 'c target" where
  "makeLiberaTarget co controller info options =
     newLiberaTarget co controller
       \<lparr>ti_id = ci_id info, ti_label = ci_label info, ti_type = ci_type info,
        ti_maxPointRate = ci_maxPointRate info\<rparr>
       (lo_maxQueuedPoints options) (lo_latencyMs options) (lo_maxLatencyMs options)
       (lo_autoLatency options) True"

section \<open>The discovery loop\<close>

text \<open>
  What one pass of the loop sees: the stop flag, the controllers reported, and the clock at
  its three readings. The entries are dereferenced by the loop, so none of them is null.
\<close>

record discovery_poll =
  dp_stop :: bool
  dp_current :: "controller_info list"
  dp_changedAt :: nanos
  dp_settledAt :: nanos
  dp_elapsedAt :: nanos

record discovery_state =
  ds_discovered :: "controller_info list"
  ds_keys :: "string list"
  ds_lastChangeAt :: "nanos option"

definition controllerKey :: "controller_info \<Rightarrow> string" where
  "controllerKey info = ci_type info @ [char_of (10 :: nat)] @ ci_id info"

definition noteDiscovered :: "discovery_poll \<Rightarrow> discovery_state \<Rightarrow> discovery_state" where
  "noteDiscovered p st =
     (if dp_current p = [] then st
      else
        let currentKeys = sort (map controllerKey (dp_current p));
            st1 = (if currentKeys \<noteq> ds_keys st
                   then st\<lparr>ds_keys := currentKeys, ds_lastChangeAt := Some (dp_changedAt p)\<rparr> else st)
        in st1\<lparr>ds_discovered := dp_current p\<rparr>)"

definition discoverySettleWindow :: nanos where
  "discoverySettleWindow = ms 1500"

definition discoverySettled :: "discovery_poll \<Rightarrow> discovery_state \<Rightarrow> bool" where
  "discoverySettled p st \<longleftrightarrow> ds_discovered st \<noteq> [] \<and>
     (case ds_lastChangeAt st of None \<Rightarrow> False
      | Some changed \<Rightarrow> discoverySettleWindow \<le> dp_settledAt p - changed)"

definition discoveryTimedOut :: "u32 \<Rightarrow> nanos \<Rightarrow> discovery_poll \<Rightarrow> bool" where
  "discoveryTimedOut timeoutMs started p \<longleftrightarrow>
     0 < timeoutMs \<and> uint timeoutMs \<le> (dp_elapsedAt p - started) div 1000000"

text \<open>\<open>None\<close>: the loop is still polling after the given passes.\<close>

fun discoverLoop ::
  "u32 \<Rightarrow> nanos \<Rightarrow> discovery_poll list \<Rightarrow> discovery_state \<Rightarrow> controller_info list option" where
  "discoverLoop timeoutMs started [] st = None"
| "discoverLoop timeoutMs started (p # ps) st =
     (if dp_stop p then Some (ds_discovered st)
      else
        let st' = noteDiscovered p st in
        if discoverySettled p st' then Some (ds_discovered st')
        else if discoveryTimedOut timeoutMs started p then Some (ds_discovered st')
        else discoverLoop timeoutMs started ps st')"

definition discoverControllers ::
  "u32 \<Rightarrow> nanos \<Rightarrow> discovery_poll list \<Rightarrow> controller_info list option" where
  "discoverControllers timeoutMs started polls =
     discoverLoop timeoutMs started polls
       \<lparr>ds_discovered = [], ds_keys = [], ds_lastChangeAt = None\<rparr>"

section \<open>Properties\<close>

definition seen :: "discovery_poll list \<Rightarrow> controller_info list list" where
  "seen ps = filter (\<lambda>c. c \<noteq> []) (map dp_current ps)"

lemma noteDiscovered_result:
  "ds_discovered (noteDiscovered p st) = (if dp_current p = [] then ds_discovered st else dp_current p)"
  by (simp add: noteDiscovered_def Let_def)

lemma discoverLoop_result:
  assumes "discoverLoop timeoutMs started ps st = Some r"
  shows "\<exists>n \<le> length ps. r = last (ds_discovered st # seen (take n ps))"
  using assms
proof (induction timeoutMs started ps st rule: discoverLoop.induct)
  case (1 timeoutMs started st)
  then show ?case by simp
next
  case (2 timeoutMs started p ps st)
  let ?st = "noteDiscovered p st"
  have one: "last (ds_discovered st # seen [p]) = ds_discovered ?st"
    by (simp add: seen_def noteDiscovered_result)
  show ?case
  proof (cases "dp_stop p")
    case True
    with 2(2) show ?thesis by (intro exI [of _ 0]) (simp add: seen_def)
  next
    case False
    note nostop = False
    show ?thesis
    proof (cases "discoverySettled p ?st \<or> discoveryTimedOut timeoutMs started p")
      case True
      with nostop 2(2) one show ?thesis
        by (intro exI [of _ 1]) (auto simp: Let_def split: if_splits)
    next
      case False
      with nostop 2(2) have "discoverLoop timeoutMs started ps ?st = Some r"
        by (simp add: Let_def)
      with 2(1) [OF nostop refl] False obtain n where n: "n \<le> length ps"
        "r = last (ds_discovered ?st # seen (take n ps))" by auto
      then have "r = last (ds_discovered st # seen (take (Suc n) (p # ps)))"
        using one by (auto simp: seen_def noteDiscovered_result)
      with n(1) show ?thesis by (intro exI [of _ "Suc n"]) simp
    qed
  qed
qed

text \<open>Discovery returns what the library reported last: the result is the last non-empty
  list of controllers seen in the passes made, and empty only if none was seen.\<close>

theorem discovery_result:
  assumes "discoverControllers timeoutMs started polls = Some r"
  shows "\<exists>n \<le> length polls. let lists = filter (\<lambda>c. c \<noteq> []) (map dp_current (take n polls))
    in r = (if lists = [] then [] else last lists)"
  using discoverLoop_result [OF assms [unfolded discoverControllers_def]]
  by (auto simp: seen_def Let_def)

definition sample_controller :: controller_info where
  "sample_controller = \<lparr>ci_label = ''Laser'', ci_id = ''1'', ci_type = ''Helios'', ci_driverId = [],
     ci_maxPointRate = 30000, ci_usage = Idle, ci_heliosUsb = Some True, ci_etherDreamHardware = None\<rparr>"

definition sample_polls :: "discovery_poll list" where
  "sample_polls = [\<lparr>dp_stop = False, dp_current = [sample_controller], dp_changedAt = 0,
     dp_settledAt = 0, dp_elapsedAt = ms 5000\<rparr>]"

lemma sample_discovery: "discoverControllers 5000 0 sample_polls = Some [sample_controller]"
  by (simp add: discoverControllers_def sample_polls_def Let_def noteDiscovered_def
      discoverySettled_def discoverySettleWindow_def discoveryTimedOut_def)

theorem discovery_result_witness:
  "\<exists>n \<le> length sample_polls. let lists = filter (\<lambda>c. c \<noteq> []) (map dp_current (take n sample_polls))
    in [sample_controller] = (if lists = [] then [] else last lists)"
  by (rule discovery_result [OF sample_discovery])

lemma discoverLoop_returns:
  "\<exists>p \<in> set ps. dp_stop p \<or> discoveryTimedOut timeoutMs started p \<Longrightarrow>
     \<exists>r. discoverLoop timeoutMs started ps st = Some r"
  by (induction timeoutMs started ps st rule: discoverLoop.induct) (auto simp: Let_def)

text \<open>Discovery ends: with a timeout, as soon as one pass reads the clock that many
  milliseconds after the start, and always as soon as one pass sees the stop flag.\<close>

theorem discovery_terminates:
  assumes "p \<in> set polls"
    "dp_stop p \<or> (0 < timeoutMs \<and> started + ms (uint timeoutMs) \<le> dp_elapsedAt p)"
  shows "\<exists>r. discoverControllers timeoutMs started polls = Some r"
proof -
  have "uint timeoutMs \<le> (dp_elapsedAt p - started) div 1000000"
    if "started + ms (uint timeoutMs) \<le> dp_elapsedAt p"
    using that zdiv_mono1 [of "ms (uint timeoutMs)" "dp_elapsedAt p - started" 1000000] by simp
  with assms have "dp_stop p \<or> discoveryTimedOut timeoutMs started p"
    by (auto simp: discoveryTimedOut_def)
  with assms(1) show ?thesis
    unfolding discoverControllers_def by (intro discoverLoop_returns) blast
qed

theorem discovery_terminates_witness:
  "\<exists>r. discoverControllers 5000 0 sample_polls = Some r"
  by (rule discovery_terminates [of "hd sample_polls"]) (simp_all add: sample_polls_def)

end
