(* ===== verification/Runtime.thy ===== *)
theory Runtime
  imports Discovery
begin

text \<open>
  \<open>LinkRuntime\<close> of \<open>LinkRuntime.cpp\<close>: its state, scanning, starting and stopping. What never
  changes while the program runs (the host registry, the hosts' methods, the controller
  methods, the log path) is in \<open>link_env\<close>; what the outside world answers during one call
  (what discovery sees, which connections succeed, the stop flag at the places it is read)
  is in \<open>link_inputs\<close>. A call that is still discovering when its polls end has no result.

  Targets live in a store and are passed by address, as the shared pointers do; hosts are
  values of type \<open>'h\<close> acting on a world \<open>'w\<close>. The field \<open>rt_destroyed\<close> is a ghost: the hosts
  that were destroyed, in the state the explicit stop or the destructor, which stops a host
  too, left them in; stopping a stopped host again is not represented. It says nothing of hosts
  that the link would lose without stopping them; for these, \<open>Watched_Hosts\<close> counts the hosts
  where they are started and stopped, in their operations.
  \<open>rt_terminated\<close> records that a running thread object was overwritten: the process is gone.
\<close>

section \<open>State\<close>

datatype runtime_state = Stopped | Scanning | Starting | Running | StopRequested | Failed

fun runtimeStateLabel :: "runtime_state \<Rightarrow> string" where
  "runtimeStateLabel Stopped = ''Stopped''"
| "runtimeStateLabel Scanning = ''Scanning''"
| "runtimeStateLabel Starting = ''Starting''"
| "runtimeStateLabel Running = ''Running''"
| "runtimeStateLabel StopRequested = ''Stopping''"
| "runtimeStateLabel Failed = ''Failed''"

record 'h active_host =
  ah_id :: string
  ah_displayName :: string
  ah_instanceKey :: string
  ah_info :: vc_host_info
  ah_options :: options_map
  ah_host :: 'h
  ah_targets :: "link_target list"
  ah_endpoints :: "vc_endpoint list"

record pending_group =
  pg_info :: vc_host_info
  pg_instanceKey :: string
  pg_options :: options_map
  pg_targets :: "link_target list"

record ('c, 'h, 'w) runtime =
  rt_state :: runtime_state
  rt_statusMessage :: string
  rt_hasDiscoveryResults :: bool
  rt_discoveredControllers :: nat
  rt_discovered :: "discovered_snapshot list"
  rt_infos :: "controller_info list"
  rt_hasSystem :: bool
  rt_hosts :: "'h active_host list"
  rt_monitor :: bool
  rt_targets :: "link_target list"
  rt_activeHostId :: string
  rt_activeHostDisplayName :: string
  rt_activeDisabledTypes :: "string set"
  rt_activeDrivers :: options_map
  rt_activeOptions :: link_options
  rt_stopRequested :: bool
  rt_log :: "(bool \<times> string) list"
  rt_store :: "'c target list"
  rt_world :: 'w
  rt_destroyed :: "'h list"
  rt_terminated :: bool

record ('c, 'h, 'w) link_env =
  le_registry :: "'h registry"
  le_ops :: "('h, 'w) host_ops"
  le_co :: "'c controller_ops"
  le_logPath :: string
  le_tracePath :: "string option"

record 'c link_inputs =
  li_started :: nanos
  li_polls :: "discovery_poll list"
  li_libraryLog :: "(bool \<times> string) list"
  li_connect :: "nat \<Rightarrow> controller_info \<Rightarrow> 'c option"
  li_stopDiscovered :: bool
  li_stopConnect :: "nat \<Rightarrow> bool"
  li_stopConnected :: bool
  li_stopHost :: "nat \<Rightarrow> bool"

definition say :: "bool \<Rightarrow> string \<Rightarrow> ('c, 'h, 'w) runtime \<Rightarrow> ('c, 'h, 'w) runtime" where
  "say isError line rt = rt\<lparr>rt_log := rt_log rt @ [(isError, line)]\<rparr>"

text \<open>The last error of the logger: the last error line since it was cleared.\<close>

definition lastError :: "(bool \<times> string) list \<Rightarrow> string" where
  "lastError entries = (case filter fst entries of [] \<Rightarrow> [] | es \<Rightarrow> snd (last es))"

definition setState :: "runtime_state \<Rightarrow> string \<Rightarrow> ('c, 'h, 'w) runtime \<Rightarrow> ('c, 'h, 'w) runtime" where
  "setState nextState message rt = rt\<lparr>rt_state := nextState, rt_statusMessage := message\<rparr>"

definition clearLog :: "('c, 'h, 'w) link_env \<Rightarrow> ('c, 'h, 'w) runtime \<Rightarrow> ('c, 'h, 'w) runtime" where
  "clearLog env rt = say False (''Persistent log: '' @ le_logPath env) (rt\<lparr>rt_log := []\<rparr>)"

definition configureLiberaSystem :: "link_options \<Rightarrow> ('c, 'h, 'w) runtime \<Rightarrow> ('c, 'h, 'w) runtime" where
  "configureLiberaSystem options rt =
     (if rt_hasSystem rt \<and> rt_activeDisabledTypes rt = lo_disabledControllerTypes options \<and>
         rt_activeDrivers rt = lo_selectedControllerDrivers options
      then rt
      else rt\<lparr>rt_infos := [], rt_hasSystem := True,
              rt_activeDisabledTypes := lo_disabledControllerTypes options,
              rt_activeDrivers := lo_selectedControllerDrivers options\<rparr>)"

section \<open>Stopping hosts\<close>

text \<open>Stops the hosts of a list in order; the result holds them as they are left.\<close>

fun stopHosts :: "('h, 'w) host_ops \<Rightarrow> 'h list \<Rightarrow> 'w \<Rightarrow> 'h list \<times> 'w" where
  "stopHosts ops [] w = ([], w)"
| "stopHosts ops (h # hs) w =
     (case ho_stop ops h w of (h', w1) \<Rightarrow>
        (case stopHosts ops hs w1 of (hs', w2) \<Rightarrow> (h' # hs', w2)))"

definition destroyHosts ::
  "('h, 'w) host_ops \<Rightarrow> 'h list \<Rightarrow> ('c, 'h, 'w) runtime \<Rightarrow> ('c, 'h, 'w) runtime" where
  "destroyHosts ops hs rt =
     (case stopHosts ops hs (rt_world rt) of
        (hs', w) \<Rightarrow> rt\<lparr>rt_world := w, rt_destroyed := rt_destroyed rt @ hs'\<rparr>)"

definition requestStop :: "('c, 'h, 'w) runtime \<Rightarrow> ('c, 'h, 'w) runtime" where
  "requestStop rt =
     (let rt1 = rt\<lparr>rt_stopRequested := True\<rparr> in
      if rt_state rt1 = Starting \<or> rt_state rt1 = Running
      then setState StopRequested ''Stopping...'' rt1 else rt1)"

definition stopLink :: "('c, 'h, 'w) link_env \<Rightarrow> ('c, 'h, 'w) runtime \<Rightarrow> ('c, 'h, 'w) runtime" where
  "stopLink env rt =
     (let rt1 = (requestStop rt)\<lparr>rt_monitor := False\<rparr>;
          hadActiveResources = (rt_hosts rt1 \<noteq> [] \<or> rt_targets rt1 \<noteq> [] \<or> rt_state rt1 \<noteq> Stopped);
          hosts = map ah_host (rt_hosts rt1);
          rt2 = setState Stopped ''Stopped''
                  (rt1\<lparr>rt_hosts := [], rt_targets := [], rt_activeHostId := [],
                       rt_activeHostDisplayName := []\<rparr>);
          rt3 = (destroyHosts (le_ops env) hosts rt2)\<lparr>rt_stopRequested := False\<rparr>
      in if hadActiveResources then say False ''Link stopped.'' rt3 else rt3)"

definition invalidateDiscoveryCache :: "('c, 'h, 'w) runtime \<Rightarrow> ('c, 'h, 'w) runtime" where
  "invalidateDiscoveryCache rt = rt\<lparr>rt_infos := []\<rparr>"

section \<open>Scanning\<close>

text \<open>The log handlers that the constructor installs: what they make of a line of the library.\<close>

definition libraryLine :: "bool \<times> string \<Rightarrow> (bool \<times> string) option" where
  "libraryLine entry =
     (let trimmed = trimLogLine (snd entry)
      in if trimmed = [] then None else Some (fst entry, ''[libera] '' @ trimmed))"

text \<open>Discovery, with the lines the library logs meanwhile.\<close>

definition runDiscovery ::
  "'c link_inputs \<Rightarrow> link_options \<Rightarrow> ('c, 'h, 'w) runtime \<Rightarrow>
   (controller_info list \<times> ('c, 'h, 'w) runtime) option" where
  "runDiscovery inp options rt =
     (case discoverControllers (lo_discoveryTimeoutMs options) (li_started inp) (li_polls inp) of
        None \<Rightarrow> None
      | Some found \<Rightarrow> Some (found, rt\<lparr>rt_log := rt_log rt @ List.map_filter libraryLine (li_libraryLog inp)\<rparr>))"

definition discoveryFailed :: "controller_info list \<Rightarrow> ('c, 'h, 'w) runtime \<Rightarrow> bool" where
  "discoveryFailed found rt \<longleftrightarrow> found = [] \<and> lastError (rt_log rt) \<noteq> []"

definition discoveredMessage :: "controller_info list \<Rightarrow> string" where
  "discoveredMessage found =
     ''Discovered '' @ to_string (length found) @ '' controller(s) via Libera.''"

definition scanLink ::
  "('c, 'h, 'w) link_env \<Rightarrow> 'c link_inputs \<Rightarrow> link_options \<Rightarrow> ('c, 'h, 'w) runtime \<Rightarrow>
   (bool \<times> ('c, 'h, 'w) runtime) option" where
  "scanLink env inp options rt =
     (if rt_state rt \<in> {Scanning, Starting, Running, StopRequested} then Some (False, rt)
      else
        let rt1 = (setState Scanning ''Scanning for controllers...'' rt)
                    \<lparr>rt_hasDiscoveryResults := False, rt_discoveredControllers := 0, rt_discovered := []\<rparr>;
            rt2 = say False ''Scanning for controllers via Libera''
                    ((clearLog env rt1)\<lparr>rt_stopRequested := False\<rparr>);
            rt3 = (configureLiberaSystem options rt2)\<lparr>rt_infos := []\<rparr>
        in case runDiscovery inp options rt3 of
             None \<Rightarrow> None
           | Some (found, rt4) \<Rightarrow> Some
               (if li_stopDiscovered inp
                then (False, say False ''Controller scan cancelled.'' (setState Stopped ''Stopped'' rt4))
                else
                  let failed = discoveryFailed found rt4;
                      snapshots = buildDiscoveredControllerSnapshots (map Some found);
                      rt5 = setState (if failed then Failed else Stopped)
                              (if found = [] then (if failed then ''Controller discovery failed''
                                                   else ''No controllers found'')
                               else ''Scan complete'')
                              (rt4\<lparr>rt_hasDiscoveryResults := True,
                                   rt_discoveredControllers := length snapshots,
                                   rt_discovered := snapshots, rt_infos := found\<rparr>)
                  in if found = []
                     then (False, if failed then rt5
                                  else say False ''No controllers discovered via Libera.'' rt5)
                     else (True, say False (discoveredMessage found) rt5)))"

section \<open>Which host a target gets\<close>

definition fallbackHost :: "('c, 'h, 'w) link_env \<Rightarrow> link_options \<Rightarrow> vc_host_info option" where
  "fallbackHost env options =
     (if lo_virtualControllerHostId options \<noteq> []
      then findVirtualControllerHost (lo_virtualControllerHostId options) (le_registry env)
      else defaultVirtualControllerHost (le_registry env))"

definition unknownHost :: "string \<Rightarrow> string" where
  "unknownHost key = ''Unknown virtual controller host \"'' @ key @ ''\".''"

definition routesByControllerId :: "vc_route list \<Rightarrow> string \<rightharpoonup> vc_route" where
  "routesByControllerId routes =
     foldl (\<lambda>m r. if vr_controllerId r \<noteq> [] then m(vr_controllerId r \<mapsto> r) else m) Map.empty routes"

definition resolveHost ::
  "('c, 'h, 'w) link_env \<Rightarrow> link_options \<Rightarrow> vc_route option \<Rightarrow> string + vc_host_info" where
  "resolveHost env options route =
     (let routed = (case route of Some r \<Rightarrow> vr_hostId r \<noteq> [] | None \<Rightarrow> False);
          hostInfo = (if routed
                      then findVirtualControllerHost (vr_hostId (the route)) (le_registry env)
                      else fallbackHost env options)
      in case hostInfo of
           Some info \<Rightarrow> Inr info
         | None \<Rightarrow>
             (let hostId = (if routed then vr_hostId (the route) else lo_virtualControllerHostId options)
              in Inl (if hostId = [] then ''No virtual controller hosts are registered.''
                      else unknownHost hostId)))"

definition instanceKeyFor :: "vc_route option \<Rightarrow> vc_host_info \<Rightarrow> link_target \<Rightarrow> string" where
  "instanceKeyFor route info t =
     (case route of
        Some r \<Rightarrow> (if vr_hostInstanceKey r \<noteq> [] then vr_hostInstanceKey r
                   else if hi_separateInstancePerTarget info then ti_id (lt_info t) else hi_id info)
      | None \<Rightarrow> (if hi_separateInstancePerTarget info then ti_id (lt_info t) else hi_id info))"

definition optionsFor :: "link_options \<Rightarrow> vc_route option \<Rightarrow> options_map" where
  "optionsFor options route =
     (case route of Some r \<Rightarrow> vr_options r | None \<Rightarrow> lo_virtualControllerHostOptions options)"

text \<open>The group with the given key takes the target, or a new one is appended.\<close>

fun addToGroups ::
  "vc_host_info \<Rightarrow> string \<Rightarrow> options_map \<Rightarrow> link_target \<Rightarrow> pending_group list \<Rightarrow> pending_group list" where
  "addToGroups info key opts t [] =
     [\<lparr>pg_info = info, pg_instanceKey = key, pg_options = opts, pg_targets = [t]\<rparr>]"
| "addToGroups info key opts t (g # gs) =
     (if hi_id (pg_info g) = hi_id info \<and> pg_instanceKey g = key \<and> pg_options g = opts
      then g\<lparr>pg_targets := pg_targets g @ [t]\<rparr> # gs
      else g # addToGroups info key opts t gs)"

fun groupTargets ::
  "('c, 'h, 'w) link_env \<Rightarrow> link_options \<Rightarrow> link_target list \<Rightarrow> pending_group list \<Rightarrow>
   string + pending_group list" where
  "groupTargets env options [] groups = Inr groups"
| "groupTargets env options (t # ts) groups =
     (let route = routesByControllerId (lo_virtualControllerRoutes options) (ti_id (lt_info t)) in
      case resolveHost env options route of
        Inl err \<Rightarrow> Inl err
      | Inr info \<Rightarrow> groupTargets env options ts
          (addToGroups info (instanceKeyFor route info t) (optionsFor options route) t groups))"

section \<open>Starting hosts\<close>

text \<open>
  Creates and starts one host. The error and, if one was created, the host that is destroyed
  on the way out.
\<close>

definition startActiveHostGroup ::
  "('c, 'h, 'w) link_env \<Rightarrow> pending_group \<Rightarrow> u32 \<Rightarrow> 'w \<Rightarrow>
   (string \<times> 'h option + 'h active_host) \<times> 'w" where
  "startActiveHostGroup env grp sliceDurationUs w =
     (let ops = le_ops env in
      case createVirtualControllerHost (hi_id (pg_info grp))
             \<lparr>cfg_sliceDurationUs = sliceDurationUs, cfg_options = pg_options grp\<rparr>
             (le_registry env) of
        Inl err \<Rightarrow> (Inl (err, None), w)
      | Inr host \<Rightarrow>
          (case ho_start ops (pg_targets grp) host w of
             (Some err, host', w') \<Rightarrow>
               (Inl (if err = [] then hi_displayName (pg_info grp) @
                       '' virtual controller host failed to start.'' else err, Some host'), w')
           | (None, host', w') \<Rightarrow>
               (Inr \<lparr>ah_id = hi_id (pg_info grp), ah_displayName = ho_displayName ops host',
                     ah_instanceKey = pg_instanceKey grp, ah_info = pg_info grp,
                     ah_options = pg_options grp, ah_host = host',
                     ah_targets = pg_targets grp, ah_endpoints = ho_endpoints ops host'\<rparr>, w')))"

definition activeVirtualControllerSummary :: "'h active_host list \<Rightarrow> string \<times> string" where
  "activeVirtualControllerSummary hosts =
     (case hosts of
        [] \<Rightarrow> ([], [])
      | [h] \<Rightarrow> (ah_id h, ah_displayName h)
      | h # _ \<Rightarrow>
          (if \<forall>x \<in> set hosts. ah_id x = ah_id h
           then (ah_id h, ah_displayName h @ '' ('' @ to_string (length hosts) @ '' instances)'')
           else (''mixed'', ''Multiple virtual controllers'')))"

text \<open>\<open>Inl None\<close>: a stop was requested meanwhile; \<open>Inl (Some e)\<close>: the start failed.\<close>

fun startHostGroups ::
  "('c, 'h, 'w) link_env \<Rightarrow> 'c link_inputs \<Rightarrow> u32 \<Rightarrow> nat \<Rightarrow> pending_group list \<Rightarrow> 'h active_host list \<Rightarrow>
   ('c, 'h, 'w) runtime \<Rightarrow> (string option + 'h active_host list) \<times> ('c, 'h, 'w) runtime" where
  "startHostGroups env inp sliceUs k [] active rt = (Inr active, rt)"
| "startHostGroups env inp sliceUs k (g # gs) active rt =
     (let rt1 = rt\<lparr>rt_statusMessage := ''Starting '' @ hi_displayName (pg_info g) @ ''...''\<rparr> in
      case startActiveHostGroup env g sliceUs (rt_world rt1) of
        (Inl (err, h), w) \<Rightarrow>
          (Inl (Some err), destroyHosts (le_ops env)
             (map ah_host active @ (case h of None \<Rightarrow> [] | Some x \<Rightarrow> [x])) (rt1\<lparr>rt_world := w\<rparr>))
      | (Inr a, w) \<Rightarrow>
          (if li_stopHost inp k
           then (Inl None, destroyHosts (le_ops env) (ah_host a # map ah_host active) (rt1\<lparr>rt_world := w\<rparr>))
           else startHostGroups env inp sliceUs (Suc k) gs (active @ [a]) (rt1\<lparr>rt_world := w\<rparr>)))"

section \<open>Starting the link\<close>

text \<open>Connects the controllers of the list, the \<open>k\<close>-th first, up to \<open>maxDacs\<close> targets.\<close>

fun connectControllers ::
  "('c, 'h, 'w) link_env \<Rightarrow> 'c link_inputs \<Rightarrow> link_options \<Rightarrow> string set \<Rightarrow> nat \<Rightarrow> controller_info list \<Rightarrow>
   link_target list \<Rightarrow> ('c, 'h, 'w) runtime \<Rightarrow> link_target list \<times> ('c, 'h, 'w) runtime" where
  "connectControllers env inp options selected k [] targets rt = (targets, rt)"
| "connectControllers env inp options selected k (info # infos) targets rt =
     (if li_stopConnect inp k then (targets, rt)
      else
        let rt1 = rt\<lparr>rt_statusMessage := ''Connecting '' @ ci_label info @ ''...''\<rparr>;
            continue = connectControllers env inp options selected (Suc k) infos
        in if \<not> fst (shouldLinkController info)
           then continue targets (say False (''Skipping '' @ describeController info @ '' ('' @
                  snd (shouldLinkController info) @ '')'') rt1)
           else if \<not> isControllerSelected selected info then continue targets rt1
           else if 0 < lo_maxDacs options \<and> lo_maxDacs options \<le> length targets then (targets, rt1)
           else case li_connect inp k info of
             None \<Rightarrow> continue targets
               (say True (''Skipping '' @ ci_label info @ '' (connect failed)'') rt1)
           | Some controller \<Rightarrow>
               (let target = makeLiberaTarget (le_co env) controller info options
                in continue (targets @ [\<lparr>lt_ref = length (rt_store rt1), lt_info = t_info target\<rparr>])
                     (rt1\<lparr>rt_store := rt_store rt1 @ [target]\<rparr>)))"

text \<open>The lines that report which endpoint each target got.\<close>

definition endpointForTarget :: "vc_endpoint list \<Rightarrow> string \<Rightarrow> vc_endpoint option" where
  "endpointForTarget endpoints targetId = find (\<lambda>e. ep_targetId e = targetId) endpoints"

definition linkedLine :: "'h active_host \<Rightarrow> link_target \<Rightarrow> string" where
  "linkedLine a t =
     (let info = lt_info t in
      ''Linked '' @ ti_label info @ '' ['' @ ti_type info @ '':'' @ ti_id info @ ''] via '' @
      ah_displayName a @
      (case endpointForTarget (ah_endpoints a) (ti_id info) of
         Some e \<Rightarrow> (if ep_label e \<noteq> [] then '' -> '' @ ep_label e else [])
       | None \<Rightarrow> []))"

definition sayLinked :: "'h active_host list \<Rightarrow> ('c, 'h, 'w) runtime \<Rightarrow> ('c, 'h, 'w) runtime" where
  "sayLinked hosts rt =
     foldl (\<lambda>r line. say False line r) rt (concat (map (\<lambda>a. map (linkedLine a) (ah_targets a)) hosts))"

definition failStart :: "string \<Rightarrow> ('c, 'h, 'w) runtime \<Rightarrow> bool \<times> ('c, 'h, 'w) runtime" where
  "failStart err rt = (False, say True err (setState Failed err rt))"

definition cancelStart :: "('c, 'h, 'w) runtime \<Rightarrow> bool \<times> ('c, 'h, 'w) runtime" where
  "cancelStart rt = (False, say False ''Link start cancelled.'' (setState Stopped ''Stopped'' rt))"

text \<open>
  The hosts run: they become the link's hosts, and the monitor thread starts. Assigning to
  a thread object that still runs a thread ends the process.
\<close>

definition enterRunning ::
  "('c, 'h, 'w) link_env \<Rightarrow> link_options \<Rightarrow> link_target list \<Rightarrow> 'h active_host list \<Rightarrow>
   ('c, 'h, 'w) runtime \<Rightarrow> bool \<times> ('c, 'h, 'w) runtime" where
  "enterRunning env options targets hosts rt =
     (let summary = activeVirtualControllerSummary hosts;
          rt1 = sayLinked hosts rt;
          rt2 = destroyHosts (le_ops env) (map ah_host (rt_hosts rt1)) rt1;
          rt3 = setState Running ''Running''
                  (rt2\<lparr>rt_hosts := hosts, rt_targets := targets, rt_activeHostId := fst summary,
                       rt_activeHostDisplayName := snd summary, rt_activeOptions := options\<rparr>)
      in if rt_monitor rt3 then (False, rt3\<lparr>rt_terminated := True\<rparr>)
         else (True, say False ''Link running.'' (rt3\<lparr>rt_monitor := True\<rparr>)))"

text \<open>From the list of controllers on: connect, group, start the hosts.\<close>

definition startTargets ::
  "('c, 'h, 'w) link_env \<Rightarrow> 'c link_inputs \<Rightarrow> link_options \<Rightarrow> string set \<Rightarrow>
   ('c, 'h, 'w) runtime \<Rightarrow> bool \<times> ('c, 'h, 'w) runtime" where
  "startTargets env inp options selected rt =
     (case connectControllers env inp options selected 0 (rt_infos rt) [] rt of
        (targets, rt1) \<Rightarrow>
          if li_stopConnected inp then cancelStart rt1
          else if targets = []
          then failStart (if selected = {} then ''No link endpoints started.''
                          else ''No selected controllers were started.'') rt1
          else case groupTargets env options targets [] of
            Inl err \<Rightarrow> failStart err rt1
          | Inr groups \<Rightarrow>
              (case startHostGroups env inp (lo_sliceDurationUs options) 0 groups [] rt1 of
                 (Inl (Some err), rt2) \<Rightarrow> failStart err rt2
               | (Inl None, rt2) \<Rightarrow> cancelStart rt2
               | (Inr hosts, rt2) \<Rightarrow> enterRunning env options targets hosts rt2))"

text \<open>The list of controllers: the one of the latest scan, or a new discovery.\<close>

definition startDiscovered ::
  "('c, 'h, 'w) link_env \<Rightarrow> 'c link_inputs \<Rightarrow> link_options \<Rightarrow> string set \<Rightarrow>
   ('c, 'h, 'w) runtime \<Rightarrow> (bool \<times> ('c, 'h, 'w) runtime) option" where
  "startDiscovered env inp options selected rt =
     (if rt_infos rt \<noteq> []
      then Some (startTargets env inp options selected
             (say False (''Using '' @ to_string (length (rt_infos rt)) @
                '' controller(s) from the latest scan.'')
                (setState Starting ''Connecting controllers...'' rt)))
      else case runDiscovery inp options (setState Starting ''Discovering controllers...'' rt) of
        None \<Rightarrow> None
      | Some (found, rt1) \<Rightarrow> Some
          (if li_stopDiscovered inp then cancelStart rt1
           else if found = []
           then let rt2 = rt1\<lparr>rt_hasDiscoveryResults := True, rt_discoveredControllers := 0,
                              rt_discovered := []\<rparr>
                in if discoveryFailed found rt1
                   then (False, setState Failed ''Controller discovery failed.'' rt2)
                   else failStart ''No controllers discovered via Libera.'' rt2
           else let snapshots = buildDiscoveredControllerSnapshots (map Some found)
                in startTargets env inp options selected
                     (say False (discoveredMessage found)
                        (rt1\<lparr>rt_hasDiscoveryResults := True,
                             rt_discoveredControllers := length snapshots,
                             rt_discovered := snapshots, rt_infos := found,
                             rt_statusMessage := ''Connecting controllers...''\<rparr>))))"

text \<open>A start that is not the update of a running link.\<close>

definition freshStart ::
  "('c, 'h, 'w) link_env \<Rightarrow> 'c link_inputs \<Rightarrow> link_options \<Rightarrow> string set \<Rightarrow>
   ('c, 'h, 'w) runtime \<Rightarrow> (bool \<times> ('c, 'h, 'w) runtime) option" where
  "freshStart env inp options selected rt =
     (if rt_state rt \<in> {Scanning, Starting, StopRequested} then Some (False, rt)
      else
        let rt1 = (setState Starting ''Starting controllers...'' rt)
                    \<lparr>rt_activeHostId := [], rt_activeHostDisplayName := []\<rparr>;
            rt2 = clearLog env rt1;
            rt3 = (case le_tracePath env of None \<Rightarrow> rt2
                   | Some path \<Rightarrow> say False (''Link IO trace enabled at '' @ path) rt2);
            rt4 = rt3\<lparr>rt_stopRequested := False\<rparr>
        in if lo_virtualControllerHostId options \<noteq> [] \<and> fallbackHost env options = None
           then Some (failStart (unknownHost (lo_virtualControllerHostId options)) rt4)
           else startDiscovered env inp options selected
                  (configureLiberaSystem options
                    (say False
                      (if selected = {} then ''Starting Libera Link''
                       else ''Starting Libera Link for '' @ to_string (card selected) @
                         '' selected controller(s)'') rt4)))"

end
