(* ===== verification/Runtime_Update.thy ===== *)
theory Runtime_Update
  imports Runtime
begin

text \<open>
  The second half of \<open>LinkRuntime\<close>: \<open>start\<close> on a running link (which updates the selection),
  the monitor thread, the snapshot, and the link as a system of calls, target activity and
  monitor passes.
\<close>

section \<open>Updating a running link\<close>

definition targetsById :: "link_target list \<Rightarrow> string \<rightharpoonup> link_target" where
  "targetsById ts =
     foldl (\<lambda>m t. if m (ti_id (lt_info t)) = None then m(ti_id (lt_info t) \<mapsto> t) else m) Map.empty ts"

definition targetRuntimeOptionsChanged :: "link_options \<Rightarrow> link_options \<Rightarrow> bool" where
  "targetRuntimeOptionsChanged active options \<longleftrightarrow>
     lo_disabledControllerTypes active \<noteq> lo_disabledControllerTypes options \<or>
     lo_selectedControllerDrivers active \<noteq> lo_selectedControllerDrivers options \<or>
     lo_maxQueuedPoints active \<noteq> lo_maxQueuedPoints options \<or>
     lo_latencyMs active \<noteq> lo_latencyMs options \<or>
     lo_maxLatencyMs active \<noteq> lo_maxLatencyMs options \<or>
     lo_autoLatency active \<noteq> lo_autoLatency options \<or>
     lo_maxDacs active \<noteq> lo_maxDacs options \<or> 0 < lo_maxDacs options"

fun connectMissing ::
  "('c, 'h, 'w) link_env \<Rightarrow> 'c link_inputs \<Rightarrow> link_options \<Rightarrow> nat \<Rightarrow> controller_info list \<Rightarrow>
   string set \<Rightarrow> (string \<rightharpoonup> link_target) \<Rightarrow> ('c, 'h, 'w) runtime \<Rightarrow>
   string set \<times> (string \<rightharpoonup> link_target) \<times> ('c, 'h, 'w) runtime" where
  "connectMissing env inp options k [] missing byId rt = (missing, byId, rt)"
| "connectMissing env inp options k (info # infos) missing byId rt =
     (let continue = connectMissing env inp options (Suc k) infos;
          missing' = missing - {ci_id info} in
      if ci_id info \<notin> missing then continue missing byId rt
      else if \<not> fst (shouldLinkController info)
      then continue missing' byId (say False (''Skipping '' @ describeController info @ '' ('' @
             snd (shouldLinkController info) @ '')'') rt)
      else
        let rt1 = rt\<lparr>rt_statusMessage := ''Connecting '' @ ci_label info @ ''...''\<rparr> in
        case li_connect inp k info of
          None \<Rightarrow> continue missing' byId
            (say True (''Skipping '' @ ci_label info @ '' (connect failed)'') rt1)
        | Some controller \<Rightarrow>
            (let target = makeLiberaTarget (le_co env) controller info options;
                 lt = \<lparr>lt_ref = length (rt_store rt1), lt_info = t_info target\<rparr>
             in continue missing' (byId(ti_id (lt_info lt) \<mapsto> lt))
                  (rt1\<lparr>rt_store := rt_store rt1 @ [target]\<rparr>)))"

definition reportMissing :: "string set \<Rightarrow> ('c, 'h, 'w) runtime \<Rightarrow> ('c, 'h, 'w) runtime" where
  "reportMissing missing rt =
     foldl (\<lambda>r i. say True (''Selected controller is no longer discoverable: '' @ i) r) rt
       (sorted_list_of_set missing)"

definition activeHostMatchesGroup :: "'h active_host \<Rightarrow> pending_group \<Rightarrow> bool" where
  "activeHostMatchesGroup a g \<longleftrightarrow> ah_id a = hi_id (pg_info g) \<and>
     ah_instanceKey a = pg_instanceKey g \<and> ah_options a = pg_options g"

definition targetIdSet :: "link_target list \<Rightarrow> string set" where
  "targetIdSet ts = (\<lambda>t. ti_id (lt_info t)) ` set ts"

text \<open>Dynamic changes stop at the first refusal.\<close>

fun removeTargets ::
  "('h, 'w) host_ops \<Rightarrow> string set \<Rightarrow> link_target list \<Rightarrow> 'h \<Rightarrow> 'w \<Rightarrow> bool \<times> 'h \<times> 'w" where
  "removeTargets ops desired [] h w = (True, h, w)"
| "removeTargets ops desired (t # ts) h w =
     (if ti_id (lt_info t) \<in> desired then removeTargets ops desired ts h w
      else case ho_removeTarget ops (ti_id (lt_info t)) h w of
        (Some err, h', w') \<Rightarrow> (False, h', w')
      | (None, h', w') \<Rightarrow> removeTargets ops desired ts h' w')"

fun addTargets ::
  "('h, 'w) host_ops \<Rightarrow> string set \<Rightarrow> link_target list \<Rightarrow> 'h \<Rightarrow> 'w \<Rightarrow> bool \<times> 'h \<times> 'w" where
  "addTargets ops current [] h w = (True, h, w)"
| "addTargets ops current (t # ts) h w =
     (if ti_id (lt_info t) \<in> current then addTargets ops current ts h w
      else case ho_addTarget ops t h w of
        (Some err, h', w') \<Rightarrow> (False, h', w')
      | (None, h', w') \<Rightarrow> addTargets ops current ts h' w')"

definition updateDynamically ::
  "('h, 'w) host_ops \<Rightarrow> link_target list \<Rightarrow> link_target list \<Rightarrow> 'h \<Rightarrow> 'w \<Rightarrow> bool \<times> 'h \<times> 'w" where
  "updateDynamically ops current desired h w =
     (if \<not> ho_supportsDynamicTargets ops h then (False, h, w)
      else case removeTargets ops (targetIdSet desired) current h w of
        (False, h', w') \<Rightarrow> (False, h', w')
      | (True, h', w') \<Rightarrow> addTargets ops (targetIdSet current) desired h' w')"

text \<open>One active host against the desired groups: gone, kept, changed in place or restarted.\<close>

definition reconcileHost ::
  "('c, 'h, 'w) link_env \<Rightarrow> u32 \<Rightarrow> pending_group list \<Rightarrow> 'h active_host \<Rightarrow> ('c, 'h, 'w) runtime \<Rightarrow>
   (string + (nat option \<times> 'h active_host list)) \<times> ('c, 'h, 'w) runtime" where
  "reconcileHost env sliceUs groups a rt =
     (let ops = le_ops env in
      case find_index (activeHostMatchesGroup a) groups of
        None \<Rightarrow> (Inr (None, []), destroyHosts ops [ah_host a] rt)
      | Some i \<Rightarrow>
          (let g = groups ! i in
           if targetIdSet (ah_targets a) = targetIdSet (pg_targets g)
           then (Inr (Some i, [a\<lparr>ah_endpoints := ho_endpoints ops (ah_host a)\<rparr>]), rt)
           else case updateDynamically ops (ah_targets a) (pg_targets g) (ah_host a) (rt_world rt) of
             (True, h', w') \<Rightarrow>
               (Inr (Some i, [a\<lparr>ah_host := h', ah_targets := pg_targets g,
                               ah_endpoints := ho_endpoints ops h'\<rparr>]), rt\<lparr>rt_world := w'\<rparr>)
           | (False, h', w') \<Rightarrow>
               (let rt1 = destroyHosts ops [h'] (rt\<lparr>rt_world := w'\<rparr>) in
                case startActiveHostGroup env g sliceUs (rt_world rt1) of
                  (Inl (err, h), w2) \<Rightarrow>
                    (Inl err, destroyHosts ops (case h of None \<Rightarrow> [] | Some x \<Rightarrow> [x])
                       (rt1\<lparr>rt_world := w2\<rparr>))
                | (Inr fresh, w2) \<Rightarrow> (Inr (Some i, [fresh]), rt1\<lparr>rt_world := w2\<rparr>))))"

definition failUpdate ::
  "('c, 'h, 'w) link_env \<Rightarrow> string \<Rightarrow> 'h active_host list \<Rightarrow> ('c, 'h, 'w) runtime \<Rightarrow>
   ('c, 'h, 'w) runtime" where
  "failUpdate env err hosts rt =
     setState Failed err ((destroyHosts (le_ops env) (map ah_host hosts) rt)
       \<lparr>rt_hosts := [], rt_targets := [], rt_activeHostId := [], rt_activeHostDisplayName := []\<rparr>)"

fun reconcileHosts ::
  "('c, 'h, 'w) link_env \<Rightarrow> u32 \<Rightarrow> pending_group list \<Rightarrow> 'h active_host list \<Rightarrow> 'h active_host list \<Rightarrow>
   nat set \<Rightarrow> ('c, 'h, 'w) runtime \<Rightarrow>
   (string + ('h active_host list \<times> nat set)) \<times> ('c, 'h, 'w) runtime" where
  "reconcileHosts env sliceUs groups [] nexts handled rt = (Inr (nexts, handled), rt)"
| "reconcileHosts env sliceUs groups (a # as) nexts handled rt =
     (case reconcileHost env sliceUs groups a rt of
        (Inl err, rt1) \<Rightarrow> (Inl err, failUpdate env err (nexts @ as) rt1)
      | (Inr (i, kept), rt1) \<Rightarrow>
          reconcileHosts env sliceUs groups as (nexts @ kept)
            (case i of None \<Rightarrow> handled | Some k \<Rightarrow> insert k handled) rt1)"

text \<open>The groups no active host matched are started, in order.\<close>

fun startNewGroups ::
  "('c, 'h, 'w) link_env \<Rightarrow> u32 \<Rightarrow> nat \<Rightarrow> pending_group list \<Rightarrow> nat set \<Rightarrow> 'h active_host list \<Rightarrow>
   ('c, 'h, 'w) runtime \<Rightarrow> (string + 'h active_host list) \<times> ('c, 'h, 'w) runtime" where
  "startNewGroups env sliceUs k [] handled nexts rt = (Inr nexts, rt)"
| "startNewGroups env sliceUs k (g # gs) handled nexts rt =
     (if k \<in> handled then startNewGroups env sliceUs (Suc k) gs handled nexts rt
      else case startActiveHostGroup env g sliceUs (rt_world rt) of
        (Inl (err, h), w) \<Rightarrow>
          (Inl err, failUpdate env err nexts
             (destroyHosts (le_ops env) (case h of None \<Rightarrow> [] | Some x \<Rightarrow> [x]) (rt\<lparr>rt_world := w\<rparr>)))
      | (Inr a, w) \<Rightarrow>
          startNewGroups env sliceUs (Suc k) gs handled (nexts @ [a]) (rt\<lparr>rt_world := w\<rparr>))"

definition applySelection ::
  "('c, 'h, 'w) link_env \<Rightarrow> link_options \<Rightarrow> link_target list \<Rightarrow> pending_group list \<Rightarrow>
   ('c, 'h, 'w) runtime \<Rightarrow> bool \<times> ('c, 'h, 'w) runtime" where
  "applySelection env options desiredTargets groups rt =
     (case reconcileHosts env (lo_sliceDurationUs options) groups (rt_hosts rt) [] {} rt of
        (Inl err, rt1) \<Rightarrow> (False, say True err rt1)
      | (Inr (nexts, handled), rt1) \<Rightarrow>
          (case startNewGroups env (lo_sliceDurationUs options) 0 groups handled nexts rt1 of
             (Inl err, rt2) \<Rightarrow> (False, say True err rt2)
           | (Inr hosts, rt2) \<Rightarrow>
               (let summary = activeVirtualControllerSummary hosts in
                (True, say False ''Link selection updated.''
                   (setState Running ''Running''
                     (rt2\<lparr>rt_hosts := hosts, rt_targets := desiredTargets,
                          rt_activeHostId := fst summary,
                          rt_activeHostDisplayName := snd summary,
                          rt_activeOptions := options\<rparr>))))))"

definition updateRunning ::
  "('c, 'h, 'w) link_env \<Rightarrow> 'c link_inputs \<Rightarrow> link_options \<Rightarrow> string set \<Rightarrow>
   ('c, 'h, 'w) runtime \<Rightarrow> (bool \<times> ('c, 'h, 'w) runtime) option" where
  "updateRunning env inp options selected rt =
     (if selected = {} then Some (True, stopLink env rt)
      else if targetRuntimeOptionsChanged (rt_activeOptions rt) options
      then freshStart env inp options selected
             (stopLink env (say False ''Restarting link because controller runtime options changed.'' rt))
      else
        let byId = targetsById (rt_targets rt);
            missing = {i \<in> selected. byId i = None}
        in case (if missing = {} then (byId, rt)
                 else let rt1 = configureLiberaSystem options rt in
                   case connectMissing env inp options 0 (rt_infos rt1) missing byId rt1 of
                     (missing', byId', rt2) \<Rightarrow> (byId', reportMissing missing' rt2)) of
             (byId', rt1) \<Rightarrow> Some
               (if lo_virtualControllerHostId options \<noteq> [] \<and> fallbackHost env options = None
                then failStart (unknownHost (lo_virtualControllerHostId options)) rt1
                else
                  let desiredTargets = List.map_filter byId' (sorted_list_of_set selected) in
                  case groupTargets env options desiredTargets [] of
                    Inl err \<Rightarrow> failStart err rt1
                  | Inr groups \<Rightarrow>
                      (if desiredTargets = [] then (True, stopLink env rt1)
                       else applySelection env options desiredTargets groups rt1)))"

definition startLink ::
  "('c, 'h, 'w) link_env \<Rightarrow> 'c link_inputs \<Rightarrow> link_options \<Rightarrow> string set \<Rightarrow>
   ('c, 'h, 'w) runtime \<Rightarrow> (bool \<times> ('c, 'h, 'w) runtime) option" where
  "startLink env inp options selected rt =
     (if rt_state rt = Running
      then updateRunning env inp options selected (rt\<lparr>rt_statusMessage := ''Updating link...''\<rparr>)
      else freshStart env inp options selected rt)"

text \<open>\<open>start(options)\<close>: every controller, given as the empty selection.\<close>

definition startAll ::
  "('c, 'h, 'w) link_env \<Rightarrow> 'c link_inputs \<Rightarrow> link_options \<Rightarrow> ('c, 'h, 'w) runtime \<Rightarrow>
   (bool \<times> ('c, 'h, 'w) runtime) option" where
  "startAll env inp options rt = startLink env inp options {} rt"

section \<open>The monitor thread\<close>

definition logTargets ::
  "('c, 'h, 'w) link_env \<Rightarrow> (nat \<Rightarrow> clock) \<Rightarrow> link_target list \<Rightarrow> 'c target list \<Rightarrow> 'c target list" where
  "logTargets env clks ts store =
     foldl (\<lambda>s t. if lt_ref t < length s
                  then s[lt_ref t := logStatsIfDue (le_co env) (clks (lt_ref t)) (s ! lt_ref t)] else s) store ts"

definition monitorTick ::
  "('c, 'h, 'w) link_env \<Rightarrow> (nat \<Rightarrow> clock) \<Rightarrow> ('c, 'h, 'w) runtime \<Rightarrow> ('c, 'h, 'w) runtime" where
  "monitorTick env clks rt =
     (if rt_stopRequested rt \<or> \<not> rt_monitor rt then rt
      else rt\<lparr>rt_hosts := map (\<lambda>a. a\<lparr>ah_endpoints := ho_endpoints (le_ops env) (ah_host a)\<rparr>) (rt_hosts rt),
              rt_store := logTargets env clks (rt_targets rt) (rt_store rt)\<rparr>)"

section \<open>Snapshots\<close>

record endpoint_snapshot =
  es_label :: string
  es_id :: string
  es_type :: string
  es_hostId :: string
  es_hostDisplayName :: string
  es_endpoint :: "vc_endpoint option"
  es_stats :: stats_snapshot

record runtime_snapshot =
  sn_state :: runtime_state
  sn_statusMessage :: string
  sn_lastError :: string
  sn_activeHostId :: string
  sn_activeHostDisplayName :: string
  sn_stopRequested :: bool
  sn_hasDiscoveryResults :: bool
  sn_discoveredControllers :: nat
  sn_startedEndpoints :: nat
  sn_discovered :: "discovered_snapshot list"
  sn_endpoints :: "endpoint_snapshot list"
  sn_recentLogs :: "string list"

definition activeHostForTarget :: "'h active_host list \<Rightarrow> string \<Rightarrow> 'h active_host option" where
  "activeHostForTarget hosts targetId =
     find (\<lambda>a. \<exists>t \<in> set (ah_targets a). ti_id (lt_info t) = targetId) hosts"

text \<open>\<open>LiberaTarget::snapshot\<close>; the endpoint's fields are copied, or keep their defaults.\<close>

definition targetSnapshot ::
  "'c controller_ops \<Rightarrow> 'h active_host option \<Rightarrow> 'c target \<Rightarrow> endpoint_snapshot \<times> 'c target" where
  "targetSnapshot co host t =
     (case getStatsSnapshot co t of (stats, t') \<Rightarrow>
       (let info = t_info t in
        (\<lparr>es_label = ti_label info, es_id = ti_id info, es_type = ti_type info,
          es_hostId = (case host of None \<Rightarrow> [] | Some a \<Rightarrow> ah_id a),
          es_hostDisplayName = (case host of None \<Rightarrow> [] | Some a \<Rightarrow> ah_displayName a),
          es_endpoint = (case host of None \<Rightarrow> None
                         | Some a \<Rightarrow> endpointForTarget (ah_endpoints a) (ti_id info)),
          es_stats = stats\<rparr>, t')))"

fun targetSnapshots ::
  "'c controller_ops \<Rightarrow> 'h active_host list \<Rightarrow> link_target list \<Rightarrow> 'c target list \<Rightarrow>
   endpoint_snapshot list \<times> 'c target list" where
  "targetSnapshots co hosts [] store = ([], store)"
| "targetSnapshots co hosts (t # ts) store =
     (if lt_ref t < length store
      then case targetSnapshot co (activeHostForTarget hosts (ti_id (lt_info t))) (store ! lt_ref t) of
             (s, target') \<Rightarrow>
               (case targetSnapshots co hosts ts (store[lt_ref t := target']) of
                  (ss, store') \<Rightarrow> (s # ss, store'))
      else targetSnapshots co hosts ts store)"

definition snapshotLink ::
  "('c, 'h, 'w) link_env \<Rightarrow> ('c, 'h, 'w) runtime \<Rightarrow> runtime_snapshot \<times> ('c, 'h, 'w) runtime" where
  "snapshotLink env rt =
     (case targetSnapshots (le_co env) (rt_hosts rt) (rt_targets rt) (rt_store rt) of
        (endpoints, store) \<Rightarrow>
          (\<lparr>sn_state = rt_state rt, sn_statusMessage = rt_statusMessage rt,
            sn_lastError = lastError (rt_log rt), sn_activeHostId = rt_activeHostId rt,
            sn_activeHostDisplayName = rt_activeHostDisplayName rt,
            sn_stopRequested = rt_stopRequested rt,
            sn_hasDiscoveryResults = rt_hasDiscoveryResults rt,
            sn_discoveredControllers = rt_discoveredControllers rt,
            sn_startedEndpoints = length (rt_targets rt), sn_discovered = rt_discovered rt,
            sn_endpoints = endpoints,
            sn_recentLogs = (let ls = map snd (rt_log rt) in drop (length ls - 250) ls)\<rparr>,
           rt\<lparr>rt_store := store\<rparr>))"

section \<open>The link as a system\<close>

text \<open>
  Calls on the link, passes of the monitor thread, and the activity of targets, which hosts
  and controllers drive from their own threads.
\<close>

datatype 'c link_event =
    Scan "'c link_inputs" link_options
  | Start "'c link_inputs" link_options "string set"
  | RequestStop
  | Stop
  | Invalidate
  | Monitor "nat \<Rightarrow> clock"
  | Snapshot
  | TargetActivity nat clock target_event

fun link_step ::
  "('c, 'h, 'w) link_env \<Rightarrow> 'c link_event \<Rightarrow> ('c, 'h, 'w) runtime \<Rightarrow> ('c, 'h, 'w) runtime option" where
  "link_step env (Scan inp options) rt = map_option snd (scanLink env inp options rt)"
| "link_step env (Start inp options selected) rt = map_option snd (startLink env inp options selected rt)"
| "link_step env RequestStop rt = Some (requestStop rt)"
| "link_step env Stop rt = Some (stopLink env rt)"
| "link_step env Invalidate rt = Some (invalidateDiscoveryCache rt)"
| "link_step env (Monitor clks) rt = Some (monitorTick env clks rt)"
| "link_step env Snapshot rt = Some (snd (snapshotLink env rt))"
| "link_step env (TargetActivity i clk ev) rt =
     Some (if i < length (rt_store rt)
           then rt\<lparr>rt_store := (rt_store rt)[i := target_step (le_co env) clk ev (rt_store rt ! i)]\<rparr>
           else rt)"

definition initialLink :: "('c, 'h, 'w) link_env \<Rightarrow> 'w \<Rightarrow> ('c, 'h, 'w) runtime" where
  "initialLink env w =
     \<lparr>rt_state = Stopped, rt_statusMessage = ''Stopped'', rt_hasDiscoveryResults = False,
      rt_discoveredControllers = 0, rt_discovered = [], rt_infos = [], rt_hasSystem = False,
      rt_hosts = [], rt_monitor = False, rt_targets = [], rt_activeHostId = [],
      rt_activeHostDisplayName = [], rt_activeDisabledTypes = {}, rt_activeDrivers = fmempty,
      rt_activeOptions = default_options, rt_stopRequested = False,
      rt_log = [(False, ''Persistent log: '' @ le_logPath env)], rt_store = [], rt_world = w,
      rt_destroyed = [], rt_terminated = False\<rparr>"

inductive link_reachable :: "('c, 'h, 'w) link_env \<Rightarrow> ('c, 'h, 'w) runtime \<Rightarrow> bool" for env where
  initial: "link_reachable env (initialLink env w)"
| stepped: "link_reachable env rt \<Longrightarrow> \<not> rt_terminated rt \<Longrightarrow> link_step env ev rt = Some rt' \<Longrightarrow>
    link_reachable env rt'"

end
