(* ===== verification/Gui.thy ===== *)
theory Gui
  imports Managers Runtime_Update
begin

text \<open>
  The main window, \<open>gui_main.cpp\<close>: its options, the three tasks it runs beside the window, the
  selection of controllers and their routes, and the loop that draws a frame, reads what was
  clicked and decides which task to launch. What is drawn is in \<open>Row_View\<close>, except the labels that
  name a controller's state. A frame makes a list of calls, in order; a future is valid exactly
  while its flag is set, so that the flag stands for both. At most one widget is clicked in a
  frame.
\<close>

section \<open>State\<close>

datatype gui_call =
    LaunchScan link_options
  | LaunchStart link_options "string set"
  | LaunchStop
  | CallRequestStop
  | CallInvalidate

record gui_files =
  gf_disabledTypes :: "string option"
  gf_defaultHost :: "string option"
  gf_routes :: "string option"
  gf_enabled :: "string option"

text \<open>The windows that can be opened beside the main window, and which of them are shown.\<close>

datatype gui_window = SettingsWindow | LogsWindow | PluginsWindow | AvbWindow

record gui_state =
  gs_linkOptions :: link_options
  gs_disabledControllerTypes :: "string set"
  gs_scanInFlight :: bool
  gs_startInFlight :: bool
  gs_rescanInFlight :: bool
  gs_stopInFlight :: bool
  gs_linkSyncPending :: bool
  gs_enabledControllers :: "string set"
  gs_controllerHostRoutes :: options_map
  gs_windows :: "gui_window set"
  gs_files :: gui_files
  gs_calls :: "gui_call list"

definition call :: "gui_call \<Rightarrow> gui_state \<Rightarrow> gui_state" where
  "call c g = g\<lparr>gs_calls := gs_calls g @ [c]\<rparr>"

definition saveEnabled :: "gui_state \<Rightarrow> gui_state" where
  "saveEnabled g = g\<lparr>gs_files := (gs_files g)\<lparr>gf_enabled := Some (saveEnabledControllers (gs_enabledControllers g))\<rparr>\<rparr>"

definition saveRoutes :: "gui_state \<Rightarrow> gui_state" where
  "saveRoutes g = g\<lparr>gs_files := (gs_files g)\<lparr>gf_routes := Some (saveControllerHostRoutes (gs_controllerHostRoutes g))\<rparr>\<rparr>"

section \<open>Launching tasks\<close>

text \<open>The host a controller is sent to: its route, or the default.\<close>

definition configuredHostId :: "gui_state \<Rightarrow> string \<Rightarrow> string" where
  "configuredHostId g controllerId =
     (case fmlookup (gs_controllerHostRoutes g) controllerId of
        Some h \<Rightarrow> (if h \<noteq> [] then h else lo_virtualControllerHostId (gs_linkOptions g))
      | None \<Rightarrow> lo_virtualControllerHostId (gs_linkOptions g))"

definition selectedRoutes :: "gui_state \<Rightarrow> string set \<Rightarrow> vc_route list" where
  "selectedRoutes g selectedIds =
     List.map_filter (\<lambda>controllerId.
         if configuredHostId g controllerId = [] then None
         else Some \<lparr>vr_controllerId = controllerId, vr_hostId = configuredHostId g controllerId,
                    vr_hostInstanceKey = [], vr_options = lo_virtualControllerHostOptions (gs_linkOptions g)\<rparr>)
       (sorted_list_of_set selectedIds)"

definition launchSelectedStart :: "string set \<Rightarrow> gui_state \<Rightarrow> gui_state" where
  "launchSelectedStart selectedIds g =
     (if selectedIds = {} then g
      else call (LaunchStart ((gs_linkOptions g)\<lparr>lo_virtualControllerRoutes := selectedRoutes g selectedIds\<rparr>) selectedIds)
             (g\<lparr>gs_startInFlight := True\<rparr>))"

definition launchStop :: "gui_state \<Rightarrow> gui_state" where
  "launchStop g = call LaunchStop (g\<lparr>gs_stopInFlight := True\<rparr>)"

definition launchScan :: "gui_state \<Rightarrow> gui_state" where
  "launchScan g = call (LaunchScan (gs_linkOptions g)) (g\<lparr>gs_scanInFlight := True\<rparr>)"

text \<open>The state before the first frame, from the registry, the saved drivers and the files.\<close>

definition startupHostId :: "'h registry \<Rightarrow> gui_files \<Rightarrow> string" where
  "startupHostId reg files =
     (let saved = loadDefaultVirtualControllerHostId (gf_defaultHost files) in
      if saved \<noteq> [] then saved
      else case defaultVirtualControllerHost reg of Some info \<Rightarrow> hi_id info | None \<Rightarrow> [])"

definition openGui :: "'h registry \<Rightarrow> options_map \<Rightarrow> gui_files \<Rightarrow> gui_state" where
  "openGui reg drivers files =
     (let disabled = loadDisabledControllerTypes (lo_disabledControllerTypes default_options) (gf_disabledTypes files)
      in launchScan
        \<lparr>gs_linkOptions = default_options\<lparr>lo_selectedControllerDrivers := drivers,
            lo_virtualControllerHostId := startupHostId reg files, lo_disabledControllerTypes := disabled\<rparr>,
         gs_disabledControllerTypes = disabled, gs_scanInFlight = False, gs_startInFlight = False,
         gs_rescanInFlight = False, gs_stopInFlight = False, gs_linkSyncPending = False,
         gs_enabledControllers = loadEnabledControllers (gf_enabled files),
         gs_controllerHostRoutes = loadControllerHostRoutes (gf_routes files),
         gs_windows = {}, gs_files = files, gs_calls = []\<rparr>)"

section \<open>The beginning of a frame\<close>

text \<open>What a frame reads: which futures are ready, the snapshot, and what was clicked.\<close>

datatype gui_action =
    RescanClicked
  | BulkClicked
  | PowerClicked string
  | RouteDefaultClicked string
  | RouteHostClicked string string
  | DefaultHostChosen string
  | EnableAllClicked
  | TypeToggled string
  | DriverChosen string string bool
      \<comment> \<open>type and driver, and whether the library accepted them\<close>
  | AvbChanged
  | WindowOpened gui_window
  | WindowClosed gui_window

record gui_input =
  gi_scanReady :: bool
  gi_startReady :: bool
  gi_stopReady :: bool
  gi_snapshot :: runtime_snapshot
  gi_managers :: "manager_info list"
  gi_action :: "gui_action option"

abbreviation gi_managerTypes :: "gui_input \<Rightarrow> string list" where
  "gi_managerTypes inp \<equiv> managerTypes (gi_managers inp)"

definition collectFutures :: "gui_input \<Rightarrow> gui_state \<Rightarrow> gui_state" where
  "collectFutures inp g =
     (let g1 = (if gs_scanInFlight g \<and> gi_scanReady inp
                then g\<lparr>gs_scanInFlight := False, gs_linkSyncPending := True\<rparr> else g);
          g2 = (if gs_startInFlight g1 \<and> gi_startReady inp
                then g1\<lparr>gs_startInFlight := False, gs_rescanInFlight := False\<rparr> else g1)
      in if gs_stopInFlight g2 \<and> gi_stopReady inp then g2\<lparr>gs_stopInFlight := False\<rparr> else g2)"

definition isAvailable :: "'h registry \<Rightarrow> string \<Rightarrow> bool" where
  "isAvailable reg hostId \<longleftrightarrow> hostId \<in> set (map hi_id (availableVirtualControllerHosts reg))"

text \<open>Hosts and controllers that are no longer there are forgotten.\<close>

definition checkDefaultHost :: "'h registry \<Rightarrow> gui_state \<Rightarrow> gui_state" where
  "checkDefaultHost reg g =
     (let hostId = lo_virtualControllerHostId (gs_linkOptions g) in
      if hostId = [] \<or> \<not> isAvailable reg hostId
      then g\<lparr>gs_linkOptions := (gs_linkOptions g)\<lparr>lo_virtualControllerHostId :=
               (case defaultVirtualControllerHost reg of Some info \<Rightarrow> hi_id info | None \<Rightarrow> [])\<rparr>\<rparr>
      else g)"

definition checkRoutes :: "'h registry \<Rightarrow> gui_state \<Rightarrow> gui_state" where
  "checkRoutes reg g =
     (let routes = gs_controllerHostRoutes g;
          kept = fmfilter (\<lambda>c. isAvailable reg (the (fmlookup routes c))) routes
      in if kept = routes then g else saveRoutes (g\<lparr>gs_controllerHostRoutes := kept\<rparr>))"

definition linkableIds :: "runtime_snapshot \<Rightarrow> string set" where
  "linkableIds sn = dc_id ` set (filter dc_linkable (sn_discovered sn))"

definition checkEnabled :: "runtime_snapshot \<Rightarrow> gui_state \<Rightarrow> gui_state" where
  "checkEnabled sn g =
     (let kept = gs_enabledControllers g \<inter> linkableIds sn in
      if \<not> sn_hasDiscoveryResults sn \<or> kept = gs_enabledControllers g then g
      else saveEnabled (g\<lparr>gs_enabledControllers := kept\<rparr>))"

definition selectedLinkableIds :: "runtime_snapshot \<Rightarrow> gui_state \<Rightarrow> string set" where
  "selectedLinkableIds sn g = linkableIds sn \<inter> gs_enabledControllers g"

definition allControllersRunning :: "runtime_snapshot \<Rightarrow> bool" where
  "allControllersRunning sn \<longleftrightarrow>
     linkableIds sn \<noteq> {} \<and> sn_state sn = Running \<and> linkableIds sn \<subseteq> es_id ` set (sn_endpoints sn)"

section \<open>What a click does\<close>

abbreviation linkRunning :: "runtime_snapshot \<Rightarrow> bool" where
  "linkRunning sn \<equiv> sn_state sn = Running \<or> sn_state sn = StopRequested"

definition taskInFlight :: "gui_state \<Rightarrow> bool" where
  "taskInFlight g \<longleftrightarrow> gs_scanInFlight g \<or> gs_startInFlight g \<or> gs_stopInFlight g"

definition requestDiscoverySettingsSync :: "runtime_snapshot \<Rightarrow> gui_state \<Rightarrow> gui_state" where
  "requestDiscoverySettingsSync sn g =
     (let types = gs_disabledControllerTypes g;
          g1 = g\<lparr>gs_linkOptions := (gs_linkOptions g)\<lparr>lo_disabledControllerTypes := types\<rparr>,
                 gs_files := (gs_files g)\<lparr>gf_disabledTypes := Some (saveDisabledControllerTypes types)\<rparr>\<rparr>
      in if \<not> taskInFlight g1 \<and> \<not> gs_rescanInFlight g1
         then if linkRunning sn then g1\<lparr>gs_rescanInFlight := True, gs_linkSyncPending := False\<rparr>
              else launchScan (g1\<lparr>gs_linkSyncPending := False\<rparr>)
         else let g2 = g1\<lparr>gs_linkSyncPending := True\<rparr>
              in if gs_startInFlight g2 then call CallRequestStop g2 else g2)"

text \<open>A change of the selection: it is applied later, and a start that is running is stopped.\<close>

definition selectionChanged :: "gui_state \<Rightarrow> gui_state" where
  "selectionChanged g =
     (let g1 = g\<lparr>gs_linkSyncPending := True\<rparr> in
      if gs_startInFlight g1 then call CallRequestStop g1 else g1)"

definition clickRescan :: "runtime_snapshot \<Rightarrow> gui_state \<Rightarrow> gui_state" where
  "clickRescan sn g =
     (if gs_scanInFlight g \<or> gs_rescanInFlight g \<or> gs_startInFlight g \<or> gs_stopInFlight g then g
      else if linkRunning sn
      then (call CallInvalidate g)\<lparr>gs_rescanInFlight := True, gs_linkSyncPending := False\<rparr>
      else launchScan g)"

definition clickBulk :: "runtime_snapshot \<Rightarrow> gui_state \<Rightarrow> gui_state" where
  "clickBulk sn g =
     (if taskInFlight g \<or> gs_rescanInFlight g \<or> linkableIds sn = {} then g
      else (saveEnabled (g\<lparr>gs_enabledControllers := (if allControllersRunning sn then {} else linkableIds sn)\<rparr>))
             \<lparr>gs_linkSyncPending := True\<rparr>)"

definition clickPower :: "runtime_snapshot \<Rightarrow> string \<Rightarrow> gui_state \<Rightarrow> gui_state" where
  "clickPower sn controllerId g =
     (if controllerId \<notin> linkableIds sn then g
      else let enabled = gs_enabledControllers g in
        selectionChanged (saveEnabled (g\<lparr>gs_enabledControllers :=
          (if controllerId \<in> enabled then enabled - {controllerId} else insert controllerId enabled)\<rparr>)))"

definition clickRoute :: "'h registry \<Rightarrow> runtime_snapshot \<Rightarrow> string \<Rightarrow> string option \<Rightarrow> gui_state \<Rightarrow> gui_state" where
  "clickRoute reg sn controllerId host g =
     (if controllerId \<notin> dc_id ` set (sn_discovered sn) then g
      else let routes = gs_controllerHostRoutes g in
        case host of
          None \<Rightarrow> selectionChanged (saveRoutes (g\<lparr>gs_controllerHostRoutes := fmdrop controllerId routes\<rparr>))
        | Some hostId \<Rightarrow>
            (if \<not> isAvailable reg hostId then g
             else selectionChanged (saveRoutes (g\<lparr>gs_controllerHostRoutes :=
               (if hostId = lo_virtualControllerHostId (gs_linkOptions g) then fmdrop controllerId routes
                else fmupd controllerId hostId routes)\<rparr>))))"

definition chooseDefaultHost :: "'h registry \<Rightarrow> string \<Rightarrow> gui_state \<Rightarrow> gui_state" where
  "chooseDefaultHost reg hostId g =
     (if taskInFlight g \<or> gs_rescanInFlight g \<or> \<not> isAvailable reg hostId then g
      else g\<lparr>gs_linkOptions := (gs_linkOptions g)\<lparr>lo_virtualControllerHostId := hostId\<rparr>,
             gs_files := (gs_files g)\<lparr>gf_defaultHost := Some (saveDefaultVirtualControllerHostId hostId)\<rparr>,
             gs_linkSyncPending := True\<rparr>)"

definition toggleType :: "gui_input \<Rightarrow> string \<Rightarrow> gui_state \<Rightarrow> gui_state" where
  "toggleType inp type g =
     (let disabled = gs_disabledControllerTypes g in
      if type = [] \<or> type \<notin> set (gi_managerTypes inp) then g
      else requestDiscoverySettingsSync (gi_snapshot inp) (g\<lparr>gs_disabledControllerTypes :=
             (if type \<in> disabled then disabled - {type} else insert type disabled)\<rparr>))"

definition chooseDriver :: "gui_input \<Rightarrow> string \<Rightarrow> string \<Rightarrow> bool \<Rightarrow> gui_state \<Rightarrow> gui_state" where
  "chooseDriver inp type driver accepted g =
     (if taskInFlight g \<or> gs_rescanInFlight g \<or> driver \<notin> offeredDrivers (gi_managers inp) type \<or> \<not> accepted then g
      else requestDiscoverySettingsSync (gi_snapshot inp)
             (g\<lparr>gs_linkOptions := (gs_linkOptions g)\<lparr>lo_selectedControllerDrivers :=
                fmupd type driver (lo_selectedControllerDrivers (gs_linkOptions g))\<rparr>\<rparr>))"

definition avbSettingsLocked :: "runtime_snapshot \<Rightarrow> gui_state \<Rightarrow> bool" where
  "avbSettingsLocked sn g \<longleftrightarrow> taskInFlight g \<or> gs_rescanInFlight g \<or> (\<exists>e \<in> set (sn_endpoints sn). es_type e = ''AVB'')"

text \<open>The settings button is in the main window, the buttons for the others are in the settings.\<close>

definition openWindow :: "gui_window \<Rightarrow> gui_state \<Rightarrow> gui_state" where
  "openWindow w g =
     (if w = SettingsWindow \<or> SettingsWindow \<in> gs_windows g then g\<lparr>gs_windows := insert w (gs_windows g)\<rparr> else g)"

text \<open>What is in a window can be clicked while the window is shown.\<close>

definition inWindow :: "gui_window \<Rightarrow> gui_state \<Rightarrow> gui_state \<Rightarrow> gui_state" where
  "inWindow w g g' = (if w \<in> gs_windows g then g' else g)"

fun click :: "'h registry \<Rightarrow> gui_input \<Rightarrow> gui_action \<Rightarrow> gui_state \<Rightarrow> gui_state" where
  "click reg inp RescanClicked g = clickRescan (gi_snapshot inp) g"
| "click reg inp BulkClicked g = clickBulk (gi_snapshot inp) g"
| "click reg inp (PowerClicked c) g = clickPower (gi_snapshot inp) c g"
| "click reg inp (RouteDefaultClicked c) g = clickRoute reg (gi_snapshot inp) c None g"
| "click reg inp (RouteHostClicked c h) g = clickRoute reg (gi_snapshot inp) c (Some h) g"
| "click reg inp (DefaultHostChosen h) g = inWindow SettingsWindow g (chooseDefaultHost reg h g)"
| "click reg inp EnableAllClicked g =
     inWindow SettingsWindow g (if gs_disabledControllerTypes g = {} then g
      else requestDiscoverySettingsSync (gi_snapshot inp) (g\<lparr>gs_disabledControllerTypes := {}\<rparr>))"
| "click reg inp (TypeToggled ty) g = inWindow SettingsWindow g (toggleType inp ty g)"
| "click reg inp (DriverChosen ty d accepted) g = inWindow SettingsWindow g (chooseDriver inp ty d accepted g)"
| "click reg inp AvbChanged g =
     inWindow AvbWindow g
       (if avbSettingsLocked (gi_snapshot inp) g then g else requestDiscoverySettingsSync (gi_snapshot inp) g)"
| "click reg inp (WindowOpened w) g = openWindow w g"
| "click reg inp (WindowClosed w) g = g\<lparr>gs_windows := gs_windows g - {w}\<rparr>"

section \<open>The end of a frame\<close>

definition schedule :: "runtime_snapshot \<Rightarrow> gui_state \<Rightarrow> gui_state" where
  "schedule sn g =
     (let selected = selectedLinkableIds sn g in
      if taskInFlight g then g
      else if gs_rescanInFlight g
      then if linkRunning sn then launchStop g
           else if selected \<noteq> {} then launchSelectedStart selected (g\<lparr>gs_linkSyncPending := False\<rparr>)
           else g\<lparr>gs_rescanInFlight := False\<rparr>
      else if gs_linkSyncPending g
      then if selected \<noteq> {} then launchSelectedStart selected (g\<lparr>gs_linkSyncPending := False\<rparr>)
           else if linkRunning sn then launchStop (g\<lparr>gs_linkSyncPending := False\<rparr>)
           else g\<lparr>gs_linkSyncPending := False\<rparr>
      else g)"

definition guiFrame :: "'h registry \<Rightarrow> gui_input \<Rightarrow> gui_state \<Rightarrow> gui_state" where
  "guiFrame reg inp g =
     (let sn = gi_snapshot inp;
          g1 = collectFutures inp (g\<lparr>gs_calls := []\<rparr>);
          g2 = checkEnabled sn (checkRoutes reg (checkDefaultHost reg g1));
          g3 = (case gi_action inp of None \<Rightarrow> g2 | Some a \<Rightarrow> click reg inp a g2)
      in schedule sn g3)"

section \<open>The window and the link\<close>

text \<open>
  The window with the link it drives. A launched task waits in \<open>gy_tasks\<close> until its call on
  the link is made, as one step; only then can its future be ready. While a task waits, its
  call may be under way, so that a snapshot may show anything; otherwise it shows the link.
  The link's monitor and targets go on meanwhile. A frame's own calls are made at once.
\<close>

datatype gui_task = ScanTask link_options | StartTask link_options "string set" | StopTask

record ('c, 'h, 'w) gui_system =
  gy_gui :: gui_state
  gy_link :: "('c, 'h, 'w) runtime"
  gy_tasks :: "gui_task list"

fun launched :: "gui_call \<Rightarrow> gui_task option" where
  "launched (LaunchScan options) = Some (ScanTask options)"
| "launched (LaunchStart options selected) = Some (StartTask options selected)"
| "launched LaunchStop = Some StopTask"
| "launched CallRequestStop = None"
| "launched CallInvalidate = None"

fun directCall :: "gui_call \<Rightarrow> ('c, 'h, 'w) runtime \<Rightarrow> ('c, 'h, 'w) runtime" where
  "directCall CallRequestStop rt = requestStop rt"
| "directCall CallInvalidate rt = invalidateDiscoveryCache rt"
| "directCall (LaunchScan options) rt = rt"
| "directCall (LaunchStart options selected) rt = rt"
| "directCall LaunchStop rt = rt"

fun taskEvent :: "'c link_inputs \<Rightarrow> gui_task \<Rightarrow> 'c link_event" where
  "taskEvent inp (ScanTask options) = Scan inp options"
| "taskEvent inp (StartTask options selected) = Start inp options selected"
| "taskEvent inp StopTask = Stop"

definition isScanTask :: "gui_task \<Rightarrow> bool" where "isScanTask t \<longleftrightarrow> (case t of ScanTask options \<Rightarrow> True | _ \<Rightarrow> False)"
definition isStartTask :: "gui_task \<Rightarrow> bool" where "isStartTask t \<longleftrightarrow> (case t of StartTask options selected \<Rightarrow> True | _ \<Rightarrow> False)"
definition isStopTask :: "gui_task \<Rightarrow> bool" where "isStopTask t \<longleftrightarrow> t = StopTask"

definition input_fits :: "('c, 'h, 'w) link_env \<Rightarrow> gui_input \<Rightarrow> ('c, 'h, 'w) gui_system \<Rightarrow> bool" where
  "input_fits env inp sys \<longleftrightarrow>
     (gi_scanReady inp \<longrightarrow> \<not> list_ex isScanTask (gy_tasks sys)) \<and>
     (gi_startReady inp \<longrightarrow> \<not> list_ex isStartTask (gy_tasks sys)) \<and>
     (gi_stopReady inp \<longrightarrow> \<not> list_ex isStopTask (gy_tasks sys)) \<and>
     (gy_tasks sys = [] \<longrightarrow> gi_snapshot inp = fst (snapshotLink env (gy_link sys)))"

definition frameStep ::
  "('c, 'h, 'w) link_env \<Rightarrow> gui_input \<Rightarrow> ('c, 'h, 'w) gui_system \<Rightarrow> ('c, 'h, 'w) gui_system" where
  "frameStep env inp sys =
     (let g = guiFrame (le_registry env) inp (gy_gui sys);
          rt = snd (snapshotLink env (gy_link sys))
      in \<lparr>gy_gui = g, gy_link = fold directCall (gs_calls g) rt,
          gy_tasks = gy_tasks sys @ List.map_filter launched (gs_calls g)\<rparr>)"

definition openSystem ::
  "('c, 'h, 'w) link_env \<Rightarrow> 'w \<Rightarrow> options_map \<Rightarrow> gui_files \<Rightarrow> ('c, 'h, 'w) gui_system" where
  "openSystem env w drivers files =
     (let g = openGui (le_registry env) drivers files
      in \<lparr>gy_gui = g, gy_link = initialLink env w, gy_tasks = List.map_filter launched (gs_calls g)\<rparr>)"

fun background :: "'c link_event \<Rightarrow> bool" where
  "background (Monitor clks) = True"
| "background (TargetActivity i clk ev) = True"
| "background ev = False"

inductive gui_reachable :: "('c, 'h, 'w) link_env \<Rightarrow> ('c, 'h, 'w) gui_system \<Rightarrow> bool" for env where
  opened: "gui_reachable env (openSystem env w drivers files)"
| frame: "gui_reachable env sys \<Longrightarrow> \<not> rt_terminated (gy_link sys) \<Longrightarrow> input_fits env inp sys \<Longrightarrow>
    gui_reachable env (frameStep env inp sys)"
| task: "gui_reachable env sys \<Longrightarrow> \<not> rt_terminated (gy_link sys) \<Longrightarrow> gy_tasks sys = ts @ t # us \<Longrightarrow>
    link_step env (taskEvent inp t) (gy_link sys) = Some rt \<Longrightarrow>
    gui_reachable env (sys\<lparr>gy_link := rt, gy_tasks := ts @ us\<rparr>)"
| activity: "gui_reachable env sys \<Longrightarrow> \<not> rt_terminated (gy_link sys) \<Longrightarrow> background ev \<Longrightarrow>
    link_step env ev (gy_link sys) = Some rt \<Longrightarrow> gui_reachable env (sys\<lparr>gy_link := rt\<rparr>)"

text \<open>Closing the window: the tasks under way are waited for, then the link is stopped.\<close>

fun finishTasks ::
  "('c, 'h, 'w) link_env \<Rightarrow> 'c link_inputs \<Rightarrow> gui_task list \<Rightarrow> ('c, 'h, 'w) runtime \<Rightarrow> ('c, 'h, 'w) runtime option" where
  "finishTasks env inp [] rt = Some rt"
| "finishTasks env inp (t # ts) rt =
     (case link_step env (taskEvent inp t) rt of None \<Rightarrow> None | Some rt' \<Rightarrow> finishTasks env inp ts rt')"

definition closeGui ::
  "('c, 'h, 'w) link_env \<Rightarrow> 'c link_inputs \<Rightarrow> ('c, 'h, 'w) gui_system \<Rightarrow> ('c, 'h, 'w) runtime option" where
  "closeGui env inp sys =
     map_option (stopLink env) (finishTasks env inp (gy_tasks sys) (requestStop (gy_link sys)))"

section \<open>Labels\<close>

text \<open>The states shown for a controller and for the host that presents it.\<close>

definition hostStateLabel :: "runtime_snapshot \<Rightarrow> gui_state \<Rightarrow> discovered_snapshot \<Rightarrow> string" where
  "hostStateLabel sn g controller =
     (let active = (dc_id controller \<in> es_id ` set (sn_endpoints sn));
          selected = (dc_id controller \<in> gs_enabledControllers g);
          pending = (dc_linkable controller \<and> selected \<and> \<not> active \<and>
            (gs_startInFlight g \<or> gs_stopInFlight g \<or> gs_linkSyncPending g \<or> gs_rescanInFlight g));
          online = (active \<and> sn_state sn = Running);
          failed = (selected \<and> \<not> active \<and> sn_state sn = Failed)
      in if online then ''Online'' else if failed then ''Failed'' else if pending then ''Starting''
         else if selected then ''Enabled'' else ''Off'')"

definition controllerStateLabel :: "runtime_snapshot \<Rightarrow> gui_state \<Rightarrow> discovered_snapshot \<Rightarrow> string" where
  "controllerStateLabel sn g controller =
     (let active = (dc_id controller \<in> es_id ` set (sn_endpoints sn));
          selected = (dc_id controller \<in> gs_enabledControllers g);
          pending = (dc_linkable controller \<and> selected \<and> \<not> active \<and>
            (gs_startInFlight g \<or> gs_stopInFlight g \<or> gs_linkSyncPending g \<or> gs_rescanInFlight g))
      in if \<not> dc_linkable controller then ''Unavailable'' else if active then ''Linked''
         else if pending then ''Starting'' else if selected then ''Enabled'' else ''Off'')"

definition endpointAddressLabel :: "vc_endpoint option \<Rightarrow> string" where
  "endpointAddressLabel endpoint =
     (case endpoint of
        None \<Rightarrow> []
      | Some e \<Rightarrow>
          if ep_address e \<noteq> [] \<and> 0 < ep_port e then ep_address e @ '':'' @ to_string (unat (ep_port e))
          else if ep_address e \<noteq> [] then ep_address e
          else if ep_value e \<noteq> [] then ep_value e else [])"

end
