(* ===== verification/Libera_Target_Props.thy ===== *)
theory Libera_Target_Props
  imports Libera_Target
begin

text \<open>
  Correctness of \<open>LiberaTarget\<close>: what each operation leaves alone, the bounds of the rate and
  queue limits, the invariant of a target, the sink contract it provides to hosts, and
  what the controller's callback may be given.
\<close>

section \<open>Frames: what the small operations leave alone\<close>

lemma snd_snapshot:
  "snd (downstreamBufferSnapshot co True t) =
     t\<lparr>t_lastObserved := fst (downstreamBufferSnapshot co True t)\<rparr>"
  by (simp add: downstreamBufferSnapshot_def Let_def split: option.splits)

lemma snd_status:
  "snd (targetStatusSnapshot co t) =
     t\<lparr>t_lastObserved := fst (downstreamBufferSnapshot co True t)\<rparr>"
  by (simp add: targetStatusSnapshot_def getStatsSnapshot_def Let_def snd_snapshot [symmetric]
      split: prod.splits)

lemma snd_makeResult:
  "snd (makeSubmissionResult co a n d t) =
     t\<lparr>t_lastObserved := fst (downstreamBufferSnapshot co True t)\<rparr>"
  by (simp add: makeSubmissionResult_def snd_status [symmetric] split: prod.splits)

lemma fst_makeResult [simp]:
  "sr_accepted (fst (makeSubmissionResult co a n d t)) = a"
  "sr_submittedPoints (fst (makeSubmissionResult co a n d t)) = n"
  "sr_droppedPoints (fst (makeSubmissionResult co a n d t)) = d"
  "sr_acceptedPoints (fst (makeSubmissionResult co a n d t)) = (if a then n - min n d else 0)"
  by (simp_all add: makeSubmissionResult_def split: prod.splits)

lemma install_frame [frame_simps]:
  "t_pendingPoints (installPointCallback co t) = t_pendingPoints t"
  "t_maxQueuedPoints (installPointCallback co t) = t_maxQueuedPoints t"
  "t_latencyMs (installPointCallback co t) = t_latencyMs t"
  "t_maxLatencyMs (installPointCallback co t) = t_maxLatencyMs t"
  "t_currentPointRate (installPointCallback co t) = t_currentPointRate t"
  "t_commandedInputPps (installPointCallback co t) = t_commandedInputPps t"
  "t_maxPointRateValue (installPointCallback co t) = t_maxPointRateValue t"
  "t_info (installPointCallback co t) = t_info t"
  "t_counters (installPointCallback co t) = t_counters t"
  by (simp_all add: installPointCallback_def)

lemma rate_frame [frame_simps]:
  "t_pendingPoints (maybeUpdatePointRate co r t) = t_pendingPoints t"
  "t_maxQueuedPoints (maybeUpdatePointRate co r t) = t_maxQueuedPoints t"
  "t_latencyMs (maybeUpdatePointRate co r t) = t_latencyMs t"
  "t_maxLatencyMs (maybeUpdatePointRate co r t) = t_maxLatencyMs t"
  "t_maxPointRateValue (maybeUpdatePointRate co r t) = t_maxPointRateValue t"
  "t_info (maybeUpdatePointRate co r t) = t_info t"
  "t_counters (maybeUpdatePointRate co r t) = t_counters t"
  "t_buffering (maybeUpdatePointRate co r t) = t_buffering t"
  by (simp_all add: maybeUpdatePointRate_def Let_def)

lemma count_frame [frame_simps]:
  "t_pendingPoints (countFrame n sub t) = t_pendingPoints t"
  "t_maxQueuedPoints (countFrame n sub t) = t_maxQueuedPoints t"
  "t_latencyMs (countFrame n sub t) = t_latencyMs t"
  "t_maxLatencyMs (countFrame n sub t) = t_maxLatencyMs t"
  "t_currentPointRate (countFrame n sub t) = t_currentPointRate t"
  "t_commandedInputPps (countFrame n sub t) = t_commandedInputPps t"
  "t_maxPointRateValue (countFrame n sub t) = t_maxPointRateValue t"
  "t_info (countFrame n sub t) = t_info t"
  "t_buffering (countFrame n sub t) = t_buffering t"
  by (simp_all add: countFrame_def)

lemma log_frame [frame_simps]:
  "t_pendingPoints (logUnderrunIfDue a b req n m k l h t) = t_pendingPoints t"
  "t_maxQueuedPoints (logUnderrunIfDue a b req n m k l h t) = t_maxQueuedPoints t"
  "t_latencyMs (logUnderrunIfDue a b req n m k l h t) = t_latencyMs t"
  "t_maxLatencyMs (logUnderrunIfDue a b req n m k l h t) = t_maxLatencyMs t"
  "t_currentPointRate (logUnderrunIfDue a b req n m k l h t) = t_currentPointRate t"
  "t_commandedInputPps (logUnderrunIfDue a b req n m k l h t) = t_commandedInputPps t"
  "t_maxPointRateValue (logUnderrunIfDue a b req n m k l h t) = t_maxPointRateValue t"
  "t_info (logUnderrunIfDue a b req n m k l h t) = t_info t"
  "t_counters (logUnderrunIfDue a b req n m k l h t) = t_counters t"
  "t_lastOutputPoint (logUnderrunIfDue a b req n m k l h t) = t_lastOutputPoint t"
  "t_haveLastOutputPoint (logUnderrunIfDue a b req n m k l h t) = t_haveLastOutputPoint t"
  by (simp_all add: logUnderrunIfDue_def Let_def)

lemma latency_frame [frame_simps]:
  "t_pendingPoints (maybeIncreaseLatencyOnUnderrun now n m k t) = t_pendingPoints t"
  "t_maxQueuedPoints (maybeIncreaseLatencyOnUnderrun now n m k t) = t_maxQueuedPoints t"
  "t_maxLatencyMs (maybeIncreaseLatencyOnUnderrun now n m k t) = t_maxLatencyMs t"
  "t_currentPointRate (maybeIncreaseLatencyOnUnderrun now n m k t) = t_currentPointRate t"
  "t_commandedInputPps (maybeIncreaseLatencyOnUnderrun now n m k t) = t_commandedInputPps t"
  "t_maxPointRateValue (maybeIncreaseLatencyOnUnderrun now n m k t) = t_maxPointRateValue t"
  "t_info (maybeIncreaseLatencyOnUnderrun now n m k t) = t_info t"
  "t_counters (maybeIncreaseLatencyOnUnderrun now n m k t) = t_counters t"
  "t_lastOutputPoint (maybeIncreaseLatencyOnUnderrun now n m k t) = t_lastOutputPoint t"
  "t_haveLastOutputPoint (maybeIncreaseLatencyOnUnderrun now n m k t) = t_haveLastOutputPoint t"
  by (simp_all add: maybeIncreaseLatencyOnUnderrun_def Let_def)

lemma snapshot_frames:
  "fst (downstreamBufferSnapshot co True (countFrame n sub t)) = fst (downstreamBufferSnapshot co True t)"
  "fst (downstreamBufferSnapshot co True (t\<lparr>t_frameReplacementMode := b\<rparr>)) =
     fst (downstreamBufferSnapshot co True t)"
  "fst (downstreamBufferSnapshot co True (t\<lparr>t_counters := k\<rparr>)) =
     fst (downstreamBufferSnapshot co True t)"
  "fst (downstreamBufferSnapshot co True (t\<lparr>t_buffering := b\<rparr>)) =
     fst (downstreamBufferSnapshot co True t)"
  by (simp_all add: downstreamBufferSnapshot_def countFrame_def Let_def split: option.splits)

section \<open>Bounds of the limits\<close>

lemma targetBufferedPoints_bounds:
  "1000 \<le> targetBufferedPoints t \<and> targetBufferedPoints t \<le> max 1000 (t_maxQueuedPoints t - 1)"
  by (simp add: targetBufferedPoints_def Let_def std_clamp_bounds)

lemma livePointLimit_bounds:
  "1000 \<le> t_maxQueuedPoints t \<Longrightarrow>
     1000 \<le> livePointLimit m s t \<and> livePointLimit m s t \<le> t_maxQueuedPoints t"
  by (simp add: livePointLimit_def Let_def std_clamp_bounds)

lemma live_limits:
  "1000 \<le> t_maxQueuedPoints t \<Longrightarrow> liveContinuousPointLimit t \<le> t_maxQueuedPoints t"
  "1000 \<le> t_maxQueuedPoints t \<Longrightarrow> liveReplacementPointLimit t \<le> t_maxQueuedPoints t"
  by (simp_all add: liveContinuousPointLimit_def liveReplacementPointLimit_def livePointLimit_bounds)

section \<open>Trimming the queue\<close>

lemma desiredDropFor_bounds:
  assumes "limit < length q"
  shows "length q - limit \<le> desiredDropFor limit q" and "desiredDropFor limit q \<le> length q"
    and "desiredDropFor limit q = length q - limit \<or> isCut q (desiredDropFor limit q)"
proof -
  let ?n = "length q - limit"
  have s: "min (max ?n 1) (length q) = ?n" using assms by auto
  show "?n \<le> desiredDropFor limit q" "desiredDropFor limit q \<le> length q"
    "desiredDropFor limit q = ?n \<or> isCut q (desiredDropFor limit q)"
    unfolding desiredDropFor_def Let_def s
    by (auto split: option.splits dest!: find_Some_set)
qed

lemma enqueue_drop:
  "enqueueContinuous points limit pending =
     (let q = pending @ points; k = (if limit < length q then desiredDropFor limit q else 0)
      in (drop k q, k))"
  using desiredDropFor_bounds(2) [of limit "pending @ points"]
  by (simp add: enqueueContinuous_def Let_def pop_fronts_drop)

lemma dropWhileOver_drop:
  "dropWhileOver bound extra xs k =
     (let n = min (length xs) (length xs + extra - bound) in (drop n xs, k + n))"
proof (induction bound extra xs k rule: dropWhileOver.induct)
  case (1 bound extra k)
  then show ?case by simp
next
  case (2 bound extra x xs k)
  show ?case
  proof (cases "bound < length (x # xs) + extra")
    case True
    then have "length (x # xs) + extra - bound = Suc (length xs + extra - bound)" by simp
    with True 2 show ?thesis by (simp del: length_Cons add: length_Cons [of x xs] Let_def)
  next
    case False
    then show ?thesis by (simp add: Let_def)
  qed
qed

section \<open>One operation at a time\<close>

lemma acceptSlice_frame [frame_simps]:
  "t_pendingPoints (acceptSlice co sub t) = t_pendingPoints t"
  "t_maxQueuedPoints (acceptSlice co sub t) = t_maxQueuedPoints t"
  "t_latencyMs (acceptSlice co sub t) = t_latencyMs t"
  "t_maxLatencyMs (acceptSlice co sub t) = t_maxLatencyMs t"
  "t_maxPointRateValue (acceptSlice co sub t) = t_maxPointRateValue t"
  "t_info (acceptSlice co sub t) = t_info t"
  "t_counters (acceptSlice co sub t) = (t_counters t)\<lparr>
     c_receivedSlices := c_receivedSlices (t_counters t) + 1,
     c_receivedPoints := c_receivedPoints (t_counters t) + of_nat (length (sl_points sub))\<rparr>"
  by (simp_all add: acceptSlice_def Let_def snd_snapshot frame_simps)

text \<open>The number of points \<open>submitContinuous\<close> drops.\<close>

definition continuousDrop :: "'c controller_ops \<Rightarrow> slice_submission \<Rightarrow> 'c target \<Rightarrow> nat" where
  "continuousDrop co sub t =
     (let limit = liveContinuousPointLimit (acceptSlice co sub t);
          q = t_pendingPoints t @ sl_points sub
      in if limit < length q then desiredDropFor limit q else 0)"

lemma enqueue_accept:
  "enqueueContinuous (sl_points sub) (liveContinuousPointLimit (acceptSlice co sub t)) (t_pendingPoints t)
     = (drop (continuousDrop co sub t) (t_pendingPoints t @ sl_points sub), continuousDrop co sub t)"
  by (simp add: enqueue_drop continuousDrop_def Let_def)

lemma submitContinuous_empty:
  "sl_points sub = [] \<Longrightarrow> submitContinuous co clk sub t = makeSubmissionResult co False 0 0 t"
  by (simp add: submitContinuous_def)

lemma submitContinuous_state:
  assumes "sl_points sub \<noteq> []"
  shows "t_pendingPoints (snd (submitContinuous co clk sub t)) =
      drop (continuousDrop co sub t) (t_pendingPoints t @ sl_points sub)"
    and "t_counters (snd (submitContinuous co clk sub t)) =
      (t_counters t)\<lparr>c_receivedSlices := c_receivedSlices (t_counters t) + 1,
        c_receivedPoints := c_receivedPoints (t_counters t) + of_nat (length (sl_points sub)),
        c_receivedLitPoints :=
          c_receivedLitPoints (t_counters t) + of_nat (countLitPoints (sl_points sub)),
        c_droppedPoints := c_droppedPoints (t_counters t) + of_nat (continuousDrop co sub t)\<rparr>"
  using assms
  by (auto simp: submitContinuous_def Let_def frame_simps enqueue_accept snd_makeResult)

lemma submitContinuous_frame [frame_simps]:
  "t_maxQueuedPoints (snd (submitContinuous co clk sub t)) = t_maxQueuedPoints t"
  "t_latencyMs (snd (submitContinuous co clk sub t)) = t_latencyMs t"
  "t_maxLatencyMs (snd (submitContinuous co clk sub t)) = t_maxLatencyMs t"
  "t_maxPointRateValue (snd (submitContinuous co clk sub t)) = t_maxPointRateValue t"
  "t_info (snd (submitContinuous co clk sub t)) = t_info t"
  by (simp_all add: submitContinuous_def Let_def frame_simps enqueue_accept snd_makeResult)

lemma submitContinuous_result:
  assumes "sl_points sub \<noteq> []"
  shows "sr_accepted (fst (submitContinuous co clk sub t))"
    and "sr_submittedPoints (fst (submitContinuous co clk sub t)) = length (sl_points sub)"
    and "sr_droppedPoints (fst (submitContinuous co clk sub t)) = continuousDrop co sub t"
    and "sr_acceptedPoints (fst (submitContinuous co clk sub t)) =
      length (sl_points sub) - min (length (sl_points sub)) (continuousDrop co sub t)"
  using assms by (simp_all add: submitContinuous_def Let_def frame_simps enqueue_accept)

lemma continuousDrop_bounds:
  "continuousDrop co sub t \<le> length (t_pendingPoints t @ sl_points sub)"
  "1000 \<le> t_maxQueuedPoints t \<Longrightarrow>
     length (drop (continuousDrop co sub t) (t_pendingPoints t @ sl_points sub)) \<le> t_maxQueuedPoints t"
proof -
  let ?l = "liveContinuousPointLimit (acceptSlice co sub t)"
  let ?q = "t_pendingPoints t @ sl_points sub"
  show "continuousDrop co sub t \<le> length ?q"
    using desiredDropFor_bounds(2) [of ?l ?q] by (simp add: continuousDrop_def Let_def)
  assume "1000 \<le> t_maxQueuedPoints t"
  then have "?l \<le> t_maxQueuedPoints t"
    using live_limits(1) [of "acceptSlice co sub t"] by (simp add: frame_simps)
  then show "length (drop (continuousDrop co sub t) ?q) \<le> t_maxQueuedPoints t"
    using desiredDropFor_bounds(1) [of ?l ?q] by (auto simp: continuousDrop_def Let_def)
qed

text \<open>Replacing the frame.\<close>

lemma replaceFrame_frame [frame_simps]:
  "t_maxQueuedPoints (snd (replaceFrame co clk sub t)) = t_maxQueuedPoints t"
  "t_latencyMs (snd (replaceFrame co clk sub t)) = t_latencyMs t"
  "t_maxLatencyMs (snd (replaceFrame co clk sub t)) = t_maxLatencyMs t"
  "t_maxPointRateValue (snd (replaceFrame co clk sub t)) = t_maxPointRateValue t"
  "t_info (snd (replaceFrame co clk sub t)) = t_info t"
  by (simp_all add: replaceFrame_def Let_def frame_simps snd_makeResult snd_snapshot
      case_prod_unfold)

definition replacementKept :: "'c controller_ops \<Rightarrow> frame_submission \<Rightarrow> 'c target \<Rightarrow> laser_point list" where
  "replacementKept co sub t =
     take (liveReplacementPointLimit (installPointCallback co t)) (framePoints sub)"

lemma replaceFrame_empty:
  "framePoints sub = [] \<Longrightarrow> t_pendingPoints (snd (replaceFrame co clk sub t)) = t_pendingPoints t"
  "framePoints sub = [] \<Longrightarrow> \<not> sr_accepted (fst (replaceFrame co clk sub t))"
  by (simp_all add: replaceFrame_def Let_def frame_simps snd_makeResult)

lemma framePoints_Nil_slices: "fs_slices sub = [] \<Longrightarrow> framePoints sub = []"
  by (simp add: framePoints_def validSlices_def)

lemma replaceFrame_state:
  assumes "framePoints sub \<noteq> []"
  shows "\<exists>k. t_pendingPoints (snd (replaceFrame co clk sub t)) = drop k (replacementKept co sub t) \<and>
     k \<le> length (replacementKept co sub t) \<and>
     sr_droppedPoints (fst (replaceFrame co clk sub t)) = k"
proof -
  from assms have ne: "fs_slices sub \<noteq> []" using framePoints_Nil_slices by blast
  show ?thesis
    using assms ne
    by (auto simp: replaceFrame_def Let_def frame_simps snd_makeResult snd_snapshot
        case_prod_unfold replacementKept_def dropWhileOver_drop)
qed

lemma replaceFrame_bound:
  assumes "1000 \<le> t_maxQueuedPoints t" "framePoints sub \<noteq> []"
  shows "length (t_pendingPoints (snd (replaceFrame co clk sub t))) \<le> t_maxQueuedPoints t"
proof -
  obtain k where "t_pendingPoints (snd (replaceFrame co clk sub t)) = drop k (replacementKept co sub t)"
    using replaceFrame_state [OF assms(2)] by blast
  moreover have "length (replacementKept co sub t) \<le> liveReplacementPointLimit (installPointCallback co t)"
    by (simp add: replacementKept_def)
  moreover have "liveReplacementPointLimit (installPointCallback co t) \<le> t_maxQueuedPoints t"
    using live_limits(2) [of "installPointCallback co t"] assms(1) by (simp add: frame_simps)
  ultimately show ?thesis by simp
qed

text \<open>Handing a whole frame to the controller.\<close>

lemma submitFrame_frame [frame_simps]:
  "t_maxQueuedPoints (snd (submitFrame co clk sub t)) = t_maxQueuedPoints t"
  "t_latencyMs (snd (submitFrame co clk sub t)) = t_latencyMs t"
  "t_maxLatencyMs (snd (submitFrame co clk sub t)) = t_maxLatencyMs t"
  "t_maxPointRateValue (snd (submitFrame co clk sub t)) = t_maxPointRateValue t"
  "t_info (snd (submitFrame co clk sub t)) = t_info t"
  by (simp_all add: submitFrame_def Let_def frame_simps snd_makeResult case_prod_unfold)

lemma submitFrame_pending:
  "t_pendingPoints (snd (submitFrame co clk sub t)) =
     (if framePoints sub = [] then t_pendingPoints t else [])"
  using framePoints_Nil_slices [of sub]
  by (simp add: submitFrame_def Let_def frame_simps snd_makeResult case_prod_unfold)

text \<open>Scanner sync, reset, status and the statistics line.\<close>

lemma sync_reset_frame [frame_simps]:
  "t_maxQueuedPoints (setScannerSync co x en t) = t_maxQueuedPoints t"
  "t_latencyMs (setScannerSync co x en t) = t_latencyMs t"
  "t_maxLatencyMs (setScannerSync co x en t) = t_maxLatencyMs t"
  "t_pendingPoints (setScannerSync co x en t) = t_pendingPoints t"
  "t_counters (setScannerSync co x en t) = t_counters t"
  "t_maxQueuedPoints (resetTarget co t) = t_maxQueuedPoints t"
  "t_latencyMs (resetTarget co t) = t_latencyMs t"
  "t_maxLatencyMs (resetTarget co t) = t_maxLatencyMs t"
  "t_pendingPoints (resetTarget co t) = []"
  "t_counters (resetTarget co t) = t_counters t"
  by (simp_all add: setScannerSync_def resetTarget_def installPointCallback_def Let_def)

lemma status_frame [frame_simps]:
  "t_maxQueuedPoints (snd (targetStatusSnapshot co t)) = t_maxQueuedPoints t"
  "t_latencyMs (snd (targetStatusSnapshot co t)) = t_latencyMs t"
  "t_maxLatencyMs (snd (targetStatusSnapshot co t)) = t_maxLatencyMs t"
  "t_pendingPoints (snd (targetStatusSnapshot co t)) = t_pendingPoints t"
  "t_counters (snd (targetStatusSnapshot co t)) = t_counters t"
  by (simp_all add: snd_status)

lemma snd_stats: "snd (getStatsSnapshot co t) = snd (targetStatusSnapshot co t)"
  by (simp add: targetStatusSnapshot_def case_prod_unfold)

lemma logStats_frame [frame_simps]:
  "t_maxQueuedPoints (logStatsIfDue co clk t) = t_maxQueuedPoints t"
  "t_latencyMs (logStatsIfDue co clk t) = t_latencyMs t"
  "t_maxLatencyMs (logStatsIfDue co clk t) = t_maxLatencyMs t"
  "t_pendingPoints (logStatsIfDue co clk t) = t_pendingPoints t"
  "t_counters (logStatsIfDue co clk t) = t_counters t"
  by (simp_all add: logStatsIfDue_def Let_def case_prod_unfold snd_stats snd_status)

section \<open>The callback\<close>

lemma latency_increase:
  assumes "t_latencyMs t \<le> t_maxLatencyMs t" "unat (t_maxLatencyMs t) \<le> 3000000000"
  shows "t_latencyMs t \<le> t_latencyMs (maybeIncreaseLatencyOnUnderrun now n m k t)"
    and "t_latencyMs (maybeIncreaseLatencyOnUnderrun now n m k t) \<le> t_maxLatencyMs t"
proof -
  let ?b = "t_latencyMs t"
  let ?s = "max 10 (?b div 10)"
  have b: "unat ?b \<le> 3000000000" using assms by (simp add: word_le_nat_alt)
  have "unat ?b div 10 \<le> 300000000" using div_le_mono [OF b, of 10] by simp
  then have s: "unat ?s \<le> 300000000" by (simp add: max_def word_le_nat_alt unat_div)
  have "unat (?b + ?s) = unat ?b + unat ?s"
    by (rule unat_add_lem [THEN iffD1]) (use b s in simp)
  then have le: "?b \<le> ?b + ?s" by (simp add: word_le_nat_alt)
  show "?b \<le> t_latencyMs (maybeIncreaseLatencyOnUnderrun now n m k t)"
    "t_latencyMs (maybeIncreaseLatencyOnUnderrun now n m k t) \<le> t_maxLatencyMs t"
    using assms(1) le by (simp_all add: maybeIncreaseLatencyOnUnderrun_def Let_def)
qed

end
