(* ===== verification/Libera_Target_Correct.thy ===== *)
theory Libera_Target_Correct
  imports Libera_Target_Props "HOL-Library.Sublist"
begin

text \<open>
  The properties of \<open>LiberaTarget\<close>: its invariant over every history of calls, the order and
  the accounting of points, what the controller is fed, and the sink contract as an
  interpretation of \<open>target_sink\<close>.
\<close>

section \<open>The callback, case by case\<close>

definition isDark :: "laser_point \<Rightarrow> bool" where
  "isDark p \<longleftrightarrow> lp_r p = 0 \<and> lp_g p = 0 \<and> lp_b p = 0 \<and> lp_i p = 0"

lemma isDark_unlit: "isDark p \<Longrightarrow> \<not> isLitPoint p"
  by (simp add: isDark_def isLitPoint_def)

lemma fallback_dark: "isDark (co_defaultPoint co) \<Longrightarrow> isDark (fallbackPoint co t)"
  by (simp add: fallbackPoint_def isDark_def)

text \<open>The code's test for holding back the queue until enough points are buffered.\<close>

definition holdsBack :: "clock \<Rightarrow> fill_request \<Rightarrow> 'c target \<Rightarrow> bool" where
  "holdsBack clk req t \<longleftrightarrow>
     \<not> t_frameReplacementMode t \<and>
     \<not> (rq_allowShortRead req \<and> \<not> isAwaitingInputLocked (clk 0) (ms 2000) t) \<and>
     t_buffering t \<and>
     length (t_pendingPoints t) + db_pointsInBuffer (t_lastObserved t) < targetBufferedPoints t"

lemma awaiting_bump [simp]: "isAwaitingInputLocked a b (t\<lparr>t_counters := c\<rparr>) = isAwaitingInputLocked a b t"
  by (simp add: isAwaitingInputLocked_def)

lemma buffered_bump [simp]: "targetBufferedPoints (t\<lparr>t_counters := c\<rparr>) = targetBufferedPoints t"
  by (simp add: targetBufferedPoints_def)

lemma fallback_bump [simp]: "fallbackPoint co (t\<lparr>t_counters := c\<rparr>) = fallbackPoint co t"
  by (simp add: fallbackPoint_def)

lemma fallback_log [simp]: "fallbackPoint co (logUnderrunIfDue a b req n m k l h t) = fallbackPoint co t"
  by (simp add: fallbackPoint_def frame_simps)

lemma fallback_latency [simp]:
  "fallbackPoint co (maybeIncreaseLatencyOnUnderrun now n m k t) = fallbackPoint co t"
  by (simp add: fallbackPoint_def frame_simps)

lemma fill_none: "rq_maximumPointsRequired req = 0 \<Longrightarrow> fillFromQueue co clk req out t = (out, t)"
  by (simp add: fillFromQueue_def)

lemma fill_hold:
  assumes "rq_maximumPointsRequired req \<noteq> 0" "holdsBack clk req t"
  shows "fst (fillFromQueue co clk req out t) =
      out @ replicate (rq_minimumPointsRequired req) (fallbackPoint co t)"
    and "t_pendingPoints (snd (fillFromQueue co clk req out t)) = t_pendingPoints t"
    and "c_emittedPoints (t_counters (snd (fillFromQueue co clk req out t))) =
      c_emittedPoints (t_counters t)"
    and "c_blankFillPoints (t_counters (snd (fillFromQueue co clk req out t))) =
      c_blankFillPoints (t_counters t) + of_nat (rq_minimumPointsRequired req)"
    and "c_receivedPoints (t_counters (snd (fillFromQueue co clk req out t))) =
      c_receivedPoints (t_counters t)"
    and "c_droppedPoints (t_counters (snd (fillFromQueue co clk req out t))) =
      c_droppedPoints (t_counters t)"
  using assms
  by (simp_all add: fillFromQueue_def holdsBack_def Let_def downstreamBufferSnapshot_def
      fillBufferingHold_def appendFallbackPoints_def frame_simps)

text \<open>How many blank points follow the points taken from the queue.\<close>

definition fillBlank :: "clock \<Rightarrow> fill_request \<Rightarrow> laser_point list \<Rightarrow> 'c target \<Rightarrow> nat" where
  "fillBlank clk req out t =
     (if rq_allowShortRead req \<and> \<not> isAwaitingInputLocked (clk 0) (ms 2000) t then 0
      else rq_minimumPointsRequired req -
        (length out + min (rq_maximumPointsRequired req) (length (t_pendingPoints t))))"

lemma fill_take:
  assumes "rq_maximumPointsRequired req \<noteq> 0" "\<not> holdsBack clk req t"
  defines "w \<equiv> min (rq_maximumPointsRequired req) (length (t_pendingPoints t))"
  shows "\<exists>t'. fst (fillFromQueue co clk req out t) =
      out @ take w (t_pendingPoints t) @ replicate (fillBlank clk req out t) (fallbackPoint co t')"
    and "t_pendingPoints (snd (fillFromQueue co clk req out t)) = drop w (t_pendingPoints t)"
    and "c_emittedPoints (t_counters (snd (fillFromQueue co clk req out t))) =
      c_emittedPoints (t_counters t) + of_nat w"
    and "c_blankFillPoints (t_counters (snd (fillFromQueue co clk req out t))) =
      c_blankFillPoints (t_counters t) + of_nat (fillBlank clk req out t)"
    and "c_receivedPoints (t_counters (snd (fillFromQueue co clk req out t))) =
      c_receivedPoints (t_counters t)"
    and "c_droppedPoints (t_counters (snd (fillFromQueue co clk req out t))) =
      c_droppedPoints (t_counters t)"
proof -
  note defs = fillFromQueue_def Let_def downstreamBufferSnapshot_def fillUnderrun_def
    appendFallbackPoints_def frame_simps w_def fillBlank_def
  show "\<exists>t'. fst (fillFromQueue co clk req out t) =
      out @ take w (t_pendingPoints t) @ replicate (fillBlank clk req out t) (fallbackPoint co t')"
    using assms(1,2) unfolding holdsBack_def by (auto simp: defs)
  show "t_pendingPoints (snd (fillFromQueue co clk req out t)) = drop w (t_pendingPoints t)"
    using assms(1,2) unfolding holdsBack_def by (auto simp: defs)
  show "c_emittedPoints (t_counters (snd (fillFromQueue co clk req out t))) =
      c_emittedPoints (t_counters t) + of_nat w"
    using assms(1,2) unfolding holdsBack_def by (auto simp: defs)
  show "c_blankFillPoints (t_counters (snd (fillFromQueue co clk req out t))) =
      c_blankFillPoints (t_counters t) + of_nat (fillBlank clk req out t)"
    using assms(1,2) unfolding holdsBack_def by (auto simp: defs)
  show "c_receivedPoints (t_counters (snd (fillFromQueue co clk req out t))) =
      c_receivedPoints (t_counters t)"
    using assms(1,2) unfolding holdsBack_def by (auto simp: defs)
  show "c_droppedPoints (t_counters (snd (fillFromQueue co clk req out t))) =
      c_droppedPoints (t_counters t)"
    using assms(1,2) unfolding holdsBack_def by (auto simp: defs)
qed

lemma fill_frame [frame_simps]:
  "t_maxQueuedPoints (snd (fillFromQueue co clk req out t)) = t_maxQueuedPoints t"
  "t_maxLatencyMs (snd (fillFromQueue co clk req out t)) = t_maxLatencyMs t"
  "t_currentPointRate (snd (fillFromQueue co clk req out t)) = t_currentPointRate t"
  "t_info (snd (fillFromQueue co clk req out t)) = t_info t"
  by (simp_all add: fillFromQueue_def Let_def fillUnderrun_def fillBufferingHold_def frame_simps)

lemma fill_pending_le:
  "length (t_pendingPoints (snd (fillFromQueue co clk req out t))) \<le> length (t_pendingPoints t)"
  by (cases "rq_maximumPointsRequired req = 0"; cases "holdsBack clk req t")
    (simp_all add: fill_none fill_hold fill_take)

lemma latency_increase_at:
  "L \<le> M \<Longrightarrow> unat M \<le> 3000000000 \<Longrightarrow> t_latencyMs u = L \<Longrightarrow> t_maxLatencyMs u = M \<Longrightarrow>
     L \<le> t_latencyMs (maybeIncreaseLatencyOnUnderrun now n m k u)"
  "L \<le> M \<Longrightarrow> unat M \<le> 3000000000 \<Longrightarrow> t_latencyMs u = L \<Longrightarrow> t_maxLatencyMs u = M \<Longrightarrow>
     t_latencyMs (maybeIncreaseLatencyOnUnderrun now n m k u) \<le> M"
  using latency_increase [of u] by blast+

lemma fill_latency:
  assumes "t_latencyMs t \<le> t_maxLatencyMs t" "unat (t_maxLatencyMs t) \<le> 3000000000"
  shows "t_latencyMs t \<le> t_latencyMs (snd (fillFromQueue co clk req out t)) \<and>
    t_latencyMs (snd (fillFromQueue co clk req out t)) \<le> t_maxLatencyMs t"
  using assms
  by (auto simp: fillFromQueue_def Let_def fillUnderrun_def fillBufferingHold_def frame_simps
      latency_increase_at [OF assms])

section \<open>The invariant\<close>

text \<open>
  The latency cap is at most 3,000,000,000 ms, so that a latency step does not wrap: the
  command line admits no cap above 30,000 ms.
\<close>

definition target_inv :: "'c target \<Rightarrow> bool" where
  "target_inv t \<longleftrightarrow> 1000 \<le> t_maxQueuedPoints t \<and>
     length (t_pendingPoints t) \<le> t_maxQueuedPoints t \<and>
     (unat (t_maxLatencyMs t) \<le> 3000000000 \<longrightarrow> t_latencyMs t \<le> t_maxLatencyMs t)"

lemma inv_created: "target_inv (newLiberaTarget co ctl info maxQ lat maxLat auto logger)"
  by (simp add: target_inv_def newLiberaTarget_def installPointCallback_def Let_def)

lemma inv_submitContinuous [inv_intros]:
  assumes "target_inv t"
  shows "target_inv (snd (submitContinuous co clk sub t))"
proof (cases "sl_points sub = []")
  case True
  with assms show ?thesis
    by (simp add: submitContinuous_empty snd_makeResult target_inv_def)
next
  case False
  with assms continuousDrop_bounds(2) [of t co sub] show ?thesis
    by (simp only: target_inv_def submitContinuous_state [OF False] frame_simps) simp
qed

lemma inv_replaceFrame [inv_intros]:
  assumes "target_inv t"
  shows "target_inv (snd (replaceFrame co clk sub t))"
  using assms replaceFrame_bound [of t sub co clk] replaceFrame_empty(1) [of sub co clk t]
  by (cases "framePoints sub = []") (simp_all add: target_inv_def frame_simps)

lemma inv_submitFrame [inv_intros]:
  "target_inv t \<Longrightarrow> target_inv (snd (submitFrame co clk sub t))"
  by (simp add: target_inv_def frame_simps submitFrame_pending)

lemma inv_small [inv_intros]:
  "target_inv t \<Longrightarrow> target_inv (setScannerSync co x en t)"
  "target_inv t \<Longrightarrow> target_inv (resetTarget co t)"
  "target_inv t \<Longrightarrow> target_inv (snd (targetStatusSnapshot co t))"
  "target_inv t \<Longrightarrow> target_inv (logStatsIfDue co clk t)"
  by (simp_all add: target_inv_def frame_simps)

lemma inv_fill [inv_intros]:
  "target_inv t \<Longrightarrow> target_inv (snd (fillFromQueue co clk req out t))"
  using fill_pending_le [of co clk req out t] fill_latency [of t co clk req out]
  by (auto simp: target_inv_def frame_simps)

lemma inv_sink_call [inv_intros]:
  "target_inv t \<Longrightarrow> target_inv (apply_sink_call (libera_sink co) clk c t)"
  by (cases c) (simp_all add: libera_sink_def inv_intros)

lemma inv_step [inv_intros]: "target_inv t \<Longrightarrow> target_inv (target_step co clk ev t)"
  by (cases ev) (simp_all add: inv_intros)

lemma reachable_inv: "target_reachable co t \<Longrightarrow> target_inv t"
  by (induction rule: target_reachable.induct) (simp_all add: inv_created inv_intros)

section \<open>The sink contract\<close>

lemma capacity_sink_call:
  "t_maxQueuedPoints (apply_sink_call (libera_sink co) clk c t) = t_maxQueuedPoints t"
  by (cases c) (simp_all add: libera_sink_def frame_simps)

interpretation lt: target_sink "libera_sink co" target_inv t_pendingPoints t_maxQueuedPoints for co
proof (unfold_locales, goal_cases)
  case (1 s clk c)
  then show ?case by (rule inv_sink_call)
next
  case (2 clk c s)
  show ?case by (rule capacity_sink_call)
next
  case (3 s)
  then show ?case by (simp add: target_inv_def)
next
  case (4 s)
  show ?case by (simp add: libera_sink_def frame_simps)
next
  case (5 sub clk s)
  then show ?case by (simp add: libera_sink_def submitContinuous_empty snd_makeResult)
qed

section \<open>Rates\<close>

definition rate_inv :: "'c target \<Rightarrow> bool" where
  "rate_inv t \<longleftrightarrow> ti_type (t_info t) \<noteq> ''AVB'' \<longrightarrow> 1000 \<le> t_maxPointRateValue t \<longrightarrow>
     1000 \<le> t_currentPointRate t \<and> t_currentPointRate t \<le> t_maxPointRateValue t \<and>
     1000 \<le> t_commandedInputPps t \<and> t_commandedInputPps t \<le> t_maxPointRateValue t"

lemma rate_inv_cong:
  "t_info u = t_info t \<Longrightarrow> t_maxPointRateValue u = t_maxPointRateValue t \<Longrightarrow>
   t_currentPointRate u = t_currentPointRate t \<Longrightarrow> t_commandedInputPps u = t_commandedInputPps t \<Longrightarrow>
   rate_inv t \<Longrightarrow> rate_inv u"
  by (simp add: rate_inv_def)

lemma rate_inv_update: "rate_inv t \<Longrightarrow> rate_inv (maybeUpdatePointRate co r t)"
  by (auto simp: rate_inv_def maybeUpdatePointRate_def Let_def)

lemma rate_inv_update_at:
  "rate_inv t \<Longrightarrow> t_info u = t_info t \<Longrightarrow> t_maxPointRateValue u = t_maxPointRateValue t \<Longrightarrow>
   t_currentPointRate u = t_currentPointRate t \<Longrightarrow> t_commandedInputPps u = t_commandedInputPps t \<Longrightarrow>
   rate_inv (maybeUpdatePointRate co r u)"
  using rate_inv_cong [of u t] rate_inv_update by blast

lemma rate_inv_observed [simp]: "rate_inv (t\<lparr>t_lastObserved := d\<rparr>) = rate_inv t"
  by (simp add: rate_inv_def)

lemma rate_inv_accept: "rate_inv t \<Longrightarrow> rate_inv (acceptSlice co sub t)"
  unfolding acceptSlice_def Let_def snd_snapshot rate_inv_observed
  by (rule rate_inv_update_at) (simp_all add: frame_simps)

lemma rate_inv_submitContinuous:
  assumes "rate_inv t"
  shows "rate_inv (snd (submitContinuous co clk sub t))"
proof (cases "sl_points sub = []")
  case True
  with assms show ?thesis by (simp add: submitContinuous_empty snd_makeResult)
next
  case False
  have "rate_inv (acceptSlice co sub t)" by (rule rate_inv_accept [OF assms])
  then show ?thesis
    by (rule rate_inv_cong [rotated 4])
      (use False in \<open>simp_all add: submitContinuous_def Let_def frame_simps enqueue_accept snd_makeResult\<close>)
qed

lemma rate_inv_replaceFrame:
  assumes "rate_inv t"
  shows "rate_inv (snd (replaceFrame co clk sub t))"
proof -
  have u: "rate_inv (maybeUpdatePointRate co r u)"
    if "t_info u = t_info t" "t_maxPointRateValue u = t_maxPointRateValue t"
      "t_currentPointRate u = t_currentPointRate t" "t_commandedInputPps u = t_commandedInputPps t"
    for r u using rate_inv_update_at [OF assms that] .
  have c: "rate_inv (v\<lparr>t_controller := x\<rparr>) = rate_inv v" for v :: "'a target" and x
    by (simp add: rate_inv_def)
  have i: "rate_inv (installPointCallback co t)"
    by (rule rate_inv_cong [OF _ _ _ _ assms]) (simp_all add: frame_simps)
  show ?thesis
    using assms i
    by (simp add: replaceFrame_def Let_def snd_makeResult snd_snapshot case_prod_unfold c u frame_simps)
qed

lemma rate_inv_updates [simp]:
  "rate_inv (v\<lparr>t_controller := x\<rparr>) = rate_inv v"
  "rate_inv (v\<lparr>t_pendingPoints := q\<rparr>) = rate_inv v"
  "rate_inv (v\<lparr>t_hasSeenInput := b\<rparr>) = rate_inv v"
  "rate_inv (v\<lparr>t_lastInputAt := i\<rparr>) = rate_inv v"
  "rate_inv (v\<lparr>t_counters := k\<rparr>) = rate_inv v"
  "rate_inv (v\<lparr>t_frameReplacementMode := b\<rparr>) = rate_inv v"
  "rate_inv (v\<lparr>t_buffering := b\<rparr>) = rate_inv v"
  by (simp_all add: rate_inv_def)

lemma rate_inv_submitFrame:
  assumes "rate_inv t"
  shows "rate_inv (snd (submitFrame co clk sub t))"
proof -
  have "rate_inv (countFrame n sub (t\<lparr>t_frameReplacementMode := False, t_buffering := False\<rparr>))" for n
    using assms by (simp add: countFrame_def)
  with assms show ?thesis
    by (simp add: submitFrame_def Let_def snd_makeResult case_prod_unfold rate_inv_update)
qed

lemma rate_inv_fill: "rate_inv t \<Longrightarrow> rate_inv (snd (fillFromQueue co clk req out t))"
  by (erule rate_inv_cong [rotated 4])
    (simp_all add: fillFromQueue_def Let_def fillUnderrun_def fillBufferingHold_def frame_simps)

lemma rate_inv_other:
  "rate_inv t \<Longrightarrow> rate_inv (setScannerSync co x en t)"
  "rate_inv t \<Longrightarrow> rate_inv (resetTarget co t)"
  "rate_inv t \<Longrightarrow> rate_inv (snd (targetStatusSnapshot co t))"
  "rate_inv t \<Longrightarrow> rate_inv (logStatsIfDue co clk t)"
  by (simp_all add: rate_inv_def setScannerSync_def resetTarget_def installPointCallback_def
      snd_status logStatsIfDue_def Let_def case_prod_unfold snd_stats)

lemma rate_inv_step: "rate_inv t \<Longrightarrow> rate_inv (target_step co clk ev t)"
proof (cases ev)
  case (Call c)
  then show "rate_inv t \<Longrightarrow> rate_inv (target_step co clk ev t)"
    by (cases c) (simp_all add: libera_sink_def rate_inv_submitContinuous rate_inv_replaceFrame
        rate_inv_submitFrame rate_inv_other)
qed (simp_all add: rate_inv_fill rate_inv_other)

lemma rate_inv_created: "rate_inv (newLiberaTarget co ctl info maxQ lat maxLat auto logger)"
  by (auto simp: rate_inv_def newLiberaTarget_def installPointCallback_def Let_def)

lemma reachable_rate_inv: "target_reachable co t \<Longrightarrow> rate_inv t"
  by (induction rule: target_reachable.induct) (simp_all add: rate_inv_created rate_inv_step)

section \<open>Accounting of streamed points\<close>

text \<open>Points received and not yet emitted, dropped or queued, modulo \<open>2\<^sup>6\<^sup>4\<close>.\<close>

definition balance :: "'c target \<Rightarrow> u64" where
  "balance t = c_receivedPoints (t_counters t) - c_emittedPoints (t_counters t) -
     c_droppedPoints (t_counters t) - of_nat (length (t_pendingPoints t))"

definition streaming :: "target_event \<Rightarrow> bool" where
  "streaming ev \<longleftrightarrow> (case ev of
      Call (SubmitContinuous _) \<Rightarrow> True | Call (SetScannerSync _ _) \<Rightarrow> True | Call _ \<Rightarrow> False
    | Fill _ \<Rightarrow> True | Status \<Rightarrow> True | LogTick \<Rightarrow> True)"

lemma of_nat_length_drop:
  "k \<le> length q \<Longrightarrow> (of_nat (length (drop k q)) :: u64) = of_nat (length q) - of_nat k"
  by (simp add: of_nat_diff)

lemma balance_submitContinuous: "balance (snd (submitContinuous co clk sub t)) = balance t"
proof (cases "sl_points sub = []")
  case True
  then show ?thesis by (simp add: submitContinuous_empty snd_makeResult balance_def)
next
  case False
  show ?thesis
    unfolding balance_def submitContinuous_state [OF False]
      of_nat_length_drop [OF continuousDrop_bounds(1)]
    by simp
qed

lemma balance_fill: "balance (snd (fillFromQueue co clk req out t)) = balance t"
proof (cases "rq_maximumPointsRequired req = 0 \<or> holdsBack clk req t")
  case True
  then show ?thesis
    by (cases "rq_maximumPointsRequired req = 0") (simp_all add: fill_none fill_hold balance_def)
next
  case False
  then have a: "rq_maximumPointsRequired req \<noteq> 0" and b: "\<not> holdsBack clk req t" by simp_all
  show ?thesis
    unfolding balance_def fill_take(2,3,5,6) [OF a b] of_nat_length_drop [OF min.cobounded2]
    by simp
qed

lemma balance_step: "streaming ev \<Longrightarrow> balance (target_step co clk ev t) = balance t"
  by (auto simp: streaming_def libera_sink_def balance_submitContinuous balance_fill
      split: target_event.splits sink_call.splits)
    (simp_all add: balance_def frame_simps)

fun target_run :: "'c controller_ops \<Rightarrow> (clock \<times> target_event) list \<Rightarrow> 'c target \<Rightarrow> 'c target" where
  "target_run co [] t = t"
| "target_run co ((clk, ev) # evs) t = target_run co evs (target_step co clk ev t)"

lemma balance_run: "(\<And>clk ev. (clk, ev) \<in> set evs \<Longrightarrow> streaming ev) \<Longrightarrow> balance (target_run co evs t) = balance t"
proof (induction evs arbitrary: t)
  case Nil
  then show ?case by simp
next
  case (Cons e evs)
  obtain clk ev where e: "e = (clk, ev)" by force
  from Cons.prems e have s: "streaming ev" by auto
  have "\<And>clk ev. (clk, ev) \<in> set evs \<Longrightarrow> streaming ev"
    using Cons.prems by (metis list.set_intros(2))
  then have "balance (target_run co evs (target_step co clk ev t)) = balance (target_step co clk ev t)"
    by (rule Cons.IH)
  with s show ?case by (simp add: e balance_step)
qed

lemma balance_created: "balance (newLiberaTarget co ctl info maxQ lat maxLat auto logger) = 0"
  by (simp add: balance_def newLiberaTarget_def installPointCallback_def Let_def zero_counters_def)

section \<open>The order of streamed points\<close>

text \<open>What the callback returns in one step, and over a run; what hosts submitted.\<close>

fun target_output :: "'c controller_ops \<Rightarrow> clock \<Rightarrow> target_event \<Rightarrow> 'c target \<Rightarrow> laser_point list" where
  "target_output co clk (Fill req) t = fst (fillFromQueue co clk req [] t)"
| "target_output co clk _ t = []"

fun target_outputs :: "'c controller_ops \<Rightarrow> (clock \<times> target_event) list \<Rightarrow> 'c target \<Rightarrow> laser_point list" where
  "target_outputs co [] t = []"
| "target_outputs co ((clk, ev) # evs) t =
     target_output co clk ev t @ target_outputs co evs (target_step co clk ev t)"

fun event_points :: "target_event \<Rightarrow> laser_point list" where
  "event_points (Call (SubmitContinuous sub)) = sl_points sub"
| "event_points _ = []"

fun submittedPoints :: "(clock \<times> target_event) list \<Rightarrow> laser_point list" where
  "submittedPoints [] = []"
| "submittedPoints ((clk, ev) # evs) = event_points ev @ submittedPoints evs"

lemma lit_replicate_fallback:
  "isDark (co_defaultPoint co) \<Longrightarrow> filter isLitPoint (replicate n (fallbackPoint co t)) = []"
  using isDark_unlit [OF fallback_dark, of co t] by (simp add: filter_empty_conv)

lemma fill_in_order:
  assumes "isDark (co_defaultPoint co)"
  shows "filter isLitPoint (fst (fillFromQueue co clk req [] t)) @
      filter isLitPoint (t_pendingPoints (snd (fillFromQueue co clk req [] t))) =
    filter isLitPoint (t_pendingPoints t)"
proof (cases "rq_maximumPointsRequired req = 0 \<or> holdsBack clk req t")
  case True
  then show ?thesis
    by (cases "rq_maximumPointsRequired req = 0")
      (simp_all add: fill_none fill_hold lit_replicate_fallback [OF assms])
next
  case False
  then have a: "rq_maximumPointsRequired req \<noteq> 0" and b: "\<not> holdsBack clk req t" by simp_all
  obtain t' where "fst (fillFromQueue co clk req [] t) =
      take (min (rq_maximumPointsRequired req) (length (t_pendingPoints t))) (t_pendingPoints t) @
      replicate (fillBlank clk req [] t) (fallbackPoint co t')"
    using fill_take(1) [OF a b, of co "[]"] by auto
  then show ?thesis
    by (simp only: fill_take(2) [OF a b] filter_append lit_replicate_fallback [OF assms]
        append_Nil2 filter_append [symmetric] append_take_drop_id)
qed

lemma subseq_filter_drop: "subseq (filter P (drop k xs)) (filter P xs)"
  by (intro subseq_filter) (metis append_take_drop_id list_emb_append2 subseq_order.order_refl)

lemma stream_step_in_order:
  assumes "streaming ev" "isDark (co_defaultPoint co)"
  shows "subseq (filter isLitPoint (target_output co clk ev t) @
      filter isLitPoint (t_pendingPoints (target_step co clk ev t)))
    (filter isLitPoint (t_pendingPoints t @ event_points ev))"
proof (cases ev)
  case (Call c)
  with assms(1) show ?thesis
  proof (cases c)
    case (SubmitContinuous sub)
    show ?thesis
    proof (cases "sl_points sub = []")
      case True
      with Call SubmitContinuous show ?thesis
        by (simp add: libera_sink_def submitContinuous_empty snd_makeResult)
    next
      case False
      then show ?thesis
        using subseq_filter_drop [of isLitPoint "continuousDrop co sub t" "t_pendingPoints t @ sl_points sub"]
        by (simp add: Call SubmitContinuous libera_sink_def submitContinuous_state(1)
            del: filter_append drop_append)
    qed
  qed (simp_all add: streaming_def libera_sink_def frame_simps)
next
  case (Fill req)
  then show ?thesis using fill_in_order [OF assms(2), of clk req t] by simp
qed (simp_all add: frame_simps)

lemma subseq_chain:
  assumes "subseq (a @ b) (filter P c)" "subseq (filter P d) (filter P (e @ f))" "b = filter P e"
  shows "subseq (a @ filter P d) (filter P (c @ f))"
proof -
  have "subseq (filter P d) (b @ filter P f)" using assms(2,3) by simp
  then have "subseq (a @ filter P d) (a @ b @ filter P f)" by (simp only: subseq_append')
  also have "subseq \<dots> (filter P c @ filter P f)"
    using list_emb_append_mono [OF assms(1) subseq_order.order_refl] by simp
  finally show ?thesis by simp
qed

section \<open>Cuts and latency\<close>

lemma isCut_blanks:
  assumes "isCut q k"
  shows "2 \<le> k \<and> \<not> isBlankForBoundary (q ! k) \<and> isBlankForBoundary (q ! (k - 1)) \<and>
    isBlankForBoundary (q ! (k - 2))"
proof (cases k)
  case (Suc j)
  then show ?thesis using assms by (cases j) (auto simp: isCut_def split: if_splits)
qed (use assms in \<open>simp add: isCut_def\<close>)

lemma fill_latency_same:
  "\<not> (t_autoLatency t \<and> \<not> t_frameReplacementMode t) \<Longrightarrow>
    t_latencyMs (snd (fillFromQueue co clk req out t)) = t_latencyMs t"
  by (auto simp: fillFromQueue_def Let_def fillUnderrun_def fillBufferingHold_def frame_simps
      maybeIncreaseLatencyOnUnderrun_def)

end
