(* ===== verification/Runtime_Props.thy ===== *)
theory Runtime_Props
  imports Runtime_Update Libera_Target_Correct "HOL-Library.Multiset"
begin

text \<open>
  Lemmas on the runtime: how targets are grouped, what happens to hosts that are stopped or
  replaced, and the invariant of the link. What rests on the contract of hosts is proved in
  the context of \<open>virtual_host\<close>.
\<close>

section \<open>Grouping\<close>

definition group_key :: "pending_group \<Rightarrow> string \<times> string \<times> options_map" where
  "group_key g = (hi_id (pg_info g), pg_instanceKey g, pg_options g)"

text \<open>Where the routes and the fallback send one target.\<close>

definition target_key ::
  "('c, 'h, 'w) link_env \<Rightarrow> link_options \<Rightarrow> link_target \<Rightarrow> (string \<times> string \<times> options_map) option" where
  "target_key env options t =
     (let route = routesByControllerId (lo_virtualControllerRoutes options) (ti_id (lt_info t)) in
      case resolveHost env options route of
        Inl err \<Rightarrow> None
      | Inr info \<Rightarrow> Some (hi_id info, instanceKeyFor route info t, optionsFor options route))"

definition groups_ok ::
  "('c, 'h, 'w) link_env \<Rightarrow> link_options \<Rightarrow> link_target list \<Rightarrow> pending_group list \<Rightarrow> bool" where
  "groups_ok env options ts gs \<longleftrightarrow>
     mset (concat (map pg_targets gs)) = mset ts \<and> distinct (map group_key gs) \<and>
     (\<forall>g \<in> set gs. pg_targets g \<noteq> [] \<and>
        (\<forall>t \<in> set (pg_targets g). target_key env options t = Some (group_key g)))"

lemma addToGroups_keys:
  "group_key ` set (addToGroups info key opts t gs) = insert (hi_id info, key, opts) (group_key ` set gs)"
  by (induction info key opts t gs rule: addToGroups.induct) (auto simp: group_key_def)

lemma addToGroups_distinct:
  "distinct (map group_key gs) \<Longrightarrow> distinct (map group_key (addToGroups info key opts t gs))"
proof (induction gs)
  case (Cons g gs)
  then show ?case
    using addToGroups_keys [of info key opts t gs] by (auto simp: group_key_def)
qed simp

lemma addToGroups_mset:
  "mset (concat (map pg_targets (addToGroups info key opts t gs))) =
     add_mset t (mset (concat (map pg_targets gs)))"
  by (induction info key opts t gs rule: addToGroups.induct) simp_all

lemma addToGroups_all:
  assumes "\<forall>g \<in> set gs. pg_targets g \<noteq> [] \<and> (\<forall>t \<in> set (pg_targets g). f t = Some (group_key g))"
    "f t = Some (hi_id info, key, opts)"
  shows "\<forall>g \<in> set (addToGroups info key opts t gs).
    pg_targets g \<noteq> [] \<and> (\<forall>t \<in> set (pg_targets g). f t = Some (group_key g))"
  using assms
  by (induction info key opts t gs rule: addToGroups.induct) (auto simp: group_key_def)

lemma groupTargets_ok:
  assumes "groupTargets env options ts gs = Inr gs'" "groups_ok env options us gs"
  shows "groups_ok env options (us @ ts) gs'"
  using assms
proof (induction ts arbitrary: us gs)
  case Nil
  then show ?case by simp
next
  case (Cons t ts)
  let ?route = "routesByControllerId (lo_virtualControllerRoutes options) (ti_id (lt_info t))"
  obtain info where info: "resolveHost env options ?route = Inr info"
    using Cons.prems(1) by (cases "resolveHost env options ?route") (auto simp: Let_def)
  let ?gs = "addToGroups info (instanceKeyFor ?route info t) (optionsFor options ?route) t gs"
  have key: "target_key env options t = Some (hi_id info, instanceKeyFor ?route info t, optionsFor options ?route)"
    using info by (simp add: target_key_def Let_def)
  have "groups_ok env options (us @ [t]) ?gs"
    unfolding groups_ok_def
  proof (intro conjI)
    show "\<forall>g \<in> set ?gs. pg_targets g \<noteq> [] \<and> (\<forall>t \<in> set (pg_targets g). target_key env options t = Some (group_key g))"
      using Cons.prems(2) by (intro addToGroups_all key) (simp add: groups_ok_def)
  qed (use Cons.prems(2) in \<open>simp_all add: groups_ok_def addToGroups_mset addToGroups_distinct\<close>)
  moreover have "groupTargets env options ts ?gs = Inr gs'"
    using Cons.prems(1) info by (simp add: Let_def)
  ultimately have "groups_ok env options ((us @ [t]) @ ts) gs'" by (intro Cons.IH)
  then show ?case by simp
qed

section \<open>Frames\<close>

lemma say_frame [simp]:
  "rt_hosts (say b l rt) = rt_hosts rt" "rt_destroyed (say b l rt) = rt_destroyed rt"
  "rt_store (say b l rt) = rt_store rt" "rt_targets (say b l rt) = rt_targets rt"
  "rt_state (say b l rt) = rt_state rt" "rt_monitor (say b l rt) = rt_monitor rt"
  "rt_terminated (say b l rt) = rt_terminated rt" "rt_world (say b l rt) = rt_world rt"
  "rt_stopRequested (say b l rt) = rt_stopRequested rt" "rt_infos (say b l rt) = rt_infos rt"
  by (simp_all add: say_def)

lemma setState_frame [simp]:
  "rt_hosts (setState s m rt) = rt_hosts rt" "rt_destroyed (setState s m rt) = rt_destroyed rt"
  "rt_store (setState s m rt) = rt_store rt" "rt_targets (setState s m rt) = rt_targets rt"
  "rt_state (setState s m rt) = s" "rt_monitor (setState s m rt) = rt_monitor rt"
  "rt_terminated (setState s m rt) = rt_terminated rt" "rt_world (setState s m rt) = rt_world rt"
  "rt_stopRequested (setState s m rt) = rt_stopRequested rt" "rt_infos (setState s m rt) = rt_infos rt"
  by (simp_all add: setState_def)

lemma configure_frame [simp]:
  "rt_hosts (configureLiberaSystem o' rt) = rt_hosts rt"
  "rt_destroyed (configureLiberaSystem o' rt) = rt_destroyed rt"
  "rt_store (configureLiberaSystem o' rt) = rt_store rt"
  "rt_targets (configureLiberaSystem o' rt) = rt_targets rt"
  "rt_monitor (configureLiberaSystem o' rt) = rt_monitor rt"
  "rt_state (configureLiberaSystem o' rt) = rt_state rt"
  "rt_terminated (configureLiberaSystem o' rt) = rt_terminated rt"
  "rt_stopRequested (configureLiberaSystem o' rt) = rt_stopRequested rt"
  "rt_world (configureLiberaSystem o' rt) = rt_world rt"
  by (simp_all add: configureLiberaSystem_def)

lemma clearLog_frame [simp]:
  "rt_hosts (clearLog env rt) = rt_hosts rt" "rt_destroyed (clearLog env rt) = rt_destroyed rt"
  "rt_store (clearLog env rt) = rt_store rt" "rt_targets (clearLog env rt) = rt_targets rt"
  "rt_monitor (clearLog env rt) = rt_monitor rt" "rt_state (clearLog env rt) = rt_state rt"
  "rt_terminated (clearLog env rt) = rt_terminated rt"
  "rt_stopRequested (clearLog env rt) = rt_stopRequested rt" "rt_world (clearLog env rt) = rt_world rt"
  by (simp_all add: clearLog_def)

lemma destroyHosts_frame [simp]:
  "rt_hosts (destroyHosts ops hs rt) = rt_hosts rt" "rt_store (destroyHosts ops hs rt) = rt_store rt"
  "rt_targets (destroyHosts ops hs rt) = rt_targets rt" "rt_state (destroyHosts ops hs rt) = rt_state rt"
  "rt_monitor (destroyHosts ops hs rt) = rt_monitor rt"
  "rt_terminated (destroyHosts ops hs rt) = rt_terminated rt" "rt_infos (destroyHosts ops hs rt) = rt_infos rt"
  "rt_stopRequested (destroyHosts ops hs rt) = rt_stopRequested rt"
  by (simp_all add: destroyHosts_def case_prod_unfold)

lemma say_lines_frame [simp]:
  "rt_hosts (foldl (\<lambda>r x. say b (f x) r) rt ls) = rt_hosts rt \<and>
   rt_destroyed (foldl (\<lambda>r x. say b (f x) r) rt ls) = rt_destroyed rt \<and>
   rt_store (foldl (\<lambda>r x. say b (f x) r) rt ls) = rt_store rt \<and>
   rt_targets (foldl (\<lambda>r x. say b (f x) r) rt ls) = rt_targets rt \<and>
   rt_monitor (foldl (\<lambda>r x. say b (f x) r) rt ls) = rt_monitor rt \<and>
   rt_state (foldl (\<lambda>r x. say b (f x) r) rt ls) = rt_state rt \<and>
   rt_world (foldl (\<lambda>r x. say b (f x) r) rt ls) = rt_world rt \<and>
   rt_terminated (foldl (\<lambda>r x. say b (f x) r) rt ls) = rt_terminated rt \<and>
   rt_infos (foldl (\<lambda>r x. say b (f x) r) rt ls) = rt_infos rt \<and>
   rt_stopRequested (foldl (\<lambda>r x. say b (f x) r) rt ls) = rt_stopRequested rt"
  by (induction ls arbitrary: rt) simp_all

lemma sayLinked_frame [simp]:
  "rt_hosts (sayLinked as rt) = rt_hosts rt" "rt_destroyed (sayLinked as rt) = rt_destroyed rt"
  "rt_store (sayLinked as rt) = rt_store rt" "rt_targets (sayLinked as rt) = rt_targets rt"
  "rt_monitor (sayLinked as rt) = rt_monitor rt" "rt_terminated (sayLinked as rt) = rt_terminated rt"
  "rt_stopRequested (sayLinked as rt) = rt_stopRequested rt" "rt_infos (sayLinked as rt) = rt_infos rt" "rt_world (sayLinked as rt) = rt_world rt"
  unfolding sayLinked_def using say_lines_frame [of False "\<lambda>l. l"] by simp_all

lemma reportMissing_frame [simp]:
  "rt_hosts (reportMissing m rt) = rt_hosts rt" "rt_destroyed (reportMissing m rt) = rt_destroyed rt"
  "rt_store (reportMissing m rt) = rt_store rt" "rt_targets (reportMissing m rt) = rt_targets rt"
  "rt_monitor (reportMissing m rt) = rt_monitor rt" "rt_terminated (reportMissing m rt) = rt_terminated rt"
  "rt_stopRequested (reportMissing m rt) = rt_stopRequested rt" "rt_state (reportMissing m rt) = rt_state rt"
  "rt_world (reportMissing m rt) = rt_world rt"
  unfolding reportMissing_def by simp_all

section \<open>Targets in the store\<close>

text \<open>Every target of the store went through steps of \<open>Libera_Target\<close> only.\<close>

definition store_ok :: "'c controller_ops \<Rightarrow> 'c target list \<Rightarrow> bool" where
  "store_ok co store \<longleftrightarrow> (\<forall>t \<in> set store. target_reachable co t)"

lemma store_ok_new [simp]:
  "store_ok co (store @ [makeLiberaTarget co c info options]) \<longleftrightarrow> store_ok co store"
  by (simp add: store_ok_def makeLiberaTarget_def target_reachable.created)

text \<open>What connecting controllers leaves alone.\<close>

definition link_frame :: "'c controller_ops \<Rightarrow> ('c, 'h, 'w) runtime \<Rightarrow> ('c, 'h, 'w) runtime \<Rightarrow> bool" where
  "link_frame co rt rt' \<longleftrightarrow> rt_hosts rt' = rt_hosts rt \<and> rt_destroyed rt' = rt_destroyed rt \<and>
     rt_targets rt' = rt_targets rt \<and> rt_monitor rt' = rt_monitor rt \<and> rt_state rt' = rt_state rt \<and>
     rt_terminated rt' = rt_terminated rt \<and> rt_stopRequested rt' = rt_stopRequested rt \<and>
     rt_world rt' = rt_world rt \<and> rt_infos rt' = rt_infos rt \<and> (store_ok co (rt_store rt) \<longrightarrow> store_ok co (rt_store rt'))"

lemma link_frame_refl [simp]: "link_frame co rt rt"
  by (simp add: link_frame_def)

lemma link_frame_trans: "link_frame co rt rt1 \<Longrightarrow> link_frame co rt1 rt2 \<Longrightarrow> link_frame co rt rt2"
  by (simp add: link_frame_def)

lemma link_frame_steps [simp]:
  "link_frame co rt (rt\<lparr>rt_statusMessage := m\<rparr>)"
  "link_frame co rt (say b l rt)"
  "link_frame co rt (rt\<lparr>rt_statusMessage := m, rt_store := rt_store rt @ [makeLiberaTarget co c info options]\<rparr>)"
  "link_frame co rt (say b l (rt\<lparr>rt_statusMessage := m\<rparr>))"
  by (simp_all add: link_frame_def)

lemma connectControllers_frame:
  assumes "connectControllers env inp options sel k infos ts rt = (ts', rt')"
  shows "link_frame (le_co env) rt rt'"
  using assms
proof (induction infos arbitrary: k ts rt)
  case (Cons info infos)
  have "\<exists>rt1 ts1. link_frame (le_co env) rt rt1 \<and>
    ((ts', rt') = (ts, rt1) \<or> connectControllers env inp options sel (Suc k) infos ts1 rt1 = (ts', rt'))"
    using Cons.prems unfolding connectControllers.simps Let_def
    by (simp split: if_splits option.splits) (metis link_frame_refl link_frame_steps)+
  then show ?case using Cons.IH link_frame_trans by blast
qed simp

section \<open>Which targets are linked\<close>

lemma newTarget_info [simp]: "t_info (makeLiberaTarget co c info options) =
    \<lparr>ti_id = ci_id info, ti_label = ci_label info, ti_type = ci_type info, ti_maxPointRate = ci_maxPointRate info\<rparr>"
  by (simp add: makeLiberaTarget_def newLiberaTarget_def installPointCallback_def Let_def)

text \<open>A target of the link comes from a controller that may be linked and was asked for.\<close>

definition comes_from :: "string set \<Rightarrow> controller_info list \<Rightarrow> link_target \<Rightarrow> bool" where
  "comes_from sel infos t \<longleftrightarrow>
     (\<exists>info \<in> set infos. ti_id (lt_info t) = ci_id info \<and> fst (shouldLinkController info) \<and>
        isControllerSelected sel info)"

lemma connectControllers_targets:
  assumes "connectControllers env inp options sel k infos ts rt = (ts', rt')"
    "set infos \<subseteq> set all" "\<forall>t \<in> set ts. comes_from sel all t"
    "0 < lo_maxDacs options \<longrightarrow> length ts \<le> lo_maxDacs options"
  shows "(\<forall>t \<in> set ts'. comes_from sel all t) \<and>
    (0 < lo_maxDacs options \<longrightarrow> length ts' \<le> lo_maxDacs options)"
  using assms
proof (induction infos arbitrary: k ts rt)
  case (Cons info infos)
  define ok where "ok = (\<lambda>ts. (\<forall>t \<in> set ts. comes_from sel all t) \<and>
    (0 < lo_maxDacs options \<longrightarrow> length ts \<le> lo_maxDacs options))"
  have ok_ts: "ok ts" using Cons.prems(3,4) by (simp add: ok_def)
  let ?next = "connectControllers env inp options sel (Suc k) infos"
  have "\<exists>ts1 rt1. ok ts1 \<and> ((ts', rt') = (ts1, rt1) \<or> ?next ts1 rt1 = (ts', rt'))"
  proof (cases "li_stopConnect inp k \<or> \<not> fst (shouldLinkController info) \<or> \<not> isControllerSelected sel info \<or>
      0 < lo_maxDacs options \<and> lo_maxDacs options \<le> length ts \<or> li_connect inp k info = None")
    case True
    have "ts' = ts \<or> (\<exists>rt1. ?next ts rt1 = (ts', rt'))"
    proof (rule ccontr)
      assume no: "\<not> ?thesis"
      then have "\<not> li_stopConnect inp k" using Cons.prems(1) by - (rule ccontr, simp)
      moreover from this no have "fst (shouldLinkController info)"
        using Cons.prems(1) by - (rule ccontr, simp add: Let_def)
      moreover from calculation no have "isControllerSelected sel info"
        using Cons.prems(1) by - (rule ccontr, simp add: Let_def)
      moreover from calculation no have "\<not> (0 < lo_maxDacs options \<and> lo_maxDacs options \<le> length ts)"
        using Cons.prems(1) by - (rule ccontr, simp add: Let_def)
      moreover from calculation no have "li_connect inp k info \<noteq> None"
        using Cons.prems(1) by - (rule ccontr, cases "0 < lo_maxDacs options"; simp add: Let_def not_le)
      ultimately show False using True by auto
    qed
    then show ?thesis
    proof (elim disjE exE)
      assume "ts' = ts"
      then show ?thesis using ok_ts by blast
    next
      fix rt1 assume "?next ts rt1 = (ts', rt')"
      then show ?thesis using ok_ts by blast
    qed
  next
    case False
    then obtain c where c: "li_connect inp k info = Some c" by blast
    let ?t = "\<lparr>lt_ref = length (rt_store rt), lt_info = t_info (makeLiberaTarget (le_co env) c info options)\<rparr>"
    have "ok (ts @ [?t])" using False Cons.prems(2,3) by (auto simp: comes_from_def ok_def)
    moreover have "\<exists>rt1. ?next (ts @ [?t]) rt1 = (ts', rt')"
      using False c Cons.prems(1)
      by (cases "0 < lo_maxDacs options"; simp add: Let_def not_le del: newTarget_info; blast)
    ultimately show ?thesis by blast
  qed
  then obtain ts1 rt1 where ok1: "ok ts1" and "(ts', rt') = (ts1, rt1) \<or> ?next ts1 rt1 = (ts', rt')"
    by blast
  from this(2) show ?case
  proof
    assume "?next ts1 rt1 = (ts', rt')"
    then show ?thesis by (rule Cons.IH) (use ok1 Cons.prems(2) in \<open>simp_all add: ok_def\<close>)
  qed (use ok1 in \<open>simp add: ok_def\<close>)
qed simp

section \<open>Hosts\<close>

lemma startActiveHostGroup_fields:
  assumes "startActiveHostGroup env g sliceUs w = (Inr a, w')"
  shows "ah_targets a = pg_targets g \<and> ah_id a = hi_id (pg_info g) \<and>
    ah_instanceKey a = pg_instanceKey g \<and> ah_options a = pg_options g \<and>
    ah_endpoints a = ho_endpoints (le_ops env) (ah_host a)"
  using assms unfolding startActiveHostGroup_def Let_def
  by (auto split: sum.splits prod.splits option.splits)

text \<open>
  A host the link holds was created by the registry, under its identifier, and was started once,
  with its targets.
\<close>

definition host_key :: "'h active_host \<Rightarrow> string \<times> string \<times> options_map" where
  "host_key a = (ah_id a, ah_instanceKey a, ah_options a)"

definition started_from :: "('c, 'h, 'w) link_env \<Rightarrow> u32 \<Rightarrow> 'h active_host \<Rightarrow> bool" where
  "started_from env sliceUs a \<longleftrightarrow> (\<exists>host w w'.
     createVirtualControllerHost (ah_id a) \<lparr>cfg_sliceDurationUs = sliceUs, cfg_options = ah_options a\<rparr>
       (le_registry env) = Inr host \<and>
     ho_start (le_ops env) (ah_targets a) host w = (None, ah_host a, w'))"

lemma startActiveHostGroup_started:
  assumes "startActiveHostGroup env g sliceUs w = (Inr a, w')"
  shows "started_from env sliceUs a \<and> host_key a = group_key g"
  using assms unfolding startActiveHostGroup_def Let_def started_from_def host_key_def group_key_def
  by (auto split: sum.splits prod.splits option.splits intro!: exI)

text \<open>What starting and stopping hosts leaves alone.\<close>

definition host_frame :: "('c, 'h, 'w) runtime \<Rightarrow> ('c, 'h, 'w) runtime \<Rightarrow> bool" where
  "host_frame rt rt' \<longleftrightarrow> rt_hosts rt' = rt_hosts rt \<and> rt_targets rt' = rt_targets rt \<and>
     rt_monitor rt' = rt_monitor rt \<and> rt_terminated rt' = rt_terminated rt \<and>
     rt_stopRequested rt' = rt_stopRequested rt \<and> rt_store rt' = rt_store rt \<and>
     rt_infos rt' = rt_infos rt \<and> rt_state rt' = rt_state rt"

lemma host_frame_refl [simp]: "host_frame rt rt"
  by (simp add: host_frame_def)

lemma host_frame_trans: "host_frame rt rt1 \<Longrightarrow> host_frame rt1 rt2 \<Longrightarrow> host_frame rt rt2"
  by (simp add: host_frame_def)

lemma host_frame_steps [simp]:
  "host_frame rt (rt\<lparr>rt_world := w\<rparr>)"
  "host_frame rt (destroyHosts ops hs rt)"
  "host_frame rt (destroyHosts ops hs (rt\<lparr>rt_world := w\<rparr>))"
  "host_frame rt (rt\<lparr>rt_statusMessage := m, rt_world := w\<rparr>)"
  "host_frame rt (destroyHosts ops hs (rt\<lparr>rt_statusMessage := m, rt_world := w\<rparr>))"
  by (simp_all add: host_frame_def)

text \<open>
  The link as a successful start leaves it: one running host per group of targets, of the
  group's kind and options, serving the targets of its group and no other.
\<close>

definition linked ::
  "('c, 'h, 'w) link_env \<Rightarrow> link_options \<Rightarrow> string set \<Rightarrow> controller_info list \<Rightarrow>
   ('c, 'h, 'w) runtime \<Rightarrow> bool" where
  "linked env options sel infos rt \<longleftrightarrow>
     rt_state rt = Running \<and> rt_monitor rt \<and> rt_targets rt \<noteq> [] \<and>
     (\<forall>t \<in> set (rt_targets rt). comes_from sel infos t) \<and>
     (0 < lo_maxDacs options \<longrightarrow> length (rt_targets rt) \<le> lo_maxDacs options) \<and>
     (\<exists>gs. groups_ok env options (rt_targets rt) gs \<and>
        map ah_targets (rt_hosts rt) = map pg_targets gs \<and> map host_key (rt_hosts rt) = map group_key gs) \<and>
     (\<forall>a \<in> set (rt_hosts rt). started_from env (lo_sliceDurationUs options) a \<and>
        ho_running (le_ops env) (ah_host a) \<and>
        ep_targetId ` set (ah_endpoints a) = (ti_id \<circ> lt_info) ` set (ah_targets a))"

text \<open>
  What a start comes to: the link runs; or it failed or was cancelled and kept its hosts; or
  the monitor thread still ran and the process is gone.
\<close>

definition start_result ::
  "('c, 'h, 'w) link_env \<Rightarrow> link_options \<Rightarrow> string set \<Rightarrow> ('c, 'h, 'w) runtime \<Rightarrow> bool \<Rightarrow>
   ('c, 'h, 'w) runtime \<Rightarrow> bool" where
  "start_result env options sel rt ok rt' \<longleftrightarrow>
     (if ok then linked env options sel (rt_infos rt') rt' \<and> \<not> rt_monitor rt \<and> rt_terminated rt' = rt_terminated rt
      else rt_monitor rt' = rt_monitor rt \<and>
        (rt_terminated rt' \<and> rt_monitor rt \<and> linked env options sel (rt_infos rt') rt' \<or>
         rt_terminated rt' = rt_terminated rt \<and> rt_state rt' \<in> {Failed, Stopped} \<and>
           rt_hosts rt' = rt_hosts rt \<and> rt_targets rt' = rt_targets rt))"

lemma start_result_kept:
  assumes "rt_monitor rt' = rt_monitor rt" "rt_terminated rt' = rt_terminated rt"
    "rt_state rt' \<in> {Failed, Stopped}" "rt_hosts rt' = rt_hosts rt" "rt_targets rt' = rt_targets rt"
  shows "start_result env options sel rt False rt'"
  using assms by (simp add: start_result_def)

lemma failStart_fields:
  "failStart err rt = (ok, rt') \<Longrightarrow> \<not> ok \<and> rt_state rt' = Failed \<and> rt_hosts rt' = rt_hosts rt \<and>
    rt_targets rt' = rt_targets rt \<and> rt_monitor rt' = rt_monitor rt \<and> rt_store rt' = rt_store rt \<and>
    rt_terminated rt' = rt_terminated rt \<and> rt_destroyed rt' = rt_destroyed rt \<and> rt_world rt' = rt_world rt"
  by (auto simp: failStart_def)

lemma cancelStart_fields:
  "cancelStart rt = (ok, rt') \<Longrightarrow> \<not> ok \<and> rt_state rt' = Stopped \<and> rt_hosts rt' = rt_hosts rt \<and>
    rt_targets rt' = rt_targets rt \<and> rt_monitor rt' = rt_monitor rt \<and> rt_store rt' = rt_store rt \<and>
    rt_terminated rt' = rt_terminated rt \<and> rt_destroyed rt' = rt_destroyed rt \<and> rt_world rt' = rt_world rt"
  by (auto simp: cancelStart_def)

context virtual_host
begin

lemma stopHosts_stopped:
  "stopHosts ops hs w = (hs', w') \<Longrightarrow> length hs' = length hs \<and> (\<forall>h \<in> set hs'. \<not> ho_running ops h)"
proof (induction hs arbitrary: w hs' w')
  case (Cons h hs)
  obtain h' w1 where 1: "ho_stop ops h w = (h', w1)" by fastforce
  obtain hs1 w2 where 2: "stopHosts ops hs w1 = (hs1, w2)" by fastforce
  from Cons.prems 1 2 have "hs' = h' # hs1" by simp
  with Cons.IH [OF 2] stop_stops [OF 1] show ?case by simp
qed simp

text \<open>No destroyed host runs.\<close>

definition dead :: "('c, 'h, 'w) runtime \<Rightarrow> bool" where
  "dead rt \<longleftrightarrow> (\<forall>h \<in> set (rt_destroyed rt). \<not> ho_running ops h)"

text \<open>The link expects its hosts to run.\<close>

definition active_ok :: "'h active_host \<Rightarrow> bool" where
  "active_ok a \<longleftrightarrow> ho_running ops (ah_host a)"

lemma destroyHosts_dead [simp]: "dead (destroyHosts ops hs rt) \<longleftrightarrow> dead rt"
proof -
  obtain hs' w where "stopHosts ops hs (rt_world rt) = (hs', w)" by fastforce
  with stopHosts_stopped [OF this] show ?thesis by (auto simp: destroyHosts_def dead_def)
qed

lemma dead_frames [simp]:
  "dead (say b l rt) = dead rt" "dead (setState s m rt) = dead rt"
  "dead (configureLiberaSystem o' rt) = dead rt" "dead (clearLog env rt) = dead rt"
  "dead (sayLinked as rt) = dead rt" "dead (reportMissing missing rt) = dead rt"
  by (simp_all add: dead_def)

lemma dead_updates [simp]:
  "dead (rt\<lparr>rt_statusMessage := m\<rparr>) = dead rt" "dead (rt\<lparr>rt_world := w\<rparr>) = dead rt"
  "dead (rt\<lparr>rt_hosts := hs\<rparr>) = dead rt" "dead (rt\<lparr>rt_targets := ts\<rparr>) = dead rt"
  "dead (rt\<lparr>rt_stopRequested := b\<rparr>) = dead rt" "dead (rt\<lparr>rt_monitor := b\<rparr>) = dead rt"
  "dead (rt\<lparr>rt_store := st\<rparr>) = dead rt" "dead (rt\<lparr>rt_activeHostId := s\<rparr>) = dead rt"
  "dead (rt\<lparr>rt_activeHostDisplayName := s\<rparr>) = dead rt" "dead (rt\<lparr>rt_activeOptions := opts\<rparr>) = dead rt"
  "dead (rt\<lparr>rt_infos := infos\<rparr>) = dead rt" "dead (rt\<lparr>rt_terminated := b\<rparr>) = dead rt"
  "dead (rt\<lparr>rt_log := ls\<rparr>) = dead rt" "dead (rt\<lparr>rt_hasDiscoveryResults := b\<rparr>) = dead rt"
  "dead (rt\<lparr>rt_discoveredControllers := n\<rparr>) = dead rt" "dead (rt\<lparr>rt_discovered := ds\<rparr>) = dead rt"
  by (simp_all add: dead_def)

lemma dead_link_frame: "link_frame co rt rt' \<Longrightarrow> dead rt' = dead rt"
  by (simp add: link_frame_def dead_def)

end

context linked_hosts
begin

lemma startActiveHostGroup_ok:
  assumes "le_ops env = ops \<and> le_registry env = reg" "startActiveHostGroup env g sliceUs w = (Inr a, w')"
  shows "active_ok a \<and> ep_targetId ` set (ah_endpoints a) = (ti_id \<circ> lt_info) ` set (ah_targets a)"
proof -
  let ?config = "\<lparr>cfg_sliceDurationUs = sliceUs, cfg_options = pg_options g\<rparr>"
  from assms obtain host host' where c: "createVirtualControllerHost (hi_id (pg_info g)) ?config reg = Inr host"
    and s: "ho_start ops (pg_targets g) host w = (None, host', w')"
    and a: "ah_host a = host'" "ah_targets a = pg_targets g" "ah_endpoints a = ho_endpoints ops host'"
    by (auto simp: startActiveHostGroup_def Let_def split: sum.splits prod.splits option.splits)
  from start_runs [OF s] start_serves [OF s creates_idle [OF c]] a show ?thesis
    by (simp add: active_ok_def)
qed

text \<open>The hosts of a list of groups: one per group, running, with an endpoint per target.\<close>

definition serves :: "('c, 'h, 'w) link_env \<Rightarrow> u32 \<Rightarrow> 'h active_host \<Rightarrow> pending_group \<Rightarrow> bool" where
  "serves env sliceUs a g \<longleftrightarrow> active_ok a \<and> started_from env sliceUs a \<and>
     host_key a = group_key g \<and> ah_targets a = pg_targets g \<and>
     ep_targetId ` set (ah_endpoints a) = (ti_id \<circ> lt_info) ` set (ah_targets a)"

lemma startHostGroups_result:
  assumes "le_ops env = ops \<and> le_registry env = reg" "startHostGroups env inp sliceUs k gs active rt = (res, rt')"
  shows "host_frame rt rt' \<and> (dead rt \<longrightarrow> dead rt') \<and>
    (\<forall>hosts. res = Inr hosts \<longrightarrow> (\<exists>new. hosts = active @ new \<and> list_all2 (serves env sliceUs) new gs))"
  using assms(2)
proof (induction gs arbitrary: k active rt)
  case (Cons g gs)
  let ?rt1 = "rt\<lparr>rt_statusMessage := ''Starting '' @ hi_displayName (pg_info g) @ ''...''\<rparr>"
  obtain r w where r: "startActiveHostGroup env g sliceUs (rt_world rt) = (r, w)" by fastforce
  show ?case
  proof (cases r)
    case (Inl e)
    with Cons.prems r show ?thesis by (cases e) (auto simp: assms(1))
  next
    case (Inr a)
    have a: "serves env sliceUs a g"
      using startActiveHostGroup_ok [OF assms(1) r [unfolded Inr]]
        startActiveHostGroup_fields [OF r [unfolded Inr]] startActiveHostGroup_started [OF r [unfolded Inr]]
      by (simp add: serves_def)
    show ?thesis
    proof (cases "li_stopHost inp k")
      case True
      with Cons.prems r Inr show ?thesis by (auto simp: assms(1))
    next
      case False
      with Cons.prems r Inr have n:
        "startHostGroups env inp sliceUs (Suc k) gs (active @ [a]) (?rt1\<lparr>rt_world := w\<rparr>) = (res, rt')"
        by simp
      note ih = Cons.IH [OF n]
      have "\<exists>new. hosts = active @ new \<and> list_all2 (serves env sliceUs) new (g # gs)" if inr: "res = Inr hosts" for hosts
      proof -
        from ih inr obtain new where "hosts = (active @ [a]) @ new" "list_all2 (serves env sliceUs) new gs" by blast
        with a show ?thesis by (intro exI [of _ "a # new"]) simp
      qed
      moreover have "host_frame rt rt'"
        by (rule host_frame_trans [OF _ conjunct1 [OF ih]]) simp
      moreover have "dead rt \<longrightarrow> dead rt'" using ih by simp
      ultimately show ?thesis by blast
    qed
  qed
qed auto

lemma serves_targets:
  "list_all2 (serves env sliceUs) hosts gs \<Longrightarrow> map ah_targets hosts = map pg_targets gs \<and>
     map host_key hosts = map group_key gs \<and>
     (\<forall>a \<in> set hosts. active_ok a \<and> started_from env sliceUs a \<and>
        ep_targetId ` set (ah_endpoints a) = (ti_id \<circ> lt_info) ` set (ah_targets a))"
  by (induction rule: list_all2_induct) (auto simp: serves_def)

lemma enterRunning_result:
  assumes "le_ops env = ops \<and> le_registry env = reg" "enterRunning env options ts hosts rt = (ok, rt')"
  shows "(dead rt \<longrightarrow> dead rt') \<and> rt_state rt' = Running \<and> rt_hosts rt' = hosts \<and> rt_targets rt' = ts \<and>
    rt_store rt' = rt_store rt \<and> rt_infos rt' = rt_infos rt \<and> ok = (\<not> rt_monitor rt) \<and> rt_monitor rt' \<and>
    rt_terminated rt' = (rt_terminated rt \<or> rt_monitor rt)"
  using assms(2) by (auto simp: enterRunning_def Let_def assms(1) split: if_splits)

text \<open>A start keeps the store well-formed and its leftovers stopped.\<close>

definition start_keeps :: "'c controller_ops \<Rightarrow> ('c, 'h, 'w) runtime \<Rightarrow> ('c, 'h, 'w) runtime \<Rightarrow> bool" where
  "start_keeps co rt rt' \<longleftrightarrow> (dead rt \<longrightarrow> dead rt') \<and> (store_ok co (rt_store rt) \<longrightarrow> store_ok co (rt_store rt'))"

lemma start_keeps_trans: "start_keeps co rt rt1 \<Longrightarrow> start_keeps co rt1 rt2 \<Longrightarrow> start_keeps co rt rt2"
  by (simp add: start_keeps_def)

lemma start_keeps_frames:
  "link_frame co rt rt' \<Longrightarrow> start_keeps co rt rt'"
  "host_frame rt rt' \<Longrightarrow> dead rt \<longrightarrow> dead rt' \<Longrightarrow> start_keeps co rt rt'"
  by (auto simp: start_keeps_def link_frame_def host_frame_def dead_def)

lemma startTargets_result:
  assumes env: "le_ops env = ops \<and> le_registry env = reg" and start: "startTargets env inp options sel rt = (ok, rt')"
  shows "start_keeps (le_co env) rt rt' \<and> start_result env options sel rt ok rt'"
proof -
  obtain ts rt1 where c: "connectControllers env inp options sel 0 (rt_infos rt) [] rt = (ts, rt1)" by fastforce
  note f1 = connectControllers_frame [OF c]
  note k1 = start_keeps_frames(1) [OF f1]
  have ts: "(\<forall>t \<in> set ts. comes_from sel (rt_infos rt) t) \<and>
      (0 < lo_maxDacs options \<longrightarrow> length ts \<le> lo_maxDacs options)"
    by (rule connectControllers_targets [OF c]) simp_all
  consider (early) e where "failStart e rt1 = (ok, rt')" | (cancel) "cancelStart rt1 = (ok, rt')"
    | (groups) gs where "ts \<noteq> []" "groupTargets env options ts [] = Inr gs"
    using start c unfolding startTargets_def
    by (cases "li_stopConnected inp"; cases "ts = []"; cases "groupTargets env options ts []") auto
  then show ?thesis
  proof cases
    case early
    from failStart_fields [OF this] f1 k1 show ?thesis
      by (simp add: start_result_def start_keeps_def link_frame_def dead_def)
  next
    case cancel
    from cancelStart_fields [OF this] f1 k1 show ?thesis
      by (simp add: start_result_def start_keeps_def link_frame_def dead_def)
  next
    case groups
    obtain res rt2 where s: "startHostGroups env inp (lo_sliceDurationUs options) 0 gs [] rt1 = (res, rt2)"
      by fastforce
    note r2 = startHostGroups_result [OF env s]
    have f2: "host_frame rt1 rt2" and k2: "start_keeps (le_co env) rt rt2"
      using r2 start_keeps_trans [OF k1 start_keeps_frames(2)] by blast+
    show ?thesis
    proof (cases "li_stopConnected inp")
      case True
      with start c have "cancelStart rt1 = (ok, rt')" by (simp add: startTargets_def)
      from cancelStart_fields [OF this] f1 k1 show ?thesis
        by (simp add: start_result_def start_keeps_def link_frame_def dead_def)
    next
      case False
      show ?thesis
      proof (cases res)
        case (Inl e)
        with start c False groups s have "\<exists>e. failStart e rt2 = (ok, rt') \<or> cancelStart rt2 = (ok, rt')"
          by (auto simp: startTargets_def split: option.splits)
        with failStart_fields cancelStart_fields have "\<not> ok \<and> rt_state rt' \<in> {Failed, Stopped} \<and>
          rt_hosts rt' = rt_hosts rt2 \<and> rt_targets rt' = rt_targets rt2 \<and> rt_monitor rt' = rt_monitor rt2 \<and>
          rt_store rt' = rt_store rt2 \<and> rt_terminated rt' = rt_terminated rt2 \<and>
          rt_destroyed rt' = rt_destroyed rt2" by (metis insertCI)
        with f1 f2 k2 show ?thesis
          by (simp add: start_result_def start_keeps_def link_frame_def host_frame_def dead_def)
      next
        case (Inr hosts)
        with start c False groups s have e: "enterRunning env options ts hosts rt2 = (ok, rt')"
          by (simp add: startTargets_def)
        note r3 = enterRunning_result [OF env e]
        have "groups_ok env options ([] @ ts) gs"
          by (rule groupTargets_ok [OF groups(2)]) (simp add: groups_ok_def)
        moreover have "list_all2 (serves env (lo_sliceDurationUs options)) hosts gs" using r2 Inr by auto
        note sv = serves_targets [OF this]
        ultimately have "linked env options sel (rt_infos rt') rt'"
          using r3 f1 f2 ts groups(1) env
          by (auto simp: linked_def link_frame_def host_frame_def active_ok_def)
        then show ?thesis using r3 f1 f2 k2
          by (simp add: start_result_def start_keeps_def link_frame_def host_frame_def)
      qed
    qed
  qed
qed

end

end
