(* ===== verification/Runtime_Start.thy ===== *)
theory Runtime_Start
  imports Runtime_Props
begin

text \<open>
  What starting, updating, stopping and scanning come to, and the invariant that every
  reachable link has: targets are well-formed, the link's hosts run, and no host that was
  destroyed still runs.
\<close>

section \<open>Fresh starts\<close>

lemma runDiscovery_fields:
  "runDiscovery inp options rt = Some (found, rt') \<Longrightarrow> \<exists>ls. rt' = rt\<lparr>rt_log := ls\<rparr>"
  by (auto simp: runDiscovery_def split: option.splits)

lemma start_result_from:
  assumes "rt_monitor rt1 = rt_monitor rt" "rt_terminated rt1 = rt_terminated rt"
    "rt_hosts rt1 = rt_hosts rt" "rt_targets rt1 = rt_targets rt"
  shows "start_result env options sel rt1 ok rt' = start_result env options sel rt ok rt'"
  using assms by (simp add: start_result_def)

text \<open>What is done before controllers are connected leaves these alone.\<close>

definition same_link :: "('c, 'h, 'w) runtime \<Rightarrow> ('c, 'h, 'w) runtime \<Rightarrow> bool" where
  "same_link rt rt' \<longleftrightarrow> rt_hosts rt' = rt_hosts rt \<and> rt_destroyed rt' = rt_destroyed rt \<and>
     rt_targets rt' = rt_targets rt \<and> rt_monitor rt' = rt_monitor rt \<and> rt_store rt' = rt_store rt \<and>
     rt_terminated rt' = rt_terminated rt \<and> rt_world rt' = rt_world rt"

lemma startDiscovered_cases:
  assumes "startDiscovered env inp options sel rt = Some (ok, rt')"
  obtains (kept) "\<not> ok" "rt_state rt' \<in> {Failed, Stopped}" "same_link rt rt'"
    | (targets) rt1 where "startTargets env inp options sel rt1 = (ok, rt')" "same_link rt rt1"
proof (cases "rt_infos rt = []")
  case False
  let ?rt1 = "say False (''Using '' @ to_string (length (rt_infos rt)) @
                '' controller(s) from the latest scan.'') (setState Starting ''Connecting controllers...'' rt)"
  from False assms have "startTargets env inp options sel ?rt1 = (ok, rt')" by (simp add: startDiscovered_def)
  then show thesis by (rule targets) (simp add: same_link_def)
next
  case True
  let ?rt0 = "setState Starting ''Discovering controllers...'' rt"
  obtain found rt1 where d: "runDiscovery inp options ?rt0 = Some (found, rt1)"
    using True assms by (auto simp: startDiscovered_def split: option.splits)
  from runDiscovery_fields [OF d] obtain ls where rt1: "rt1 = ?rt0\<lparr>rt_log := ls\<rparr>" by blast
  consider (cancel) "cancelStart rt1 = (ok, rt')" | (silent) "\<not> ok" "rt' = setState Failed
        ''Controller discovery failed.'' (rt1\<lparr>rt_hasDiscoveryResults := True, rt_discoveredControllers := 0,
                              rt_discovered := []\<rparr>)"
    | (none) e where "failStart e (rt1\<lparr>rt_hasDiscoveryResults := True, rt_discoveredControllers := 0,
                              rt_discovered := []\<rparr>) = (ok, rt')"
    | (found) n sn m l where "startTargets env inp options sel (say False l (rt1\<lparr>rt_hasDiscoveryResults := True,
                             rt_discoveredControllers := n, rt_discovered := sn, rt_infos := found,
                             rt_statusMessage := m\<rparr>)) = (ok, rt')"
    using True assms d unfolding startDiscovered_def Let_def
    by (cases "li_stopDiscovered inp"; cases "found = []"; cases "discoveryFailed found rt1") auto
  then show thesis
  proof cases
    case cancel
    from cancelStart_fields [OF this] show ?thesis by (intro kept) (simp_all add: same_link_def rt1)
  next
    case silent
    then show ?thesis by (intro kept) (simp_all add: same_link_def rt1)
  next
    case none
    from failStart_fields [OF this] show ?thesis by (intro kept) (simp_all add: same_link_def rt1)
  next
    case (found n sn m l)
    then show ?thesis by (rule targets) (simp add: same_link_def rt1)
  qed
qed

text \<open>The same for a start as a whole.\<close>

lemma freshStart_cases:
  assumes "freshStart env inp options sel rt = Some (ok, rt')"
  obtains (refused) "rt_state rt \<in> {Scanning, Starting, StopRequested}" "\<not> ok" "rt' = rt"
    | (kept) "rt_state rt \<in> {Stopped, Running, Failed}" "\<not> ok" "rt_state rt' \<in> {Failed, Stopped}" "same_link rt rt'"
    | (targets) rt1 where "rt_state rt \<in> {Stopped, Running, Failed}" "startTargets env inp options sel rt1 = (ok, rt')"
        "same_link rt rt1"
proof (cases "rt_state rt \<in> {Scanning, Starting, StopRequested}")
  case True
  with assms show thesis by (intro refused) (auto simp: freshStart_def)
next
  case False
  then have st: "rt_state rt \<in> {Stopped, Running, Failed}" by (cases "rt_state rt") auto
  obtain rt4 where rt4: "same_link rt rt4"
    and "(\<exists>e. failStart e rt4 = (ok, rt')) \<or>
      (\<exists>l. startDiscovered env inp options sel (configureLiberaSystem options (say False l rt4)) = Some (ok, rt'))"
  proof (rule that [of "(case le_tracePath env of
         None \<Rightarrow> clearLog env ((setState Starting ''Starting controllers...'' rt)
                    \<lparr>rt_activeHostId := [], rt_activeHostDisplayName := []\<rparr>)
       | Some path \<Rightarrow> say False (''Link IO trace enabled at '' @ path)
           (clearLog env ((setState Starting ''Starting controllers...'' rt)
                    \<lparr>rt_activeHostId := [], rt_activeHostDisplayName := []\<rparr>)))\<lparr>rt_stopRequested := False\<rparr>"],
      goal_cases)
    case 2
    show ?case using assms False unfolding freshStart_def Let_def
      by (simp split: if_splits) blast+
  qed (simp add: same_link_def split: option.split)
  from this(2) show thesis
  proof (elim disjE exE)
    fix e assume "failStart e rt4 = (ok, rt')"
    from failStart_fields [OF this] rt4 show ?thesis by (intro kept st) (simp_all add: same_link_def)
  next
    fix l assume "startDiscovered env inp options sel (configureLiberaSystem options (say False l rt4)) = Some (ok, rt')"
    then show ?thesis
    proof (cases rule: startDiscovered_cases)
      case kept': kept
      with rt4 show ?thesis by (intro kept st) (simp_all add: same_link_def)
    next
      case targets': (targets rt1)
      from targets'(2) rt4 show ?thesis by (intro targets [OF st targets'(1)]) (simp add: same_link_def)
    qed
  qed
qed

context linked_hosts
begin

lemma start_keeps_from:
  "rt_destroyed rt1 = rt_destroyed rt \<Longrightarrow> rt_store rt1 = rt_store rt \<Longrightarrow> start_keeps co rt1 rt' = start_keeps co rt rt'"
  by (simp add: start_keeps_def dead_def)

lemma freshStart_result:
  assumes env: "le_ops env = ops \<and> le_registry env = reg" and start: "freshStart env inp options sel rt = Some (ok, rt')"
  shows "start_keeps (le_co env) rt rt' \<and> (rt_state rt \<in> {Scanning, Starting, StopRequested} \<and> \<not> ok \<and> rt' = rt \<or>
    rt_state rt \<in> {Stopped, Running, Failed} \<and> start_result env options sel rt ok rt')"
  using start
proof (cases rule: freshStart_cases)
  case refused
  then show ?thesis by (simp add: start_keeps_def)
next
  case kept
  then show ?thesis by (simp add: start_result_def start_keeps_def dead_def same_link_def)
next
  case (targets rt1)
  from startTargets_result [OF env targets(2)] targets(1,3) show ?thesis
    using start_result_from [of rt1 rt] start_keeps_from [of rt1 rt] by (simp add: same_link_def)
qed

end

section \<open>Stopping\<close>

lemma requestStop_fields [simp]:
  "rt_hosts (requestStop rt) = rt_hosts rt" "rt_destroyed (requestStop rt) = rt_destroyed rt"
  "rt_store (requestStop rt) = rt_store rt" "rt_targets (requestStop rt) = rt_targets rt"
  "rt_monitor (requestStop rt) = rt_monitor rt" "rt_terminated (requestStop rt) = rt_terminated rt"
  "rt_stopRequested (requestStop rt)" "rt_world (requestStop rt) = rt_world rt"
  by (simp_all add: requestStop_def Let_def)

lemma stopLink_fields [simp]:
  "rt_hosts (stopLink env rt) = []" "rt_targets (stopLink env rt) = []"
  "rt_state (stopLink env rt) = Stopped" "\<not> rt_monitor (stopLink env rt)"
  "\<not> rt_stopRequested (stopLink env rt)" "rt_store (stopLink env rt) = rt_store rt"
  "rt_terminated (stopLink env rt) = rt_terminated rt"
  by (simp_all add: stopLink_def Let_def)

section \<open>Updates\<close>

lemma host_frame_destroy: "host_frame rt rt' \<Longrightarrow> host_frame rt (destroyHosts ops hs rt')"
  by (simp add: host_frame_def)

lemma failUpdate_fields [simp]:
  "rt_hosts (failUpdate env e hs rt) = []" "rt_targets (failUpdate env e hs rt) = []"
  "rt_state (failUpdate env e hs rt) = Failed" "rt_monitor (failUpdate env e hs rt) = rt_monitor rt"
  "rt_store (failUpdate env e hs rt) = rt_store rt"
  "rt_terminated (failUpdate env e hs rt) = rt_terminated rt"
  by (simp_all add: failUpdate_def)

text \<open>A host that is what a group asks for: the group's kind, key and options, and its targets.\<close>

definition host_for :: "'h active_host \<Rightarrow> pending_group \<Rightarrow> bool" where
  "host_for a g \<longleftrightarrow> activeHostMatchesGroup a g \<and> targetIdSet (ah_targets a) = targetIdSet (pg_targets g)"

lemma started_host_for:
  "startActiveHostGroup env g sliceUs w = (Inr a, w') \<Longrightarrow> host_for a g"
  using startActiveHostGroup_fields [of env g sliceUs w a w']
  by (simp add: host_for_def activeHostMatchesGroup_def)

context linked_hosts
begin

lemma stopLink_dead: "le_ops env = ops \<and> le_registry env = reg \<Longrightarrow> dead (stopLink env rt) = dead rt"
  by (simp add: stopLink_def Let_def dead_def [of "requestStop _"] requestStop_def)

lemma removeTargets_runs:
  "removeTargets ops ds ts h w = (b, h', w') \<Longrightarrow> ho_running ops h \<Longrightarrow> ho_running ops h'"
  by (induction ts arbitrary: h w) (auto split: if_splits prod.splits option.splits dest: remove_runs)

lemma addTargets_runs:
  "addTargets ops cs ts h w = (b, h', w') \<Longrightarrow> ho_running ops h \<Longrightarrow> ho_running ops h'"
  by (induction ts arbitrary: h w) (auto split: if_splits prod.splits option.splits dest: add_runs)

lemma updateDynamically_runs:
  "updateDynamically ops cs ds h w = (b, h', w') \<Longrightarrow> ho_running ops h \<Longrightarrow> ho_running ops h'"
  unfolding updateDynamically_def
  by (auto split: if_splits prod.splits bool.splits dest: addTargets_runs removeTargets_runs)

lemma reconcileHost_result:
  assumes env: "le_ops env = ops \<and> le_registry env = reg" and r: "reconcileHost env sliceUs groups a rt = (res, rt')"
    and run: "active_ok a"
  shows "host_frame rt rt' \<and> (dead rt \<longrightarrow> dead rt') \<and>
    (\<forall>i kept. res = Inr (i, kept) \<longrightarrow> i = None \<and> kept = [] \<or>
      (\<exists>k a'. i = Some k \<and> k < length groups \<and> kept = [a'] \<and> active_ok a' \<and> host_for a' (groups ! k)))"
proof (cases "find_index (activeHostMatchesGroup a) groups")
  case None
  with r show ?thesis by (auto simp: reconcileHost_def env)
next
  case (Some i)
  from find_index_Some [OF Some] have i: "i < length groups" "activeHostMatchesGroup a (groups ! i)" by auto
  obtain b h' w' where u: "updateDynamically ops (ah_targets a) (pg_targets (groups ! i)) (ah_host a) (rt_world rt) = (b, h', w')"
    by (metis prod.collapse)
  have run': "ho_running ops h'" using updateDynamically_runs [OF u] run by (simp add: active_ok_def)
  show ?thesis
  proof (cases "targetIdSet (ah_targets a) = targetIdSet (pg_targets (groups ! i))")
    case True
    with r Some i run show ?thesis
      by (auto simp: reconcileHost_def env Let_def active_ok_def host_for_def activeHostMatchesGroup_def)
  next
    case False
    show ?thesis
    proof (cases b)
      case True
      with r Some i u False run' show ?thesis
        by (auto simp: reconcileHost_def env Let_def active_ok_def host_for_def activeHostMatchesGroup_def)
    next
      case nodyn: False
      let ?rt1 = "destroyHosts ops [h'] (rt\<lparr>rt_world := w'\<rparr>)"
      obtain sr w2 where s: "startActiveHostGroup env (groups ! i) sliceUs (rt_world ?rt1) = (sr, w2)" by fastforce
      have f: "host_frame rt (?rt1\<lparr>rt_world := w2\<rparr>)" by (rule host_frame_trans [of _ ?rt1]) simp_all
      show ?thesis
      proof (cases sr)
        case (Inl e)
        obtain err h where "e = (err, h)" by fastforce
        with r Some u False nodyn s Inl f show ?thesis
          by (auto simp: reconcileHost_def env Let_def intro: host_frame_destroy)
      next
        case (Inr fresh)
        with s have "startActiveHostGroup env (groups ! i) sliceUs (rt_world ?rt1) = (Inr fresh, w2)" by simp
        from startActiveHostGroup_ok [OF env this] started_host_for [OF this] i(1)
          r Some u False nodyn s Inr f show ?thesis
          by (auto simp: reconcileHost_def env Let_def)
      qed
    qed
  qed
qed

text \<open>\<open>nexts\<close> are running hosts, and the groups of \<open>handled\<close> are exactly those they are for.\<close>

definition matched :: "pending_group list \<Rightarrow> nat set \<Rightarrow> 'h active_host list \<Rightarrow> bool" where
  "matched groups handled nexts \<longleftrightarrow>
     (\<forall>a \<in> set nexts. active_ok a \<and> (\<exists>k \<in> handled. k < length groups \<and> host_for a (groups ! k))) \<and>
     (\<forall>k \<in> handled. k < length groups \<and> (\<exists>a \<in> set nexts. host_for a (groups ! k)))"

lemma matched_add:
  assumes "matched groups handled nexts" "k < length groups" "active_ok a" "host_for a (groups ! k)"
  shows "matched groups (insert k handled) (nexts @ [a])"
  using assms by (auto simp: matched_def)

text \<open>A step of an update: it went on, or the update failed and no host is left.\<close>

definition update_result :: "('c, 'h, 'w) runtime \<Rightarrow> bool \<Rightarrow> ('c, 'h, 'w) runtime \<Rightarrow> bool" where
  "update_result rt ok rt' \<longleftrightarrow> (dead rt \<longrightarrow> dead rt') \<and> rt_store rt' = rt_store rt \<and>
     rt_monitor rt' = rt_monitor rt \<and> rt_terminated rt' = rt_terminated rt \<and>
     (ok \<longrightarrow> rt_hosts rt' = rt_hosts rt \<and> rt_targets rt' = rt_targets rt \<and> rt_state rt' = rt_state rt) \<and>
     (\<not> ok \<longrightarrow> rt_hosts rt' = [] \<and> rt_targets rt' = [] \<and> rt_state rt' = Failed)"

lemma update_result_frame: "host_frame rt rt1 \<Longrightarrow> dead rt \<longrightarrow> dead rt1 \<Longrightarrow> update_result rt True rt1"
  by (simp add: host_frame_def update_result_def)

lemma update_result_trans: "update_result rt True rt1 \<Longrightarrow> update_result rt1 ok rt2 \<Longrightarrow> update_result rt ok rt2"
  by (simp add: update_result_def)

lemma update_result_fail:
  "le_ops env = ops \<and> le_registry env = reg \<Longrightarrow> update_result rt True rt1 \<Longrightarrow> update_result rt False (failUpdate env err hosts rt1)"
  by (simp add: update_result_def failUpdate_def)

lemma reconcileHosts_result:
  assumes env: "le_ops env = ops \<and> le_registry env = reg"
    and "reconcileHosts env sliceUs groups as nexts handled rt = (res, rt')"
    and "\<forall>a \<in> set as. active_ok a" "matched groups handled nexts"
  shows "update_result rt (\<exists>r. res = Inr r) rt' \<and> (\<forall>nexts' handled'. res = Inr (nexts', handled') \<longrightarrow>
    matched groups handled' nexts' \<and> handled \<subseteq> handled')"
  using assms(2-4)
proof (induction as arbitrary: nexts handled rt)
  case Nil
  then show ?case by (auto simp: update_result_def)
next
  case (Cons a as)
  obtain r rt1 where r: "reconcileHost env sliceUs groups a rt = (r, rt1)" by fastforce
  from Cons.prems(2) have "active_ok a" by simp
  note h = reconcileHost_result [OF env r this]
  have u1: "update_result rt True rt1" by (rule update_result_frame) (use h in blast)+
  show ?case
  proof (cases r)
    case (Inl err)
    with Cons.prems(1) r have "res = Inl err" "rt' = failUpdate env err (nexts @ as) rt1" by auto
    with update_result_fail [OF env u1] show ?thesis by simp
  next
    case (Inr ik)
    obtain i kept where ik: "ik = (i, kept)" by fastforce
    let ?handled = "case i of None \<Rightarrow> handled | Some k \<Rightarrow> insert k handled"
    from Cons.prems(1) r Inr ik
    have n: "reconcileHosts env sliceUs groups as (nexts @ kept) ?handled rt1 = (res, rt')" by simp
    have m: "matched groups ?handled (nexts @ kept)"
      using h Inr ik Cons.prems(3) matched_add by auto
    have sub: "handled \<subseteq> ?handled" by (auto split: option.split)
    from Cons.IH [OF n _ m] Cons.prems(2) update_result_trans [OF u1] sub show ?thesis
      by (metis list.set_intros(2) order_trans)
  qed
qed

lemma startNewGroups_result:
  assumes env: "le_ops env = ops \<and> le_registry env = reg"
    and "startNewGroups env sliceUs k gs handled nexts rt = (res, rt')"
    and "groups = pre @ gs" "length pre = k" "matched groups (handled \<union> {..<k}) nexts"
  shows "update_result rt (\<exists>r. res = Inr r) rt' \<and> (\<forall>hosts. res = Inr hosts \<longrightarrow>
    matched groups (handled \<union> {..<length groups}) hosts)"
  using assms(2-5)
proof (induction gs arbitrary: k pre nexts rt)
  case Nil
  then show ?case by (auto simp: update_result_def)
next
  case (Cons g gs)
  have pre: "groups = (pre @ [g]) @ gs" "length (pre @ [g]) = Suc k" "groups ! k = g" "k < length groups"
    using Cons.prems(2,3) by (auto simp: nth_append)
  show ?case
  proof (cases "k \<in> handled")
    case True
    with Cons.prems(1) have n: "startNewGroups env sliceUs (Suc k) gs handled nexts rt = (res, rt')" by simp
    have "handled \<union> {..<Suc k} = handled \<union> {..<k}" using True by (auto simp: less_Suc_eq)
    with Cons.IH [OF n pre(1,2)] Cons.prems(4) show ?thesis by simp
  next
    case False
    obtain r w where r: "startActiveHostGroup env g sliceUs (rt_world rt) = (r, w)" by fastforce
    show ?thesis
    proof (cases r)
      case (Inl e)
      obtain err h where e: "e = (err, h)" by fastforce
      from Cons.prems(1) False r Inl e have "res = Inl err" and rt': "rt' = failUpdate env err nexts
        (destroyHosts ops (case h of None \<Rightarrow> [] | Some x \<Rightarrow> [x]) (rt\<lparr>rt_world := w\<rparr>))"
        by (auto simp: env)
      moreover have "update_result rt False rt'"
        unfolding rt' by (intro update_result_fail env update_result_frame) simp_all
      ultimately show ?thesis by simp
    next
      case (Inr a)
      from Cons.prems(1) False r Inr have n: "startNewGroups env sliceUs (Suc k) gs handled (nexts @ [a])
        (rt\<lparr>rt_world := w\<rparr>) = (res, rt')" by simp
      have "active_ok a" "host_for a (groups ! k)"
        using startActiveHostGroup_ok [OF env] started_host_for r Inr pre(3) by auto
      with matched_add [OF Cons.prems(4) pre(4)]
      have m: "matched groups (insert k (handled \<union> {..<k})) (nexts @ [a])" by blast
      have "insert k (handled \<union> {..<k}) = handled \<union> {..<Suc k}" by auto
      moreover have "update_result rt True (rt\<lparr>rt_world := w\<rparr>)"
        by (rule update_result_frame) simp_all
      ultimately show ?thesis
        using Cons.IH [OF n pre(1,2)] m update_result_trans by metis
    qed
  qed
qed

lemma applySelection_result:
  assumes env: "le_ops env = ops \<and> le_registry env = reg" and a: "applySelection env options ds groups rt = (ok, rt')"
    and run: "\<forall>a \<in> set (rt_hosts rt). active_ok a"
  shows "(dead rt \<longrightarrow> dead rt') \<and> rt_store rt' = rt_store rt \<and> rt_monitor rt' = rt_monitor rt \<and>
    rt_terminated rt' = rt_terminated rt \<and>
    (if ok then rt_state rt' = Running \<and> rt_targets rt' = ds \<and> matched groups {..<length groups} (rt_hosts rt')
     else rt_state rt' = Failed \<and> rt_hosts rt' = [] \<and> rt_targets rt' = [])"
proof -
  let ?us = "lo_sliceDurationUs options"
  obtain r rt1 where r: "reconcileHosts env ?us groups (rt_hosts rt) [] {} rt = (r, rt1)" by fastforce
  have "matched groups {} []" by (simp add: matched_def)
  note h1 = reconcileHosts_result [OF env r run this]
  show ?thesis
  proof (cases r)
    case (Inl err)
    with a r have "\<not> ok" "rt' = say True err rt1" by (auto simp: applySelection_def)
    with h1 Inl show ?thesis by (simp add: update_result_def)
  next
    case (Inr nh)
    obtain nexts handled where nh: "nh = (nexts, handled)" by fastforce
    obtain q rt2 where q: "startNewGroups env ?us 0 groups handled nexts rt1 = (q, rt2)" by fastforce
    have m: "matched groups (handled \<union> {..<0}) nexts" and sub: "handled \<subseteq> {..<length groups}"
      using h1 Inr nh by (auto simp: matched_def)
    have h2: "update_result rt (\<exists>r. q = Inr r) rt2 \<and>
        (\<forall>hosts. q = Inr hosts \<longrightarrow> matched groups {..<length groups} hosts)"
      using startNewGroups_result [OF env q _ _ m, of "[]"] update_result_trans h1 Inr sub
      by (auto simp: Un_absorb1)
    show ?thesis
    proof (cases q)
      case (Inl err)
      with a r Inr nh q have "\<not> ok" "rt' = say True err rt2" by (auto simp: applySelection_def)
      with h2 Inl show ?thesis by (simp add: update_result_def)
    next
      case (Inr hosts)
      with a r \<open>r = Inr nh\<close> nh q h2 show ?thesis
        by (auto simp: applySelection_def Let_def update_result_def)
    qed
  qed
qed

text \<open>What every reachable link has.\<close>

definition link_inv :: "'c controller_ops \<Rightarrow> ('c, 'h, 'w) runtime \<Rightarrow> bool" where
  "link_inv co rt \<longleftrightarrow> dead rt \<and> (\<forall>a \<in> set (rt_hosts rt). active_ok a) \<and> store_ok co (rt_store rt)"

lemma link_inv_cong:
  "rt_destroyed rt' = rt_destroyed rt \<Longrightarrow> rt_hosts rt' = rt_hosts rt \<Longrightarrow> rt_store rt' = rt_store rt \<Longrightarrow>
     link_inv co rt' = link_inv co rt"
  by (simp add: link_inv_def dead_def)

lemma link_inv_stop: "le_ops env = ops \<and> le_registry env = reg \<Longrightarrow> link_inv (le_co env) rt \<Longrightarrow> link_inv (le_co env) (stopLink env rt)"
  by (simp add: link_inv_def stopLink_dead)

lemma link_inv_start_result:
  assumes "le_ops env = ops \<and> le_registry env = reg" "link_inv (le_co env) rt" "start_keeps (le_co env) rt rt'" "start_result env options sel rt ok rt'"
  shows "link_inv (le_co env) rt'"
proof -
  have "rt_hosts rt' = rt_hosts rt \<or> linked env options sel (rt_infos rt') rt'"
    using assms(4) by (auto simp: start_result_def split: if_splits)
  then have "\<forall>a \<in> set (rt_hosts rt'). active_ok a"
    using assms(1,2) by (auto simp: linked_def link_inv_def active_ok_def)
  with assms(2,3) show ?thesis by (simp add: link_inv_def start_keeps_def)
qed

lemma link_inv_fresh:
  assumes env: "le_ops env = ops \<and> le_registry env = reg" and "link_inv (le_co env) rt" "freshStart env inp options sel rt = Some (ok, rt')"
  shows "link_inv (le_co env) rt'"
  using freshStart_result [OF env assms(3)] assms(2) link_inv_start_result [OF env assms(2)] by blast

end

text \<open>Connecting the controllers a running link lacks.\<close>

lemma connectMissing_frame:
  assumes "connectMissing env inp options k infos missing byId rt = (missing', byId', rt')"
  shows "link_frame (le_co env) rt rt'"
  using assms
proof (induction infos arbitrary: k missing byId rt)
  case (Cons info infos)
  have "\<exists>rt1 m b. link_frame (le_co env) rt rt1 \<and>
      connectMissing env inp options (Suc k) infos m b rt1 = (missing', byId', rt')"
    using Cons.prems unfolding connectMissing.simps Let_def
    by (simp split: if_splits option.splits) (metis link_frame_refl link_frame_steps)+
  then show ?case using Cons.IH link_frame_trans by blast
qed simp

text \<open>The targets and the runtime an update goes on with.\<close>

definition updateTargets ::
  "('c, 'h, 'w) link_env \<Rightarrow> 'c link_inputs \<Rightarrow> link_options \<Rightarrow> string set \<Rightarrow> ('c, 'h, 'w) runtime \<Rightarrow>
   (string \<rightharpoonup> link_target) \<times> ('c, 'h, 'w) runtime" where
  "updateTargets env inp options selected rt =
     (let byId = targetsById (rt_targets rt); missing = {i \<in> selected. byId i = None} in
      if missing = {} then (byId, rt)
      else case connectMissing env inp options 0 (rt_infos (configureLiberaSystem options rt)) missing byId
          (configureLiberaSystem options rt) of
        (missing', byId', rt2) \<Rightarrow> (byId', reportMissing missing' rt2))"

lemma updateTargets_frame:
  assumes "updateTargets env inp options selected rt = (byId, rt1)"
  shows "rt_hosts rt1 = rt_hosts rt \<and> rt_destroyed rt1 = rt_destroyed rt \<and> rt_targets rt1 = rt_targets rt \<and>
    rt_monitor rt1 = rt_monitor rt \<and> rt_terminated rt1 = rt_terminated rt \<and> rt_state rt1 = rt_state rt \<and> rt_world rt1 = rt_world rt \<and>
    (store_ok (le_co env) (rt_store rt) \<longrightarrow> store_ok (le_co env) (rt_store rt1))"
proof (cases "{i \<in> selected. targetsById (rt_targets rt) i = None} = {}")
  case True
  with assms show ?thesis by (auto simp: updateTargets_def Let_def)
next
  case False
  obtain m b rt2 where c: "connectMissing env inp options 0 (rt_infos (configureLiberaSystem options rt))
      {i \<in> selected. targetsById (rt_targets rt) i = None} (targetsById (rt_targets rt))
      (configureLiberaSystem options rt) = (m, b, rt2)" by (rule prod_cases3)
  have "rt1 = reportMissing m rt2"
    using assms False unfolding updateTargets_def Let_def c if_not_P [OF False] by simp
  with connectMissing_frame [OF c] show ?thesis by (simp add: link_frame_def)
qed

text \<open>An update that is neither a stop nor a restart.\<close>

lemma updateRunning_cases:
  assumes "updateRunning env inp options selected rt = Some (ok, rt')"
  obtains (stop) "selected = {}" "ok" "rt' = stopLink env rt"
    | (restart) "selected \<noteq> {}" "targetRuntimeOptionsChanged (rt_activeOptions rt) options" "freshStart env inp options selected (stopLink env
        (say False ''Restarting link because controller runtime options changed.'' rt)) = Some (ok, rt')"
    | (unknown) byId rt1 e where "selected \<noteq> {}" "updateTargets env inp options selected rt = (byId, rt1)"
        "failStart e rt1 = (ok, rt')"
    | (nobody) byId rt1 where "updateTargets env inp options selected rt = (byId, rt1)"
        "ok" "rt' = stopLink env rt1"
    | (selection) byId rt1 ds groups where "selected \<noteq> {}"
        "updateTargets env inp options selected rt = (byId, rt1)"
        "ds = List.map_filter byId (sorted_list_of_set selected)" "ds \<noteq> []"
        "groupTargets env options ds [] = Inr groups"
        "applySelection env options ds groups rt1 = (ok, rt')"
proof -
  obtain byId rt1 where u: "updateTargets env inp options selected rt = (byId, rt1)" by fastforce
  show thesis
  proof (cases "selected = {} \<or> targetRuntimeOptionsChanged (rt_activeOptions rt) options")
    case True
    with assms that(1,2) show thesis
      unfolding updateRunning_def by (cases "selected = {}") auto
  next
    case False
    define ds where "ds = List.map_filter byId (sorted_list_of_set selected)"
    from False assms u have body: "(ok, rt') =
       (if lo_virtualControllerHostId options \<noteq> [] \<and> fallbackHost env options = None
        then failStart (unknownHost (lo_virtualControllerHostId options)) rt1
        else case groupTargets env options ds [] of
            Inl err \<Rightarrow> failStart err rt1
          | Inr groups \<Rightarrow>
              (if ds = [] then (True, stopLink env rt1) else applySelection env options ds groups rt1))"
      unfolding updateRunning_def updateTargets_def Let_def ds_def by simp
    show thesis
    proof (cases "lo_virtualControllerHostId options \<noteq> [] \<and> fallbackHost env options = None")
      case True
      with body False show thesis by (intro that(3) [OF _ u]) simp_all
    next
      case found: False
      show thesis
      proof (cases "groupTargets env options ds []")
        case (Inl err)
        with body False found show thesis by (intro that(3) [OF _ u]) simp_all
      next
        case (Inr groups)
        show thesis
        proof (cases "ds = []")
          case True
          with body found Inr show thesis by (intro that(4) [OF u]) simp_all
        next
          case nonempty: False
          with body False found Inr show thesis
            by (intro that(5) [OF _ u ds_def nonempty]) simp_all
        qed
      qed
    qed
  qed
qed

section \<open>The targets of an update\<close>

definition keyed :: "(string \<rightharpoonup> link_target) \<Rightarrow> bool" where
  "keyed m \<longleftrightarrow> (\<forall>i t. m i = Some t \<longrightarrow> ti_id (lt_info t) = i)"

lemma targetsById_keyed: "keyed (targetsById ts)"
proof -
  have "keyed m \<Longrightarrow> keyed (foldl (\<lambda>m t. if m (ti_id (lt_info t)) = None
      then m(ti_id (lt_info t) \<mapsto> t) else m) m ts)" for m
  proof (induction ts arbitrary: m)
    case (Cons t ts)
    have "keyed (if m (ti_id (lt_info t)) = None then m(ti_id (lt_info t) \<mapsto> t) else m)"
      using Cons.prems by (auto simp: keyed_def)
    then show ?case unfolding foldl.simps by (rule Cons.IH)
  qed simp
  from this [of Map.empty] show ?thesis unfolding targetsById_def by (simp add: keyed_def [of Map.empty])
qed

lemma connectMissing_keyed:
  assumes "connectMissing env inp options k infos missing byId rt = (missing', byId', rt')" "keyed byId"
  shows "keyed byId'"
  using assms
proof (induction infos arbitrary: k missing byId rt)
  case (Cons info infos)
  have "\<exists>rt1 m b. keyed b \<and> connectMissing env inp options (Suc k) infos m b rt1 = (missing', byId', rt')"
  proof (cases "ci_id info \<in> missing \<and> fst (shouldLinkController info) \<and> li_connect inp k info \<noteq> None")
    case True
    then obtain c where c: "li_connect inp k info = Some c" by blast
    let ?t = "\<lparr>lt_ref = length (rt_store rt), lt_info = t_info (makeLiberaTarget (le_co env) c info options)\<rparr>"
    have "keyed (byId(ti_id (lt_info ?t) \<mapsto> ?t))" using Cons.prems(2) by (simp add: keyed_def)
    moreover have "\<exists>rt1 m. connectMissing env inp options (Suc k) infos m (byId(ti_id (lt_info ?t) \<mapsto> ?t)) rt1 =
        (missing', byId', rt')"
      using Cons.prems(1) True c unfolding connectMissing.simps Let_def by (simp del: newTarget_info; blast)
    ultimately show ?thesis by blast
  next
    case False
    then have "\<exists>rt1 m. connectMissing env inp options (Suc k) infos m byId rt1 = (missing', byId', rt')"
      using Cons.prems(1) unfolding connectMissing.simps Let_def
      by (cases "ci_id info \<in> missing"; cases "fst (shouldLinkController info)"; simp; blast)
    with Cons.prems(2) show ?thesis by blast
  qed
  then show ?case using Cons.IH by blast
qed simp

lemma updateTargets_keyed:
  assumes "updateTargets env inp options selected rt = (byId, rt1)"
  shows "keyed byId"
proof (cases "{i \<in> selected. targetsById (rt_targets rt) i = None} = {}")
  case True
  with assms show ?thesis by (auto simp: updateTargets_def Let_def targetsById_keyed)
next
  case False
  obtain m b rt2 where c: "connectMissing env inp options 0 (rt_infos (configureLiberaSystem options rt))
      {i \<in> selected. targetsById (rt_targets rt) i = None} (targetsById (rt_targets rt))
      (configureLiberaSystem options rt) = (m, b, rt2)" by (rule prod_cases3)
  have "byId = b" using assms unfolding updateTargets_def Let_def c if_not_P [OF False] by simp
  with connectMissing_keyed [OF c targetsById_keyed] show ?thesis by simp
qed

lemma keyed_filter:
  "keyed m \<Longrightarrow> map (ti_id \<circ> lt_info) (List.map_filter m ids) = filter (\<lambda>i. m i \<noteq> None) ids"
  by (induction ids) (auto simp: map_filter_simps keyed_def split: option.split)

section \<open>The system keeps its invariant\<close>

lemma store_ok_update:
  "store_ok co store \<Longrightarrow> i < length store \<Longrightarrow> store_ok co (store[i := target_step co clk ev (store ! i)])"
  by (auto simp: store_ok_def intro: target_reachable.stepped dest!: set_update_subset_insert [THEN subsetD])

lemma logTargets_ok: "store_ok (le_co env) store \<Longrightarrow> store_ok (le_co env) (logTargets env clks ts store)"
proof -
  have "store_ok (le_co env) s \<Longrightarrow> store_ok (le_co env) (foldl (\<lambda>s t. if lt_ref t < length s
      then s[lt_ref t := logStatsIfDue (le_co env) (clks (lt_ref t)) (s ! lt_ref t)] else s) s ts)" for s
  proof (induction ts arbitrary: s)
    case (Cons t ts)
    have "store_ok (le_co env) (if lt_ref t < length s
        then s[lt_ref t := logStatsIfDue (le_co env) (clks (lt_ref t)) (s ! lt_ref t)] else s)"
      using Cons.prems store_ok_update [of "le_co env" s "lt_ref t" "clks (lt_ref t)" LogTick] by simp
    then show ?case using Cons.IH by simp
  qed simp
  then show "store_ok (le_co env) store \<Longrightarrow> ?thesis" by (simp add: logTargets_def)
qed

lemma targetSnapshots_ok:
  "store_ok co store \<Longrightarrow> store_ok co (snd (targetSnapshots co hosts ts store))"
proof (induction ts arbitrary: store)
  case (Cons t ts)
  show ?case
  proof (cases "lt_ref t < length store")
    case True
    let ?r = "targetSnapshot co (activeHostForTarget hosts (ti_id (lt_info t))) (store ! lt_ref t)"
    have "snd ?r = target_step co undefined Status (store ! lt_ref t)"
      by (simp add: targetSnapshot_def Let_def targetStatusSnapshot_def split: prod.splits)
    then have "store_ok co (store[lt_ref t := snd ?r])"
      using store_ok_update [OF Cons.prems True, of undefined Status] by simp
    note ok = Cons.IH [OF this]
    obtain sn t' where r: "?r = (sn, t')" by fastforce
    obtain ss store' where q: "targetSnapshots co hosts ts (store[lt_ref t := t']) = (ss, store')" by fastforce
    from ok r q True show ?thesis by simp
  next
    case False
    with Cons show ?thesis by simp
  qed
qed simp

end
