(* ===== verification/Watched_Hosts.thy ===== *)
theory Watched_Hosts
  imports Runtime_Start
begin

text \<open>
  Which hosts run. The link holds its hosts as values, so that a host it loses track of is no
  longer to be seen in its state. Here every host gets a number when it is started, and a ledger
  in the world of the hosts holds the numbers of those that run: each operation of a host enters
  or strikes its number by what the host says of itself after it. What the link does with its
  hosts is not part of this; it is proved that the hosts that run are always hosts that the link
  holds. The operations and the registry of any environment can be watched so.
\<close>

section \<open>A ledger of running hosts\<close>

type_synonym 'h numbered = "'h \<times> nat option"

text \<open>The world, how many hosts were started, and the numbers of those that run.\<close>

type_synonym 'w ledger = "'w \<times> nat \<times> nat set"

definition startedHosts :: "'w ledger \<Rightarrow> nat" where
  "startedHosts w = fst (snd w)"

definition runningHosts :: "'w ledger \<Rightarrow> nat set" where
  "runningHosts w = snd (snd w)"

fun enter :: "bool \<Rightarrow> nat option \<Rightarrow> nat set \<Rightarrow> nat set" where
  "enter runs None running = running"
| "enter runs (Some k) running = (if runs then insert k running else running - {k})"

definition watched :: "('h, 'w) host_ops \<Rightarrow> ('h numbered, 'w ledger) host_ops" where
  "watched ops = \<lparr>
     ho_displayName = (\<lambda>h. ho_displayName ops (fst h)),
     ho_start = (\<lambda>ts (h, k) (w, n, running). case ho_start ops ts h w of (res, h', w') \<Rightarrow>
        (case k of
           None \<Rightarrow> (res, (h', Some n), (w', Suc n, enter (ho_running ops h') (Some n) running))
         | Some i \<Rightarrow> (res, (h', k), (w', n, enter (ho_running ops h') k running)))),
     ho_stop = (\<lambda>(h, k) (w, n, running). case ho_stop ops h w of (h', w') \<Rightarrow>
        ((h', k), (w', n, enter (ho_running ops h') k running))),
     ho_running = (\<lambda>h. ho_running ops (fst h)),
     ho_endpoints = (\<lambda>h. ho_endpoints ops (fst h)),
     ho_supportsDynamicTargets = (\<lambda>h. ho_supportsDynamicTargets ops (fst h)),
     ho_addTarget = (\<lambda>t (h, k) (w, n, running). case ho_addTarget ops t h w of (res, h', w') \<Rightarrow>
        (res, (h', k), (w', n, enter (ho_running ops h') k running))),
     ho_removeTarget = (\<lambda>tid (h, k) (w, n, running). case ho_removeTarget ops tid h w of (res, h', w') \<Rightarrow>
        (res, (h', k), (w', n, enter (ho_running ops h') k running)))\<rparr>"

text \<open>A host just created has no number yet.\<close>

definition unnumbered :: "'h registration \<Rightarrow> 'h numbered registration" where
  "unnumbered r = \<lparr>rg_info = rg_info r,
     rg_factory = map_option (\<lambda>factory config. map_option (\<lambda>h. (h, None)) (factory config)) (rg_factory r)\<rparr>"

definition watchedRegistry :: "'h registry \<Rightarrow> 'h numbered registry" where
  "watchedRegistry reg = \<lparr>rs_orderedInfos = rs_orderedInfos reg,
     rs_registrationsById = (\<lambda>key. map_option unnumbered (rs_registrationsById reg key))\<rparr>"

definition watchedEnv :: "('c, 'h, 'w) link_env \<Rightarrow> ('c, 'h numbered, 'w ledger) link_env" where
  "watchedEnv env = \<lparr>le_registry = watchedRegistry (le_registry env), le_ops = watched (le_ops env),
     le_co = le_co env, le_logPath = le_logPath env, le_tracePath = le_tracePath env\<rparr>"

text \<open>Nothing was started yet; and the numbers of the hosts that a link holds.\<close>

definition noHosts :: "'w \<Rightarrow> 'w ledger" where
  "noHosts w = (w, 0, {})"

definition heldNumbers :: "'h numbered active_host list \<Rightarrow> nat set" where
  "heldNumbers hosts = (\<Union>a \<in> set hosts. set_option (snd (ah_host a)))"

lemma watchedEnv_simps [simp]:
  "le_registry (watchedEnv env) = watchedRegistry (le_registry env)" "le_ops (watchedEnv env) = watched (le_ops env)"
  "le_co (watchedEnv env) = le_co env" "le_tracePath (watchedEnv env) = le_tracePath env"
  "le_logPath (watchedEnv env) = le_logPath env"
  by (simp_all add: watchedEnv_def)

lemma noHosts_simps [simp]: "runningHosts (noHosts w) = {}" "startedHosts (noHosts w) = 0"
  by (simp_all add: noHosts_def runningHosts_def startedHosts_def)

lemma watched_simps [simp]:
  "ho_running (watched ops) h = ho_running ops (fst h)" "ho_endpoints (watched ops) h = ho_endpoints ops (fst h)"
  "ho_displayName (watched ops) h = ho_displayName ops (fst h)"
  "ho_supportsDynamicTargets (watched ops) h = ho_supportsDynamicTargets ops (fst h)"
  by (simp_all add: watched_def)

lemma watched_registry_simps [simp]:
  "availableVirtualControllerHosts (watchedRegistry reg) = availableVirtualControllerHosts reg"
  "findVirtualControllerHost key (watchedRegistry reg) = findVirtualControllerHost key reg"
  "defaultVirtualControllerHost (watchedRegistry reg) = defaultVirtualControllerHost reg"
  by (simp_all add: watchedRegistry_def unnumbered_def availableVirtualControllerHosts_def
      findVirtualControllerHost_def defaultVirtualControllerHost_def option.case_eq_if option.map_sel)

lemma watched_created:
  "createVirtualControllerHost key config (watchedRegistry reg) =
     map_sum id (\<lambda>h. (h, None)) (createVirtualControllerHost key config reg)"
  by (simp add: createVirtualControllerHost_def watchedRegistry_def unnumbered_def split: option.split)

section \<open>The law of the ledger\<close>

text \<open>
  Starting a host enters at most the number it has then, stopping strikes its number, changing
  its targets keeps its number and enters no other.
\<close>

lemma startHostGroups_hosts:
  "startHostGroups env inp sliceUs k gs active rt = (res, rt') \<Longrightarrow> rt_hosts rt' = rt_hosts rt"
  by (induction gs arbitrary: k active rt) (auto simp: Let_def split: prod.splits sum.splits if_splits)

locale accounted_hosts =
  fixes ops :: "('h, 'w) host_ops"
    and running :: "'w \<Rightarrow> 'k set"
    and number :: "'h \<Rightarrow> 'k option"
  assumes start_enters: "ho_start ops ts h w = (res, h', w') \<Longrightarrow> running w' \<subseteq> running w \<union> set_option (number h')"
    and stop_strikes: "ho_stop ops h w = (h', w') \<Longrightarrow> running w' \<subseteq> running w - set_option (number h)"
    and add_keeps: "ho_addTarget ops t h w = (res, h', w') \<Longrightarrow>
      number h' = number h \<and> running w' \<subseteq> running w \<union> set_option (number h)"
    and remove_keeps: "ho_removeTarget ops tid h w = (res, h', w') \<Longrightarrow>
      number h' = number h \<and> running w' \<subseteq> running w \<union> set_option (number h)"
begin

text \<open>The numbers of the hosts of a list; the hosts that run are in a list, or are others.\<close>

definition numbers :: "'h list \<Rightarrow> 'k set" where
  "numbers hs = (\<Union>h \<in> set hs. set_option (number h))"

lemma numbers_simps [simp]:
  "numbers [] = {}" "numbers (h # hs) = set_option (number h) \<union> numbers hs" "numbers (hs @ gs) = numbers hs \<union> numbers gs"
  by (auto simp: numbers_def)

text \<open>Every host that runs is held by the link.\<close>

definition accounted :: "('c, 'h, 'w) runtime \<Rightarrow> bool" where
  "accounted rt \<longleftrightarrow> running (rt_world rt) \<subseteq> numbers (map ah_host (rt_hosts rt))"

lemma accounted_cong:
  "rt_hosts rt' = rt_hosts rt \<Longrightarrow> rt_world rt' = rt_world rt \<Longrightarrow> accounted rt' = accounted rt"
  by (simp add: accounted_def)

lemma stopHosts_strikes:
  "stopHosts ops hs w = (hs', w') \<Longrightarrow> running w \<subseteq> numbers hs \<union> others \<Longrightarrow> running w' \<subseteq> others"
proof (induction hs arbitrary: w hs' w')
  case (Cons h hs)
  obtain h1 w1 where 1: "ho_stop ops h w = (h1, w1)" by fastforce
  obtain hs2 w2 where 2: "stopHosts ops hs w1 = (hs2, w2)" by fastforce
  have "running w1 \<subseteq> numbers hs \<union> others" using stop_strikes [OF 1] Cons.prems(2) by auto
  from Cons.IH [OF 2 this] Cons.prems(1) 1 2 show ?case by simp
qed simp

lemma destroyHosts_strikes:
  assumes "running (rt_world rt) \<subseteq> numbers hs \<union> others"
  shows "running (rt_world (destroyHosts ops hs rt)) \<subseteq> others"
proof -
  obtain hs' w where s: "stopHosts ops hs (rt_world rt) = (hs', w)" by fastforce
  from stopHosts_strikes [OF s assms] s show ?thesis by (simp add: destroyHosts_def)
qed

text \<open>Starting and restarting hosts; a host that failed to start is still to be destroyed.\<close>

definition left_over :: "'h option \<Rightarrow> 'h list" where
  "left_over h = (case h of None \<Rightarrow> [] | Some x \<Rightarrow> [x])"

lemma startActiveHostGroup_enters:
  assumes "le_ops env = ops" "startActiveHostGroup env g sliceUs w = (res, w')" "running w \<subseteq> others"
  shows "running w' \<subseteq> numbers (case res of Inl (err, h) \<Rightarrow> left_over h | Inr a \<Rightarrow> [ah_host a]) \<union> others"
  using assms(2,3) unfolding startActiveHostGroup_def Let_def assms(1)
  by (auto simp: left_over_def split: sum.splits prod.splits option.splits dest!: start_enters)

lemma startHostGroups_accounts:
  assumes "le_ops env = ops" "startHostGroups env inp sliceUs k gs active rt = (res, rt')"
    "running (rt_world rt) \<subseteq> numbers (map ah_host active) \<union> others"
  shows "running (rt_world rt') \<subseteq> (case res of Inl e \<Rightarrow> {} | Inr hosts \<Rightarrow> numbers (map ah_host hosts)) \<union> others"
  using assms(2,3)
proof (induction gs arbitrary: k active rt)
  case (Cons g gs)
  let ?rt1 = "rt\<lparr>rt_statusMessage := ''Starting '' @ hi_displayName (pg_info g) @ ''...''\<rparr>"
  obtain r w where r: "startActiveHostGroup env g sliceUs (rt_world rt) = (r, w)" by fastforce
  note w = startActiveHostGroup_enters [OF assms(1) r Cons.prems(2)]
  show ?case
  proof (cases r)
    case (Inl e)
    obtain err h where e: "e = (err, h)" by fastforce
    have "res = Inl (Some err)" "rt' = destroyHosts ops (map ah_host active @ left_over h) (?rt1\<lparr>rt_world := w\<rparr>)"
      using Cons.prems(1) r Inl e by (simp_all add: assms(1) left_over_def)
    moreover have "running w \<subseteq> numbers (map ah_host active @ left_over h) \<union> others"
      using w Inl e by auto
    ultimately show ?thesis by (simp add: destroyHosts_strikes)
  next
    case (Inr a)
    show ?thesis
    proof (cases "li_stopHost inp k")
      case True
      have "res = Inl None" "rt' = destroyHosts ops (ah_host a # map ah_host active) (?rt1\<lparr>rt_world := w\<rparr>)"
        using Cons.prems(1) r Inr True by (simp_all add: assms(1))
      moreover have "running w \<subseteq> numbers (ah_host a # map ah_host active) \<union> others" using w Inr by auto
      ultimately show ?thesis by (simp add: destroyHosts_strikes)
    next
      case False
      have "startHostGroups env inp sliceUs (Suc k) gs (active @ [a]) (?rt1\<lparr>rt_world := w\<rparr>) = (res, rt')"
        using Cons.prems(1) r Inr False by simp
      from Cons.IH [OF this] w Inr show ?thesis by auto
    qed
  qed
qed auto

section \<open>Starting and stopping the link\<close>

lemma enterRunning_accounts:
  assumes "le_ops env = ops" "enterRunning env options ts hosts rt = (ok, rt')"
    "running (rt_world rt) \<subseteq> numbers (map ah_host hosts) \<union> numbers (map ah_host (rt_hosts rt))"
  shows "accounted rt'"
proof -
  let ?rt = "destroyHosts ops (map ah_host (rt_hosts rt)) (sayLinked hosts rt)"
  have "running (rt_world ?rt) \<subseteq> numbers (map ah_host hosts)"
    by (rule destroyHosts_strikes) (use assms(3) in auto)
  moreover have "rt_hosts rt' = hosts" "rt_world rt' = rt_world ?rt"
    using assms(2) by (auto simp: enterRunning_def assms(1) Let_def split: if_splits)
  ultimately show ?thesis by (simp add: accounted_def)
qed

lemma startTargets_accounts:
  assumes ops: "le_ops env = ops" and start: "startTargets env inp options sel rt = (ok, rt')" and acc: "accounted rt"
  shows "accounted rt'"
proof -
  obtain ts rt1 where c: "connectControllers env inp options sel 0 (rt_infos rt) [] rt = (ts, rt1)" by fastforce
  from connectControllers_frame [OF c] acc have acc1: "accounted rt1" by (simp add: link_frame_def accounted_def)
  have ended: "accounted rt'" if "(\<exists>e. failStart e r = (ok, rt')) \<or> cancelStart r = (ok, rt')" "accounted r" for r
    using that(1) failStart_fields [of _ r ok rt'] cancelStart_fields [of r ok rt'] accounted_cong [of rt' r] that(2) by blast
  show ?thesis
  proof (cases "li_stopConnected inp \<or> ts = [] \<or> (\<exists>e. groupTargets env options ts [] = Inl e)")
    case True
    have "(\<exists>e. failStart e rt1 = (ok, rt')) \<or> cancelStart rt1 = (ok, rt')"
      using True start c unfolding startTargets_def
      by (cases "li_stopConnected inp"; cases "ts = []") auto
    then show ?thesis using acc1 by (rule ended)
  next
    case False
    then obtain gs where gs: "groupTargets env options ts [] = Inr gs" by (cases "groupTargets env options ts []") auto
    obtain res rt2 where s: "startHostGroups env inp (lo_sliceDurationUs options) 0 gs [] rt1 = (res, rt2)"
      by fastforce
    have "running (rt_world rt1) \<subseteq> numbers (map ah_host []) \<union> numbers (map ah_host (rt_hosts rt1))"
      using acc1 by (simp add: accounted_def)
    note acc2 = startHostGroups_accounts [OF ops s this]
    have f2: "rt_hosts rt2 = rt_hosts rt1" by (rule startHostGroups_hosts [OF s])
    show ?thesis
    proof (cases res)
      case (Inl e)
      have "(\<exists>e. failStart e rt2 = (ok, rt')) \<or> cancelStart rt2 = (ok, rt')"
        using start c gs s Inl False by (cases e) (simp_all add: startTargets_def, blast)
      moreover have "accounted rt2" using acc2 Inl f2 by (simp add: accounted_def)
      ultimately show ?thesis by (rule ended)
    next
      case (Inr hosts)
      have "enterRunning env options ts hosts rt2 = (ok, rt')"
        using start c gs s Inr False by (simp add: startTargets_def)
      then show ?thesis by (rule enterRunning_accounts [OF ops]) (use acc2 Inr f2 in simp)
    qed
  qed
qed

lemma freshStart_accounts:
  assumes "le_ops env = ops" "freshStart env inp options sel rt = Some (ok, rt')" "accounted rt"
  shows "accounted rt'"
  using assms(2)
proof (cases rule: freshStart_cases)
  case kept
  with assms(3) show ?thesis by (simp add: same_link_def accounted_def)
next
  case (targets rt1)
  from targets(3) assms(3) have "accounted rt1" by (simp add: same_link_def accounted_def)
  then show ?thesis by (rule startTargets_accounts [OF assms(1) targets(2)])
qed (use assms(3) in simp)

lemma stopLink_strikes:
  assumes "le_ops env = ops" "accounted rt"
  shows "running (rt_world (stopLink env rt)) = {}"
proof -
  let ?rt = "setState Stopped ''Stopped'' ((requestStop rt)\<lparr>rt_monitor := False, rt_hosts := [], rt_targets := [],
    rt_activeHostId := [], rt_activeHostDisplayName := []\<rparr>)"
  have "running (rt_world (destroyHosts ops (map ah_host (rt_hosts rt)) ?rt)) \<subseteq> {}"
    by (rule destroyHosts_strikes) (use assms(2) in \<open>simp add: accounted_def\<close>)
  then show ?thesis by (cases "rt_hosts rt") (simp_all add: stopLink_def assms(1) Let_def)
qed

lemma stopLink_accounts: "le_ops env = ops \<Longrightarrow> accounted rt \<Longrightarrow> accounted (stopLink env rt)"
  by (simp add: accounted_def [of "stopLink env rt"] stopLink_strikes)

section \<open>Updating the link\<close>

lemma removeTargets_keeps:
  "removeTargets ops ds ts h w = (b, h', w') \<Longrightarrow> running w \<subseteq> set_option (number h) \<union> others \<Longrightarrow>
     number h' = number h \<and> running w' \<subseteq> set_option (number h) \<union> others"
proof (induction ts arbitrary: h w)
  case (Cons t ts)
  show ?case
  proof (cases "ti_id (lt_info t) \<in> ds")
    case False
    obtain r h1 w1 where r: "ho_removeTarget ops (ti_id (lt_info t)) h w = (r, h1, w1)" by (rule prod_cases3)
    have 1: "number h1 = number h" "running w1 \<subseteq> set_option (number h1) \<union> others"
      using remove_keeps [OF r] Cons.prems(2) by auto
    show ?thesis
    proof (cases r)
      case None
      have "removeTargets ops ds ts h1 w1 = (b, h', w')" using Cons.prems(1) False r None by simp
      from Cons.IH [OF this 1(2)] 1(1) show ?thesis by simp
    next
      case (Some e)
      with Cons.prems(1) False r 1 show ?thesis by simp
    qed
  qed (use Cons in simp)
qed simp

lemma addTargets_keeps:
  "addTargets ops cs ts h w = (b, h', w') \<Longrightarrow> running w \<subseteq> set_option (number h) \<union> others \<Longrightarrow>
     number h' = number h \<and> running w' \<subseteq> set_option (number h) \<union> others"
proof (induction ts arbitrary: h w)
  case (Cons t ts)
  show ?case
  proof (cases "ti_id (lt_info t) \<in> cs")
    case False
    obtain r h1 w1 where r: "ho_addTarget ops t h w = (r, h1, w1)" by (rule prod_cases3)
    have 1: "number h1 = number h" "running w1 \<subseteq> set_option (number h1) \<union> others"
      using add_keeps [OF r] Cons.prems(2) by auto
    show ?thesis
    proof (cases r)
      case None
      have "addTargets ops cs ts h1 w1 = (b, h', w')" using Cons.prems(1) False r None by simp
      from Cons.IH [OF this 1(2)] 1(1) show ?thesis by simp
    next
      case (Some e)
      with Cons.prems(1) False r 1 show ?thesis by simp
    qed
  qed (use Cons in simp)
qed simp

lemma updateDynamically_keeps:
  assumes "updateDynamically ops cs ds h w = (b, h', w')" "running w \<subseteq> set_option (number h) \<union> others"
  shows "number h' = number h \<and> running w' \<subseteq> set_option (number h) \<union> others"
proof (cases "ho_supportsDynamicTargets ops h")
  case True
  obtain b1 h1 w1 where r: "removeTargets ops (targetIdSet ds) cs h w = (b1, h1, w1)" by (rule prod_cases3)
  note 1 = removeTargets_keeps [OF r assms(2)]
  show ?thesis
  proof (cases b1)
    case True
    have "addTargets ops (targetIdSet cs) ds h1 w1 = (b, h', w')"
      using assms(1) \<open>ho_supportsDynamicTargets ops h\<close> r True by (simp add: updateDynamically_def)
    from addTargets_keeps [OF this, of others] 1 show ?thesis by simp
  next
    case False
    with assms(1) \<open>ho_supportsDynamicTargets ops h\<close> r 1 show ?thesis by (simp add: updateDynamically_def)
  qed
qed (use assms in \<open>simp add: updateDynamically_def\<close>)

lemma reconcileHost_accounts:
  assumes ops: "le_ops env = ops" and r: "reconcileHost env sliceUs groups a rt = (res, rt')"
    and w: "running (rt_world rt) \<subseteq> set_option (number (ah_host a)) \<union> others"
  shows "running (rt_world rt') \<subseteq>
    (case res of Inl err \<Rightarrow> {} | Inr (i, kept) \<Rightarrow> numbers (map ah_host kept)) \<union> others"
proof (cases "find_index (activeHostMatchesGroup a) groups")
  case None
  with r destroyHosts_strikes [of rt "[ah_host a]" others] w show ?thesis
    by (auto simp: reconcileHost_def ops)
next
  case (Some i)
  let ?g = "groups ! i"
  obtain b h' w' where u: "updateDynamically ops (ah_targets a) (pg_targets ?g) (ah_host a) (rt_world rt) = (b, h', w')"
    by (rule prod_cases3)
  note k = updateDynamically_keeps [OF u w]
  consider (same) "targetIdSet (ah_targets a) = targetIdSet (pg_targets ?g)"
    | (dynamic) "targetIdSet (ah_targets a) \<noteq> targetIdSet (pg_targets ?g)" b
    | (restart) "targetIdSet (ah_targets a) \<noteq> targetIdSet (pg_targets ?g)" "\<not> b" by blast
  then show ?thesis
  proof cases
    case restart
    let ?rt1 = "destroyHosts ops [h'] (rt\<lparr>rt_world := w'\<rparr>)"
    have "running (rt_world ?rt1) \<subseteq> others" by (rule destroyHosts_strikes) (use k in simp)
    obtain sr w2 where s: "startActiveHostGroup env ?g sliceUs (rt_world ?rt1) = (sr, w2)" by fastforce
    note e = startActiveHostGroup_enters [OF ops s \<open>running (rt_world ?rt1) \<subseteq> others\<close>]
    show ?thesis
    proof (cases sr)
      case (Inl er)
      obtain err h where er: "er = (err, h)" by fastforce
      have "res = Inl err" "rt' = destroyHosts ops (left_over h) (?rt1\<lparr>rt_world := w2\<rparr>)"
        using r Some u restart s Inl er by (simp_all add: reconcileHost_def ops left_over_def Let_def)
      moreover have "running w2 \<subseteq> numbers (left_over h) \<union> others" using e Inl er by simp
      ultimately show ?thesis by (simp add: destroyHosts_strikes)
    next
      case (Inr fresh)
      with r Some u restart s e show ?thesis by (auto simp: reconcileHost_def ops Let_def)
    qed
  qed (use r Some u k w in \<open>auto simp: reconcileHost_def ops Let_def\<close>)
qed

lemma failUpdate_strikes:
  assumes "le_ops env = ops" "running (rt_world rt) \<subseteq> numbers (map ah_host hosts)"
  shows "accounted (failUpdate env err hosts rt)"
  using destroyHosts_strikes [of rt "map ah_host hosts" "{}"] assms
  by (simp add: accounted_def failUpdate_def)

lemma reconcileHosts_accounts:
  assumes "le_ops env = ops" "reconcileHosts env sliceUs groups as nexts handled rt = (res, rt')"
    "running (rt_world rt) \<subseteq> numbers (map ah_host nexts) \<union> numbers (map ah_host as)"
  shows "case res of Inl err \<Rightarrow> accounted rt'
    | Inr (nexts', handled') \<Rightarrow> running (rt_world rt') \<subseteq> numbers (map ah_host nexts')"
  using assms(2,3)
proof (induction as arbitrary: nexts handled rt)
  case (Cons a as)
  obtain r rt1 where r: "reconcileHost env sliceUs groups a rt = (r, rt1)" by fastforce
  have "running (rt_world rt) \<subseteq> set_option (number (ah_host a)) \<union> (numbers (map ah_host nexts) \<union> numbers (map ah_host as))"
    using Cons.prems(2) by auto
  note w = reconcileHost_accounts [OF assms(1) r this]
  show ?case
  proof (cases r)
    case (Inl err)
    have "res = Inl err" "rt' = failUpdate env err (nexts @ as) rt1" using Cons.prems(1) r Inl by simp_all
    moreover have "running (rt_world rt1) \<subseteq> numbers (map ah_host (nexts @ as))" using w Inl by simp
    ultimately show ?thesis by (simp add: failUpdate_strikes [OF assms(1)])
  next
    case (Inr ik)
    obtain i kept where ik: "ik = (i, kept)" by fastforce
    from Cons.prems(1) r Inr ik have "reconcileHosts env sliceUs groups as (nexts @ kept)
      (case i of None \<Rightarrow> handled | Some k \<Rightarrow> insert k handled) rt1 = (res, rt')" by simp
    from Cons.IH [OF this] w Inr ik show ?thesis by auto
  qed
qed (auto split: sum.split)

lemma startNewGroups_accounts:
  assumes "le_ops env = ops" "startNewGroups env sliceUs k gs handled nexts rt = (res, rt')"
    "running (rt_world rt) \<subseteq> numbers (map ah_host nexts)"
  shows "case res of Inl err \<Rightarrow> accounted rt' | Inr hosts \<Rightarrow> running (rt_world rt') \<subseteq> numbers (map ah_host hosts)"
  using assms(2,3)
proof (induction gs arbitrary: k nexts rt)
  case (Cons g gs)
  show ?case
  proof (cases "k \<in> handled")
    case True
    with Cons show ?thesis by simp
  next
    case False
    obtain r w where r: "startActiveHostGroup env g sliceUs (rt_world rt) = (r, w)" by fastforce
    note w = startActiveHostGroup_enters [OF assms(1) r Cons.prems(2)]
    show ?thesis
    proof (cases r)
      case (Inl e)
      obtain err h where e: "e = (err, h)" by fastforce
      have "res = Inl err" "rt' = failUpdate env err nexts (destroyHosts ops (left_over h) (rt\<lparr>rt_world := w\<rparr>))"
        using Cons.prems(1) False r Inl e by (simp_all add: assms(1) left_over_def)
      moreover have "running (rt_world (destroyHosts ops (left_over h) (rt\<lparr>rt_world := w\<rparr>))) \<subseteq> numbers (map ah_host nexts)"
        by (rule destroyHosts_strikes) (use w Inl e in simp)
      ultimately show ?thesis by (simp add: failUpdate_strikes [OF assms(1)])
    next
      case (Inr a)
      with Cons.prems(1) False r have "startNewGroups env sliceUs (Suc k) gs handled (nexts @ [a])
        (rt\<lparr>rt_world := w\<rparr>) = (res, rt')" by simp
      from Cons.IH [OF this] w Inr show ?thesis by auto
    qed
  qed
qed (auto split: sum.split)

lemma applySelection_accounts:
  assumes "le_ops env = ops" "applySelection env options ds groups rt = (ok, rt')" "accounted rt"
  shows "accounted rt'"
proof -
  let ?us = "lo_sliceDurationUs options"
  obtain r rt1 where r: "reconcileHosts env ?us groups (rt_hosts rt) [] {} rt = (r, rt1)" by fastforce
  have "running (rt_world rt) \<subseteq> numbers (map ah_host []) \<union> numbers (map ah_host (rt_hosts rt))"
    using assms(3) by (simp add: accounted_def)
  note 1 = reconcileHosts_accounts [OF assms(1) r this]
  show ?thesis
  proof (cases r)
    case (Inl err)
    with assms(2) r 1 show ?thesis by (auto simp: applySelection_def accounted_def)
  next
    case (Inr nh)
    obtain nexts handled where nh: "nh = (nexts, handled)" by fastforce
    obtain q rt2 where q: "startNewGroups env ?us 0 groups handled nexts rt1 = (q, rt2)" by fastforce
    have "running (rt_world rt1) \<subseteq> numbers (map ah_host nexts)" using 1 Inr nh by simp
    note 2 = startNewGroups_accounts [OF assms(1) q this]
    show ?thesis
      by (cases q) (use assms(2) r Inr nh q 2 in \<open>auto simp: applySelection_def accounted_def Let_def\<close>)
  qed
qed

lemma updateRunning_accounts:
  assumes "le_ops env = ops" "updateRunning env inp options sel rt = Some (ok, rt')" "accounted rt"
  shows "accounted rt'"
proof -
  have frame: "accounted rt1" if "updateTargets env inp options sel rt = (byId, rt1)" for byId rt1
    using updateTargets_frame [OF that] assms(3) by (simp add: accounted_def)
  show ?thesis using assms(2)
  proof (cases rule: updateRunning_cases)
    case restart
    have "accounted (stopLink env (say False ''Restarting link because controller runtime options changed.'' rt))"
      by (rule stopLink_accounts [OF assms(1)]) (use assms(3) in \<open>simp add: accounted_def\<close>)
    then show ?thesis by (rule freshStart_accounts [OF assms(1) restart(3)])
  next
    case (unknown byId rt1 e)
    with failStart_fields [OF unknown(3)] frame show ?thesis by (simp add: accounted_def)
  next
    case (nobody byId rt1)
    with frame stopLink_accounts [OF assms(1)] show ?thesis by simp
  next
    case (selection byId rt1 ds groups)
    from applySelection_accounts [OF assms(1) selection(6) frame [OF selection(2)]] show ?thesis .
  qed (use assms(1,3) stopLink_accounts in simp)
qed

lemma startLink_accounts:
  assumes "le_ops env = ops" "startLink env inp options sel rt = Some (ok, rt')" "accounted rt"
  shows "accounted rt'"
proof (cases "rt_state rt = Running")
  case True
  then have "updateRunning env inp options sel (rt\<lparr>rt_statusMessage := ''Updating link...''\<rparr>) = Some (ok, rt')"
    using assms(2) by (simp add: startLink_def)
  then show ?thesis
    by (rule updateRunning_accounts [OF assms(1)]) (use assms(3) in \<open>simp add: accounted_def\<close>)
next
  case False
  then have "freshStart env inp options sel rt = Some (ok, rt')" using assms(2) by (simp add: startLink_def)
  then show ?thesis by (rule freshStart_accounts [OF assms(1) _ assms(3)])
qed

section \<open>Every step of the link\<close>

lemma link_step_accounts:
  assumes ops: "le_ops env = ops" and step: "link_step env ev rt = Some rt'" and acc: "accounted rt"
  shows "accounted rt'"
proof (cases ev)
  case (Scan inp options)
  with step obtain ok where "scanLink env inp options rt = Some (ok, rt')" by auto
  then have "rt_hosts rt' = rt_hosts rt \<and> rt_world rt' = rt_world rt"
    unfolding scanLink_def Let_def by (auto split: if_splits option.splits dest!: runDiscovery_fields)
  with acc show ?thesis by (simp add: accounted_def)
next
  case (Start inp options sel)
  with step obtain ok where "startLink env inp options sel rt = Some (ok, rt')" by auto
  then show ?thesis by (rule startLink_accounts [OF ops _ acc])
next
  case Stop
  with step stopLink_accounts [OF ops acc] show ?thesis by simp
next
  case (Monitor clks)
  have "map ah_host (map (\<lambda>a. a\<lparr>ah_endpoints := ho_endpoints (le_ops env) (ah_host a)\<rparr>) (rt_hosts rt)) = map ah_host (rt_hosts rt)"
    by simp
  moreover have "rt_world (monitorTick env clks rt) = rt_world rt" by (simp add: monitorTick_def)
  ultimately have "map ah_host (rt_hosts (monitorTick env clks rt)) = map ah_host (rt_hosts rt) \<and>
      rt_world (monitorTick env clks rt) = rt_world rt" by (simp only: monitorTick_def split: if_split) simp
  moreover have "rt' = monitorTick env clks rt" using step Monitor by simp
  ultimately show ?thesis using acc by (simp add: accounted_def)
qed (use step acc in \<open>auto simp: accounted_def invalidateDiscoveryCache_def snapshotLink_def split: prod.splits if_splits\<close>)

end

section \<open>Runs of the link\<close>

text \<open>The states of the link that follow a given one.\<close>

inductive link_run :: "('c, 'h, 'w) link_env \<Rightarrow> ('c, 'h, 'w) runtime \<Rightarrow> ('c, 'h, 'w) runtime \<Rightarrow> bool" for env rt0 where
  here: "link_run env rt0 rt0"
| step: "link_run env rt0 rt \<Longrightarrow> \<not> rt_terminated rt \<Longrightarrow> link_step env ev rt = Some rt' \<Longrightarrow> link_run env rt0 rt'"

lemma link_run_reachable: "link_run env (initialLink env w) rt \<Longrightarrow> link_reachable env rt"
  by (induction rule: link_run.induct) (auto intro: link_reachable.intros)

lemma reachable_link_run: "link_reachable env rt \<Longrightarrow> \<exists>w. link_run env (initialLink env w) rt"
  by (induction rule: link_reachable.induct) (blast intro: link_run.intros)+

lemma link_run_trans: "link_run env rt1 rt2 \<Longrightarrow> link_run env rt0 rt1 \<Longrightarrow> link_run env rt0 rt2"
  by (induction rule: link_run.induct) (blast intro: link_run.step)+

section \<open>Watched hosts keep the ledger\<close>

lemma watched_start:
  "ho_start (watched ops) ts (h, k) (w, n, running) = (res, h', w') \<longleftrightarrow>
     (\<exists>x v. ho_start ops ts h w = (res, x, v) \<and> h' = (x, Some (case k of None \<Rightarrow> n | Some i \<Rightarrow> i)) \<and>
        w' = (v, case k of None \<Rightarrow> Suc n | Some i \<Rightarrow> n,
              enter (ho_running ops x) (Some (case k of None \<Rightarrow> n | Some i \<Rightarrow> i)) running))"
  by (auto simp: watched_def split: prod.splits option.splits)

lemma watched_stop:
  "ho_stop (watched ops) (h, k) (w, n, running) = (h', w') \<longleftrightarrow>
     (\<exists>x v. ho_stop ops h w = (x, v) \<and> h' = (x, k) \<and> w' = (v, n, enter (ho_running ops x) k running))"
  by (auto simp: watched_def split: prod.splits)

lemma watched_add:
  "ho_addTarget (watched ops) t (h, k) (w, n, running) = (res, h', w') \<longleftrightarrow>
     (\<exists>x v. ho_addTarget ops t h w = (res, x, v) \<and> h' = (x, k) \<and> w' = (v, n, enter (ho_running ops x) k running))"
  by (auto simp: watched_def split: prod.splits)

lemma watched_remove:
  "ho_removeTarget (watched ops) tid (h, k) (w, n, running) = (res, h', w') \<longleftrightarrow>
     (\<exists>x v. ho_removeTarget ops tid h w = (res, x, v) \<and> h' = (x, k) \<and> w' = (v, n, enter (ho_running ops x) k running))"
  by (auto simp: watched_def split: prod.splits)

lemma enter_enters: "enter runs k running \<subseteq> running \<union> set_option k"
  by (cases k) auto

lemma enter_strikes: "\<not> runs \<Longrightarrow> enter runs k running = running - set_option k"
  by (cases k) auto

lemma stopHosts_started: "stopHosts (watched ops) hs w = (hs', w') \<Longrightarrow> startedHosts w' = startedHosts w"
proof (induction hs arbitrary: w hs' w')
  case (Cons h hs)
  obtain h1 w1 where 1: "ho_stop (watched ops) h w = (h1, w1)" by (rule prod.exhaust)
  then have "startedHosts w1 = startedHosts w" by (cases h; cases w) (auto simp: watched_stop startedHosts_def)
  with Cons 1 show ?case by (auto split: prod.splits)
qed simp

lemma destroyHosts_started [simp]: "startedHosts (rt_world (destroyHosts (watched ops) hs rt)) = startedHosts (rt_world rt)"
proof -
  obtain hs' w where "stopHosts (watched ops) hs (rt_world rt) = (hs', w)" by (rule prod.exhaust)
  with stopHosts_started [OF this] show ?thesis by (simp add: destroyHosts_def)
qed

lemma stopLink_started [simp]: "startedHosts (rt_world (stopLink (watchedEnv env) rt)) = startedHosts (rt_world rt)"
  by (simp add: stopLink_def Let_def)

text \<open>Starting the first host of all counts it.\<close>

lemma watched_group_starts:
  assumes "startActiveHostGroup env g sliceUs w = (Inr a, w')"
  obtains b v where "startActiveHostGroup (watchedEnv env) g sliceUs (noHosts w) = (Inr b, v)" "startedHosts v = 1"
    "runningHosts v \<subseteq> {0}"
proof -
  from assms obtain h h' where c: "createVirtualControllerHost (hi_id (pg_info g))
      \<lparr>cfg_sliceDurationUs = sliceUs, cfg_options = pg_options g\<rparr> (le_registry env) = Inr h"
    and s: "ho_start (le_ops env) (pg_targets g) h w = (None, h', w')"
    by (auto simp: startActiveHostGroup_def Let_def split: sum.splits prod.splits option.splits)
  have "ho_start (watched (le_ops env)) (pg_targets g) (h, None) (noHosts w) =
      (None, (h', Some 0), (w', 1, enter (ho_running (le_ops env) h') (Some 0) {}))"
    using s by (simp add: noHosts_def watched_start)
  then obtain b where b: "startActiveHostGroup (watchedEnv env) g sliceUs (noHosts w) =
      (Inr b, (w', 1, enter (ho_running (le_ops env) h') (Some 0) {}))"
    using c by (simp add: startActiveHostGroup_def watched_created Let_def)
  show thesis by (rule that [OF b]) (simp_all add: startedHosts_def runningHosts_def)
qed

text \<open>A watched host does what the host does, so that it keeps its contract.\<close>

context virtual_host
begin

lemma watched_host: "virtual_host (watched ops)"
proof (unfold_locales, goal_cases)
  case (1 h w h' w')
  then show ?case using stop_stops by (cases h; cases w) (auto simp: watched_stop)
next
  case (2 h w h' w')
  then show ?case using stop_clears by (cases h; cases w) (auto simp: watched_stop)
next
  case (3 ts h w h' w')
  then show ?case using start_runs by (cases h; cases w) (auto simp: watched_start)
next
  case (4 ts h w h' w')
  obtain x k v n running where hw: "h = (x, k)" "w = (v, n, running)" by (cases h; cases w)
  with 4(1) obtain x' v' where "ho_start ops ts x v = (None, x', v')" "fst h' = x'" by (auto simp: watched_start)
  moreover have "idle_host ops x" using 4(2) hw by (simp add: idle_host_def)
  ultimately show ?case using start_serves by simp
next
  case (5 ts h w err h' w')
  then show ?case using start_fails by (cases h; cases w) (auto simp: watched_start)
next
  case (6 h t w res h' w')
  then show ?case using add_runs by (cases h; cases w) (auto simp: watched_add)
next
  case (7 h tid w res h' w')
  then show ?case using remove_runs by (cases h; cases w) (auto simp: watched_remove)
qed

end

sublocale virtual_host \<subseteq> ledger: accounted_hosts "watched ops" runningHosts snd
proof (unfold_locales, goal_cases)
  case (1 ts h w res h' w')
  then show ?case using enter_enters
    by (cases h; cases w) (auto simp: watched_start runningHosts_def split: if_splits)
next
  case (2 h w h' w')
  then show ?case using stop_stops
    by (cases h; cases w) (auto simp: watched_stop runningHosts_def enter_strikes)
next
  case (3 t h w res h' w')
  then show ?case using enter_enters
    by (cases h; cases w) (fastforce simp: watched_add runningHosts_def)
next
  case (4 tid h w res h' w')
  then show ?case using enter_enters
    by (cases h; cases w) (fastforce simp: watched_remove runningHosts_def)
qed

context linked_hosts
begin

lemma watched_linked_hosts: "linked_hosts (watched ops) (watchedRegistry reg)"
proof (rule linked_hosts.intro [OF watched_host], rule linked_hosts_axioms.intro)
  fix hostId config h
  assume "createVirtualControllerHost hostId config (watchedRegistry reg) = Inr h"
  then obtain x where "createVirtualControllerHost hostId config reg = Inr x" "h = (x, None)"
    by (cases "createVirtualControllerHost hostId config reg") (auto simp: watched_created)
  with creates_idle show "idle_host (watched ops) h" by (auto simp: idle_host_def)
qed

end

section \<open>The watched link\<close>

text \<open>Every host that runs is one that the link holds.\<close>

definition all_held :: "('c, 'h numbered, 'w ledger) runtime \<Rightarrow> bool" where
  "all_held rt \<longleftrightarrow> runningHosts (rt_world rt) \<subseteq> heldNumbers (rt_hosts rt)"

lemma all_held_initial: "all_held (initialLink env (noHosts w))"
  by (simp add: all_held_def initialLink_def)

context virtual_host
begin

lemma accounted_all_held: "ledger.accounted rt \<longleftrightarrow> all_held rt"
  by (simp add: ledger.accounted_def ledger.numbers_def all_held_def heldNumbers_def)

lemma all_held_step:
  "le_ops env = ops \<Longrightarrow> link_step (watchedEnv env) ev rt = Some rt' \<Longrightarrow> all_held rt \<Longrightarrow> all_held rt'"
  unfolding accounted_all_held [symmetric] by (rule ledger.link_step_accounts) simp_all

lemma all_held_fresh:
  "le_ops env = ops \<Longrightarrow> freshStart (watchedEnv env) inp options sel rt = Some (ok, rt') \<Longrightarrow> all_held rt \<Longrightarrow> all_held rt'"
  unfolding accounted_all_held [symmetric] by (rule ledger.freshStart_accounts) simp_all

lemma none_runs_stopped:
  "le_ops env = ops \<Longrightarrow> all_held rt \<Longrightarrow> runningHosts (rt_world (stopLink (watchedEnv env) rt)) = {}"
  unfolding accounted_all_held [symmetric] by (rule ledger.stopLink_strikes) simp_all

lemma all_held_run:
  assumes "le_ops env = ops" "link_run (watchedEnv env) rt0 rt" "all_held rt0"
  shows "all_held rt"
  using assms(2) by induction (use assms(1,3) all_held_step in blast)+

end

end
