(* ===== verification/Watched_Runs.thy ===== *)
theory Watched_Runs
  imports Watched_Hosts
begin

text \<open>
  Watching hosts changes nothing: when the numbers and the ledger are left out of a watched
  link, what every operation of the link does to it is what the operation does to the link
  without them. So a run of a watched link is a run of the link, and each run of the link is
  one of the watched link.
\<close>

section \<open>Leaving out numbers and ledger\<close>

definition unwatchHost :: "'h numbered active_host \<Rightarrow> 'h active_host" where
  "unwatchHost a = \<lparr>ah_id = ah_id a, ah_displayName = ah_displayName a, ah_instanceKey = ah_instanceKey a,
     ah_info = ah_info a, ah_options = ah_options a, ah_host = fst (ah_host a), ah_targets = ah_targets a,
     ah_endpoints = ah_endpoints a\<rparr>"

definition unwatch :: "('c, 'h numbered, 'w ledger) runtime \<Rightarrow> ('c, 'h, 'w) runtime" where
  "unwatch rt = \<lparr>rt_state = rt_state rt, rt_statusMessage = rt_statusMessage rt,
     rt_hasDiscoveryResults = rt_hasDiscoveryResults rt, rt_discoveredControllers = rt_discoveredControllers rt,
     rt_discovered = rt_discovered rt, rt_infos = rt_infos rt, rt_hasSystem = rt_hasSystem rt,
     rt_hosts = map unwatchHost (rt_hosts rt), rt_monitor = rt_monitor rt, rt_targets = rt_targets rt,
     rt_activeHostId = rt_activeHostId rt, rt_activeHostDisplayName = rt_activeHostDisplayName rt,
     rt_activeDisabledTypes = rt_activeDisabledTypes rt, rt_activeDrivers = rt_activeDrivers rt,
     rt_activeOptions = rt_activeOptions rt, rt_stopRequested = rt_stopRequested rt, rt_log = rt_log rt,
     rt_store = rt_store rt, rt_world = fst (rt_world rt), rt_destroyed = map fst (rt_destroyed rt),
     rt_terminated = rt_terminated rt\<rparr>"

lemma unwatchHost_simps [simp]:
  "ah_id (unwatchHost a) = ah_id a" "ah_displayName (unwatchHost a) = ah_displayName a"
  "ah_instanceKey (unwatchHost a) = ah_instanceKey a" "ah_info (unwatchHost a) = ah_info a"
  "ah_options (unwatchHost a) = ah_options a" "ah_host (unwatchHost a) = fst (ah_host a)"
  "ah_targets (unwatchHost a) = ah_targets a" "ah_endpoints (unwatchHost a) = ah_endpoints a"
  by (simp_all add: unwatchHost_def)

lemma unwatchHost_updates [simp]:
  "unwatchHost (ah_endpoints_update f a) = ah_endpoints_update f (unwatchHost a)"
  "unwatchHost (ah_targets_update g a) = ah_targets_update g (unwatchHost a)"
  "unwatchHost (a\<lparr>ah_host := h\<rparr>) = (unwatchHost a)\<lparr>ah_host := fst h\<rparr>"
  by (simp_all add: unwatchHost_def)

lemma unwatch_simps [simp]:
  "rt_state (unwatch rt) = rt_state rt" "rt_statusMessage (unwatch rt) = rt_statusMessage rt"
  "rt_hasDiscoveryResults (unwatch rt) = rt_hasDiscoveryResults rt"
  "rt_discoveredControllers (unwatch rt) = rt_discoveredControllers rt" "rt_discovered (unwatch rt) = rt_discovered rt"
  "rt_infos (unwatch rt) = rt_infos rt" "rt_hasSystem (unwatch rt) = rt_hasSystem rt"
  "rt_hosts (unwatch rt) = map unwatchHost (rt_hosts rt)" "rt_monitor (unwatch rt) = rt_monitor rt"
  "rt_targets (unwatch rt) = rt_targets rt" "rt_activeHostId (unwatch rt) = rt_activeHostId rt"
  "rt_activeHostDisplayName (unwatch rt) = rt_activeHostDisplayName rt"
  "rt_activeDisabledTypes (unwatch rt) = rt_activeDisabledTypes rt" "rt_activeDrivers (unwatch rt) = rt_activeDrivers rt"
  "rt_activeOptions (unwatch rt) = rt_activeOptions rt" "rt_stopRequested (unwatch rt) = rt_stopRequested rt"
  "rt_log (unwatch rt) = rt_log rt" "rt_store (unwatch rt) = rt_store rt" "rt_world (unwatch rt) = fst (rt_world rt)"
  "rt_destroyed (unwatch rt) = map fst (rt_destroyed rt)" "rt_terminated (unwatch rt) = rt_terminated rt"
  by (simp_all add: unwatch_def)

lemma unwatch_updates [simp]:
  "unwatch (rt\<lparr>rt_state := s\<rparr>) = (unwatch rt)\<lparr>rt_state := s\<rparr>"
  "unwatch (rt\<lparr>rt_statusMessage := m\<rparr>) = (unwatch rt)\<lparr>rt_statusMessage := m\<rparr>"
  "unwatch (rt\<lparr>rt_hasDiscoveryResults := b\<rparr>) = (unwatch rt)\<lparr>rt_hasDiscoveryResults := b\<rparr>"
  "unwatch (rt\<lparr>rt_discoveredControllers := n\<rparr>) = (unwatch rt)\<lparr>rt_discoveredControllers := n\<rparr>"
  "unwatch (rt\<lparr>rt_discovered := ds\<rparr>) = (unwatch rt)\<lparr>rt_discovered := ds\<rparr>"
  "unwatch (rt\<lparr>rt_infos := infos\<rparr>) = (unwatch rt)\<lparr>rt_infos := infos\<rparr>"
  "unwatch (rt\<lparr>rt_hasSystem := b\<rparr>) = (unwatch rt)\<lparr>rt_hasSystem := b\<rparr>"
  "unwatch (rt\<lparr>rt_hosts := hosts\<rparr>) = (unwatch rt)\<lparr>rt_hosts := map unwatchHost hosts\<rparr>"
  "unwatch (rt\<lparr>rt_monitor := b\<rparr>) = (unwatch rt)\<lparr>rt_monitor := b\<rparr>"
  "unwatch (rt\<lparr>rt_targets := ts\<rparr>) = (unwatch rt)\<lparr>rt_targets := ts\<rparr>"
  "unwatch (rt\<lparr>rt_activeHostId := i\<rparr>) = (unwatch rt)\<lparr>rt_activeHostId := i\<rparr>"
  "unwatch (rt\<lparr>rt_activeHostDisplayName := i\<rparr>) = (unwatch rt)\<lparr>rt_activeHostDisplayName := i\<rparr>"
  "unwatch (rt\<lparr>rt_activeDisabledTypes := types\<rparr>) = (unwatch rt)\<lparr>rt_activeDisabledTypes := types\<rparr>"
  "unwatch (rt\<lparr>rt_activeDrivers := drivers\<rparr>) = (unwatch rt)\<lparr>rt_activeDrivers := drivers\<rparr>"
  "unwatch (rt\<lparr>rt_activeOptions := opts\<rparr>) = (unwatch rt)\<lparr>rt_activeOptions := opts\<rparr>"
  "unwatch (rt\<lparr>rt_stopRequested := b\<rparr>) = (unwatch rt)\<lparr>rt_stopRequested := b\<rparr>"
  "unwatch (rt\<lparr>rt_log := ls\<rparr>) = (unwatch rt)\<lparr>rt_log := ls\<rparr>"
  "unwatch (rt\<lparr>rt_store := st\<rparr>) = (unwatch rt)\<lparr>rt_store := st\<rparr>"
  "unwatch (rt\<lparr>rt_world := w\<rparr>) = (unwatch rt)\<lparr>rt_world := fst w\<rparr>"
  "unwatch (rt\<lparr>rt_destroyed := hs\<rparr>) = (unwatch rt)\<lparr>rt_destroyed := map fst hs\<rparr>"
  "unwatch (rt\<lparr>rt_terminated := b\<rparr>) = (unwatch rt)\<lparr>rt_terminated := b\<rparr>"
  by (simp_all add: unwatch_def)

lemma unwatch_calls [simp]:
  "unwatch (say b l rt) = say b l (unwatch rt)" "unwatch (setState s m rt) = setState s m (unwatch rt)"
  "unwatch (clearLog (watchedEnv env) rt) = clearLog env (unwatch rt)"
  "unwatch (configureLiberaSystem options rt) = configureLiberaSystem options (unwatch rt)"
  "unwatch (requestStop rt) = requestStop (unwatch rt)"
  "unwatch (invalidateDiscoveryCache rt) = invalidateDiscoveryCache (unwatch rt)"
  by (simp_all add: say_def setState_def clearLog_def configureLiberaSystem_def requestStop_def
      invalidateDiscoveryCache_def Let_def)

section \<open>Hosts\<close>

lemma watched_ops_unwatch:
  "ho_start ops ts (fst h) (fst w) = map_prod id (map_prod fst fst) (ho_start (watched ops) ts h w)"
  "ho_stop ops (fst h) (fst w) = map_prod fst fst (ho_stop (watched ops) h w)"
  "ho_addTarget ops t (fst h) (fst w) = map_prod id (map_prod fst fst) (ho_addTarget (watched ops) t h w)"
  "ho_removeTarget ops tid (fst h) (fst w) = map_prod id (map_prod fst fst) (ho_removeTarget (watched ops) tid h w)"
  by (cases h; cases w; simp add: watched_def split: prod.split option.split)+

lemma stopHosts_unwatch:
  "stopHosts ops (map fst hs) (fst w) = map_prod (map fst) fst (stopHosts (watched ops) hs w)"
  by (induction hs arbitrary: w) (simp_all add: watched_ops_unwatch split: prod.split)

lemma destroyHosts_unwatch [simp]:
  "unwatch (destroyHosts (watched ops) hs rt) = destroyHosts ops (map fst hs) (unwatch rt)"
  by (simp add: destroyHosts_def stopHosts_unwatch split: prod.split)

lemma stopLink_unwatch: "stopLink env (unwatch rt) = unwatch (stopLink (watchedEnv env) rt)"
proof -
  have "rt_state (requestStop (unwatch rt)) = rt_state (requestStop rt)" by (simp add: requestStop_def Let_def)
  then show ?thesis by (simp add: stopLink_def Let_def comp_def)
qed

lemma startActiveHostGroup_unwatch:
  "startActiveHostGroup env g sliceUs (fst w) =
     map_prod (map_sum (map_prod id (map_option fst)) unwatchHost) fst (startActiveHostGroup (watchedEnv env) g sliceUs w)"
proof -
  have start: "ho_start ops ts h (fst w) = map_prod id (map_prod fst fst) (ho_start (watched ops) ts (h, None) w)" for ops ts h
    using watched_ops_unwatch(1) [of ops ts "(h, None)" w] by simp
  show ?thesis
    by (simp add: startActiveHostGroup_def watched_created start Let_def unwatchHost_def split: sum.split prod.split option.split)
qed

lemma startHostGroups_unwatch:
  "startHostGroups env inp sliceUs k gs (map unwatchHost active) (unwatch rt) =
     map_prod (map_sum (\<lambda>e. e) (map unwatchHost)) unwatch (startHostGroups (watchedEnv env) inp sliceUs k gs active rt)"
proof (induction gs arbitrary: k active rt)
  case (Cons g gs)
  let ?rt1 = "rt\<lparr>rt_statusMessage := ''Starting '' @ hi_displayName (pg_info g) @ ''...''\<rparr>"
  obtain r w where r: "startActiveHostGroup (watchedEnv env) g sliceUs (rt_world rt) = (r, w)" by (rule prod.exhaust)
  have r': "startActiveHostGroup env g sliceUs (fst (rt_world rt)) = (map_sum (map_prod id (map_option fst)) unwatchHost r, fst w)"
    by (simp add: startActiveHostGroup_unwatch r)
  show ?case
  proof (cases r)
    case (Inl e)
    with r r' show ?thesis by (cases e; cases "snd e") (simp_all add: Let_def comp_def id_def)
  next
    case (Inr a)
    have "startHostGroups env inp sliceUs (Suc k) gs (map unwatchHost (active @ [a])) (unwatch (?rt1\<lparr>rt_world := w\<rparr>)) =
        map_prod (map_sum (\<lambda>e. e) (map unwatchHost)) unwatch
          (startHostGroups (watchedEnv env) inp sliceUs (Suc k) gs (active @ [a]) (?rt1\<lparr>rt_world := w\<rparr>))"
      by (rule Cons.IH)
    with r r' Inr show ?thesis by (cases "li_stopHost inp k") (simp_all add: Let_def comp_def id_def)
  qed
qed simp

section \<open>Starting the link\<close>

lemma fallbackHost_watched [simp]: "fallbackHost (watchedEnv env) options = fallbackHost env options"
  by (simp add: fallbackHost_def)

lemma resolveHost_watched [simp]: "resolveHost (watchedEnv env) options route = resolveHost env options route"
  unfolding resolveHost_def by (simp only: fallbackHost_watched watched_registry_simps watchedEnv_simps)

lemma groupTargets_watched [simp]: "groupTargets (watchedEnv env) options ts gs = groupTargets env options ts gs"
  by (induction ts arbitrary: gs) (simp_all add: Let_def split: sum.split)

lemma connectControllers_unwatch:
  "connectControllers env inp options sel k infos ts (unwatch rt) =
     apsnd unwatch (connectControllers (watchedEnv env) inp options sel k infos ts rt)"
proof (induction infos arbitrary: k ts rt)
  case (Cons info infos)
  note IH = Cons.IH [symmetric]
  show ?case unfolding connectControllers.simps Let_def
    by (simp add: IH split: option.split)
qed simp

lemma says_unwatch:
  "unwatch (foldl (\<lambda>r line. say b (f line) r) rt ls) = foldl (\<lambda>r line. say b (f line) r) (unwatch rt) ls"
  by (induction ls arbitrary: rt) simp_all

lemma linkedLine_unwatch [simp]: "linkedLine (unwatchHost a) = linkedLine a"
  by (rule ext) (simp add: linkedLine_def)

lemma sayLinked_unwatch [simp]: "unwatch (sayLinked hosts rt) = sayLinked (map unwatchHost hosts) (unwatch rt)"
  unfolding sayLinked_def says_unwatch [of False "\<lambda>l. l"] by (simp add: comp_def)

lemma summary_unwatch [simp]:
  "activeVirtualControllerSummary (map unwatchHost hosts) = activeVirtualControllerSummary hosts"
  by (cases hosts rule: remdups_adj.cases) (simp_all add: activeVirtualControllerSummary_def)

lemma ended_unwatch:
  "failStart err (unwatch rt) = apsnd unwatch (failStart err rt)"
  "cancelStart (unwatch rt) = apsnd unwatch (cancelStart rt)"
  by (simp_all add: failStart_def cancelStart_def)

lemma enterRunning_unwatch:
  "enterRunning env options ts (map unwatchHost hosts) (unwatch rt) =
     apsnd unwatch (enterRunning (watchedEnv env) options ts hosts rt)"
  by (simp add: enterRunning_def Let_def comp_def)

lemma startTargets_unwatch:
  "startTargets env inp options sel (unwatch rt) = apsnd unwatch (startTargets (watchedEnv env) inp options sel rt)"
proof -
  obtain ts rt1 where c: "connectControllers (watchedEnv env) inp options sel 0 (rt_infos rt) [] rt = (ts, rt1)" by fastforce
  then have c': "connectControllers env inp options sel 0 (rt_infos rt) [] (unwatch rt) = (ts, unwatch rt1)"
    by (simp add: connectControllers_unwatch)
  have s: "startHostGroups env inp us 0 gs [] (unwatch rt1) =
      map_prod (map_sum (\<lambda>e. e) (map unwatchHost)) unwatch (startHostGroups (watchedEnv env) inp us 0 gs [] rt1)" for us gs
    using startHostGroups_unwatch [of env inp us 0 gs "[]"] by simp
  show ?thesis unfolding startTargets_def unwatch_simps c c' prod.case
    by (simp add: s ended_unwatch enterRunning_unwatch split: sum.split prod.split option.split)
qed

text \<open>A discovery leaves only the log changed.\<close>

abbreviation unwatchResult ::
  "('b \<times> ('c, 'h numbered, 'w ledger) runtime) option \<Rightarrow> ('b \<times> ('c, 'h, 'w) runtime) option" where
  "unwatchResult r \<equiv> map_option (apsnd unwatch) r"

lemma runDiscovery_unwatch:
  "runDiscovery inp options (unwatch rt) = unwatchResult (runDiscovery inp options rt)"
  by (simp add: runDiscovery_def split: option.split)

lemma discoveryFailed_unwatch [simp]: "discoveryFailed found (unwatch rt) = discoveryFailed found rt"
  by (simp add: discoveryFailed_def)

lemma startDiscovered_unwatch:
  "startDiscovered env inp options sel (unwatch rt) = unwatchResult (startDiscovered (watchedEnv env) inp options sel rt)"
proof (cases "rt_infos rt = []")
  case False
  then show ?thesis by (simp add: startDiscovered_def startTargets_unwatch [symmetric])
next
  case True
  let ?rt0 = "setState Starting ''Discovering controllers...'' rt"
  have d: "runDiscovery inp options (setState Starting ''Discovering controllers...'' (unwatch rt)) =
      unwatchResult (runDiscovery inp options ?rt0)"
    using runDiscovery_unwatch [of inp options ?rt0] by simp
  show ?thesis
  proof (cases "runDiscovery inp options ?rt0")
    case None
    with True d show ?thesis by (simp add: startDiscovered_def)
  next
    case (Some r)
    obtain found rt1 where r: "r = (found, rt1)" by (rule prod.exhaust)
    from True d Some r show ?thesis
      by (simp add: startDiscovered_def startTargets_unwatch [symmetric] ended_unwatch [symmetric] Let_def)
  qed
qed

lemma freshStart_unwatch:
  "freshStart env inp options sel (unwatch rt) = unwatchResult (freshStart (watchedEnv env) inp options sel rt)"
  by (simp add: freshStart_def startDiscovered_unwatch [symmetric] ended_unwatch [symmetric] Let_def split: option.split)

lemma scanLink_unwatch:
  "scanLink env inp options (unwatch rt) = unwatchResult (scanLink (watchedEnv env) inp options rt)"
proof -
  let ?rt = "(configureLiberaSystem options (say False ''Scanning for controllers via Libera''
      ((clearLog (watchedEnv env) ((setState Scanning ''Scanning for controllers...'' rt)
        \<lparr>rt_hasDiscoveryResults := False, rt_discoveredControllers := 0, rt_discovered := []\<rparr>))
        \<lparr>rt_stopRequested := False\<rparr>)))\<lparr>rt_infos := []\<rparr>"
  have d: "runDiscovery inp options (unwatch ?rt) = unwatchResult (runDiscovery inp options ?rt)"
    by (rule runDiscovery_unwatch)
  show ?thesis
  proof (cases "runDiscovery inp options ?rt")
    case None
    with d show ?thesis by (simp add: scanLink_def Let_def)
  next
    case (Some r)
    obtain found rt1 where r: "r = (found, rt1)" by (rule prod.exhaust)
    from d Some r show ?thesis by (simp add: scanLink_def Let_def)
  qed
qed

section \<open>Updating the link\<close>

lemma removeTargets_unwatch:
  "removeTargets ops ds ts (fst h) (fst w) = apsnd (map_prod fst fst) (removeTargets (watched ops) ds ts h w)"
proof (induction ts arbitrary: h w)
  case (Cons t ts)
  obtain r h' w' where "ho_removeTarget (watched ops) (ti_id (lt_info t)) h w = (r, h', w')" by (rule prod_cases3)
  then show ?case by (cases r) (simp_all add: watched_ops_unwatch Cons.IH)
qed simp

lemma addTargets_unwatch:
  "addTargets ops cs ts (fst h) (fst w) = apsnd (map_prod fst fst) (addTargets (watched ops) cs ts h w)"
proof (induction ts arbitrary: h w)
  case (Cons t ts)
  obtain r h' w' where "ho_addTarget (watched ops) t h w = (r, h', w')" by (rule prod_cases3)
  then show ?case by (cases r) (simp_all add: watched_ops_unwatch Cons.IH)
qed simp

lemma updateDynamically_unwatch:
  "updateDynamically ops cs ds (fst h) (fst w) = apsnd (map_prod fst fst) (updateDynamically (watched ops) cs ds h w)"
proof -
  obtain b h' w' where "removeTargets (watched ops) (targetIdSet ds) cs h w = (b, h', w')" by (rule prod_cases3)
  then show ?thesis by (cases b) (simp_all add: updateDynamically_def removeTargets_unwatch addTargets_unwatch)
qed

lemma matches_unwatch [simp]: "activeHostMatchesGroup (unwatchHost a) = activeHostMatchesGroup a"
  by (rule ext) (simp add: activeHostMatchesGroup_def)

lemma reconcileHost_unwatch:
  "reconcileHost env sliceUs groups (unwatchHost a) (unwatch rt) =
     map_prod (map_sum (\<lambda>e. e) (apsnd (map unwatchHost))) unwatch (reconcileHost (watchedEnv env) sliceUs groups a rt)"
proof (cases "find_index (activeHostMatchesGroup a) groups")
  case None
  show ?thesis unfolding reconcileHost_def matches_unwatch Let_def None by simp
next
  case (Some i)
  obtain b h' w' where u: "updateDynamically (watched (le_ops env)) (ah_targets a) (pg_targets (groups ! i)) (ah_host a)
      (rt_world rt) = (b, h', w')" by (rule prod_cases3)
  let ?rt1 = "destroyHosts (watched (le_ops env)) [h'] (rt\<lparr>rt_world := w'\<rparr>)"
  obtain r w2 where r: "startActiveHostGroup (watchedEnv env) (groups ! i) sliceUs (rt_world ?rt1) = (r, w2)" by (rule prod.exhaust)
  let ?rt1' = "destroyHosts (le_ops env) [fst h'] ((unwatch rt)\<lparr>rt_world := fst w'\<rparr>)"
  have "unwatch ?rt1 = ?rt1'" by simp
  then have "rt_world ?rt1' = fst (rt_world ?rt1)" by (metis unwatch_simps(19))
  then have r': "startActiveHostGroup env (groups ! i) sliceUs (rt_world ?rt1') =
      (map_sum (map_prod id (map_option fst)) unwatchHost r, fst w2)"
    by (simp add: startActiveHostGroup_unwatch r)
  show ?thesis
  proof (cases b)
    case True
    with Some u show ?thesis by (simp add: reconcileHost_def updateDynamically_unwatch Let_def)
  next
    case False
    show ?thesis
    proof (cases r)
      case (Inl e)
      obtain err h where "e = (err, h)" by (rule prod.exhaust)
      with False Some u r r' Inl show ?thesis
        by (cases h) (simp_all add: reconcileHost_def updateDynamically_unwatch Let_def)
    next
      case (Inr fresh)
      with False Some u r r' show ?thesis by (simp add: reconcileHost_def updateDynamically_unwatch Let_def)
    qed
  qed
qed

lemma failUpdate_unwatch [simp]:
  "unwatch (failUpdate (watchedEnv env) err hosts rt) = failUpdate env err (map unwatchHost hosts) (unwatch rt)"
  by (simp add: failUpdate_def comp_def)

lemma reconcileHosts_unwatch:
  "reconcileHosts env sliceUs groups (map unwatchHost as) (map unwatchHost nexts) handled (unwatch rt) =
     map_prod (map_sum (\<lambda>e. e) (apfst (map unwatchHost))) unwatch
       (reconcileHosts (watchedEnv env) sliceUs groups as nexts handled rt)"
proof (induction as arbitrary: nexts handled rt)
  case (Cons a as)
  obtain r rt1 where r: "reconcileHost (watchedEnv env) sliceUs groups a rt = (r, rt1)" by (rule prod.exhaust)
  have r': "reconcileHost env sliceUs groups (unwatchHost a) (unwatch rt) =
      (map_sum (\<lambda>e. e) (apsnd (map unwatchHost)) r, unwatch rt1)"
    by (simp add: reconcileHost_unwatch r)
  show ?case
  proof (cases r)
    case (Inl err)
    with r r' show ?thesis by simp
  next
    case (Inr ik)
    obtain i kept where ik: "ik = (i, kept)" by (rule prod.exhaust)
    with r r' Inr Cons.IH [of "nexts @ kept" _ rt1] show ?thesis by simp
  qed
qed simp

lemma startNewGroups_unwatch:
  "startNewGroups env sliceUs k gs handled (map unwatchHost nexts) (unwatch rt) =
     map_prod (map_sum (\<lambda>e. e) (map unwatchHost)) unwatch (startNewGroups (watchedEnv env) sliceUs k gs handled nexts rt)"
proof (induction gs arbitrary: k nexts rt)
  case (Cons g gs)
  obtain r w where r: "startActiveHostGroup (watchedEnv env) g sliceUs (rt_world rt) = (r, w)" by (rule prod.exhaust)
  have r': "startActiveHostGroup env g sliceUs (fst (rt_world rt)) =
      (map_sum (map_prod id (map_option fst)) unwatchHost r, fst w)"
    by (simp add: startActiveHostGroup_unwatch r)
  show ?case
  proof (cases r)
    case (Inl e)
    obtain err h where "e = (err, h)" by (rule prod.exhaust)
    with r r' Inl Cons.IH show ?thesis by (cases h) (simp_all)
  next
    case (Inr a)
    with r r' Cons.IH [of _ nexts rt] Cons.IH [of "Suc k" "nexts @ [a]" "rt\<lparr>rt_world := w\<rparr>"] show ?thesis by simp
  qed
qed simp

lemma applySelection_unwatch:
  "applySelection env options ds groups (unwatch rt) = apsnd unwatch (applySelection (watchedEnv env) options ds groups rt)"
proof -
  let ?us = "lo_sliceDurationUs options"
  obtain r rt1 where r: "reconcileHosts (watchedEnv env) ?us groups (rt_hosts rt) [] {} rt = (r, rt1)" by (rule prod.exhaust)
  have r': "reconcileHosts env ?us groups (map unwatchHost (rt_hosts rt)) [] {} (unwatch rt) =
      (map_sum (\<lambda>e. e) (apfst (map unwatchHost)) r, unwatch rt1)"
    using reconcileHosts_unwatch [of env ?us groups "rt_hosts rt" "[]"] r by simp
  show ?thesis
  proof (cases r)
    case (Inl err)
    with r r' show ?thesis by (simp add: applySelection_def)
  next
    case (Inr nh)
    obtain nexts handled where nh: "nh = (nexts, handled)" by (rule prod.exhaust)
    obtain q rt2 where q: "startNewGroups (watchedEnv env) ?us 0 groups handled nexts rt1 = (q, rt2)" by (rule prod.exhaust)
    then have "startNewGroups env ?us 0 groups handled (map unwatchHost nexts) (unwatch rt1) =
        (map_sum (\<lambda>e. e) (map unwatchHost) q, unwatch rt2)" by (simp add: startNewGroups_unwatch)
    with r r' Inr nh q show ?thesis by (cases q) (simp_all add: applySelection_def Let_def)
  qed
qed

lemma connectMissing_unwatch:
  "connectMissing env inp options k infos missing byId (unwatch rt) =
     apsnd (apsnd unwatch) (connectMissing (watchedEnv env) inp options k infos missing byId rt)"
proof (induction infos arbitrary: k missing byId rt)
  case (Cons info infos)
  note IH = Cons.IH [symmetric]
  show ?case unfolding connectMissing.simps Let_def by (simp add: IH fun_upd_def split: option.split)
qed simp

lemma reportMissing_unwatch [simp]: "unwatch (reportMissing missing rt) = reportMissing missing (unwatch rt)"
  unfolding reportMissing_def by (rule says_unwatch)

lemma updateTargets_unwatch:
  "updateTargets env inp options sel (unwatch rt) = apsnd unwatch (updateTargets (watchedEnv env) inp options sel rt)"
proof -
  let ?rt1 = "configureLiberaSystem options rt" and ?byId = "targetsById (rt_targets rt)"
  let ?missing = "{i \<in> sel. ?byId i = None}"
  obtain m b rt2 where c: "connectMissing (watchedEnv env) inp options 0 (rt_infos ?rt1) ?missing ?byId ?rt1 = (m, b, rt2)"
    by (rule prod_cases3)
  have "rt_infos (configureLiberaSystem options (unwatch rt)) = rt_infos ?rt1"
    by (simp add: configureLiberaSystem_def)
  then have c': "connectMissing env inp options 0 (rt_infos (configureLiberaSystem options (unwatch rt))) ?missing ?byId
      (configureLiberaSystem options (unwatch rt)) = (m, b, unwatch rt2)"
    using connectMissing_unwatch [of env inp options 0 "rt_infos ?rt1" ?missing ?byId ?rt1] c by simp
  show ?thesis
  proof (cases "?missing = {}")
    case True
    show ?thesis unfolding updateTargets_def Let_def unwatch_simps if_P [OF True] by simp
  next
    case False
    show ?thesis unfolding updateTargets_def Let_def unwatch_simps if_not_P [OF False] c c' by simp
  qed
qed

lemma updateRunning_targets:
  "updateRunning env inp options selected rt =
     (if selected = {} then Some (True, stopLink env rt)
      else if targetRuntimeOptionsChanged (rt_activeOptions rt) options
      then freshStart env inp options selected
             (stopLink env (say False ''Restarting link because controller runtime options changed.'' rt))
      else case updateTargets env inp options selected rt of
        (byId, rt1) \<Rightarrow> Some
          (if lo_virtualControllerHostId options \<noteq> [] \<and> fallbackHost env options = None
           then failStart (unknownHost (lo_virtualControllerHostId options)) rt1
           else
             let ds = List.map_filter byId (sorted_list_of_set selected) in
             case groupTargets env options ds [] of
               Inl err \<Rightarrow> failStart err rt1
             | Inr groups \<Rightarrow>
                 (if ds = [] then (True, stopLink env rt1) else applySelection env options ds groups rt1)))"
  unfolding updateRunning_def updateTargets_def Let_def ..

lemma updateRunning_unwatch:
  "updateRunning env inp options sel (unwatch rt) = unwatchResult (updateRunning (watchedEnv env) inp options sel rt)"
proof -
  obtain byId rt1 where u: "updateTargets (watchedEnv env) inp options sel rt = (byId, rt1)" by (rule prod.exhaust)
  have u': "updateTargets env inp options sel (unwatch rt) = (byId, unwatch rt1)" by (simp add: updateTargets_unwatch u)
  let ?restart = "say False ''Restarting link because controller runtime options changed.''"
  have restart: "freshStart env inp options sel (stopLink env (?restart (unwatch rt))) =
      unwatchResult (freshStart (watchedEnv env) inp options sel (stopLink (watchedEnv env) (?restart rt)))"
    using freshStart_unwatch [of env inp options sel "stopLink (watchedEnv env) (?restart rt)"]
      stopLink_unwatch [of env "?restart rt"] by simp
  show ?thesis unfolding updateRunning_targets u u' prod.case
    by (simp add: restart stopLink_unwatch ended_unwatch applySelection_unwatch Let_def split: sum.split)
qed

lemma startLink_unwatch:
  "startLink env inp options sel (unwatch rt) = unwatchResult (startLink (watchedEnv env) inp options sel rt)"
  using updateRunning_unwatch [of env inp options sel "rt\<lparr>rt_statusMessage := ''Updating link...''\<rparr>"]
  by (simp add: startLink_def freshStart_unwatch)

section \<open>Steps and runs\<close>

lemma logTargets_watched [simp]: "logTargets (watchedEnv env) clks ts store = logTargets env clks ts store"
  unfolding logTargets_def watchedEnv_simps ..

lemma monitorTick_unwatch: "monitorTick env clks (unwatch rt) = unwatch (monitorTick (watchedEnv env) clks rt)"
  by (simp add: monitorTick_def comp_def)

lemma activeHostForTarget_unwatch [simp]:
  "activeHostForTarget (map unwatchHost hosts) i = map_option unwatchHost (activeHostForTarget hosts i)"
  unfolding activeHostForTarget_def by (induction hosts) simp_all

lemma targetSnapshot_unwatch [simp]: "targetSnapshot co (map_option unwatchHost a) t = targetSnapshot co a t"
  by (cases a) (simp_all add: targetSnapshot_def)

lemma targetSnapshots_unwatch:
  "targetSnapshots co (map unwatchHost hosts) ts store = targetSnapshots co hosts ts store"
  by (induction ts arbitrary: store) simp_all

lemma snapshotLink_unwatch: "snapshotLink env (unwatch rt) = apsnd unwatch (snapshotLink (watchedEnv env) rt)"
  by (simp add: snapshotLink_def targetSnapshots_unwatch split: prod.split)

lemma link_step_unwatch:
  "link_step env ev (unwatch rt) = map_option unwatch (link_step (watchedEnv env) ev rt)"
  by (cases ev) (simp_all add: scanLink_unwatch startLink_unwatch stopLink_unwatch monitorTick_unwatch
      snapshotLink_unwatch option.map_comp comp_def)

lemma initialLink_unwatch [simp]: "unwatch (initialLink (watchedEnv env) w) = initialLink env (fst w)"
  by (simp add: initialLink_def unwatch_def)

lemma noHosts_world [simp]: "fst (noHosts w) = w"
  by (simp add: noHosts_def)

text \<open>A run of the watched link is one of the link, and each run of the link is one of the watched link.\<close>

lemma link_run_unwatch: "link_run (watchedEnv env) rt0 rt \<Longrightarrow> link_run env (unwatch rt0) (unwatch rt)"
proof (induction rule: link_run.induct)
  case (step rt ev rt')
  have "\<not> rt_terminated (unwatch rt)" "link_step env ev (unwatch rt) = Some (unwatch rt')"
    using step.hyps by (simp_all add: link_step_unwatch)
  then show ?case by (rule link_run.step [OF step.IH])
qed (rule link_run.here)

lemma link_run_watch:
  assumes "link_run env (unwatch rt0) r"
  shows "\<exists>rt. link_run (watchedEnv env) rt0 rt \<and> unwatch rt = r"
  using assms
proof induction
  case here
  show ?case by (intro exI [of _ rt0] conjI link_run.here refl)
next
  case (step r ev r')
  then obtain rt where rt: "link_run (watchedEnv env) rt0 rt" "unwatch rt = r" by blast
  have "map_option unwatch (link_step (watchedEnv env) ev rt) = Some r'"
    using step.hyps(3) unfolding link_step_unwatch [symmetric] rt(2) .
  then obtain rt' where "link_step (watchedEnv env) ev rt = Some rt'" "unwatch rt' = r'"
    by (cases "link_step (watchedEnv env) ev rt") simp_all
  moreover have "\<not> rt_terminated rt" using rt(2) step.hyps(2) by auto
  ultimately show ?case using link_run.step [OF rt(1)] by blast
qed

lemma watched_run_reachable:
  assumes "link_run (watchedEnv env) (initialLink (watchedEnv env) (noHosts w)) rt"
  shows "link_reachable env (unwatch rt)" "link_reachable (watchedEnv env) rt"
  using link_run_unwatch [OF assms] link_run_reachable [OF assms] by (simp_all add: link_run_reachable)

end
