(* ===== verification/Os_Api.thy ===== *)
theory Os_Api
  imports Host_Api
begin

text \<open>
  The operating system as the virtual controller hosts use it: an abstract state \<open>'o\<close> with
  the calls the code makes on it (\<open>os_ops\<close>): the interfaces it lists, the commands it runs,
  the addresses one can bind, the socket calls made before a device or server runs.
\<close>

record interface_address =
  ia_name :: string
  ia_address :: string
  ia_netmask :: string
  ia_broadcast :: string
  ia_addressHost :: u32
  ia_netmaskHost :: u32
  ia_broadcastHost :: u32
  ia_loopback :: bool

text \<open>
  The socket calls a device or a server makes when it starts; \<open>None\<close> is success, otherwise
  the message of the error code.
\<close>

datatype socket_call =
    MakeAddress string
  | TcpOpen
  | TcpBind string u16
  | TcpListen
  | TcpNonBlocking
  | UdpOpen
  | UdpBroadcast
  | UdpBind string

record 'o os_ops =
  os_interfaces :: "'o \<Rightarrow> interface_address list"
  os_readCommand :: "string \<Rightarrow> 'o \<Rightarrow> string option"
  os_canBind :: "string \<Rightarrow> u16 \<Rightarrow> 'o \<Rightarrow> bool"
  os_system :: "string \<Rightarrow> 'o \<Rightarrow> bool \<times> 'o"
  os_socket :: "socket_call \<Rightarrow> 'o \<Rightarrow> string option \<times> 'o"

end
