(* ===== verification/Ether_Dream_Net.thy ===== *)
theory Ether_Dream_Net
  imports Os_Api
begin

text \<open>
  The addressing half of \<open>virtual_controller/EtherDreamVirtualControllerHost.cpp\<close>: host
  options, MAC addresses, IPv4 text, shell quoting and \<open>IpAliasManager\<close>, which gives every
  virtual device an address of its own.

  The Linux branches of the conditional compilation are modelled. The two default ports
  come from the libera-laser library and are parameters.
\<close>

section \<open>Addresses as text\<close>

fun splitOn :: "char \<Rightarrow> string \<Rightarrow> string list" where
  "splitOn c [] = [[]]"
| "splitOn c (x # xs) =
     (if x = c then [] # splitOn c xs
      else (case splitOn c xs of [] \<Rightarrow> [[x]] | p # ps \<Rightarrow> (x # p) # ps))"

text \<open>One part of a dotted quad, as \<open>inet_pton\<close> accepts it: no sign, no leading zero.\<close>

definition octet :: "string \<Rightarrow> u32 option" where
  "octet part =
     (if part \<noteq> [] \<and> length part \<le> 3 \<and> (\<forall>c \<in> set part. isdigit c) \<and>
         (hd part = CHR ''0'' \<longrightarrow> length part = 1) \<and> digits_value part \<le> 255
      then Some (of_nat (digits_value part)) else None)"

definition ipv4ToHost :: "string \<Rightarrow> u32 option" where
  "ipv4ToHost addr =
     (case map octet (splitOn CHR ''.'' addr) of
        [Some a, Some b, Some c, Some d] \<Rightarrow>
          Some (push_bit 24 a OR push_bit 16 b OR push_bit 8 c OR d)
      | _ \<Rightarrow> None)"

definition hostToIpv4 :: "u32 \<Rightarrow> string" where
  "hostToIpv4 v =
     to_string (unat (drop_bit 24 v AND 255)) @ ''.'' @ to_string (unat (drop_bit 16 v AND 255)) @ ''.'' @
     to_string (unat (drop_bit 8 v AND 255)) @ ''.'' @ to_string (unat (v AND 255))"

definition isValidIpv4 :: "string \<Rightarrow> bool" where
  "isValidIpv4 addr \<longleftrightarrow> ipv4ToHost addr \<noteq> None"

section \<open>MAC addresses and revisions\<close>

definition stableByteHash :: "string \<Rightarrow> u8 \<Rightarrow> u8" where
  "stableByteHash str salt =
     (let v = foldl (\<lambda>h ch. (h XOR of_nat (of_char ch)) * 16777619) (2166136261 XOR ucast salt) str
      in ucast (drop_bit 16 (v :: u32) XOR drop_bit 8 v XOR v))"

definition makeMacAddress :: "target_info \<Rightarrow> nat \<Rightarrow> u8 list" where
  "makeMacAddress targetInfo index =
     (let seed = (if ti_id targetInfo \<noteq> [] then ti_id targetInfo else ti_label targetInfo)
      in [0x02, 0x4c, 0x4c, stableByteHash seed 0x11, stableByteHash seed 0x37,
          of_nat (unat (stableByteHash seed 0x73) + index)])"

definition hexDigit :: "nat \<Rightarrow> char" where
  "hexDigit n = (''0123456789abcdef'' ! n)"

definition formatMac :: "u8 list \<Rightarrow> string" where
  "formatMac mac =
     (let hex = (\<lambda>b :: u8. [hexDigit (unat b div 16), hexDigit (unat b mod 16)])
      in concat (map (\<lambda>i. (if i \<noteq> 0 then '':'' else []) @ hex (mac ! i)) [0..<length mac]))"

definition revisionPortOffset :: "u16 \<Rightarrow> u16 \<Rightarrow> u16" where
  "revisionPortOffset defaultTcpPort tcpPort =
     (if tcpPort < defaultTcpPort then 0 else tcpPort - defaultTcpPort)"

section \<open>Options\<close>

record ed_options =
  eo_explicitAddresses :: "string list"
  eo_ipMode :: string
  eo_interfaceName :: string
  eo_baseAddress :: string
  eo_netmask :: string
  eo_broadcastAddresses :: "string list"
  eo_autoManageAliases :: bool
  eo_allowPrivilegePrompt :: bool
  eo_discoveryEnabled :: bool
  eo_tcpPort :: u16
  eo_discoveryPort :: u16
  eo_bufferCapacity :: u16
  eo_maxPointRate :: u32
  eo_broadcastIntervalMs :: u32
  eo_playbackSliceUs :: u32

text \<open>The last assignment replaces the slice, floor and all, by the option when it is given.\<close>

definition makeEdOptions :: "u16 \<Rightarrow> u16 \<Rightarrow> host_config \<Rightarrow> ed_options" where
  "makeEdOptions defaultTcpPort defaultDiscoveryPort config =
     (let broadcastAddresses = splitCsv (optionString config ''broadcast_addresses'' []);
          slice = max 1000 (if 0 < cfg_sliceDurationUs config
                            then min (cfg_sliceDurationUs config) 15000 else 5000)
      in \<lparr>eo_explicitAddresses = splitCsv (optionString config ''addresses'' []),
          eo_ipMode = optionString config ''ip_mode'' ''auto'',
          eo_interfaceName = optionString config ''interface'' [],
          eo_baseAddress = optionString config ''base_address'' [],
          eo_netmask = optionString config ''netmask'' [],
          eo_broadcastAddresses =
            (if broadcastAddresses = [] then [''255.255.255.255''] else broadcastAddresses),
          eo_autoManageAliases = optionBool config ''auto_manage_aliases'' True,
          eo_allowPrivilegePrompt = optionBool config ''allow_privilege_prompt'' True,
          eo_discoveryEnabled = optionBool config ''discovery'' True,
          eo_tcpPort = optionU16 config ''tcp_port'' defaultTcpPort,
          eo_discoveryPort = optionU16 config ''discovery_port'' defaultDiscoveryPort,
          eo_bufferCapacity = max 1 (optionU16 config ''buffer_capacity'' 3899),
          eo_maxPointRate = max 1000 (optionU32 config ''max_point_rate'' 100000),
          eo_broadcastIntervalMs = max 20 (optionU32 config ''broadcast_interval_ms'' 1000),
          eo_playbackSliceUs = optionU32 config ''playback_slice_us'' slice\<rparr>)"

section \<open>Quoting for the shell\<close>

definition quote :: char where
  "quote = char_of (39 :: nat)"

definition backslash :: char where
  "backslash = char_of (92 :: nat)"

definition shellQuote :: "string \<Rightarrow> string" where
  "shellQuote str =
     [quote] @ concat (map (\<lambda>ch. if ch = quote then [quote, backslash, quote, quote] else [ch]) str) @ [quote]"

definition appleScriptQuote :: "string \<Rightarrow> string" where
  "appleScriptQuote str =
     (let dq = char_of (34 :: nat)
      in [dq] @ concat (map (\<lambda>ch. if ch = backslash \<or> ch = dq then [backslash, ch] else [ch]) str) @ [dq])"

section \<open>The default interface\<close>

definition defaultInterfaceName :: "'o os_ops \<Rightarrow> 'o \<Rightarrow> string option" where
  "defaultInterfaceName os w =
     (case os_readCommand os
        (''awk '' @ shellQuote ''$2 == \"00000000\" { print $1; exit }'' @ '' /proc/net/route 2>/dev/null'') w of
        None \<Rightarrow> None
      | Some output \<Rightarrow> (if trim output = [] then None else Some (trim output)))"

section \<open>Aliases\<close>

record alias_record =
  ar_interfaceName :: string
  ar_address :: string
  ar_netmask :: string
  ar_loopback :: bool

text \<open>Leading one bits; \<open>None\<close> if a one follows a zero.\<close>

fun prefixBits :: "u32 \<Rightarrow> nat \<Rightarrow> nat \<Rightarrow> bool \<Rightarrow> nat option" where
  "prefixBits netmask 0 prefix sawZero = Some prefix"
| "prefixBits netmask (Suc k) prefix sawZero =
     (if bit netmask k then (if sawZero then None else prefixBits netmask k (Suc prefix) sawZero)
      else prefixBits netmask k prefix True)"

definition prefixLength :: "string \<Rightarrow> nat option" where
  "prefixLength netmask =
     (case ipv4ToHost netmask of None \<Rightarrow> None | Some m \<Rightarrow> prefixBits m 32 0 False)"

definition aliasCommand :: "string \<Rightarrow> alias_record \<Rightarrow> string" where
  "aliasCommand verb rec =
     (let prefix = (case prefixLength (ar_netmask rec) of None \<Rightarrow> 24 | Some p \<Rightarrow> p)
      in ''/sbin/ip addr '' @ verb @ '' '' @ shellQuote (ar_address rec @ ''/'' @ to_string prefix) @
         '' dev '' @ shellQuote (ar_interfaceName rec) @ '' >/dev/null 2>&1'')"

definition addAlias :: "'o os_ops \<Rightarrow> alias_record \<Rightarrow> 'o \<Rightarrow> bool \<times> 'o" where
  "addAlias os rec w = os_system os (aliasCommand ''add'' rec) w"

definition removeAlias :: "'o os_ops \<Rightarrow> alias_record \<Rightarrow> 'o \<Rightarrow> 'o" where
  "removeAlias os rec w = snd (os_system os (aliasCommand ''del'' rec) w)"

text \<open>The manager's state: the aliases it added, and the system.\<close>

type_synonym 'o aliases = "alias_record list \<times> 'o"

definition cleanupAliases :: "'o os_ops \<Rightarrow> 'o aliases \<Rightarrow> 'o aliases" where
  "cleanupAliases os m = ([], foldl (\<lambda>w rec. removeAlias os rec w) (snd m) (rev (fst m)))"

definition ensureAlias ::
  "'o os_ops \<Rightarrow> ed_options \<Rightarrow> alias_record \<Rightarrow> 'o aliases \<Rightarrow> (string + unit) \<times> 'o aliases" where
  "ensureAlias os options rec m =
     (case m of (added, w) \<Rightarrow>
       if os_canBind os (ar_address rec) (eo_tcpPort options) w then (Inr (), m)
       else if \<not> eo_autoManageAliases options
       then (Inl (''Ether Dream address '' @ ar_address rec @
               '' is not assigned locally and auto_manage_aliases is disabled.''), m)
       else case addAlias os rec w of (ok, w1) \<Rightarrow>
         if \<not> ok
         then (Inl (''Failed to add Ether Dream IP alias '' @ ar_address rec @ '' on '' @
                 ar_interfaceName rec @
                 ''. Run with privileges or set addresses=... to preconfigured IPs.''), (added, w1))
         else if \<not> os_canBind os (ar_address rec) (eo_tcpPort options) w1
         then (Inl (''Ether Dream IP alias '' @ ar_address rec @
                 '' was added but the app still cannot bind to it.''), (added, removeAlias os rec w1))
         else (Inr (), (added @ [rec], w1)))"

fun loopbackLoop ::
  "'o os_ops \<Rightarrow> ed_options \<Rightarrow> nat list \<Rightarrow> string list \<Rightarrow> 'o aliases \<Rightarrow> (string + string list) \<times> 'o aliases" where
  "loopbackLoop os options [] addresses m = (Inr addresses, m)"
| "loopbackLoop os options (i # is) addresses m =
     (let address = ''127.0.0.'' @ to_string (i + 1);
          rec = \<lparr>ar_interfaceName = ''lo'', ar_address = address, ar_netmask = ''255.0.0.0'',
                 ar_loopback = True\<rparr>
      in case ensureAlias os options rec m of
           (Inl err, m') \<Rightarrow> (Inl err, m')
         | (Inr _, m') \<Rightarrow> loopbackLoop os options is (addresses @ [address]) m')"

definition allocateLoopback ::
  "'o os_ops \<Rightarrow> ed_options \<Rightarrow> nat \<Rightarrow> 'o aliases \<Rightarrow> (string + string list) \<times> 'o aliases" where
  "allocateLoopback os options count m = loopbackLoop os options [0..<count] [] m"

text \<open>The interfaces considered, the default one first (\<open>std::stable_sort\<close> by that flag).\<close>

definition lanCandidates :: "'o os_ops \<Rightarrow> ed_options \<Rightarrow> 'o \<Rightarrow> interface_address list" where
  "lanCandidates os options w =
     (let candidates = filter (\<lambda>iface. \<not> ia_loopback iface \<and>
            \<not> (eo_interfaceName options \<noteq> [] \<and> ia_name iface \<noteq> eo_interfaceName options))
            (os_interfaces os w)
      in case defaultInterfaceName os w of
           None \<Rightarrow> candidates
         | Some d \<Rightarrow> filter (\<lambda>iface. ia_name iface = d) candidates @
             filter (\<lambda>iface. ia_name iface \<noteq> d) candidates)"

text \<open>The network and broadcast addresses between which aliases are searched.\<close>

definition lanRange :: "ed_options \<Rightarrow> interface_address \<Rightarrow> string + (u32 \<times> u32)" where
  "lanRange options iface =
     (let network = ia_addressHost iface AND ia_netmaskHost iface;
          broadcast = (if ia_broadcastHost iface \<noteq> 0 then ia_broadcastHost iface
                       else network OR NOT (ia_netmaskHost iface))
      in if eo_baseAddress options \<noteq> []
         then (case ipv4ToHost (eo_baseAddress options) of
                 None \<Rightarrow> Inl (''Invalid Ether Dream base_address: '' @ eo_baseAddress options)
               | Some base \<Rightarrow>
                   (let net = base AND ia_netmaskHost iface
                    in Inr (net, net OR NOT (ia_netmaskHost iface))))
         else Inr (network, broadcast))"

text \<open>From the top of the subnet down; \<open>None\<close>: the addresses were exhausted.\<close>

function lanLoop ::
  "'o os_ops \<Rightarrow> ed_options \<Rightarrow> interface_address \<Rightarrow> nat \<Rightarrow> u32 \<Rightarrow> u32 \<Rightarrow> u32 list \<Rightarrow> string list \<Rightarrow>
   'o aliases \<Rightarrow> (string + string list) option \<times> 'o aliases" where
  "lanLoop os options iface count network candidate existing allocated m =
     (if \<not> network < candidate then (None, m)
      else if candidate \<in> set existing \<or> candidate = ia_addressHost iface \<or> hostToIpv4 candidate = []
      then lanLoop os options iface count network (candidate - 1) existing allocated m
      else
        let address = hostToIpv4 candidate;
            rec = \<lparr>ar_interfaceName = ia_name iface, ar_address = address,
                   ar_netmask = ia_netmask iface, ar_loopback = False\<rparr>
        in case ensureAlias os options rec m of
             (Inl err, m') \<Rightarrow> (Some (Inl err), m')
           | (Inr _, m') \<Rightarrow>
               (let allocated' = allocated @ [address] in
                if length allocated' = count then (Some (Inr allocated'), m')
                else lanLoop os options iface count network (candidate - 1)
                       (candidate # existing) allocated' m'))"
  by pat_completeness auto

termination lanLoop
proof (relation "measure (\<lambda>(os, options, iface, count, network, candidate, existing, allocated, m).
    unat candidate)", goal_cases)
  case 1
  then show ?case by simp
next
  case (2 os options iface count network candidate existing allocated m)
  then have "candidate \<noteq> 0" by auto
  then show ?case by (simp add: unat_minus_one unat_gt_0)
next
  case (3 os options iface count network candidate)
  then have "candidate \<noteq> 0" by auto
  then show ?case by (simp add: unat_minus_one unat_gt_0)
qed

declare lanLoop.simps [simp del]

definition allocateLan ::
  "'o os_ops \<Rightarrow> ed_options \<Rightarrow> nat \<Rightarrow> 'o aliases \<Rightarrow> (string + string list) \<times> 'o aliases" where
  "allocateLan os options count m =
     (let allInterfaces = os_interfaces os (snd m); candidates = lanCandidates os options (snd m) in
      if allInterfaces = [] then
        (if count = 1 then Inr [''127.0.0.1'']
         else Inl ''No IPv4 interface is available for Ether Dream aliases.'', m)
      else if candidates = [] then
        (if count = 1 then Inr [''127.0.0.1'']
         else Inl (if eo_interfaceName options = []
                   then ''No non-loopback IPv4 interface is available for Ether Dream aliases.''
                   else ''Configured Ether Dream interface is not available: '' @
                     eo_interfaceName options), m)
      else
        let iface = hd candidates in
        if count = 1 \<and> eo_baseAddress options = [] then (Inr [ia_address iface], m)
        else case lanRange options iface of
          Inl err \<Rightarrow> (Inl err, m)
        | Inr (network, broadcast) \<Rightarrow>
            if broadcast \<le> network + 1
            then (Inl ''Ether Dream interface subnet has no usable alias addresses.'', m)
            else case lanLoop os options iface count network (broadcast - 1)
                        (map ia_addressHost allInterfaces) [] m of
                (Some r, m') \<Rightarrow> (r, m')
              | (None, m') \<Rightarrow>
                  (Inl (''Could not allocate enough Ether Dream alias addresses on interface '' @
                     ia_name iface @ ''.''), m'))"

text \<open>The explicit addresses, checked one by one.\<close>

fun explicitLoop :: "string list \<Rightarrow> string list \<Rightarrow> string + string list" where
  "explicitLoop [] addresses = Inr addresses"
| "explicitLoop (a # as) addresses =
     (if isValidIpv4 a then explicitLoop as (addresses @ [a])
      else Inl (''Invalid Ether Dream explicit IPv4 address: '' @ a))"

definition allocateAliases ::
  "'o os_ops \<Rightarrow> ed_options \<Rightarrow> nat \<Rightarrow> 'o aliases \<Rightarrow> (string + string list) \<times> 'o aliases" where
  "allocateAliases os options count m =
     (let m = cleanupAliases os m; explicit = eo_explicitAddresses options in
      if explicit \<noteq> [] then
        (if length explicit < count
         then Inl ''Ether Dream explicit address list has fewer addresses than targets.''
         else explicitLoop (take count explicit) [], m)
      else if eo_ipMode options = ''explicit''
      then (Inl ''Ether Dream ip_mode=explicit requires addresses=ip1,ip2,...'', m)
      else if count = 0 then (Inr [], m)
      else if eo_ipMode options = ''loopback'' then allocateLoopback os options count m
      else allocateLan os options count m)"

end
