(* ===== verification/Ether_Dream_Device.thy ===== *)
theory Ether_Dream_Device
  imports Ether_Dream_Net
begin

text \<open>
  \<open>VirtualEtherDreamDevice\<close> of \<open>virtual_controller/EtherDreamVirtualControllerHost.cpp\<close>: one
  emulated Ether Dream DAC. Its I/O thread handles one event at a time (a connection, a
  completed read, a read error, a timer), each a function from the device to the actions it
  performs (bytes written, calls on its target's sink, in order) and the new device.

  The byte codec, the numeric codes of the two state enumerations and the default ports
  belong to the libera-laser library: they are the parameter \<open>ed_lib\<close>. The host builds
  devices for targets with a sink only, so the null-sink exits are not represented.
\<close>

datatype light_engine_state = Ready | Estop
datatype playback_state = PlaybackIdle | Prepared | Playing

record ed_lib =
  el_lightCode :: "light_engine_state \<Rightarrow> u8"
  el_playCode :: "playback_state \<Rightarrow> u8"
  el_readLe16 :: "u8 list \<Rightarrow> u16"
  el_readLe32 :: "u8 list \<Rightarrow> u32"
  el_put8 :: "u8 \<Rightarrow> u8 list"
  el_put16 :: "u16 \<Rightarrow> u8 list"
  el_put32 :: "u32 \<Rightarrow> u8 list"
  el_validAddress :: "string \<Rightarrow> bool"
  el_tcpPort :: u16
  el_discoveryPort :: u16

record buffered_point =
  bp_point :: laser_point
  bp_control :: u16

text \<open>The read in progress, with what its handler captured.\<close>

datatype pending_read =
    AwaitCommand
  | AwaitBegin u8
  | AwaitRateChange u8
  | AwaitDataHeader
  | AwaitData u16

record ed_device =
  ed_sinkInfo :: target_info
  ed_address :: string
  ed_mac :: "u8 list"
  ed_opts :: ed_options
  ed_running :: bool
  ed_session :: bool
  ed_pending :: "pending_read option"
  ed_lightEngineState :: light_engine_state
  ed_playbackState :: playback_state
  ed_lightEngineFlags :: u16
  ed_playbackFlags :: u16
  ed_pointRate :: u32
  ed_pointCount :: u32
  ed_pointBuffer :: "buffered_point list"
  ed_pointRateQueue :: "u32 list"
  ed_lastPlaybackAt :: nanos
  ed_playbackAccumulator :: rat
  ed_playbackClockValid :: bool

datatype ed_action =
    SendTcp "u8 list"
  | SendUdp string u16 "u8 list"
  | ToSink sink_call

type_synonym ed_result = "ed_action list \<times> ed_device"

definition andThen :: "ed_result \<Rightarrow> (ed_device \<Rightarrow> ed_result) \<Rightarrow> ed_result" where
  [simp]: "andThen r f = (fst r @ fst (f (snd r)), snd (f (snd r)))"

section \<open>Constants\<close>

definition rateChangeBit :: u16 where "rateChangeBit = 0x8000"
definition playbackFlagShutter :: u16 where "playbackFlagShutter = 1"
definition playbackFlagUnderflow :: u16 where "playbackFlagUnderflow = 2"
definition playbackFlagEstop :: u16 where "playbackFlagEstop = 4"
definition lightEngineFlagEstopCommand :: u16 where "lightEngineFlagEstopCommand = 1"
definition bytesPerPoint :: nat where "bytesPerPoint = 18"
definition maxPointRateQueue :: nat where "maxPointRateQueue = 100"

text \<open>Responses: acknowledge, buffer full, invalid.\<close>

definition respAck :: u8 where "respAck = of_nat (of_char CHR ''a'')"
definition respFull :: u8 where "respFull = of_nat (of_char CHR ''F'')"
definition respInvalid :: u8 where "respInvalid = of_nat (of_char CHR ''I'')"

definition cmd :: "char \<Rightarrow> u8" where
  "cmd c = of_nat (of_char c)"

section \<open>State changes\<close>

definition newDevice :: "target_info \<Rightarrow> string \<Rightarrow> u8 list \<Rightarrow> ed_options \<Rightarrow> ed_device" where
  "newDevice info address mac options =
     \<lparr>ed_sinkInfo = info, ed_address = address, ed_mac = mac, ed_opts = options,
      ed_running = False, ed_session = False, ed_pending = None,
      ed_lightEngineState = Ready, ed_playbackState = PlaybackIdle, ed_lightEngineFlags = 0,
      ed_playbackFlags = 0, ed_pointRate = 30000, ed_pointCount = 0, ed_pointBuffer = [],
      ed_pointRateQueue = [], ed_lastPlaybackAt = 0, ed_playbackAccumulator = 0,
      ed_playbackClockValid = False\<rparr>"

definition resetState :: "ed_device \<Rightarrow> ed_device" where
  "resetState d = d\<lparr>ed_lightEngineState := Ready, ed_playbackState := PlaybackIdle,
     ed_lightEngineFlags := 0, ed_playbackFlags := 0,
     ed_pointRate := min 30000 (eo_maxPointRate (ed_opts d)), ed_pointCount := 0,
     ed_pointBuffer := [], ed_pointRateQueue := [], ed_playbackAccumulator := 0,
     ed_playbackClockValid := False\<rparr>"

definition stopPlaybackLocked :: "ed_device \<Rightarrow> ed_device" where
  "stopPlaybackLocked d = d\<lparr>ed_playbackState := PlaybackIdle,
     ed_playbackFlags := ed_playbackFlags d AND NOT playbackFlagShutter,
     ed_pointBuffer := [], ed_pointRateQueue := [], ed_playbackClockValid := False,
     ed_playbackAccumulator := 0\<rparr>"

definition clearSession :: "ed_device \<Rightarrow> ed_result" where
  "clearSession d = ([ToSink Reset], (stopPlaybackLocked d)\<lparr>ed_session := False, ed_pending := None\<rparr>)"

section \<open>Responses and broadcasts\<close>

definition appendStatusLocked :: "ed_lib \<Rightarrow> ed_device \<Rightarrow> u8 list" where
  "appendStatusLocked lib d =
     el_put8 lib 0 @ el_put8 lib (el_lightCode lib (ed_lightEngineState d)) @
     el_put8 lib (el_playCode lib (ed_playbackState d)) @ el_put8 lib 0 @
     el_put16 lib (ed_lightEngineFlags d) @ el_put16 lib (ed_playbackFlags d) @ el_put16 lib 0 @
     el_put16 lib (of_nat (min (length (ed_pointBuffer d)) 65535)) @
     el_put32 lib (if ed_playbackState d = PlaybackIdle then 0 else ed_pointRate d) @
     el_put32 lib (if ed_playbackState d = Playing then ed_pointCount d else 0)"

definition buildResponse :: "ed_lib \<Rightarrow> u8 \<Rightarrow> u8 \<Rightarrow> ed_device \<Rightarrow> u8 list" where
  "buildResponse lib command response d =
     el_put8 lib response @ el_put8 lib command @ appendStatusLocked lib d"

definition sendResponse :: "ed_lib \<Rightarrow> u8 \<Rightarrow> u8 \<Rightarrow> ed_device \<Rightarrow> ed_result" where
  "sendResponse lib command response d =
     (if ed_session d then ([SendTcp (buildResponse lib command response d)], d) else ([], d))"

definition versionText :: "u8 list" where
  "versionText = map (\<lambda>c. of_nat (of_char c)) ''r3 libera-link''"

definition sendVersion :: "ed_device \<Rightarrow> ed_result" where
  "sendVersion d =
     (if ed_session d
      then ([SendTcp (versionText @ replicate (32 - length versionText) 0)], d) else ([], d))"

definition buildBroadcastPacket :: "ed_lib \<Rightarrow> ed_device \<Rightarrow> u8 list" where
  "buildBroadcastPacket lib d =
     concat (map (el_put8 lib) (ed_mac d)) @ el_put16 lib 0 @
     el_put16 lib (revisionPortOffset (el_tcpPort lib) (eo_tcpPort (ed_opts d))) @
     el_put16 lib (eo_bufferCapacity (ed_opts d)) @ el_put32 lib (eo_maxPointRate (ed_opts d)) @
     appendStatusLocked lib d"

definition sendBroadcast :: "ed_lib \<Rightarrow> ed_device \<Rightarrow> ed_result" where
  "sendBroadcast lib d =
     (let packet = buildBroadcastPacket lib d
      in (map (\<lambda>a. SendUdp a (eo_discoveryPort (ed_opts d)) packet)
            (filter (el_validAddress lib) (eo_broadcastAddresses (ed_opts d))), d))"

section \<open>Commands\<close>

definition startReadCommand :: "ed_device \<Rightarrow> ed_result" where
  "startReadCommand d =
     (if \<not> ed_session d then clearSession d else ([], d\<lparr>ed_pending := Some AwaitCommand\<rparr>))"

definition handlePrepare :: "ed_lib \<Rightarrow> u8 \<Rightarrow> ed_device \<Rightarrow> ed_result" where
  "handlePrepare lib command d =
     (if ed_lightEngineState d = Ready \<and> ed_playbackState d = PlaybackIdle
      then andThen ([ToSink Reset],
             d\<lparr>ed_pointBuffer := [], ed_pointRateQueue := [], ed_pointCount := 0,
               ed_playbackFlags := ed_playbackFlags d AND
                 NOT (playbackFlagUnderflow OR playbackFlagEstop OR playbackFlagShutter),
               ed_playbackState := Prepared, ed_playbackClockValid := False\<rparr>)
             (sendResponse lib command respAck)
      else sendResponse lib command respInvalid d)"

definition handleStop :: "ed_lib \<Rightarrow> u8 \<Rightarrow> ed_device \<Rightarrow> ed_result" where
  "handleStop lib command d =
     (if ed_playbackState d = Prepared \<or> ed_playbackState d = Playing
      then andThen ([ToSink Reset], stopPlaybackLocked d) (sendResponse lib command respAck)
      else sendResponse lib command respInvalid d)"

definition handleClear :: "ed_lib \<Rightarrow> u8 \<Rightarrow> ed_device \<Rightarrow> ed_result" where
  "handleClear lib command d =
     (let d1 = d\<lparr>ed_lightEngineState := Ready, ed_lightEngineFlags := 0,
                ed_playbackFlags := ed_playbackFlags d AND
                  NOT (playbackFlagUnderflow OR playbackFlagEstop)\<rparr>;
          shouldResetTarget = (ed_playbackState d1 = PlaybackIdle);
          d2 = (if shouldResetTarget
                then d1\<lparr>ed_pointBuffer := [], ed_pointRateQueue := [], ed_playbackClockValid := False\<rparr>
                else d1)
      in andThen (if shouldResetTarget then [ToSink Reset] else [], d2)
           (sendResponse lib command respAck))"

definition handleEmergencyStop :: "ed_lib \<Rightarrow> u8 \<Rightarrow> ed_device \<Rightarrow> ed_result" where
  "handleEmergencyStop lib command d =
     andThen ([ToSink Reset],
       stopPlaybackLocked (d\<lparr>ed_lightEngineState := Estop,
         ed_lightEngineFlags := ed_lightEngineFlags d OR lightEngineFlagEstopCommand,
         ed_playbackFlags := ed_playbackFlags d OR playbackFlagEstop\<rparr>))
       (sendResponse lib command respAck)"

definition handleCommand :: "ed_lib \<Rightarrow> u8 \<Rightarrow> ed_device \<Rightarrow> ed_result" where
  "handleCommand lib command d =
     (if command = cmd CHR ''?'' then andThen (sendResponse lib command respAck d) startReadCommand
      else if command = cmd CHR ''v'' then andThen (sendVersion d) startReadCommand
      else if command = cmd CHR ''p'' then andThen (handlePrepare lib command d) startReadCommand
      else if command = cmd CHR ''b'' \<or> command = cmd CHR ''u''
      then ([], d\<lparr>ed_pending := Some (AwaitBegin command)\<rparr>)
      else if command = cmd CHR ''q'' then ([], d\<lparr>ed_pending := Some (AwaitRateChange command)\<rparr>)
      else if command = cmd CHR ''d'' then ([], d\<lparr>ed_pending := Some AwaitDataHeader\<rparr>)
      else if command = cmd CHR ''s'' then andThen (handleStop lib command d) startReadCommand
      else if command = cmd CHR ''c'' then andThen (handleClear lib command d) startReadCommand
      else andThen (handleEmergencyStop lib command d) startReadCommand)"

definition readBegin :: "ed_lib \<Rightarrow> u8 \<Rightarrow> u8 list \<Rightarrow> ed_device \<Rightarrow> ed_result" where
  "readBegin lib command bytes d =
     (let rate = el_readLe32 lib (drop 2 bytes) in
      if 0 < rate \<and> rate \<le> eo_maxPointRate (ed_opts d) \<and> ed_lightEngineState d = Ready \<and>
         (command = cmd CHR ''u'' \<or> ed_playbackState d = Prepared) \<and> ed_pointBuffer d \<noteq> []
      then andThen (sendResponse lib command respAck
             (d\<lparr>ed_pointRate := rate, ed_playbackState := Playing,
                ed_playbackFlags := ed_playbackFlags d OR playbackFlagShutter,
                ed_playbackClockValid := False\<rparr>)) startReadCommand
      else andThen (sendResponse lib command respInvalid d) startReadCommand)"

definition readRateChange :: "ed_lib \<Rightarrow> u8 \<Rightarrow> u8 list \<Rightarrow> ed_device \<Rightarrow> ed_result" where
  "readRateChange lib command bytes d =
     (let rate = el_readLe32 lib bytes in
      if ed_playbackState d \<noteq> PlaybackIdle \<and> 0 < rate \<and> rate \<le> eo_maxPointRate (ed_opts d)
      then if maxPointRateQueue \<le> length (ed_pointRateQueue d)
           then andThen (sendResponse lib command respFull d) startReadCommand
           else andThen (sendResponse lib command respAck
                  (d\<lparr>ed_pointRateQueue := ed_pointRateQueue d @ [rate]\<rparr>)) startReadCommand
      else andThen (sendResponse lib command respInvalid d) startReadCommand)"

section \<open>Point data\<close>

definition coordFromEd :: "u16 \<Rightarrow> rat" where
  "coordFromEd w =
     (let v = sint w in
      if v = - 32768 then - 1 else std_clamp (f32 (of_int v / 32767)) (- 1) 1)"

definition channelFromEd :: "u16 \<Rightarrow> rat" where
  "channelFromEd w = f32 (of_nat (unat w) / 65535)"

definition decodePoint :: "ed_lib \<Rightarrow> u8 list \<Rightarrow> buffered_point" where
  "decodePoint lib cursor =
     (let field = (\<lambda>k. el_readLe16 lib (drop (2 * k) cursor));
          r = field 3; g = field 4; b = field 5; iValue = field 6
      in \<lparr>bp_point = \<lparr>lp_x = coordFromEd (field 1), lp_y = coordFromEd (field 2),
            lp_r = channelFromEd r, lp_g = channelFromEd g, lp_b = channelFromEd b,
            lp_i = (if 0 < iValue then channelFromEd iValue
                    else if r \<noteq> 0 \<or> g \<noteq> 0 \<or> b \<noteq> 0 then 1 else 0),
            lp_u1 = channelFromEd (field 7), lp_u2 = channelFromEd (field 8)\<rparr>,
          bp_control = field 0\<rparr>)"

fun decodePoints :: "ed_lib \<Rightarrow> nat \<Rightarrow> u8 list \<Rightarrow> buffered_point list" where
  "decodePoints lib 0 cursor = []"
| "decodePoints lib (Suc n) cursor =
     decodePoint lib cursor # decodePoints lib n (drop bytesPerPoint cursor)"

definition readDataPayload :: "ed_lib \<Rightarrow> u16 \<Rightarrow> u8 list \<Rightarrow> ed_device \<Rightarrow> ed_result" where
  "readDataPayload lib pointCount bytes d =
     (let decoded = decodePoints lib (unat pointCount) bytes;
          command = cmd CHR ''d'' in
      if ed_playbackState d \<noteq> PlaybackIdle \<and> ed_lightEngineState d = Ready
      then if unat (eo_bufferCapacity (ed_opts d)) < length (ed_pointBuffer d) + length decoded
           then andThen (sendResponse lib command respFull d) startReadCommand
           else andThen (sendResponse lib command respAck
                  (d\<lparr>ed_pointBuffer := ed_pointBuffer d @ decoded\<rparr>)) startReadCommand
      else andThen (sendResponse lib command respInvalid d) startReadCommand)"

text \<open>A payload of no bytes is handled at once, without a read.\<close>

definition readDataHeader :: "ed_lib \<Rightarrow> u8 list \<Rightarrow> ed_device \<Rightarrow> ed_result" where
  "readDataHeader lib bytes d =
     (let pointCount = el_readLe16 lib bytes in
      if pointCount = 0 then readDataPayload lib pointCount [] d
      else ([], d\<lparr>ed_pending := Some (AwaitData pointCount)\<rparr>))"

section \<open>The connection\<close>

definition handleAccepted :: "ed_lib \<Rightarrow> ed_device \<Rightarrow> ed_result" where
  "handleAccepted lib d =
     (if ed_session d then ([], d)
      else andThen (sendResponse lib (cmd CHR ''?'') respAck (resetState (d\<lparr>ed_session := True\<rparr>)))
             startReadCommand)"

fun awaitedBytes :: "pending_read \<Rightarrow> nat" where
  "awaitedBytes AwaitCommand = 1"
| "awaitedBytes (AwaitBegin _) = 6"
| "awaitedBytes (AwaitRateChange _) = 4"
| "awaitedBytes AwaitDataHeader = 2"
| "awaitedBytes (AwaitData n) = unat n * bytesPerPoint"

text \<open>A completed read delivers exactly the bytes asked for.\<close>

definition handleRead :: "ed_lib \<Rightarrow> u8 list \<Rightarrow> ed_device \<Rightarrow> ed_result" where
  "handleRead lib bytes d =
     (case ed_pending d of
        None \<Rightarrow> ([], d)
      | Some p \<Rightarrow>
          (if length bytes \<noteq> awaitedBytes p then ([], d)
           else case p of
               AwaitCommand \<Rightarrow> handleCommand lib (hd bytes) d
             | AwaitBegin command \<Rightarrow> readBegin lib command bytes d
             | AwaitRateChange command \<Rightarrow> readRateChange lib command bytes d
             | AwaitDataHeader \<Rightarrow> readDataHeader lib bytes d
             | AwaitData n \<Rightarrow> readDataPayload lib n bytes d))"

definition handleReadError :: "ed_device \<Rightarrow> ed_result" where
  "handleReadError d = (if ed_pending d = None then ([], d) else clearSession d)"

section \<open>Playback\<close>

text \<open>The loop that drains \<open>n\<close> points; it carries the points drained and the effective rate.\<close>

fun drainPoints :: "nat \<Rightarrow> laser_point list \<Rightarrow> u32 \<Rightarrow> ed_device \<Rightarrow> laser_point list \<times> u32 \<times> ed_device" where
  "drainPoints 0 points effectiveRate d = (points, effectiveRate, d)"
| "drainPoints (Suc n) points effectiveRate d =
     (case ed_pointBuffer d of
        [] \<Rightarrow> (points, effectiveRate, d)
      | p # rest \<Rightarrow>
          (let d1 = d\<lparr>ed_pointBuffer := rest\<rparr>;
               change = (bp_control p AND rateChangeBit \<noteq> 0 \<and> ed_pointRateQueue d1 \<noteq> []);
               d2 = (if change
                     then d1\<lparr>ed_pointRate := hd (ed_pointRateQueue d1),
                             ed_pointRateQueue := tl (ed_pointRateQueue d1),
                             ed_playbackClockValid := False, ed_playbackAccumulator := 0\<rparr>
                     else d1);
               effectiveRate' = (if change then ed_pointRate d2 else effectiveRate)
           in drainPoints n (points @ [bp_point p]) effectiveRate'
                (d2\<lparr>ed_pointCount := ed_pointCount d2 + 1\<rparr>)))"

text \<open>The cast of the duration is exact below \<open>2 ^ 32\<close> microseconds.\<close>

definition tickSubmission :: "ed_options \<Rightarrow> laser_point list \<Rightarrow> u32 \<Rightarrow> slice_submission" where
  "tickSubmission options points effectiveRate =
     (let rate = (if 0 < effectiveRate then effectiveRate else eo_maxPointRate options)
      in \<lparr>sl_points = points,
          sl_durationUs = word_of_int \<lfloor>max 1 (f64 (f64 (1000000 * of_nat (length points)) /
                            of_nat (unat rate)))\<rfloor>,
          sl_effectivePointRate = Some rate, sl_discontinuous = False\<rparr>)"

definition underflowPlayback :: "ed_device \<Rightarrow> ed_device" where
  "underflowPlayback d = d\<lparr>ed_playbackState := PlaybackIdle,
     ed_playbackFlags := (ed_playbackFlags d AND NOT playbackFlagShutter) OR playbackFlagUnderflow,
     ed_playbackClockValid := False, ed_playbackAccumulator := 0\<rparr>"

definition playbackTick :: "nanos \<Rightarrow> ed_device \<Rightarrow> ed_result" where
  "playbackTick now d =
     (if ed_playbackState d \<noteq> Playing \<or> ed_pointRate d = 0 then ([], d)
      else if \<not> ed_playbackClockValid d
      then ([], d\<lparr>ed_lastPlaybackAt := now, ed_playbackClockValid := True\<rparr>)
      else
        let elapsed = (now - ed_lastPlaybackAt d) div 1000;
            accumulator = f64 (ed_playbackAccumulator d +
              f64 (f64 (of_int elapsed * of_nat (unat (ed_pointRate d))) / 1000000));
            pointsDue = nat \<lfloor>accumulator\<rfloor>;
            d1 = d\<lparr>ed_lastPlaybackAt := now, ed_playbackAccumulator := accumulator\<rparr>
        in if pointsDue = 0 then ([], d1)
           else
             let d2 = d1\<lparr>ed_playbackAccumulator := f64 (accumulator - of_nat pointsDue)\<rparr>;
                 toDrain = min pointsDue (length (ed_pointBuffer d2))
             in case drainPoints toDrain [] (ed_pointRate d2) d2 of
                  (points, effectiveRate, d3) \<Rightarrow>
                    (let d4 = (if toDrain < pointsDue then underflowPlayback d3 else d3)
                     in (if points \<noteq> []
                         then [ToSink (SubmitContinuous (tickSubmission (ed_opts d) points effectiveRate))]
                         else [], d4)))"

section \<open>Start, stop, endpoint\<close>

text \<open>The socket calls of \<open>start\<close>, in order, and the message of the first one that fails.\<close>

definition startSockets :: "'o os_ops \<Rightarrow> ed_device \<Rightarrow> 'o \<Rightarrow> string option \<times> 'o" where
  "startSockets os d w =
     (let run = (\<lambda>call msg k w. case os_socket os call w of
              (None, w') \<Rightarrow> k w' | (Some e, w') \<Rightarrow> (Some (msg @ e), w'));
          address = ed_address d; port = eo_tcpPort (ed_opts d);
          udp = ''Ether Dream UDP broadcast socket failed for '' @ address @ '': ''
      in run (MakeAddress address) (''Invalid Ether Dream listen address '' @ address @ '': '')
         (run TcpOpen ''Ether Dream TCP open failed: ''
         (run (TcpBind address port)
            (''Ether Dream TCP bind failed for '' @ address @ '':'' @ to_string (unat port) @ '': '')
         (run TcpListen (''Ether Dream TCP listen failed for '' @ address @ '': '')
         (if eo_discoveryEnabled (ed_opts d)
          then run UdpOpen udp (run UdpBroadcast udp (run (UdpBind address) udp (\<lambda>w. (None, w))))
          else (\<lambda>w. (None, w)))))) w)"

definition startDevice :: "'o os_ops \<Rightarrow> ed_device \<Rightarrow> 'o \<Rightarrow> (string + ed_device) \<times> 'o" where
  "startDevice os d w =
     (case startSockets os d w of
        (Some err, w') \<Rightarrow> (Inl err, w')
      | (None, w') \<Rightarrow> (Inr (d\<lparr>ed_running := True\<rparr>), w'))"

definition stopDevice :: "ed_device \<Rightarrow> ed_device" where
  "stopDevice d =
     (if \<not> ed_running d then d
      else resetState (d\<lparr>ed_running := False, ed_session := False, ed_pending := None\<rparr>))"

definition deviceEndpoint :: "ed_lib \<Rightarrow> ed_device \<Rightarrow> vc_endpoint" where
  "deviceEndpoint lib d =
     (let port = eo_tcpPort (ed_opts d) in
      \<lparr>ep_targetId = ti_id (ed_sinkInfo d), ep_label = ''Ether Dream '' @ formatMac (ed_mac d),
       ep_value = ed_address d @ '':'' @ to_string (unat port), ep_kind = ''network-socket'',
       ep_protocol = ''Ether Dream'', ep_transport = ''tcp'', ep_address = ed_address d,
       ep_port = port, ep_channels = 0,
       ep_attributes = fmap_of_list
         [(''mac'', formatMac (ed_mac d)),
          (''discovery_port'', to_string (unat (eo_discoveryPort (ed_opts d)))),
          (''hardware_revision'', ''0''),
          (''software_revision'', to_string (unat (revisionPortOffset (el_tcpPort lib) port)))]\<rparr>)"

section \<open>Events\<close>

datatype ed_event =
    EdAccept
  | EdRead "u8 list"
  | EdReadError
  | EdPlaybackTimer nanos
  | EdBroadcastTimer
  | EdStop

fun ed_handle :: "ed_lib \<Rightarrow> ed_event \<Rightarrow> ed_device \<Rightarrow> ed_result" where
  "ed_handle lib EdAccept d = handleAccepted lib d"
| "ed_handle lib (EdRead bytes) d = handleRead lib bytes d"
| "ed_handle lib EdReadError d = handleReadError d"
| "ed_handle lib (EdPlaybackTimer now) d = playbackTick now d"
| "ed_handle lib EdBroadcastTimer d = sendBroadcast lib d"
| "ed_handle lib EdStop d = ([], stopDevice d)"

text \<open>Nothing is handled unless the device runs: its I/O thread has stopped.\<close>

definition ed_step :: "ed_lib \<Rightarrow> ed_event \<Rightarrow> ed_device \<Rightarrow> ed_result" where
  "ed_step lib ev d = (if ed_running d then ed_handle lib ev d else ([], d))"

inductive ed_reachable :: "ed_lib \<Rightarrow> ed_device \<Rightarrow> bool" for lib where
  started: "0 < eo_maxPointRate options \<Longrightarrow>
    ed_reachable lib ((newDevice info address mac options)\<lparr>ed_running := True\<rparr>)"
| stepped: "ed_reachable lib d \<Longrightarrow> ed_step lib ev d = (as, d') \<Longrightarrow> ed_reachable lib d'"

fun sinkCalls :: "ed_action list \<Rightarrow> sink_call list" where
  "sinkCalls [] = []"
| "sinkCalls (ToSink c # as) = c # sinkCalls as"
| "sinkCalls (_ # as) = sinkCalls as"

end
