(* ===== verification/Ether_Dream_Device_Props.thy ===== *)
theory Ether_Dream_Device_Props
  imports Ether_Dream_Device
begin

text \<open>
  The invariant of a virtual Ether Dream device over every sequence of events, its safety
  under emergency stop and disconnection, and what it hands to its target.
\<close>

section \<open>Flags\<close>

abbreviation shutterFlag :: "u16 \<Rightarrow> bool" where
  "shutterFlag f \<equiv> bit f 0"

lemma shutter_simps [simp]:
  "shutterFlag (a AND b) \<longleftrightarrow> shutterFlag a \<and> shutterFlag b"
  "shutterFlag (a OR b) \<longleftrightarrow> shutterFlag a \<or> shutterFlag b"
  "shutterFlag (NOT a) \<longleftrightarrow> \<not> shutterFlag a"
  "shutterFlag playbackFlagShutter" "\<not> shutterFlag playbackFlagUnderflow"
  "\<not> shutterFlag playbackFlagEstop"
  by (simp_all add: playbackFlagShutter_def playbackFlagUnderflow_def playbackFlagEstop_def bit_simps)

section \<open>The invariant\<close>

definition rate_ok :: "ed_options \<Rightarrow> u32 \<Rightarrow> bool" where
  "rate_ok options r \<longleftrightarrow> 0 < r \<and> r \<le> eo_maxPointRate options"

definition ed_inv :: "ed_device \<Rightarrow> bool" where
  "ed_inv d \<longleftrightarrow> 0 < eo_maxPointRate (ed_opts d) \<and>
     length (ed_pointBuffer d) \<le> unat (eo_bufferCapacity (ed_opts d)) \<and>
     length (ed_pointRateQueue d) \<le> maxPointRateQueue \<and>
     (\<forall>r \<in> set (ed_pointRateQueue d). rate_ok (ed_opts d) r) \<and>
     (ed_playbackState d = Playing \<longrightarrow> rate_ok (ed_opts d) (ed_pointRate d)) \<and>
     (ed_playbackState d = Playing \<longleftrightarrow> shutterFlag (ed_playbackFlags d)) \<and>
     (ed_lightEngineState d = Estop \<longrightarrow>
        ed_playbackState d = PlaybackIdle \<and> ed_pointBuffer d = [] \<and> ed_pointRateQueue d = []) \<and>
     (\<not> ed_session d \<longrightarrow> ed_playbackState d = PlaybackIdle \<and> ed_pointBuffer d = []) \<and>
     (ed_session d \<longleftrightarrow> ed_pending d \<noteq> None) \<and> (ed_session d \<longrightarrow> ed_running d)"

lemma snd_send [simp]:
  "snd (sendResponse lib c r d) = d" "snd (sendVersion d) = d" "snd (sendBroadcast lib d) = d"
  by (simp_all add: sendResponse_def sendVersion_def sendBroadcast_def Let_def)

lemma inv_clearSession [inv_intros]: "ed_inv d \<Longrightarrow> ed_inv (snd (clearSession d))"
  by (simp add: ed_inv_def clearSession_def stopPlaybackLocked_def)

lemma inv_startReadCommand [inv_intros]: "ed_inv d \<Longrightarrow> ed_inv (snd (startReadCommand d))"
  by (simp add: startReadCommand_def inv_clearSession) (simp add: ed_inv_def)

lemma inv_resetState:
  "0 < eo_maxPointRate (ed_opts d) \<Longrightarrow> (ed_session d \<longleftrightarrow> ed_pending d \<noteq> None) \<Longrightarrow>
   (ed_session d \<longrightarrow> ed_running d) \<Longrightarrow> ed_inv (resetState d)"
  by (simp add: ed_inv_def resetState_def)

text \<open>A command is handled while a session is open and the device runs.\<close>

lemma inv_handlers [inv_intros]:
  assumes "ed_inv d" "ed_session d" "ed_running d"
  shows "ed_inv (snd (handlePrepare lib c d))" "ed_inv (snd (handleStop lib c d))"
    "ed_inv (snd (handleClear lib c d))" "ed_inv (snd (handleEmergencyStop lib c d))"
  using assms
  by (auto simp: handlePrepare_def handleStop_def handleClear_def handleEmergencyStop_def
      stopPlaybackLocked_def ed_inv_def Let_def)

lemma inv_handleCommand [inv_intros]:
  assumes "ed_inv d" "ed_session d" "ed_running d"
  shows "ed_inv (snd (handleCommand lib c d))"
proof -
  have "ed_inv (d\<lparr>ed_pending := Some p\<rparr>)" for p using assms by (simp add: ed_inv_def)
  then show ?thesis
    using assms inv_handlers [OF assms] by (simp add: handleCommand_def inv_intros)
qed

lemma inv_readBegin [inv_intros]:
  assumes "ed_inv d" "ed_session d" "ed_running d"
  shows "ed_inv (snd (readBegin lib c bytes d))"
proof -
  have "ed_inv (d\<lparr>ed_pointRate := r, ed_playbackState := Playing,
      ed_playbackFlags := ed_playbackFlags d OR playbackFlagShutter, ed_playbackClockValid := False\<rparr>)"
    if "0 < r" "r \<le> eo_maxPointRate (ed_opts d)" "ed_lightEngineState d = Ready" for r
    using assms that by (simp add: ed_inv_def rate_ok_def)
  then show ?thesis using assms(1) by (simp add: readBegin_def Let_def inv_intros)
qed

lemma inv_readRateChange [inv_intros]:
  assumes "ed_inv d" "ed_session d" "ed_running d"
  shows "ed_inv (snd (readRateChange lib c bytes d))"
proof -
  have "ed_inv (d\<lparr>ed_pointRateQueue := ed_pointRateQueue d @ [r]\<rparr>)"
    if "0 < r" "r \<le> eo_maxPointRate (ed_opts d)" "ed_playbackState d \<noteq> PlaybackIdle"
      "\<not> maxPointRateQueue \<le> length (ed_pointRateQueue d)" for r
    using assms that by (auto simp: ed_inv_def rate_ok_def)
  then show ?thesis using assms(1) by (simp add: readRateChange_def Let_def inv_intros)
qed

lemma inv_readDataPayload [inv_intros]:
  assumes "ed_inv d" "ed_session d" "ed_running d"
  shows "ed_inv (snd (readDataPayload lib n bytes d))"
proof -
  have "ed_inv (d\<lparr>ed_pointBuffer := ed_pointBuffer d @ ps\<rparr>)"
    if "\<not> unat (eo_bufferCapacity (ed_opts d)) < length (ed_pointBuffer d) + length ps"
      "ed_lightEngineState d = Ready" for ps
    using assms that by (simp add: ed_inv_def)
  then show ?thesis using assms(1) by (simp add: readDataPayload_def Let_def inv_intros)
qed

lemma inv_readDataHeader [inv_intros]:
  assumes "ed_inv d" "ed_session d" "ed_running d"
  shows "ed_inv (snd (readDataHeader lib bytes d))"
  using assms inv_readDataPayload [OF assms]
  by (simp add: readDataHeader_def Let_def) (simp add: ed_inv_def)

lemma inv_handleRead [inv_intros]:
  assumes "ed_inv d"
  shows "ed_inv (snd (handleRead lib bytes d))"
proof (cases "ed_pending d")
  case None
  with assms show ?thesis by (simp add: handleRead_def)
next
  case (Some p)
  with assms have "ed_session d" "ed_running d" by (simp_all add: ed_inv_def)
  with Some assms show ?thesis
    by (cases p) (simp_all add: handleRead_def inv_intros)
qed

lemma inv_handleAccepted [inv_intros]:
  assumes "ed_inv d" "ed_running d"
  shows "ed_inv (snd (handleAccepted lib d))"
  using assms
  by (simp add: handleAccepted_def startReadCommand_def resetState_def) (simp add: ed_inv_def)

lemma inv_stopDevice [inv_intros]: "ed_inv d \<Longrightarrow> ed_inv (stopDevice d)"
  by (auto simp: stopDevice_def inv_resetState ed_inv_def [of d])

text \<open>The drain loop keeps the invariant of a playing device.\<close>

lemma drain_inv:
  assumes "ed_inv d" "ed_playbackState d = Playing"
  shows "ed_inv (snd (snd (drainPoints n points rate d))) \<and>
    ed_playbackState (snd (snd (drainPoints n points rate d))) = Playing"
  using assms
proof (induction n points rate d rule: drainPoints.induct)
  case (1 points rate d)
  then show ?case by simp
next
  case (2 n points rate d)
  show ?case
  proof (cases "ed_pointBuffer d")
    case Nil
    with 2 show ?thesis by simp
  next
    case (Cons p rest)
    let ?change = "bp_control p AND rateChangeBit \<noteq> 0 \<and> ed_pointRateQueue d \<noteq> []"
    let ?d1 = "d\<lparr>ed_pointBuffer := rest\<rparr>"
    let ?d2 = "if bp_control p AND rateChangeBit \<noteq> 0 \<and> ed_pointRateQueue ?d1 \<noteq> []
      then ?d1\<lparr>ed_pointRate := hd (ed_pointRateQueue ?d1),
               ed_pointRateQueue := tl (ed_pointRateQueue ?d1),
               ed_playbackClockValid := False, ed_playbackAccumulator := 0\<rparr> else ?d1"
    let ?d3 = "?d2\<lparr>ed_pointCount := ed_pointCount ?d2 + 1\<rparr>"
    have rates: "\<forall>r \<in> set (tl (ed_pointRateQueue d)). rate_ok (ed_opts d) r"
      "?change \<Longrightarrow> rate_ok (ed_opts d) (hd (ed_pointRateQueue d))"
      using 2(2) [unfolded ed_inv_def] by (cases "ed_pointRateQueue d"; simp)+
    then have "ed_inv ?d3" using 2(2,3) Cons unfolding ed_inv_def by auto
    moreover have "ed_playbackState ?d3 = Playing" using 2(3) by simp
    ultimately show ?thesis
      using 2(1) [OF Cons refl refl refl refl] Cons by (simp add: Let_def split del: if_split)
  qed
qed

lemma drain_points:
  "fst (drainPoints n points rate d) = points @ map bp_point (take n (ed_pointBuffer d)) \<and>
   ed_pointBuffer (snd (snd (drainPoints n points rate d))) = drop n (ed_pointBuffer d) \<and>
   ed_opts (snd (snd (drainPoints n points rate d))) = ed_opts d \<and>
   ed_session (snd (snd (drainPoints n points rate d))) = ed_session d"
proof (induction n points rate d rule: drainPoints.induct)
  case (1 points rate d)
  then show ?case by simp
next
  case (2 n points rate d)
  show ?case
  proof (cases "ed_pointBuffer d")
    case (Cons p rest)
    show ?thesis using 2 [OF Cons refl refl refl refl] Cons by (simp add: Let_def)
  qed simp
qed

lemma drain_rate:
  assumes "rate_ok options rate" "\<forall>r \<in> set (ed_pointRateQueue d). rate_ok options r"
  shows "rate_ok options (fst (snd (drainPoints n points rate d)))"
  using assms
proof (induction n points rate d rule: drainPoints.induct)
  case (1 points rate d)
  then show ?case by simp
next
  case (2 n points rate d)
  show ?case
  proof (cases "ed_pointBuffer d")
    case Nil
    with 2 show ?thesis by simp
  next
    case (Cons p rest)
    have q: "\<forall>r \<in> set (tl (ed_pointRateQueue d)). rate_ok options r"
      "ed_pointRateQueue d \<noteq> [] \<Longrightarrow> rate_ok options (hd (ed_pointRateQueue d))"
      using 2(3) by (cases "ed_pointRateQueue d"; simp)+
    then show ?thesis
      using 2(1) [OF Cons refl refl refl refl] 2(2,3) Cons by (simp add: Let_def)
  qed
qed

section \<open>One playback tick\<close>

definition tickAccumulator :: "nanos \<Rightarrow> ed_device \<Rightarrow> rat" where
  "tickAccumulator now d = f64 (ed_playbackAccumulator d +
     f64 (f64 (of_int ((now - ed_lastPlaybackAt d) div 1000) * of_nat (unat (ed_pointRate d))) / 1000000))"

definition pointsDue :: "nanos \<Rightarrow> ed_device \<Rightarrow> nat" where
  "pointsDue now d = nat \<lfloor>tickAccumulator now d\<rfloor>"

text \<open>The device as the drain loop of a tick finds it.\<close>

definition tickStart :: "nanos \<Rightarrow> ed_device \<Rightarrow> ed_device" where
  "tickStart now d = d\<lparr>ed_lastPlaybackAt := now,
     ed_playbackAccumulator := f64 (tickAccumulator now d - of_nat (pointsDue now d))\<rparr>"

lemma tick_drains:
  assumes "ed_playbackState d = Playing" "ed_pointRate d \<noteq> 0" "ed_playbackClockValid d"
    "pointsDue now d \<noteq> 0"
  defines "n \<equiv> min (pointsDue now d) (length (ed_pointBuffer d))"
  defines "r \<equiv> drainPoints n [] (ed_pointRate d) (tickStart now d)"
  shows "playbackTick now d =
    ((if fst r \<noteq> [] then [ToSink (SubmitContinuous (tickSubmission (ed_opts d) (fst r) (fst (snd r))))] else []),
     (if n < pointsDue now d then underflowPlayback (snd (snd r)) else snd (snd r)))"
  using assms(1-4)
  by (simp add: playbackTick_def Let_def pointsDue_def tickAccumulator_def tickStart_def n_def r_def
      case_prod_unfold)

lemma tick_idle:
  assumes "\<not> (ed_playbackState d = Playing \<and> ed_pointRate d \<noteq> 0 \<and> ed_playbackClockValid d \<and>
    pointsDue now d \<noteq> 0)"
  shows "fst (playbackTick now d) = [] \<and> ed_pointBuffer (snd (playbackTick now d)) = ed_pointBuffer d \<and>
    ed_playbackState (snd (playbackTick now d)) = ed_playbackState d \<and>
    (ed_inv d \<longrightarrow> ed_inv (snd (playbackTick now d)))"
  using assms
  by (auto simp: playbackTick_def Let_def pointsDue_def tickAccumulator_def ed_inv_def)

lemma inv_playbackTick [inv_intros]:
  assumes "ed_inv d"
  shows "ed_inv (snd (playbackTick now d))"
proof (cases "ed_playbackState d = Playing \<and> ed_pointRate d \<noteq> 0 \<and> ed_playbackClockValid d \<and>
    pointsDue now d \<noteq> 0")
  case False
  with tick_idle assms show ?thesis by blast
next
  case True
  have start: "ed_inv (tickStart now d)" "ed_playbackState (tickStart now d) = Playing"
    using assms True by (auto simp: tickStart_def ed_inv_def)
  have under: "ed_inv u \<Longrightarrow> ed_inv (underflowPlayback u)" if "ed_pointBuffer u = []" for u
    using that by (auto simp: ed_inv_def underflowPlayback_def)
  let ?n = "min (pointsDue now d) (length (ed_pointBuffer d))"
  let ?r = "drainPoints ?n [] (ed_pointRate d) (tickStart now d)"
  have d: "ed_inv (snd (snd ?r))" using drain_inv [OF start] by blast
  have empty: "ed_pointBuffer (snd (snd ?r)) = []" if "?n < pointsDue now d"
    using that drain_points [of ?n "[]" "ed_pointRate d" "tickStart now d"]
    by (simp add: tickStart_def min_def split: if_splits)
  have "ed_inv (if ?n < pointsDue now d then underflowPlayback (snd (snd ?r)) else snd (snd ?r))"
    using d under [OF empty] by (cases "?n < pointsDue now d") (simp_all only: if_True if_False)
  moreover from True have t: "ed_playbackState d = Playing" "ed_pointRate d \<noteq> 0"
    "ed_playbackClockValid d" "pointsDue now d \<noteq> 0" by blast+
  ultimately show ?thesis by (simp only: tick_drains [OF t] snd_conv)
qed

section \<open>Every event\<close>

lemma inv_broadcast: "snd (sendBroadcast lib d) = d"
  by simp

lemma ed_inv_step:
  assumes "ed_inv d"
  shows "ed_inv (snd (ed_step lib ev d))"
  using assms
  by (cases ev) (simp_all add: ed_step_def inv_intros handleReadError_def)

lemma opts_clear [simp]: "ed_opts (snd (clearSession d)) = ed_opts d"
  by (simp add: clearSession_def stopPlaybackLocked_def)

lemma reachable_ed_inv: "ed_reachable lib d \<Longrightarrow> ed_inv d"
proof (induction rule: ed_reachable.induct)
  case (started options info address mac)
  then show ?case by (simp add: ed_inv_def newDevice_def)
next
  case (stepped d ev as d')
  then show ?case using ed_inv_step [of d lib ev] by simp
qed

end
