(* ===== verification/Ether_Dream_Net_Props.thy ===== *)
theory Ether_Dream_Net_Props
  imports Ether_Dream_Net
begin

text \<open>
  Properties of Ether Dream addressing: quoting against a reader of shell words, dotted
  quads, what the alias manager hands out and when it runs commands.
\<close>

section \<open>Quoting\<close>

text \<open>A reader of one POSIX shell word made of quoted pieces and escaped characters.\<close>

fun shell_word :: "bool \<Rightarrow> string \<Rightarrow> string option" where
  "shell_word False [] = Some []"
| "shell_word True [] = None"
| "shell_word True (c # cs) =
     (if c = quote then shell_word False cs else map_option (Cons c) (shell_word True cs))"
| "shell_word False (c # cs) =
     (if c = quote then shell_word True cs
      else if c = backslash
      then (case cs of [] \<Rightarrow> None | d # ds \<Rightarrow> map_option (Cons d) (shell_word False ds))
      else None)"

lemma quote_backslash [simp]: "quote \<noteq> backslash" "backslash \<noteq> quote"
  by (simp_all add: quote_def backslash_def)

lemma shell_word_body:
  "shell_word True (concat (map (\<lambda>ch. if ch = quote then [quote, backslash, quote, quote] else [ch]) str) @ rest)
     = map_option (append str) (shell_word True rest)"
  by (induction str) (auto simp: option.map_comp comp_def option.map_ident)

text \<open>A quoted string is exactly one shell word, and the shell reads it back as the string,
  whatever characters it contains: no option can inject a command.\<close>

theorem shellQuote_roundtrip: "shell_word False (shellQuote str) = Some str"
  using shell_word_body [of str "[quote]"] by (simp add: shellQuote_def)

section \<open>Dotted quads\<close>

lemma splitOn_none: "c \<notin> set p \<Longrightarrow> splitOn c p = [p]"
  by (induction p) auto

lemma splitOn_append: "c \<notin> set p \<Longrightarrow> splitOn c (p @ c # rest) = p # splitOn c rest"
  by (induction p) auto

lemma isdigit_not_dot: "isdigit c \<Longrightarrow> c \<noteq> CHR ''.''"
  by (auto simp: isdigit_def)

lemma to_string_no_dot: "CHR ''.'' \<notin> set (to_string n)"
  using to_string_digits [of n] isdigit_not_dot by blast

lemma char_digit_zero: "d < 10 \<Longrightarrow> (char_of (48 + d :: nat) = CHR ''0'') = (d = 0)"
proof -
  assume "d < 10"
  then have "(of_char (char_of (48 + d :: nat)) :: nat) = 48 + d" by (rule of_char_digit)
  moreover have "(of_char CHR ''0'' :: nat) = 48" by simp
  ultimately show ?thesis by (metis add_cancel_right_right of_char_eq_iff)
qed

lemma to_string_octet:
  assumes "n \<le> 255"
  shows "length (to_string n) \<le> 3" "hd (to_string n) = CHR ''0'' \<Longrightarrow> length (to_string n) = 1"
proof -
  consider "n < 10" | "10 \<le> n" "n < 100" | "100 \<le> n" "n < 1000" using assms by linarith
  then have "length (to_string n) \<le> 3 \<and> (hd (to_string n) = CHR ''0'' \<longrightarrow> length (to_string n) = 1)"
  proof cases
    case 1
    then show ?thesis by (simp add: to_string_def dec_digits.simps [of n])
  next
    case 2
    then have "n div 10 < 10" "n div 10 \<noteq> 0" by auto
    then show ?thesis using 2
      by (simp add: to_string_def dec_digits.simps [of n] dec_digits.simps [of "n div 10"] char_digit_zero)
  next
    case 3
    then have "n div 10 div 10 < 10" "n div 10 div 10 \<noteq> 0" "\<not> n div 10 < 10" by auto
    then show ?thesis using 3
      by (simp add: to_string_def dec_digits.simps [of n] dec_digits.simps [of "n div 10"]
          dec_digits.simps [of "n div 10 div 10"] char_digit_zero)
  qed
  then show "length (to_string n) \<le> 3" "hd (to_string n) = CHR ''0'' \<Longrightarrow> length (to_string n) = 1"
    by auto
qed

lemma octet_to_string: "n \<le> 255 \<Longrightarrow> octet (to_string n) = Some (of_nat n)"
  using to_string_octet [of n] to_string_digits [of n] to_string_nonempty [of n]
  by (auto simp: octet_def digits_value_to_string)

lemma byte_le: "unat (w AND 255 :: u32) \<le> 255"
  using word_and_le1 [of w 255] by (simp add: word_le_nat_alt)

lemma join_bytes:
  "push_bit 24 (drop_bit 24 v AND 255) OR push_bit 16 (drop_bit 16 v AND 255) OR
   push_bit 8 (drop_bit 8 v AND 255) OR (v AND 255) = (v :: u32)"
proof -
  have m: "(255 :: u32) = mask 8" by (simp add: mask_eq_exp_minus_1)
  have "bit (push_bit 24 (drop_bit 24 v AND mask 8) OR push_bit 16 (drop_bit 16 v AND mask 8) OR
   push_bit 8 (drop_bit 8 v AND mask 8) OR (v AND mask 8)) n = bit v n" if n: "n < 32" for n
  proof -
    consider "n < 8" | "8 \<le> n" "n < 16" | "16 \<le> n" "n < 24" | "24 \<le> n" "n < 32"
      using n by linarith
    then show ?thesis by cases (auto simp: bit_simps)
  qed
  then show ?thesis unfolding m by (intro bit_word_eqI) simp
qed

lemma split_quad:
  assumes "CHR ''.'' \<notin> set a" "CHR ''.'' \<notin> set b" "CHR ''.'' \<notin> set c" "CHR ''.'' \<notin> set d"
  shows "splitOn CHR ''.'' (a @ ''.'' @ b @ ''.'' @ c @ ''.'' @ d) = [a, b, c, d]"
  using assms splitOn_append [of "CHR ''.''" a "b @ ''.'' @ c @ ''.'' @ d"]
    splitOn_append [of "CHR ''.''" b "c @ ''.'' @ d"] splitOn_append [of "CHR ''.''" c d]
    splitOn_none [of "CHR ''.''" d] by simp

lemma ipv4_of_host: "ipv4ToHost (hostToIpv4 v) = Some v"
  unfolding ipv4ToHost_def hostToIpv4_def split_quad [OF to_string_no_dot to_string_no_dot
      to_string_no_dot to_string_no_dot]
  using join_bytes [of v] by (simp only: list.map octet_to_string [OF byte_le] list.case
      option.case of_nat_unat ucast_id)

lemma inj_hostToIpv4: "inj hostToIpv4"
  by (rule injI) (metis ipv4_of_host option.inject)

text \<open>Reading back the dotted form of any 32-bit address gives that address, so different
  addresses have different texts and each text is a valid address.\<close>

theorem ipv4_roundtrip:
  "ipv4ToHost (hostToIpv4 v) = Some v \<and> isValidIpv4 (hostToIpv4 v) \<and>
   (hostToIpv4 v = hostToIpv4 w \<longleftrightarrow> v = w)"
  by (simp add: ipv4_of_host isValidIpv4_def inj_eq [OF inj_hostToIpv4])

theorem ipv4_roundtrip_witness: "ipv4ToHost (hostToIpv4 3232235777) = Some 3232235777"
  using ipv4_roundtrip [of 3232235777 0] by simp

section \<open>What the alias manager hands out\<close>

text \<open>An address the search may take.\<close>

definition lan_alias :: "u32 \<Rightarrow> u32 \<Rightarrow> u32 list \<Rightarrow> u32 \<Rightarrow> bool" where
  "lan_alias network high existing c \<longleftrightarrow> network < c \<and> c \<le> high \<and> c \<notin> set existing"

lemma pred_le: "n < (c :: u32) \<Longrightarrow> c \<le> high \<Longrightarrow> c - 1 \<le> high"
proof -
  assume "n < c" "c \<le> high"
  then have "c \<noteq> 0" by auto
  then have "unat (c - 1) = unat c - 1" by (rule unat_minus_one)
  with \<open>c \<le> high\<close> show ?thesis by (simp add: word_le_nat_alt)
qed

lemma lanLoop_result:
  assumes "lanLoop os options iface count network candidate existing allocated m = (Some (Inr r), m')"
    "length allocated < count" "candidate \<le> high"
  shows "length r = count \<and> (\<exists>cs. r = allocated @ map hostToIpv4 cs \<and> distinct cs \<and>
    (\<forall>c \<in> set cs. lan_alias network high existing c))"
  using assms
proof (induction os options iface count network candidate existing allocated m rule: lanLoop.induct)
  case (1 os options iface count network candidate existing allocated m)
  note run = 1(3) [unfolded lanLoop.simps [of os options iface count network candidate]]
  show ?case
  proof (cases "network < candidate")
    case False
    with run show ?thesis by simp
  next
    case above: True
    note le = pred_le [OF above 1(5)]
    show ?thesis
    proof (cases "candidate \<in> set existing \<or> candidate = ia_addressHost iface \<or> hostToIpv4 candidate = []")
      case True
      then have "lanLoop os options iface count network (candidate - 1) existing allocated m =
          (Some (Inr r), m')" using above run by simp
      then show ?thesis using 1(1) above True 1(4) le by blast
    next
      case free: False
      let ?rec = "\<lparr>ar_interfaceName = ia_name iface, ar_address = hostToIpv4 candidate,
        ar_netmask = ia_netmask iface, ar_loopback = False\<rparr>"
      obtain res m1 where e: "ensureAlias os options ?rec m = (res, m1)"
        by (metis prod.exhaust)
      have ok: "lan_alias network high existing candidate"
        using above 1(5) free by (simp add: lan_alias_def)
      show ?thesis
      proof (cases "length (allocated @ [hostToIpv4 candidate]) = count")
        case True
        have "res = Inr () \<and> r = allocated @ [hostToIpv4 candidate]"
          using run above free e True by (auto split: sum.splits)
        then show ?thesis using True ok by (intro conjI exI [of _ "[candidate]"]) auto
      next
        case False
        then have rest: "lanLoop os options iface count network (candidate - 1) (candidate # existing)
            (allocated @ [hostToIpv4 candidate]) m1 = (Some (Inr r), m')" and res: "res = Inr ()"
          using run above free e by (auto simp: Let_def split: sum.splits)
        from False 1(4) have less: "length (allocated @ [hostToIpv4 candidate]) < count" by simp
        have "length r = count \<and> (\<exists>cs. r = (allocated @ [hostToIpv4 candidate]) @ map hostToIpv4 cs \<and>
            distinct cs \<and> (\<forall>c \<in> set cs. lan_alias network high (candidate # existing) c))"
          using above free e [symmetric] res False
          by (intro 1(2) [OF _ _ refl refl _ _ _ _ rest less le]) auto
        then obtain cs where "length r = count" "r = allocated @ map hostToIpv4 (candidate # cs)"
          "distinct cs" "\<forall>c \<in> set cs. lan_alias network high (candidate # existing) c" by auto
        then show ?thesis using ok
          by (intro conjI exI [of _ "candidate # cs"]) (auto simp: lan_alias_def)
      qed
    qed
  qed
qed

lemma inj_to_string: "to_string a = to_string b \<Longrightarrow> a = b"
  by (metis digits_value_to_string)

lemma loopbackLoop_result:
  "loopbackLoop os options is addresses m = (Inr r, m') \<Longrightarrow>
     r = addresses @ map (\<lambda>i. ''127.0.0.'' @ to_string (i + 1)) is"
  by (induction os options "is" addresses m rule: loopbackLoop.induct)
    (auto simp: Let_def split: prod.splits sum.splits)

lemma explicitLoop_result:
  "explicitLoop as addresses = Inr r \<Longrightarrow> r = addresses @ as \<and> (\<forall>a \<in> set as. isValidIpv4 a)"
  by (induction as addresses rule: explicitLoop.induct) (auto split: if_splits)

lemma below_broadcast:
  assumes "\<not> broadcast \<le> (network :: u32) + 1" "c \<le> broadcast - 1"
  shows "c < broadcast"
proof -
  from assms(1) have "broadcast \<noteq> 0" by auto
  with assms(2) show ?thesis
    by (simp add: word_le_nat_alt word_less_nat_alt unat_minus_one)
      (metis One_nat_def Suc_pred le_imp_less_Suc unat_gt_0)
qed

lemma allocateLan_result:
  assumes "allocateLan os options count m = (Inr as, m')" "0 < count"
  shows "length as = count \<and> distinct as \<and> (1 < count \<longrightarrow>
    (\<exists>network broadcast cs. lanRange options (hd (lanCandidates os options (snd m))) = Inr (network, broadcast) \<and>
      as = map hostToIpv4 cs \<and>
      (\<forall>c \<in> set cs. network < c \<and> c < broadcast \<and> c \<notin> ia_addressHost ` set (os_interfaces os (snd m)))))"
proof (cases "os_interfaces os (snd m) = [] \<or> lanCandidates os options (snd m) = [] \<or>
    (count = 1 \<and> eo_baseAddress options = [])")
  case True
  then show ?thesis using assms by (auto simp: allocateLan_def Let_def split: if_splits)
next
  case False
  let ?iface = "hd (lanCandidates os options (snd m))"
  let ?existing = "map ia_addressHost (os_interfaces os (snd m))"
  obtain network broadcast where r: "lanRange options ?iface = Inr (network, broadcast)"
    using assms False by (auto simp: allocateLan_def Let_def split: sum.splits if_splits)
  have nb: "\<not> broadcast \<le> network + 1"
    and loop: "lanLoop os options ?iface count network (broadcast - 1) ?existing [] m = (Some (Inr as), m')"
    using assms False r
    by (auto simp: allocateLan_def Let_def split: if_splits prod.splits option.splits)
  have start: "length [] < count" using assms(2) by simp
  from lanLoop_result [OF loop start order.refl] obtain cs where cs:
    "length as = count" "as = map hostToIpv4 cs" "distinct cs"
    "\<forall>c \<in> set cs. lan_alias network (broadcast - 1) ?existing c" by auto
  then have "distinct as" using inj_on_subset [OF inj_hostToIpv4, of "set cs"] by (simp add: distinct_map)
  moreover have "\<forall>c \<in> set cs. network < c \<and> c < broadcast \<and>
      c \<notin> ia_addressHost ` set (os_interfaces os (snd m))"
    using cs(4) below_broadcast [OF nb] by (auto simp: lan_alias_def)
  ultimately show ?thesis using cs r by blast
qed

lemma allocate_length:
  assumes "allocateAliases os options count m = (Inr as, m')"
  shows "length as = count"
proof -
  have x: "eo_explicitAddresses options \<noteq> [] \<Longrightarrow> length as = count"
    using assms explicitLoop_result [of "take count (eo_explicitAddresses options)" "[]" as]
    by (auto simp: allocateAliases_def Let_def split: if_splits)
  have l: "length as = count" if "allocateLoopback os options count (cleanupAliases os m) = (Inr as, m')"
    using loopbackLoop_result [OF that [unfolded allocateLoopback_def]] by simp
  have n: "length as = count" if "allocateLan os options count (cleanupAliases os m) = (Inr as, m')" "0 < count"
    using allocateLan_result [OF that] by blast
  show ?thesis using assms x l n by (simp add: allocateAliases_def Let_def split: if_splits)
qed

text \<open>When the alias manager succeeds it returns one address per device. Explicit addresses
  are the first ones of the configured list and all valid; automatically chosen ones are
  distinct, and for several devices on the LAN they lie strictly between the network and the
  broadcast address and belong to no interface of the machine.\<close>

theorem allocate_addresses:
  assumes "allocateAliases os options count m = (Inr as, m')"
  shows "length as = count \<and>
    (if eo_explicitAddresses options \<noteq> []
     then as = take count (eo_explicitAddresses options) \<and> (\<forall>a \<in> set as. isValidIpv4 a)
     else distinct as \<and>
       (eo_ipMode options \<noteq> ''loopback'' \<and> 1 < count \<longrightarrow>
         (\<exists>network broadcast cs w. w = snd (cleanupAliases os m) \<and>
            lanRange options (hd (lanCandidates os options w)) = Inr (network, broadcast) \<and>
            as = map hostToIpv4 cs \<and>
            (\<forall>c \<in> set cs. network < c \<and> c < broadcast \<and> c \<notin> ia_addressHost ` set (os_interfaces os w)))))"
proof (cases "eo_explicitAddresses options = []")
  case False
  then show ?thesis
    using assms explicitLoop_result [of "take count (eo_explicitAddresses options)" "[]" as]
    by (auto simp: allocateAliases_def Let_def split: if_splits)
next
  case none: True
  show ?thesis
  proof (cases "count = 0")
    case True
    then show ?thesis using assms none by (auto simp: allocateAliases_def Let_def split: if_splits)
  next
    case pos: False
    show ?thesis
    proof (cases "eo_ipMode options = ''loopback''")
      case True
      then have "as = map (\<lambda>i. ''127.0.0.'' @ to_string (i + 1)) [0..<count]"
        using assms none pos loopbackLoop_result [of os options "[0..<count]" "[]"]
        by (simp add: allocateAliases_def allocateLoopback_def Let_def)
      then show ?thesis using none True by (auto simp: distinct_map inj_on_def dest: inj_to_string)
    next
      case False
      then have "allocateLan os options count (cleanupAliases os m) = (Inr as, m')"
        using assms none pos by (simp add: allocateAliases_def Let_def split: if_splits)
      from allocateLan_result [OF this] none pos False show ?thesis by simp
    qed
  qed
qed

definition sample_os :: "unit os_ops" where
  "sample_os = \<lparr>os_interfaces = (\<lambda>_. []), os_readCommand = (\<lambda>_ _. None),
     os_canBind = (\<lambda>_ _ _. True), os_system = (\<lambda>_ _. (True, ())), os_socket = (\<lambda>_ _. (None, ()))\<rparr>"

definition loopback_config :: host_config where
  "loopback_config = \<lparr>cfg_sliceDurationUs = 0, cfg_options = fmap_of_list [(''ip_mode'', ''loopback'')]\<rparr>"

theorem allocate_addresses_witness:
  "length [''127.0.0.1'', ''127.0.0.2''] = 2 \<and> distinct [''127.0.0.1'', ''127.0.0.2'']"
proof -
  let ?o = "(makeEdOptions 7765 7654 loopback_config)"
  have o: "eo_explicitAddresses ?o = []" "eo_ipMode ?o = ''loopback''"
    by (simp_all add: makeEdOptions_def loopback_config_def optionString_def Let_def
        trim_def isspace_def splitCsv.simps)
  have d: "char_of (49 :: nat) = CHR ''1''" "char_of (50 :: nat) = CHR ''2''" by code_simp+
  have "allocateAliases sample_os ?o 2 ([], ()) = (Inr [''127.0.0.1'', ''127.0.0.2''], ([], ()))"
    by (simp add: allocateAliases_def allocateLoopback_def cleanupAliases_def o Let_def upt_rec
        ensureAlias_def sample_os_def to_string_def dec_digits.simps d)
  from allocate_addresses [OF this] show ?thesis by simp
qed

lemma ensureAlias_manual:
  "\<not> eo_autoManageAliases options \<Longrightarrow> snd (ensureAlias os options rec m) = m"
  by (simp add: ensureAlias_def split: prod.splits)

lemma loopback_manual:
  "\<not> eo_autoManageAliases options \<Longrightarrow> snd (loopbackLoop os options is addresses m) = m"
proof (induction os options "is" addresses m rule: loopbackLoop.induct)
  case (2 os options i "is" addresses m)
  let ?rec = "\<lparr>ar_interfaceName = ''lo'', ar_address = ''127.0.0.'' @ to_string (i + 1),
    ar_netmask = ''255.0.0.0'', ar_loopback = True\<rparr>"
  show ?case using 2 ensureAlias_manual [of options os ?rec m]
    by (auto simp: Let_def split: prod.splits sum.splits)
qed simp

lemma lan_manual:
  "\<not> eo_autoManageAliases options \<Longrightarrow>
     snd (lanLoop os options iface count network candidate existing allocated m) = m"
proof (induction os options iface count network candidate existing allocated m rule: lanLoop.induct)
  case (1 os options iface count network candidate existing allocated m)
  let ?rec = "\<lparr>ar_interfaceName = ia_name iface, ar_address = hostToIpv4 candidate,
    ar_netmask = ia_netmask iface, ar_loopback = False\<rparr>"
  show ?case
    using 1 ensureAlias_manual [of options os ?rec m]
    by (subst lanLoop.simps) (auto simp: Let_def split: prod.splits sum.splits)
qed

lemma allocateLan_manual:
  assumes "\<not> eo_autoManageAliases options"
  shows "snd (allocateLan os options count m) = m"
proof -
  have "snd (case p of (Some r, m') \<Rightarrow> (r, m') | (None, m') \<Rightarrow> (x, m')) = snd p"
    for p :: "(string + string list) option \<times> 'a aliases" and x
    by (simp split: prod.split option.split)
  then show ?thesis
    by (simp add: allocateLan_def Let_def lan_manual [OF assms] split: sum.split prod.split)
qed

text \<open>With automatic aliases switched off the manager runs no command to add an address,
  whether or not it succeeds: after the removal of its own earlier aliases the system is as
  it was.\<close>

theorem no_alias_commands:
  assumes "\<not> eo_autoManageAliases options"
  shows "snd (allocateAliases os options count m) = cleanupAliases os m"
  by (simp add: allocateAliases_def allocateLoopback_def Let_def loopback_manual [OF assms]
      allocateLan_manual [OF assms])

theorem no_alias_commands_witness:
  "snd (allocateAliases sample_os ((makeEdOptions 7765 7654 loopback_config)
     \<lparr>eo_autoManageAliases := False\<rparr>) 2 ([], ())) = ([], ())"
  using no_alias_commands [of "(makeEdOptions 7765 7654 loopback_config)\<lparr>eo_autoManageAliases := False\<rparr>"
      sample_os 2 "([], ())"]
  by (simp add: cleanupAliases_def)

end
