(* ===== verification/Ether_Dream_Host.thy ===== *)
theory Ether_Dream_Host
  imports Ether_Dream_Device_Props Ether_Dream_Net_Props Registry
begin

text \<open>
  \<open>EtherDreamVirtualControllerHost\<close>: allocates one address per target, starts one device
  per address, and undoes everything when a device does not start. Sockets are closed by
  the destructors of their objects and are not tracked.
\<close>

record ed_host =
  eh_options :: ed_options
  eh_aliases :: "alias_record list"
  eh_devices :: "ed_device list"
  eh_endpoints :: "vc_endpoint list"
  eh_active :: bool

definition newEdHost :: "ed_lib \<Rightarrow> host_config \<Rightarrow> ed_host" where
  "newEdHost lib config =
     \<lparr>eh_options = makeEdOptions (el_tcpPort lib) (el_discoveryPort lib) config, eh_aliases = [],
      eh_devices = [], eh_endpoints = [], eh_active = False\<rparr>"

text \<open>Devices are started one by one; on failure the ones started so far are stopped.\<close>

fun startDevices ::
  "'o os_ops \<Rightarrow> ed_lib \<Rightarrow> ed_options \<Rightarrow> nat \<Rightarrow> (link_target \<times> string) list \<Rightarrow> ed_device list \<Rightarrow>
   vc_endpoint list \<Rightarrow> 'o \<Rightarrow> (string \<times> ed_device list + ed_device list \<times> vc_endpoint list) \<times> 'o" where
  "startDevices os lib options i [] devices endpoints w = (Inr (devices, endpoints), w)"
| "startDevices os lib options i ((t, address) # rest) devices endpoints w =
     (let device = newDevice (lt_info t) address (makeMacAddress (lt_info t) i) options in
      case startDevice os device w of
        (Inl err, w') \<Rightarrow> (Inl (err, map stopDevice devices), w')
      | (Inr started, w') \<Rightarrow>
          startDevices os lib options (Suc i) rest (devices @ [started])
            (endpoints @ [deviceEndpoint lib started]) w')"

definition startEdHost ::
  "'o os_ops \<Rightarrow> ed_lib \<Rightarrow> link_target list \<Rightarrow> ed_host \<Rightarrow> 'o \<Rightarrow> string option \<times> ed_host \<times> 'o" where
  "startEdHost os lib targets h w =
     (if eh_active h
      then (Some ''Ether Dream virtual controller host is already running.'', h, w)
      else if targets = [] then (Some ''No Ether Dream targets were created.'', h, w)
      else case allocateAliases os (eh_options h) (length targets) (eh_aliases h, w) of
        (Inl err, (aliases, w1)) \<Rightarrow> (Some err, h\<lparr>eh_aliases := aliases\<rparr>, w1)
      | (Inr addresses, (aliases, w1)) \<Rightarrow>
          (case startDevices os lib (eh_options h) 0 (zip targets addresses) [] [] w1 of
             (Inl (err, stopped), w2) \<Rightarrow>
               (case cleanupAliases os (aliases, w2) of
                  (aliases', w3) \<Rightarrow> (Some err, h\<lparr>eh_aliases := aliases'\<rparr>, w3))
           | (Inr (devices, endpoints), w2) \<Rightarrow>
               (None, h\<lparr>eh_aliases := aliases, eh_devices := devices, eh_endpoints := endpoints,
                        eh_active := True\<rparr>, w2)))"

definition stopEdHost :: "'o os_ops \<Rightarrow> ed_host \<Rightarrow> 'o \<Rightarrow> ed_host \<times> 'o" where
  "stopEdHost os h w =
     (case cleanupAliases os (eh_aliases h, w) of
        (aliases, w') \<Rightarrow> (h\<lparr>eh_devices := [], eh_endpoints := [], eh_aliases := aliases,
                            eh_active := False\<rparr>, w'))"

definition ed_host_ops :: "'o os_ops \<Rightarrow> ed_lib \<Rightarrow> (ed_host, 'o) host_ops" where
  "ed_host_ops os lib = \<lparr>ho_displayName = (\<lambda>h. ''Ether Dream''), ho_start = startEdHost os lib,
     ho_stop = stopEdHost os, ho_running = eh_active, ho_endpoints = eh_endpoints,
     ho_supportsDynamicTargets = (\<lambda>h. False), ho_addTarget = defaultAddTarget,
     ho_removeTarget = defaultRemoveTarget\<rparr>"

section \<open>Registration\<close>

definition etherDreamHostInfo :: vc_host_info where
  "etherDreamHostInfo = \<lparr>hi_id = ''etherdream'', hi_displayName = ''Ether Dream'',
     hi_description = ''Expose linked controllers as virtual Ether Dream DACs.'',
     hi_options =
       [\<lparr>vo_key = ''ip_mode'', vo_displayName = ''IP Mode'',
         vo_description = ''Address selection mode: auto, loopback, or explicit addresses.'',
         vo_type = OptChoice, vo_defaultValue = ''auto'',
         vo_choices = [''auto'', ''loopback'', ''explicit''], vo_required = False\<rparr>,
        \<lparr>vo_key = ''addresses'', vo_displayName = ''Addresses'',
         vo_description = ''Comma-separated local IPv4 addresses to use instead of automatic aliases.'',
         vo_type = OptString, vo_defaultValue = [], vo_choices = [], vo_required = False\<rparr>,
        \<lparr>vo_key = ''interface'', vo_displayName = ''Interface'',
         vo_description = ''Network interface to use for automatic LAN aliases.'',
         vo_type = OptString, vo_defaultValue = [], vo_choices = [], vo_required = False\<rparr>,
        \<lparr>vo_key = ''auto_manage_aliases'', vo_displayName = ''Auto IP Aliases'',
         vo_description = ''Automatically add and remove local IP aliases when needed.'',
         vo_type = OptBoolean, vo_defaultValue = ''true'', vo_choices = [], vo_required = False\<rparr>],
     hi_defaultSelection = False, hi_separateInstancePerTarget = False\<rparr>"

definition etherDreamRegistration :: "ed_lib \<Rightarrow> ed_host registration" where
  "etherDreamRegistration lib =
     \<lparr>rg_info = etherDreamHostInfo, rg_factory = Some (\<lambda>config. Some (newEdHost lib config))\<rparr>"

section \<open>The host contract\<close>

lemma startDevice_running:
  "startDevice os d w = (Inr d', w') \<Longrightarrow> ed_running d' \<and> ed_sinkInfo d' = ed_sinkInfo d \<and>
     ed_address d' = ed_address d"
  by (auto simp: startDevice_def split: prod.splits option.splits)

lemma newDevice_simps [simp]:
  "ed_sinkInfo (newDevice i a m opts) = i" "ed_address (newDevice i a m opts) = a"
  by (simp_all add: newDevice_def)

lemma deviceEndpoint_target [simp]: "ep_targetId (deviceEndpoint lib d) = ti_id (ed_sinkInfo d)"
  "ep_address (deviceEndpoint lib d) = ed_address d"
  by (simp_all add: deviceEndpoint_def Let_def)

lemma startDevices_result:
  assumes "startDevices os lib options i ts ds es w = (Inr (devices, endpoints), w')"
  shows "\<exists>started. devices = ds @ started \<and> endpoints = es @ map (deviceEndpoint lib) started \<and>
    (\<forall>d \<in> set started. ed_running d) \<and>
    map ed_sinkInfo started = map (lt_info \<circ> fst) ts \<and> map ed_address started = map snd ts"
  using assms
proof (induction os lib options i ts ds es w rule: startDevices.induct)
  case (1 os lib options i ds es w)
  then show ?case by simp
next
  case (2 os lib options i t a rest ds es w)
  let ?d = "newDevice (lt_info t) a (makeMacAddress (lt_info t) i) options"
  obtain r w1 where s: "startDevice os ?d w = (r, w1)" by (metis prod.exhaust)
  with 2(2) obtain d1 where r: "r = Inr d1" by (cases r) auto
  have run: "ed_running d1" "ed_sinkInfo d1 = lt_info t" "ed_address d1 = a"
    using startDevice_running [of os ?d w d1 w1] s r by simp_all
  have "startDevices os lib options (Suc i) rest (ds @ [d1]) (es @ [deviceEndpoint lib d1]) w1 =
      (Inr (devices, endpoints), w')" using 2(2) s r by simp
  from 2(1) [OF refl s [symmetric] r this] obtain more where
    "devices = (ds @ [d1]) @ more" "endpoints = (es @ [deviceEndpoint lib d1]) @ map (deviceEndpoint lib) more"
    "\<forall>d \<in> set more. ed_running d" "map ed_sinkInfo more = map (lt_info \<circ> fst) rest"
    "map ed_address more = map snd rest" by blast
  with run show ?case by (intro exI [of _ "d1 # more"]) simp
qed

lemma startEdHost_ok:
  assumes "startEdHost os lib ts h w = (None, h', w')"
  shows "eh_active h' \<and> (\<forall>d \<in> set (eh_devices h'). ed_running d) \<and>
    map ed_sinkInfo (eh_devices h') = map lt_info ts \<and>
    eh_endpoints h' = map (deviceEndpoint lib) (eh_devices h') \<and>
    (\<exists>addresses m. allocateAliases os (eh_options h) (length ts) (eh_aliases h, w) = (Inr addresses, m) \<and>
      map ed_address (eh_devices h') = addresses)"
proof -
  from assms have "\<not> eh_active h" "ts \<noteq> []" by (auto simp: startEdHost_def split: if_splits)
  moreover obtain r aliases w1 where a: "allocateAliases os (eh_options h) (length ts) (eh_aliases h, w) =
      (r, aliases, w1)" by (metis prod.exhaust)
  ultimately obtain addresses where r: "r = Inr addresses"
    using assms by (cases r) (auto simp: startEdHost_def)
  obtain q w2 where s: "startDevices os lib (eh_options h) 0 (zip ts addresses) [] [] w1 = (q, w2)"
    by (metis prod.exhaust)
  have "\<exists>devices endpoints. q = Inr (devices, endpoints)"
    using assms \<open>\<not> eh_active h\<close> \<open>ts \<noteq> []\<close> a r s
    by (cases q) (auto simp: startEdHost_def split: prod.splits)
  then obtain devices endpoints where q: "q = Inr (devices, endpoints)" by blast
  have h': "h' = h\<lparr>eh_aliases := aliases, eh_devices := devices, eh_endpoints := endpoints, eh_active := True\<rparr>"
    using assms \<open>\<not> eh_active h\<close> \<open>ts \<noteq> []\<close> a r s q by (simp add: startEdHost_def)
  have len: "length addresses = length ts" using allocate_length a r by blast
  have "map (lt_info \<circ> fst) (zip ts addresses) = map lt_info ts" "map snd (zip ts addresses) = addresses"
    using len by (simp_all flip: map_map)
  then show ?thesis
    using startDevices_result [OF s [unfolded q]] h' a r by auto
qed

lemma startEdHost_failed:
  assumes "startEdHost os lib ts h w = (Some err, h', w')"
  shows "eh_active h' = eh_active h \<and> eh_devices h' = eh_devices h \<and> eh_endpoints h' = eh_endpoints h"
  using assms
  by (auto simp: startEdHost_def split: if_splits prod.splits sum.splits)

lemma stopEdHost_result:
  "stopEdHost os h w = (h', w') \<Longrightarrow>
     \<not> eh_active h' \<and> eh_devices h' = [] \<and> eh_endpoints h' = [] \<and> eh_aliases h' = []"
  by (auto simp: stopEdHost_def cleanupAliases_def)

lemma startEdHost_endpoints:
  assumes "startEdHost os lib ts h w = (None, h', w')"
  shows "map ep_targetId (eh_endpoints h') = map (ti_id \<circ> lt_info) ts"
proof -
  from startEdHost_ok [OF assms]
  have "map ep_targetId (eh_endpoints h') = map (ti_id \<circ> ed_sinkInfo) (eh_devices h')"
    "map ed_sinkInfo (eh_devices h') = map lt_info ts" by auto
  then show ?thesis by (simp flip: map_map)
qed

interpretation ed_host: virtual_host "ed_host_ops os lib" for os lib
proof (unfold_locales, goal_cases)
  case (1 h w h' w')
  then show ?case by (simp add: ed_host_ops_def stopEdHost_result)
next
  case (2 h w h' w')
  then show ?case by (simp add: ed_host_ops_def stopEdHost_result)
next
  case (3 ts h w h' w')
  then show ?case using startEdHost_ok [of os lib ts h w h' w'] by (simp add: ed_host_ops_def)
next
  case (4 ts h w h' w')
  then have "map ep_targetId (eh_endpoints h') = map (ti_id \<circ> lt_info) ts"
    by (simp add: ed_host_ops_def startEdHost_endpoints)
  from arg_cong [OF this, of set] show ?case by (simp add: ed_host_ops_def image_comp)
next
  case (5 ts h w err h' w')
  then show ?case using startEdHost_failed [of os lib ts h w err h' w'] by (simp add: ed_host_ops_def)
next
  case (6 h t w res h' w')
  then show ?case by (simp add: ed_host_ops_def defaultAddTarget_def)
next
  case (7 h tid w res h' w')
  then show ?case by (simp add: ed_host_ops_def defaultRemoveTarget_def)
qed

section \<open>Properties\<close>

text \<open>When the host starts, it runs one device per target, in the order of the targets,
  each at the address allocated for it, and offers one endpoint per target with that target's
  identifier and address; a failed start leaves devices, endpoints and activity as they were.\<close>

theorem ether_dream_start:
  assumes "startEdHost os lib ts h w = (res, h', w')" "\<not> eh_active h"
  shows "case res of
      None \<Rightarrow> eh_active h' \<and> (\<forall>d \<in> set (eh_devices h'). ed_running d) \<and>
        map ed_sinkInfo (eh_devices h') = map lt_info ts \<and>
        map ep_targetId (eh_endpoints h') = map (ti_id \<circ> lt_info) ts \<and>
        map ep_address (eh_endpoints h') = map ed_address (eh_devices h')
    | Some err \<Rightarrow> \<not> eh_active h' \<and> eh_devices h' = eh_devices h \<and> eh_endpoints h' = eh_endpoints h"
proof (cases res)
  case None
  with assms(1) have ok: "startEdHost os lib ts h w = (None, h', w')" by simp
  have "map ep_targetId (eh_endpoints h') = map (ti_id \<circ> lt_info) ts"
    by (rule startEdHost_endpoints [OF ok])
  moreover have "map ep_address (eh_endpoints h') = map ed_address (eh_devices h')"
    using startEdHost_ok [OF ok] by simp
  ultimately show ?thesis using startEdHost_ok [OF ok] None by auto
next
  case (Some err)
  then show ?thesis using startEdHost_failed [of os lib ts h w err h' w'] assms by simp
qed

definition sample_link_target :: link_target where
  "sample_link_target = \<lparr>lt_ref = 0, lt_info = \<lparr>ti_id = ''a'', ti_label = ''Laser'',
     ti_type = ''Helios'', ti_maxPointRate = 0\<rparr>\<rparr>"

definition plain_lib :: ed_lib where
  "plain_lib = \<lparr>el_lightCode = (\<lambda>_. 0), el_playCode = (\<lambda>_. 0), el_readLe16 = (\<lambda>_. 0),
     el_readLe32 = (\<lambda>_. 0), el_put8 = (\<lambda>b. [b]), el_put16 = (\<lambda>_. [0, 0]),
     el_put32 = (\<lambda>_. [0, 0, 0, 0]), el_validAddress = isValidIpv4, el_tcpPort = 7765,
     el_discoveryPort = 7654\<rparr>"

theorem ether_dream_start_witness:
  "\<exists>h' w'. startEdHost sample_os plain_lib [sample_link_target] (newEdHost plain_lib loopback_config) () =
     (None, h', w') \<and> eh_active h' \<and> map ep_targetId (eh_endpoints h') = [''a'']"
proof -
  let ?h = "newEdHost plain_lib loopback_config"
  have o: "eo_explicitAddresses (eh_options ?h) = []" "eo_ipMode (eh_options ?h) = ''loopback''"
    by (simp_all add: newEdHost_def makeEdOptions_def loopback_config_def optionString_def Let_def
        trim_def isspace_def splitCsv.simps)
  have act: "\<not> eh_active ?h" "eh_aliases ?h = []" by (simp_all add: newEdHost_def)
  have run: "fst (startEdHost sample_os plain_lib [sample_link_target] ?h ()) = None"
    by (simp add: startEdHost_def act allocateAliases_def allocateLoopback_def o cleanupAliases_def
        ensureAlias_def sample_os_def startDevice_def startSockets_def Let_def)
  then show ?thesis
    using ether_dream_start [OF _ act(1), where os = sample_os and lib = plain_lib and
        ts = "[sample_link_target]" and w = "()" and res = None]
    by (cases "startEdHost sample_os plain_lib [sample_link_target] ?h ()")
      (simp add: sample_link_target_def)
qed

text \<open>Stopping the host leaves it inactive, without devices or endpoints, and runs the
  removal command of every alias it had added, the last one first.\<close>

theorem ether_dream_stop:
  "case stopEdHost os h w of (h', w') \<Rightarrow>
     \<not> eh_active h' \<and> eh_devices h' = [] \<and> eh_endpoints h' = [] \<and> eh_aliases h' = [] \<and>
     w' = foldl (\<lambda>w rec. snd (os_system os (aliasCommand ''del'' rec) w)) w (rev (eh_aliases h))"
  by (simp add: stopEdHost_def cleanupAliases_def removeAlias_def)

end
