(* ===== verification/Libera_Target_Thms.thy ===== *)
theory Libera_Target_Thms
  imports Libera_Target_Correct
begin

text \<open>
  The properties of \<open>LiberaTarget\<close> over whole histories and per operation, each with an
  instance at a concrete target (\<open>echo_controller\<close>, a controller that remembers its rate).
\<close>

section \<open>A concrete controller and target\<close>

definition echo_controller :: "u32 controller_ops" where
  "echo_controller = \<lparr>co_setPointRate = (\<lambda>r c. r), co_getPointRate = (\<lambda>c. c),
     co_setArmed = (\<lambda>b c. c), co_installCallback = (\<lambda>c. c), co_clearCallback = (\<lambda>c. c),
     co_sendFrame = (\<lambda>f c. (False, c)), co_clearFrameQueue = (\<lambda>c. c),
     co_clearPrefetch = (\<lambda>c. c), co_setScannerSync = (\<lambda>x c. c),
     co_setScannerSyncEnabled = (\<lambda>b c. c), co_bufferBreakdown = (\<lambda>c. None),
     co_submittedFrames = (\<lambda>c. 0),
     co_defaultPoint = \<lparr>lp_x = 0, lp_y = 0, lp_r = 0, lp_g = 0, lp_b = 0, lp_i = 0,
       lp_u1 = 0, lp_u2 = 0\<rparr>\<rparr>"

definition sample_info :: target_info where
  "sample_info = \<lparr>ti_id = ''a'', ti_label = ''Laser'', ti_type = ''Helios'', ti_maxPointRate = 0\<rparr>"

definition sample_target :: "u32 target" where
  "sample_target = newLiberaTarget echo_controller 0 sample_info 0 60 250 True False"

definition lit_point :: laser_point where
  "lit_point = \<lparr>lp_x = 0, lp_y = 0, lp_r = 1, lp_g = 1, lp_b = 1, lp_i = 1, lp_u1 = 0, lp_u2 = 0\<rparr>"

definition sample_slice :: "nat \<Rightarrow> slice_submission" where
  "sample_slice n = \<lparr>sl_points = replicate n lit_point, sl_durationUs = 5000,
     sl_effectivePointRate = Some 30000, sl_discontinuous = False\<rparr>"

definition sample_frame :: "nat \<Rightarrow> frame_submission" where
  "sample_frame n = \<lparr>fs_slices = [sample_slice n], fs_effectivePointRate = Some 30000,
     fs_targetBeginTime = None, fs_clearTransportPrefetch = False\<rparr>"

definition sample_fill :: fill_request where
  "sample_fill = \<lparr>rq_minimumPointsRequired = 3, rq_maximumPointsRequired = 5,
     rq_allowShortRead = False\<rparr>"

lemma sample_reachable: "target_reachable echo_controller sample_target"
  unfolding sample_target_def by (rule target_reachable.created)

lemma sample_simps [simp]:
  "t_pendingPoints sample_target = []" "t_maxQueuedPoints sample_target = 1000"
  "t_maxLatencyMs sample_target = 250" "t_latencyMs sample_target = 60"
  "t_currentPointRate sample_target = 30000" "t_maxPointRateValue sample_target = 100000"
  "ti_type (t_info sample_target) = ''Helios''" "t_counters sample_target = zero_counters"
  "t_frameReplacementMode sample_target = False" "t_hasSeenInput sample_target = False"
  "t_buffering sample_target = True"
  by (simp_all add: sample_target_def newLiberaTarget_def Let_def installPointCallback_def
      sample_info_def echo_controller_def)

section \<open>Every reachable target\<close>

text \<open>C18: In every history of host calls, controller callbacks, status reads and log ticks,
  the queue of a target stays within its configured bound, which is at least 1000 points,
  and the two limits the trimming uses lie between 1000 and that bound.\<close>

theorem target_queue_bounded:
  assumes "target_reachable co t"
  shows "1000 \<le> t_maxQueuedPoints t \<and> length (t_pendingPoints t) \<le> t_maxQueuedPoints t \<and>
    1000 \<le> liveContinuousPointLimit t \<and> liveContinuousPointLimit t \<le> t_maxQueuedPoints t \<and>
    1000 \<le> liveReplacementPointLimit t \<and> liveReplacementPointLimit t \<le> t_maxQueuedPoints t"
  using reachable_inv [OF assms]
  by (simp add: target_inv_def liveContinuousPointLimit_def liveReplacementPointLimit_def
      livePointLimit_bounds)

theorem target_queue_bounded_witness:
  "length (t_pendingPoints sample_target) \<le> 1000 \<and> liveContinuousPointLimit sample_target \<le> 1000"
  using target_queue_bounded [OF sample_reachable] by simp

text \<open>A target whose controller is not of type AVB and whose maximum rate is at least
  1000 drives the controller and reports rates between 1000 points per second and that
  maximum, after any history.\<close>

theorem target_rates_bounded:
  assumes "target_reachable co t" "ti_type (t_info t) \<noteq> ''AVB''" "1000 \<le> t_maxPointRateValue t"
  shows "1000 \<le> t_currentPointRate t \<and> t_currentPointRate t \<le> t_maxPointRateValue t \<and>
    1000 \<le> t_commandedInputPps t \<and> t_commandedInputPps t \<le> t_maxPointRateValue t"
  using reachable_rate_inv [OF assms(1)] assms(2,3) by (simp add: rate_inv_def)

theorem target_rates_bounded_witness:
  "1000 \<le> t_currentPointRate sample_target \<and> t_commandedInputPps sample_target \<le> 100000"
  using target_rates_bounded [OF sample_reachable] by simp

text \<open>The latency of a reachable target never falls, never exceeds the configured cap (of
  at most 3,000,000,000 ms, so that the 32-bit sum does not wrap), and only a controller
  callback of a target with automatic latency outside frame replacement changes it.\<close>

theorem target_latency_steps:
  assumes "target_reachable co t" "unat (t_maxLatencyMs t) \<le> 3000000000"
  shows "t_latencyMs t \<le> t_latencyMs (target_step co clk ev t) \<and>
    t_latencyMs (target_step co clk ev t) \<le> t_maxLatencyMs t \<and>
    (t_latencyMs (target_step co clk ev t) \<noteq> t_latencyMs t \<longrightarrow>
      t_autoLatency t \<and> \<not> t_frameReplacementMode t \<and> (\<exists>req. ev = Fill req))"
proof -
  from reachable_inv [OF assms(1)] assms(2) have le: "t_latencyMs t \<le> t_maxLatencyMs t"
    by (simp add: target_inv_def)
  show ?thesis
  proof (cases ev)
    case (Call c)
    then show ?thesis using le by (cases c) (simp_all add: libera_sink_def frame_simps)
  next
    case (Fill req)
    then show ?thesis
      using fill_latency [OF le assms(2), of co clk req "[]"] fill_latency_same [of t co clk req "[]"]
      by auto
  qed (use le in \<open>simp_all add: frame_simps\<close>)
qed

theorem target_latency_steps_witness:
  "t_latencyMs (target_step echo_controller (\<lambda>k. 0) (Fill sample_fill) sample_target) \<le> 250"
  using target_latency_steps [OF sample_reachable, of "\<lambda>k. 0" "Fill sample_fill"] by simp

section \<open>Continuous streams\<close>

text \<open>A non-empty slice is accepted; the new queue is the old queue followed by the slice,
  less \<open>k\<close> points from its front, with \<open>k\<close> the reported number of dropped points. Nothing is
  dropped while the result fits the live limit; otherwise the queue is cut to the limit or
  further, and if further then at a lit point that follows two blank ones.\<close>

theorem submit_continuous_trims:
  assumes "sl_points sub \<noteq> []"
  shows "let r = submitContinuous co clk sub t;
      q = t_pendingPoints t @ sl_points sub;
      limit = liveContinuousPointLimit (acceptSlice co sub t);
      k = sr_droppedPoints (fst r)
    in sr_accepted (fst r) \<and> sr_submittedPoints (fst r) = length (sl_points sub) \<and>
      sr_acceptedPoints (fst r) = length (sl_points sub) - min (length (sl_points sub)) k \<and>
      t_pendingPoints (snd r) = drop k q \<and>
      (if length q \<le> limit then k = 0
       else length q - limit \<le> k \<and> k \<le> length q \<and>
         (k = length q - limit \<or>
          2 \<le> k \<and> \<not> isBlankForBoundary (q ! k) \<and> isBlankForBoundary (q ! (k - 1)) \<and>
          isBlankForBoundary (q ! (k - 2))))"
proof -
  let ?q = "t_pendingPoints t @ sl_points sub"
  let ?l = "liveContinuousPointLimit (acceptSlice co sub t)"
  have "if length ?q \<le> ?l then continuousDrop co sub t = 0
    else length ?q - ?l \<le> continuousDrop co sub t \<and> continuousDrop co sub t \<le> length ?q \<and>
      (continuousDrop co sub t = length ?q - ?l \<or> isCut ?q (continuousDrop co sub t))"
    using desiredDropFor_bounds [of ?l ?q] by (auto simp: continuousDrop_def Let_def)
  then show ?thesis
    using assms by (auto simp: Let_def submitContinuous_state submitContinuous_result
        dest: isCut_blanks split: if_splits)
qed

theorem submit_continuous_trims_witness:
  "sr_accepted (fst (submitContinuous echo_controller (\<lambda>k. 0) (sample_slice 4) sample_target))"
  using submit_continuous_trims [of "sample_slice 4" echo_controller "\<lambda>k. 0" sample_target]
  by (simp add: sample_slice_def Let_def)

text \<open>C17: While hosts only stream slices, every point received is emitted, dropped or still
  queued: the counters of a fresh target agree with its queue modulo 2^64 after any
  interleaving of slices, callbacks, scanner sync changes, status reads and log ticks.\<close>

theorem stream_points_accounted:
  assumes "\<And>clk ev. (clk, ev) \<in> set evs \<Longrightarrow> streaming ev"
  shows "let t = target_run co evs (newLiberaTarget co ctl info maxQ lat maxLat auto logger) in
    c_receivedPoints (t_counters t) = c_emittedPoints (t_counters t) +
    c_droppedPoints (t_counters t) + of_nat (length (t_pendingPoints t))"
proof -
  let ?t = "target_run co evs (newLiberaTarget co ctl info maxQ lat maxLat auto logger)"
  have "balance ?t = 0" using balance_run [of evs co] assms by (simp add: balance_created)
  then show ?thesis by (simp add: balance_def Let_def algebra_simps)
qed

theorem stream_points_accounted_witness:
  "let t = target_run echo_controller [(\<lambda>k. 0, Call (SubmitContinuous (sample_slice 4))),
       (\<lambda>k. 0, Fill sample_fill)] sample_target
   in c_receivedPoints (t_counters t) = c_emittedPoints (t_counters t) +
    c_droppedPoints (t_counters t) + of_nat (length (t_pendingPoints t))"
  unfolding sample_target_def
  by (rule stream_points_accounted) (auto simp: streaming_def)

text \<open>C2: The lit points the controller receives from a stream, followed by those still
  queued, are a subsequence of the points queued at the start followed by those the hosts
  submitted: the queue neither reorders, repeats nor invents lit points.\<close>

theorem stream_in_order:
  assumes "\<And>clk ev. (clk, ev) \<in> set evs \<Longrightarrow> streaming ev" "isDark (co_defaultPoint co)"
  shows "subseq
    (filter isLitPoint (target_outputs co evs t @ t_pendingPoints (target_run co evs t)))
    (filter isLitPoint (t_pendingPoints t @ submittedPoints evs))"
  using assms(1)
proof (induction evs arbitrary: t)
  case Nil
  then show ?case by simp
next
  case (Cons e evs)
  obtain clk ev where e: "e = (clk, ev)" by force
  let ?t = "target_step co clk ev t"
  have "\<And>clk ev. (clk, ev) \<in> set evs \<Longrightarrow> streaming ev"
    using Cons.prems by (metis list.set_intros(2))
  then have ih: "subseq
      (filter isLitPoint (target_outputs co evs ?t @ t_pendingPoints (target_run co evs ?t)))
      (filter isLitPoint (t_pendingPoints ?t @ submittedPoints evs))"
    by (rule Cons.IH)
  from Cons.prems e have "streaming ev" by auto
  then have "subseq (filter isLitPoint (target_output co clk ev t) @
      filter isLitPoint (t_pendingPoints ?t))
      (filter isLitPoint (t_pendingPoints t @ event_points ev))"
    by (rule stream_step_in_order [OF _ assms(2)])
  from subseq_chain [OF this ih refl] show ?case by (simp add: e)
qed

theorem stream_in_order_witness:
  "subseq (filter isLitPoint (target_outputs echo_controller
      [(\<lambda>k. 0, Call (SubmitContinuous (sample_slice 2))), (\<lambda>k. 0, Fill sample_fill)] sample_target))
    [lit_point, lit_point]"
proof -
  let ?evs = "[(\<lambda>k. 0 :: nanos, Call (SubmitContinuous (sample_slice 2))),
    (\<lambda>k. 0, Fill sample_fill)]"
  have "subseq (filter isLitPoint (target_outputs echo_controller ?evs sample_target @
      t_pendingPoints (target_run echo_controller ?evs sample_target)))
      (filter isLitPoint (t_pendingPoints sample_target @ submittedPoints ?evs))"
    by (rule stream_in_order) (auto simp: streaming_def isDark_def echo_controller_def)
  moreover have "filter isLitPoint (t_pendingPoints sample_target @ submittedPoints ?evs) =
      [lit_point, lit_point]"
    by (simp add: sample_slice_def isLitPoint_def lit_point_def numeral_2_eq_2)
  ultimately show ?thesis
    using subseq_order.order_trans [OF prefix_imp_subseq] by (metis filter_append prefixI)
qed

section \<open>The callback\<close>

text \<open>C24: What one callback of the controller returns and does: with a queue it may use, the
  first \<open>w\<close> points of the queue, in order, followed only by dark points; while a stream is
  being pre-buffered, only dark points, and the queue is left alone. The counters of emitted
  and blank points grow by exactly the two parts, and unless a short read is allowed and the
  source is live, the result has at least the minimum the controller asked for.\<close>

theorem fill_from_queue_output:
  assumes "isDark (co_defaultPoint co)" "rq_maximumPointsRequired req \<noteq> 0"
  shows "let r = fillFromQueue co clk req [] t;
      w = (if holdsBack clk req t then 0
           else min (rq_maximumPointsRequired req) (length (t_pendingPoints t)));
      n = length (fst r) - w
    in w \<le> length (fst r) \<and> take w (fst r) = take w (t_pendingPoints t) \<and>
      (\<forall>p \<in> set (drop w (fst r)). isDark p) \<and>
      t_pendingPoints (snd r) = drop w (t_pendingPoints t) \<and>
      c_emittedPoints (t_counters (snd r)) = c_emittedPoints (t_counters t) + of_nat w \<and>
      c_blankFillPoints (t_counters (snd r)) = c_blankFillPoints (t_counters t) + of_nat n \<and>
      length (fst r) \<le> max (rq_minimumPointsRequired req) (rq_maximumPointsRequired req) \<and>
      (\<not> rq_allowShortRead req \<or> isAwaitingInputLocked (clk 0) (ms 2000) t \<longrightarrow>
        rq_minimumPointsRequired req \<le> length (fst r))"
proof (cases "holdsBack clk req t")
  case True
  then show ?thesis
    using fill_hold [OF assms(2) True, of co] fallback_dark [OF assms(1), of t] by (auto simp: Let_def)
next
  case False
  let ?w = "min (rq_maximumPointsRequired req) (length (t_pendingPoints t))"
  obtain t' where o: "fst (fillFromQueue co clk req [] t) =
      take ?w (t_pendingPoints t) @ replicate (fillBlank clk req [] t) (fallbackPoint co t')"
    using fill_take(1) [OF assms(2) False, of co "[]"] by auto
  show ?thesis
    using fallback_dark [OF assms(1), of t'] False
    by (auto simp: o Let_def fill_take(2-4) [OF assms(2) False] fillBlank_def)
qed

theorem fill_from_queue_output_witness:
  "let r = fillFromQueue echo_controller (\<lambda>k. 0) sample_fill [] sample_target
   in t_pendingPoints (snd r) = [] \<and> 3 \<le> length (fst r) \<and> length (fst r) \<le> 5"
  using fill_from_queue_output [of echo_controller sample_fill "\<lambda>k. 0" sample_target]
  by (simp add: isDark_def echo_controller_def sample_fill_def Let_def)

text \<open>After a reset no callback returns anything but dark points until the next input:
  neither queued points nor the last colour survive.\<close>

theorem reset_then_dark:
  assumes "isDark (co_defaultPoint co)"
  shows "\<forall>p \<in> set (fst (fillFromQueue co clk req [] (resetTarget co t))). isDark p"
proof (cases "rq_maximumPointsRequired req = 0")
  case True
  then show ?thesis by (simp add: fill_none)
next
  case False
  have "t_pendingPoints (resetTarget co t) = []" by (simp add: frame_simps)
  then show ?thesis
    using fallback_dark [OF assms] fill_take(1) [OF False, of clk "resetTarget co t" co "[]"]
      fill_hold(1) [OF False, of clk "resetTarget co t" co "[]"]
    by (cases "holdsBack clk req (resetTarget co t)") auto
qed

theorem reset_then_dark_witness:
  "list_all isDark (fst (fillFromQueue echo_controller (\<lambda>k. 0) sample_fill []
      (resetTarget echo_controller sample_target)))"
  unfolding list_all_iff by (rule reset_then_dark) (simp add: isDark_def echo_controller_def)

section \<open>Frames\<close>

text \<open>A non-empty frame replaces the queue by a part of itself: its first points up to the
  live replacement limit, less a number of points from the front of these so that queue and
  downstream buffer fit the capacity. Only the latter points are reported and counted as
  dropped: what the replacement limit cuts off is reported as accepted.\<close>

theorem replace_frame_truncates:
  assumes "framePoints sub \<noteq> []"
  shows "let r = replaceFrame co clk sub t;
      limit = liveReplacementPointLimit (installPointCallback co t);
      kept = take limit (framePoints sub);
      extra = db_pointsInBuffer (fst (downstreamBufferSnapshot co True (installPointCallback co t)));
      k = min (length kept) (length kept + extra - t_maxQueuedPoints t)
    in t_pendingPoints (snd r) = drop k kept \<and>
      sr_droppedPoints (fst r) = k \<and>
      sr_acceptedPoints (fst r) = length (framePoints sub) - k \<and>
      c_droppedPoints (t_counters (snd r)) = c_droppedPoints (t_counters t) + of_nat k"
proof -
  have cut: "(if l < length p then take l p else p) = take l p" for l and p :: "laser_point list"
    by simp
  have cnt: "t_counters (if 0 < k then bump (\<lambda>c. c\<lparr>c_droppedPoints := c_droppedPoints c + of_nat k\<rparr>) u
      else u) = (t_counters u)\<lparr>c_droppedPoints := c_droppedPoints (t_counters u) + of_nat k\<rparr>"
    for k and u :: "'a target" by simp
  have pnd: "t_pendingPoints (if b then bump f u else u) = t_pendingPoints u"
    "t_pendingPoints (if b then u\<lparr>t_controller := x\<rparr> else u) = t_pendingPoints u"
    "t_counters (if b then u\<lparr>t_controller := x\<rparr> else u) = t_counters u"
    for b f and u :: "'a target" and x by simp_all
  have ne: "fs_slices sub \<noteq> []" using assms framePoints_Nil_slices by blast
  show ?thesis
    using assms ne
    by (simp add: replaceFrame_def Let_def frame_simps snd_makeResult snd_snapshot cut cnt pnd
        snapshot_frames case_prod_unfold dropWhileOver_drop del: bump_def split del: if_split)
      (simp add: snd_snapshot snapshot_frames countFrame_def frame_simps)
qed

theorem replace_frame_truncates_witness:
  "t_pendingPoints (snd (replaceFrame echo_controller (\<lambda>k. 0) (sample_frame 2000) sample_target)) =
     replicate 1000 lit_point \<and>
   sr_acceptedPoints (fst (replaceFrame echo_controller (\<lambda>k. 0) (sample_frame 2000) sample_target)) = 2000"
proof -
  have "liveReplacementPointLimit (installPointCallback echo_controller sample_target) = 1000"
    using livePointLimit_bounds [of "installPointCallback echo_controller sample_target"]
    by (simp add: liveReplacementPointLimit_def frame_simps antisym)
  moreover have "framePoints (sample_frame 2000) = replicate 2000 lit_point"
    by (simp add: framePoints_def validSlices_def sample_frame_def sample_slice_def)
  ultimately show ?thesis
    using replace_frame_truncates [of "sample_frame 2000" echo_controller "\<lambda>k. 0" sample_target]
    by (simp add: Let_def frame_simps downstreamBufferSnapshot_def echo_controller_def no_downstream_def)
qed

text \<open>A frame handed to the controller clears the points queued locally, without counting
  them as dropped; the result is accepted exactly when the controller took the frame, and a
  refused frame counts all of its points as dropped.\<close>

theorem submit_frame_accounts:
  assumes "framePoints sub \<noteq> []"
  shows "let r = submitFrame co clk sub t
    in t_pendingPoints (snd r) = [] \<and> \<not> t_buffering (snd r) \<and>
      sr_submittedPoints (fst r) = length (framePoints sub) \<and>
      sr_acceptedPoints (fst r) + sr_droppedPoints (fst r) = length (framePoints sub) \<and>
      (sr_accepted (fst r) \<longleftrightarrow> sr_droppedPoints (fst r) = 0) \<and>
      c_droppedPoints (t_counters (snd r)) =
        c_droppedPoints (t_counters t) + of_nat (sr_droppedPoints (fst r)) \<and>
      c_receivedPoints (t_counters (snd r)) =
        c_receivedPoints (t_counters t) + of_nat (length (framePoints sub))"
proof -
  have "fs_slices sub \<noteq> []" using assms framePoints_Nil_slices by blast
  with assms show ?thesis
    by (simp add: submitFrame_def Let_def frame_simps snd_makeResult case_prod_unfold)
      (simp add: countFrame_def)
qed

theorem submit_frame_accounts_witness:
  "t_pendingPoints (snd (submitFrame echo_controller (\<lambda>k. 0) (sample_frame 2) sample_target)) = []"
  using submit_frame_accounts [of "sample_frame 2" echo_controller "\<lambda>k. 0" sample_target]
  by (simp add: sample_frame_def sample_slice_def framePoints_def validSlices_def Let_def
      numeral_2_eq_2)

text \<open>The sink contract holds along any list of host calls: starting from any reachable
  target the queue ends within its capacity, and it ends empty if the last call is a reset.\<close>

theorem sink_calls_bounded:
  assumes "target_reachable co t"
  shows "length (t_pendingPoints (run_sink_calls (libera_sink co) cs t)) \<le> t_maxQueuedPoints t \<and>
    t_pendingPoints (run_sink_calls (libera_sink co) (cs @ [(clk, Reset)]) t) = []"
  using lt.run_bounded [OF reachable_inv [OF assms]] lt.run_reset_last by blast

theorem sink_calls_bounded_witness:
  "t_pendingPoints (run_sink_calls (libera_sink echo_controller)
     ([(\<lambda>k. 0, SubmitContinuous (sample_slice 3))] @ [(\<lambda>k. 0, Reset)]) sample_target) = []"
  using sink_calls_bounded [OF sample_reachable, of "[(\<lambda>k. 0, SubmitContinuous (sample_slice 3))]" "\<lambda>k. 0"]
  by blast

end
