(* ===== verification/Runtime_Thms.thy ===== *)
theory Runtime_Thms
  imports Watched_Runs Ether_Dream_Host Libera_Target_Thms
begin

text \<open>
  The properties of the link: what a successful start, a failed start, a stop and an update
  come to, what every reachable link satisfies, and two behaviours of \<open>start\<close> on a link that
  has run before. The host contract is a hypothesis, discharged in the witnesses by the
  interpretation for Ether Dream hosts.
\<close>

section \<open>The invariant\<close>

context linked_hosts
begin

lemma matched_all:
  assumes "matched groups {..<length groups} hosts"
  shows "(\<forall>g \<in> set groups. \<exists>a \<in> set hosts. host_for a g) \<and>
    (\<forall>a \<in> set hosts. ho_running ops (ah_host a) \<and> (\<exists>g \<in> set groups. host_for a g))"
  using assms unfolding matched_def active_ok_def by (metis in_set_conv_nth lessThan_iff)

lemma scanLink_inv:
  assumes "scanLink env inp options rt = Some (ok, rt')" "link_inv co rt"
  shows "link_inv co rt'"
proof -
  have "rt_destroyed rt' = rt_destroyed rt \<and> rt_hosts rt' = rt_hosts rt \<and> rt_store rt' = rt_store rt"
    using assms(1) runDiscovery_fields unfolding scanLink_def Let_def
    by (auto split: if_splits option.splits dest!: runDiscovery_fields)
  with assms(2) link_inv_cong show ?thesis by blast
qed

lemma updateRunning_inv:
  assumes env: "le_ops env = ops \<and> le_registry env = reg" and u: "updateRunning env inp options sel rt = Some (ok, rt')"
    and inv: "link_inv (le_co env) rt"
  shows "link_inv (le_co env) rt'"
  using u
proof (cases rule: updateRunning_cases)
  case stop
  with inv env show ?thesis by (simp add: link_inv_stop)
next
  case restart
  let ?rt1 = "say False ''Restarting link because controller runtime options changed.'' rt"
  have "link_inv (le_co env) ?rt1" using inv link_inv_cong [of ?rt1 rt] by simp
  then show ?thesis using restart(3) link_inv_fresh [OF env] link_inv_stop [OF env] by blast
next
  case (unknown byId rt1 e)
  from updateTargets_frame [OF unknown(2)] inv have "link_inv (le_co env) rt1"
    by (simp add: link_inv_def dead_def)
  with failStart_fields [OF unknown(3)] show ?thesis by (simp add: link_inv_def dead_def)
next
  case (nobody byId rt1)
  from updateTargets_frame [OF nobody(1)] inv have "link_inv (le_co env) rt1"
    by (simp add: link_inv_def dead_def)
  with nobody(3) env show ?thesis by (simp add: link_inv_stop)
next
  case (selection byId rt1 ds groups)
  from updateTargets_frame [OF selection(2)] inv have inv1: "link_inv (le_co env) rt1"
    by (simp add: link_inv_def dead_def)
  then have "\<forall>a \<in> set (rt_hosts rt1). active_ok a" by (simp add: link_inv_def)
  from applySelection_result [OF env selection(6) this] inv1 show ?thesis
    by (auto simp: link_inv_def matched_def split: if_splits)
qed

lemma startLink_inv:
  assumes env: "le_ops env = ops \<and> le_registry env = reg" and s: "startLink env inp options sel rt = Some (ok, rt')"
    and inv: "link_inv (le_co env) rt"
  shows "link_inv (le_co env) rt'"
proof (cases "rt_state rt = Running")
  case True
  let ?rt1 = "rt\<lparr>rt_statusMessage := ''Updating link...''\<rparr>"
  have "link_inv (le_co env) ?rt1" using inv link_inv_cong [of ?rt1 rt] by simp
  then show ?thesis using s True updateRunning_inv [OF env] unfolding startLink_def by (metis (full_types))
next
  case False
  with s inv link_inv_fresh [OF env] show ?thesis by (simp add: startLink_def)
qed

lemma link_step_inv:
  assumes env: "le_ops env = ops \<and> le_registry env = reg" and s: "link_step env ev rt = Some rt'" and inv: "link_inv (le_co env) rt"
  shows "link_inv (le_co env) rt'"
proof (cases ev)
  case (Scan inp options)
  with s obtain ok where "scanLink env inp options rt = Some (ok, rt')" by auto
  then show ?thesis using inv by (rule scanLink_inv)
next
  case (Start inp options sel)
  with s obtain ok where "startLink env inp options sel rt = Some (ok, rt')" by auto
  then show ?thesis using startLink_inv [OF env] inv by blast
next
  case (Monitor clks)
  with s have rt': "rt' = monitorTick env clks rt" by simp
  have "\<forall>a \<in> set (map (\<lambda>a. a\<lparr>ah_endpoints := ho_endpoints (le_ops env) (ah_host a)\<rparr>) (rt_hosts rt)). active_ok a"
    using inv by (auto simp: link_inv_def active_ok_def)
  with inv logTargets_ok [of env] show ?thesis
    by (auto simp: rt' monitorTick_def link_inv_def dead_def)
next
  case Snapshot
  with s have "rt' = rt\<lparr>rt_store := snd (targetSnapshots (le_co env) (rt_hosts rt) (rt_targets rt) (rt_store rt))\<rparr>"
    by (auto simp: snapshotLink_def Let_def split: prod.splits)
  with inv targetSnapshots_ok show ?thesis by (auto simp: link_inv_def dead_def)
next
  case (TargetActivity i clk tev)
  with s inv store_ok_update show ?thesis by (auto simp: link_inv_def dead_def split: if_splits)
qed (use s inv link_inv_stop [OF env] in
      \<open>auto simp: link_inv_def dead_def invalidateDiscoveryCache_def\<close>)

lemma reachable_link_inv:
  assumes env: "le_ops env = ops \<and> le_registry env = reg" and "link_reachable env rt"
  shows "link_inv (le_co env) rt"
  using assms(2)
proof induction
  case (initial w)
  then show ?case by (simp add: link_inv_def dead_def store_ok_def initialLink_def)
next
  case (stepped rt ev rt')
  then show ?case using link_step_inv [OF env] by blast
qed

end

section \<open>A concrete link\<close>

text \<open>One USB controller, one kind of host (Ether Dream on loopback addresses).\<close>

definition sample_env :: "(u32, ed_host, unit) link_env" where
  "sample_env = \<lparr>le_registry = registerAll [etherDreamRegistration plain_lib],
     le_ops = ed_host_ops sample_os plain_lib, le_co = echo_controller, le_logPath = ''log'',
     le_tracePath = None\<rparr>"

definition sample_link_options :: link_options where
  "sample_link_options = default_options\<lparr>lo_virtualControllerHostOptions := cfg_options loopback_config\<rparr>"

definition sample_inputs :: "u32 link_inputs" where
  "sample_inputs = \<lparr>li_started = 0, li_polls = sample_polls, li_libraryLog = [],
     li_connect = (\<lambda>k info. Some 0), li_stopDiscovered = False, li_stopConnect = (\<lambda>k. False),
     li_stopConnected = False, li_stopHost = (\<lambda>k. False)\<rparr>"

lemma sample_env_simps [simp]:
  "le_ops sample_env = ed_host_ops sample_os plain_lib" "le_co sample_env = echo_controller"
  "le_tracePath sample_env = None"
  by (simp_all add: sample_env_def)

lemma sample_inputs_simps [simp]:
  "li_connect sample_inputs k info = Some 0" "\<not> li_stopConnect sample_inputs k"
  "\<not> li_stopConnected sample_inputs" "\<not> li_stopHost sample_inputs k" "\<not> li_stopDiscovered sample_inputs"
  by (simp_all add: sample_inputs_def)

lemma sample_link_options_simps [simp]:
  "lo_virtualControllerHostId sample_link_options = []" "lo_virtualControllerRoutes sample_link_options = []"
  "lo_discoveryTimeoutMs sample_link_options = 5000" "lo_maxDacs sample_link_options = 0"
  "lo_sliceDurationUs sample_link_options = 15000"
  "lo_virtualControllerHostOptions sample_link_options = cfg_options loopback_config"
  by (simp_all add: sample_link_options_def default_options_def)

lemma sample_hosts: "linked_hosts (le_ops sample_env) (le_registry sample_env)"
proof -
  have "idle_host (ed_host_ops sample_os plain_lib) h"
    if "createVirtualControllerHost hostId config (le_registry sample_env) = Inr h" for hostId config h
    using registered_factory [of hostId config "[etherDreamRegistration plain_lib]" h] that
    by (auto simp: sample_env_def etherDreamRegistration_def idle_host_def ed_host_ops_def newEdHost_def)
  then show ?thesis
    by (simp add: linked_hosts_def linked_hosts_axioms_def ed_host.virtual_host_axioms)
qed

lemma sample_default: "defaultVirtualControllerHost (le_registry sample_env) = Some etherDreamHostInfo"
  by (simp add: sample_env_def registerAll_def registerVirtualControllerHost_def etherDreamRegistration_def
      etherDreamHostInfo_def withDisplayName_def add_registration_def empty_registry_def
      defaultVirtualControllerHost_def availableVirtualControllerHosts_def Let_def)

lemma sample_create:
  "createVirtualControllerHost ''etherdream'' config (le_registry sample_env) = Inr (newEdHost plain_lib config)"
  by (simp add: sample_env_def registerAll_def registerVirtualControllerHost_def etherDreamRegistration_def
      etherDreamHostInfo_def withDisplayName_def add_registration_def empty_registry_def
      createVirtualControllerHost_def Let_def)

lemma sample_host_starts:
  assumes "cfg_options config = cfg_options loopback_config"
  shows "\<exists>h'. startEdHost sample_os plain_lib [t] (newEdHost plain_lib config) () = (None, h', ())"
proof -
  let ?h = "newEdHost plain_lib config"
  have o: "eo_explicitAddresses (eh_options ?h) = []" "eo_ipMode (eh_options ?h) = ''loopback''"
    using assms by (simp_all add: newEdHost_def makeEdOptions_def loopback_config_def optionString_def Let_def
        trim_def isspace_def splitCsv.simps)
  have act: "\<not> eh_active ?h" "eh_aliases ?h = []" by (simp_all add: newEdHost_def)
  have "fst (startEdHost sample_os plain_lib [t] ?h ()) = None"
    by (simp add: startEdHost_def act allocateAliases_def allocateLoopback_def o cleanupAliases_def
        ensureAlias_def sample_os_def startDevice_def startSockets_def Let_def)
  then show ?thesis by (cases "startEdHost sample_os plain_lib [t] ?h ()") simp
qed

lemma sample_group_starts:
  assumes "hi_id (pg_info g) = ''etherdream''" "pg_options g = cfg_options loopback_config" "pg_targets g = [t]"
  shows "\<exists>a. startActiveHostGroup sample_env g us () = (Inr a, ())"
proof -
  obtain h' where "startEdHost sample_os plain_lib [t]
      (newEdHost plain_lib \<lparr>cfg_sliceDurationUs = us, cfg_options = pg_options g\<rparr>) () = (None, h', ())"
    using sample_host_starts assms(2) by (metis host_config.select_convs(2))
  then show ?thesis
    by (simp add: startActiveHostGroup_def Let_def assms sample_create ed_host_ops_def)
qed

lemma activeOptions_frame [simp]:
  "rt_activeOptions (say b l rt) = rt_activeOptions rt" "rt_activeOptions (setState s m rt) = rt_activeOptions rt"
  by (simp_all add: say_def setState_def)

text \<open>The link with one target and the host that serves it.\<close>

definition sample_running :: "string \<Rightarrow> (u32, 'h, unit) runtime \<Rightarrow> bool" where
  "sample_running hostId rt \<longleftrightarrow> rt_state rt = Running \<and> rt_monitor rt \<and> rt_activeOptions rt = sample_link_options \<and>
     rt_infos rt = [sample_controller] \<and>
     (\<exists>t a. rt_targets rt = [t] \<and> ti_id (lt_info t) = ''1'' \<and> rt_hosts rt = [a] \<and> ah_targets a = [t] \<and>
        ah_id a = hostId \<and> ah_instanceKey a = hostId \<and> ah_options a = cfg_options loopback_config)"

text \<open>What the environment has to offer: its default host starts with one target.\<close>

definition startable :: "(u32, 'h, unit) link_env \<Rightarrow> vc_host_info \<Rightarrow> bool" where
  "startable env info \<longleftrightarrow> le_co env = echo_controller \<and> le_tracePath env = None \<and>
     defaultVirtualControllerHost (le_registry env) = Some info \<and> \<not> hi_separateInstancePerTarget info \<and>
     (\<forall>g t us. pg_info g = info \<longrightarrow> pg_options g = cfg_options loopback_config \<longrightarrow> pg_targets g = [t] \<longrightarrow>
        (\<exists>a. startActiveHostGroup env g us () = (Inr a, ())))"

lemma sample_start_targets:
  assumes env: "startable env info" and "rt_infos rt = [sample_controller]"
  shows "\<exists>rt'. startTargets env sample_inputs sample_link_options {} rt = (\<not> rt_monitor rt, rt') \<and> sample_running (hi_id info) rt'"
proof -
  obtain t rt1 where c: "connectControllers env sample_inputs sample_link_options {} 0 [sample_controller] [] rt = ([t], rt1)"
    and t: "ti_id (lt_info t) = ''1''"
    using env by (simp add: startable_def shouldLinkController_def unlinkableReason_def sample_controller_def
        isControllerSelected_def Let_def)
  let ?g = "\<lparr>pg_info = info, pg_instanceKey = hi_id info, pg_options = cfg_options loopback_config,
      pg_targets = [t]\<rparr>"
  have g: "groupTargets env sample_link_options [t] [] = Inr [?g]"
    using env by (simp add: Let_def routesByControllerId_def resolveHost_def fallbackHost_def startable_def
        instanceKeyFor_def optionsFor_def)
  obtain a where a: "startActiveHostGroup env ?g 15000 () = (Inr a, ())"
    using env by (fastforce simp: startable_def)
  have "rt_monitor rt1 = rt_monitor rt" "rt_infos rt1 = [sample_controller]"
    using connectControllers_frame [OF c] assms(2) by (simp_all add: link_frame_def)
  then show ?thesis
    using c g a t assms(2) startActiveHostGroup_fields [OF a]
    by (auto simp: startTargets_def enterRunning_def Let_def sample_running_def)
qed

text \<open>Starting the link, from its initial state or again.\<close>

lemma sample_start_discovered:
  assumes env: "startable env info" and "rt_infos rt \<in> {[], [sample_controller]}"
  shows "\<exists>rt'. startDiscovered env sample_inputs sample_link_options {} rt = Some (\<not> rt_monitor rt, rt') \<and>
    sample_running (hi_id info) rt'"
proof -
  have d: "discoverControllers 5000 (li_started sample_inputs) (li_polls sample_inputs) = Some [sample_controller]"
    using sample_discovery by (simp add: sample_inputs_def)
  have st: "\<exists>rt'. startTargets env sample_inputs sample_link_options {} r = (\<not> rt_monitor rt, rt') \<and> sample_running (hi_id info) rt'"
    if "rt_infos r = [sample_controller]" "rt_monitor r = rt_monitor rt" for r
    using sample_start_targets [OF env that(1)] that(2) by simp
  from assms(2) consider "rt_infos rt = []" | "rt_infos rt = [sample_controller]" by blast
  then show ?thesis
  proof cases
    case 1
    then show ?thesis unfolding startDiscovered_def runDiscovery_def Let_def
      by (simp add: d) (rule st, simp_all)
  next
    case 2
    then show ?thesis unfolding startDiscovered_def by simp (rule st, simp_all)
  qed
qed

lemma sample_start:
  assumes env: "startable env info" and "rt_state rt \<in> {Stopped, Failed}" "rt_infos rt \<in> {[], [sample_controller]}"
  shows "\<exists>rt'. freshStart env sample_inputs sample_link_options {} rt = Some (\<not> rt_monitor rt, rt') \<and>
    sample_running (hi_id info) rt'"
proof -
  have infos: "rt_infos (configureLiberaSystem sample_link_options r) \<in> {[], [sample_controller]}"
    if "rt_infos r = rt_infos rt" for r
    using that assms(3) by (auto simp: configureLiberaSystem_def)
  have st: "\<exists>rt'. startDiscovered env sample_inputs sample_link_options {} (configureLiberaSystem sample_link_options r) =
      Some (\<not> rt_monitor rt, rt') \<and> sample_running (hi_id info) rt'"
    if "rt_infos r = rt_infos rt" "rt_monitor r = rt_monitor rt" for r
    using sample_start_discovered [OF env infos [OF that(1)]] that(2) by simp
  have "rt_state rt \<noteq> Scanning \<and> rt_state rt \<noteq> Starting \<and> rt_state rt \<noteq> StopRequested" using assms(2) by auto
  then show ?thesis unfolding freshStart_def Let_def
    by simp (rule st, use env in \<open>simp_all add: clearLog_def startable_def\<close>)
qed

lemma sample_startable: "startable sample_env etherDreamHostInfo"
  unfolding startable_def using sample_group_starts sample_default by (simp add: etherDreamHostInfo_def)

lemma sample_initial: "link_reachable sample_env (initialLink sample_env ())"
  by (rule link_reachable.initial)

lemma sample_start_reachable:
  assumes "startable env info"
  obtains rt' where "freshStart env sample_inputs sample_link_options {} (initialLink env ()) = Some (True, rt')"
    "link_reachable env rt'" "sample_running (hi_id info) rt'"
proof -
  have i: "rt_state (initialLink env ()) = Stopped" "\<not> rt_monitor (initialLink env ())"
      "rt_infos (initialLink env ()) = []" "\<not> rt_terminated (initialLink env ())"
    by (simp_all add: initialLink_def)
  from sample_start [OF assms, of "initialLink env ()"] i obtain rt' where
    s: "freshStart env sample_inputs sample_link_options {} (initialLink env ()) = Some (True, rt')"
    and r: "sample_running (hi_id info) rt'" by auto
  from s i have "link_step env (Start sample_inputs sample_link_options {}) (initialLink env ()) = Some rt'"
    by (simp add: startLink_def)
  with that [OF s _ r] link_reachable.stepped [OF link_reachable.initial i(4)] show thesis by blast
qed

text \<open>
  A start from nothing with one controller, up to its host; what the host becomes, and whether
  the start is cancelled then, is open. Discovery is stopped at last.
\<close>

definition first_inputs :: "bool \<Rightarrow> u32 link_inputs" where
  "first_inputs cancelled = sample_inputs\<lparr>li_polls := sample_polls @ [\<lparr>dp_stop = True, dp_current = [], dp_changedAt = 0,
     dp_settledAt = 0, dp_elapsedAt = 0\<rparr>], li_stopHost := (\<lambda>k. cancelled)\<rparr>"

lemma first_inputs_simps [simp]:
  "li_connect (first_inputs c) k info = Some 0" "\<not> li_stopConnect (first_inputs c) k"
  "\<not> li_stopConnected (first_inputs c)" "li_stopHost (first_inputs c) k = c" "\<not> li_stopDiscovered (first_inputs c)"
  by (simp_all add: first_inputs_def)

lemma first_discovery:
  "discoverControllers 5000 (li_started (first_inputs c)) (li_polls (first_inputs c)) = Some [sample_controller]"
  by (simp add: first_inputs_def sample_inputs_def discoverControllers_def sample_polls_def Let_def noteDiscovered_def
      discoverySettled_def discoverySettleWindow_def discoveryTimedOut_def)

text \<open>What comes after the hosts were started, or were not.\<close>

definition afterHosts ::
  "('c, 'h, 'w) link_env \<Rightarrow> link_options \<Rightarrow> link_target list \<Rightarrow>
   (string option + 'h active_host list) \<times> ('c, 'h, 'w) runtime \<Rightarrow> bool \<times> ('c, 'h, 'w) runtime" where
  "afterHosts env options ts r = (case r of
     (Inl (Some err), rt2) \<Rightarrow> failStart err rt2 | (Inl None, rt2) \<Rightarrow> cancelStart rt2
   | (Inr hosts, rt2) \<Rightarrow> enterRunning env options ts hosts rt2)"

definition first_start :: "('c, 'h, 'w) link_env \<Rightarrow> vc_host_info \<Rightarrow> link_options \<Rightarrow> string set \<Rightarrow> bool" where
  "first_start env info options sel \<longleftrightarrow> (lo_virtualControllerHostId options = [] \<or> fallbackHost env options \<noteq> None) \<and>
     lo_maxDacs options = 0 \<and> lo_discoveryTimeoutMs options = 5000 \<and> isControllerSelected sel sample_controller \<and>
     (\<forall>t. ti_id (lt_info t) = ''1'' \<longrightarrow> (\<exists>g. groupTargets env options [t] [] = Inr [g] \<and> pg_info g = info \<and>
        pg_options g = lo_virtualControllerHostOptions options \<and> pg_targets g = [t]))"

lemma first_start_default:
  assumes "defaultVirtualControllerHost (le_registry env) = Some info" "\<not> hi_separateInstancePerTarget info"
    "lo_virtualControllerHostId options = []" "lo_virtualControllerRoutes options = []" "lo_maxDacs options = 0"
    "lo_discoveryTimeoutMs options = 5000"
  shows "first_start env info options {}"
  using assms by (simp add: first_start_def isControllerSelected_def Let_def routesByControllerId_def resolveHost_def
      fallbackHost_def instanceKeyFor_def optionsFor_def)

lemma first_start_watched [simp]: "first_start (watchedEnv env) = first_start env"
  by (intro ext) (simp add: first_start_def del: groupTargets.simps)

lemma first_targets:
  assumes "first_start env info options sel" "rt_infos rt = [sample_controller]"
  obtains t g rt1 where "pg_info g = info" "pg_options g = lo_virtualControllerHostOptions options" "pg_targets g = [t]"
    "link_frame (le_co env) rt rt1" "startTargets env (first_inputs c) options sel rt =
      afterHosts env options [t] (startHostGroups env (first_inputs c) (lo_sliceDurationUs options) 0 [g] [] rt1)"
proof -
  obtain t rt1 where k: "connectControllers env (first_inputs c) options sel 0 [sample_controller] [] rt = ([t], rt1)"
    and t: "ti_id (lt_info t) = ''1''"
    using assms(1) by (simp add: first_start_def shouldLinkController_def unlinkableReason_def sample_controller_def Let_def)
  from t assms(1) obtain g where g: "groupTargets env options [t] [] = Inr [g]" "pg_info g = info"
      "pg_options g = lo_virtualControllerHostOptions options" "pg_targets g = [t]"
    unfolding first_start_def by blast
  with k assms(2) have "startTargets env (first_inputs c) options sel rt =
      afterHosts env options [t] (startHostGroups env (first_inputs c) (lo_sliceDurationUs options) 0 [g] [] rt1)"
    by (simp add: startTargets_def afterHosts_def del: startHostGroups.simps groupTargets.simps)
  then show thesis by (rule that [OF g(2-4) connectControllers_frame [OF k]])
qed

lemma first_discovered:
  assumes env: "first_start env info options sel" and "rt_infos rt \<in> {[], [sample_controller]}"
  obtains q where "rt_infos q = [sample_controller]" "same_link rt q"
    "startDiscovered env (first_inputs c) options sel rt = Some (startTargets env (first_inputs c) options sel q)"
proof (cases "rt_infos rt = []")
  case True
  have "\<exists>q. rt_infos q = [sample_controller] \<and> same_link rt q \<and>
      startDiscovered env (first_inputs c) options sel rt = Some (startTargets env (first_inputs c) options sel q)"
    using True env unfolding startDiscovered_def runDiscovery_def Let_def
    by (simp add: first_start_def first_discovery) (intro exI conjI, rule refl [THEN [2] trans], simp_all add: same_link_def)
  with that show thesis by blast
next
  case False
  with assms(2) have i: "rt_infos rt = [sample_controller]" by simp
  let ?q = "say False (''Using '' @ to_string (length (rt_infos rt)) @ '' controller(s) from the latest scan.'')
      (setState Starting ''Connecting controllers...'' rt)"
  have "startDiscovered env (first_inputs c) options sel rt = Some (startTargets env (first_inputs c) options sel ?q)"
    using i by (simp add: startDiscovered_def)
  then show thesis by (rule that [of ?q, rotated 2]) (simp_all add: i same_link_def)
qed

lemma first_fresh:
  assumes env: "first_start env info options sel" and "rt_state rt = Stopped" "rt_infos rt \<in> {[], [sample_controller]}"
  obtains t g rt1 where "pg_info g = info" "pg_options g = lo_virtualControllerHostOptions options" "pg_targets g = [t]"
    "rt_world rt1 = rt_world rt" "rt_hosts rt1 = rt_hosts rt" "rt_monitor rt1 = rt_monitor rt"
    "freshStart env (first_inputs c) options sel rt = Some (afterHosts env options [t]
       (startHostGroups env (first_inputs c) (lo_sliceDurationUs options) 0 [g] [] rt1))"
proof -
  let ?r3 = "case le_tracePath env of
       None \<Rightarrow> clearLog env ((setState Starting ''Starting controllers...'' rt)
                  \<lparr>rt_activeHostId := [], rt_activeHostDisplayName := []\<rparr>)
     | Some path \<Rightarrow> say False (''Link IO trace enabled at '' @ path)
         (clearLog env ((setState Starting ''Starting controllers...'' rt)
                  \<lparr>rt_activeHostId := [], rt_activeHostDisplayName := []\<rparr>))"
  let ?r = "configureLiberaSystem options (say False
      (if sel = {} then ''Starting Libera Link''
       else ''Starting Libera Link for '' @ to_string (card sel) @ '' selected controller(s)'')
      (?r3\<lparr>rt_stopRequested := False\<rparr>))"
  have "rt_infos ?r \<in> {[], [sample_controller]}"
    using assms(3) by (auto simp: configureLiberaSystem_def clearLog_def split: option.split)
  from first_discovered [OF env this, of c] obtain q where q: "rt_infos q = [sample_controller]" "same_link ?r q"
    "startDiscovered env (first_inputs c) options sel ?r = Some (startTargets env (first_inputs c) options sel q)" .
  have known: "lo_virtualControllerHostId options = [] \<or> (\<exists>host. fallbackHost env options = Some host)"
    using env unfolding first_start_def by blast
  have f: "freshStart env (first_inputs c) options sel rt = startDiscovered env (first_inputs c) options sel ?r"
    using known assms(2) by (elim disjE exE) (simp_all add: freshStart_def Let_def)
  have "same_link rt ?r" by (simp add: same_link_def split: option.split)
  with q(2) have s: "same_link rt q" unfolding same_link_def by metis
  from first_targets [OF env q(1), of c] obtain t g rt1 where g: "pg_info g = info"
    "pg_options g = lo_virtualControllerHostOptions options" "pg_targets g = [t]" "link_frame (le_co env) q rt1"
    "startTargets env (first_inputs c) options sel q =
      afterHosts env options [t] (startHostGroups env (first_inputs c) (lo_sliceDurationUs options) 0 [g] [] rt1)" .
  show thesis by (rule that [OF g(1-3) _ _ _ q(3) [folded f, unfolded g(5)]])
    (use g(4) s in \<open>simp_all add: link_frame_def same_link_def\<close>)
qed

text \<open>The first start of a watched link counts one host, whether it is cancelled then or not.\<close>

lemma first_host_started:
  assumes env: "first_start env info options sel"
    and starts: "\<forall>g t. pg_info g = info \<and> pg_options g = lo_virtualControllerHostOptions options \<and> pg_targets g = [t] \<longrightarrow>
      (\<exists>a w'. startActiveHostGroup env g (lo_sliceDurationUs options) w = (Inr a, w'))"
    and rt0: "rt_state rt0 = Stopped" "rt_infos rt0 \<in> {[], [sample_controller]}" "rt_world rt0 = noHosts w"
      "rt_hosts rt0 = []" "\<not> rt_monitor rt0"
  obtains rt where "freshStart (watchedEnv env) (first_inputs cancelled) options sel rt0 = Some (\<not> cancelled, rt)"
    "startedHosts (rt_world rt) = 1"
proof -
  let ?env = "watchedEnv env"
  have "first_start ?env info options sel" using env by simp
  from first_fresh [OF this rt0(1,2), of cancelled] obtain t g rt1 where
    g: "pg_info g = info" "pg_options g = lo_virtualControllerHostOptions options" "pg_targets g = [t]"
    and rt1: "rt_world rt1 = rt_world rt0" "rt_hosts rt1 = rt_hosts rt0" "rt_monitor rt1 = rt_monitor rt0"
    and f: "freshStart ?env (first_inputs cancelled) options sel rt0 = Some (afterHosts ?env options [t]
       (startHostGroups ?env (first_inputs cancelled) (lo_sliceDurationUs options) 0 [g] [] rt1))" .
  obtain a w' where "startActiveHostGroup env g (lo_sliceDurationUs options) w = (Inr a, w')" using starts g by blast
  then obtain b v where b: "startActiveHostGroup ?env g (lo_sliceDurationUs options) (noHosts w) = (Inr b, v)" "startedHosts v = 1"
    by (rule watched_group_starts)
  have i: "rt_world rt1 = noHosts w" "rt_hosts rt1 = []" "\<not> rt_monitor rt1" using rt1 rt0 by simp_all
  show thesis
  proof (cases cancelled)
    case True
    with f b i show ?thesis by (intro that) (auto simp: afterHosts_def cancelStart_def)
  next
    case False
    with f b i show ?thesis by (intro that) (auto simp: afterHosts_def enterRunning_def Let_def)
  qed
qed

lemma initial_first:
  "rt_state (initialLink env w) = Stopped" "rt_infos (initialLink env w) \<in> {[], [sample_controller]}"
  "rt_world (initialLink env w) = w" "rt_hosts (initialLink env w) = []" "\<not> rt_monitor (initialLink env w)"
  by (simp_all add: initialLink_def)

lemma etherDream_id: "hi_id etherDreamHostInfo = ''etherdream''"
  by (simp add: etherDreamHostInfo_def)

lemmas sample_started = sample_start_reachable [OF sample_startable, unfolded etherDream_id]
lemmas sample_restarted = sample_start [OF sample_startable, unfolded etherDream_id]

section \<open>Properties\<close>

text \<open>C1: In every state the link can reach, every host it holds runs, no host it destroyed
  still runs, and every target went only through the operations of a target, so that all
  that holds of reachable targets holds of the link's.\<close>

theorem link_invariant:
  assumes "linked_hosts (le_ops env) (le_registry env)" "link_reachable env rt"
  shows "(\<forall>a \<in> set (rt_hosts rt). ho_running (le_ops env) (ah_host a)) \<and>
    (\<forall>h \<in> set (rt_destroyed rt). \<not> ho_running (le_ops env) h) \<and>
    (\<forall>t \<in> set (rt_store rt). target_reachable (le_co env) t)"
  using linked_hosts.reachable_link_inv [OF assms(1) conjI [OF refl refl] assms(2)]
  by (simp add: linked_hosts.link_inv_def [OF assms(1)] virtual_host.dead_def [OF linked_hosts.axioms(1) [OF assms(1)]]
      virtual_host.active_ok_def [OF linked_hosts.axioms(1) [OF assms(1)]] store_ok_def)

theorem link_invariant_witness:
  "\<exists>rt. link_reachable sample_env rt \<and> rt_state rt = Running \<and> rt_hosts rt \<noteq> [] \<and>
     list_all (\<lambda>a. eh_active (ah_host a)) (rt_hosts rt)"
proof -
  obtain rt where rt: "freshStart sample_env sample_inputs sample_link_options {} (initialLink sample_env ()) = Some (True, rt)"
    "link_reachable sample_env rt" by (rule sample_started)
  have "linked sample_env sample_link_options {} (rt_infos rt) rt"
    using linked_hosts.freshStart_result [OF sample_hosts conjI [OF refl refl] rt(1)]
    by (auto simp: start_result_def initialLink_def)
  then have "rt_state rt = Running" "rt_hosts rt \<noteq> []"
    by (auto simp: linked_def groups_ok_def)
  with link_invariant [OF sample_hosts rt(2)] rt(2) show ?thesis
    by (auto simp: ed_host_ops_def list_all_iff)
qed

text \<open>C3: A start that succeeds leaves the link running and monitored, with at least one
  target and at most the configured number, every target from a linkable, selected
  controller; the targets are partitioned by host, instance key and options into groups with
  distinct keys, and for each group one host runs, created by the registry under the group's
  host identifier and started with the group's targets, which its endpoints name.\<close>

theorem start_links:
  assumes "linked_hosts (le_ops env) (le_registry env)" "freshStart env inp options sel rt = Some (True, rt')"
  shows "linked env options sel (rt_infos rt') rt' \<and> \<not> rt_monitor rt \<and> rt_terminated rt' = rt_terminated rt"
  using linked_hosts.freshStart_result [OF assms(1) conjI [OF refl refl] assms(2)] by (auto simp: start_result_def)

theorem start_links_witness:
  "\<exists>rt'. rt_state rt' = Running \<and> linked sample_env sample_link_options {} (rt_infos rt') rt'"
proof -
  obtain rt where rt: "freshStart sample_env sample_inputs sample_link_options {} (initialLink sample_env ()) = Some (True, rt)"
    "link_reachable sample_env rt" by (rule sample_started)
  from start_links [OF sample_hosts rt(1)] show ?thesis by (auto simp: linked_def)
qed

text \<open>C29: A start that fails or is cancelled leaves the link failed or stopped with the hosts
  and targets it had before, the process alive, and no host running besides those: by the
  ledger of its hosts, in which each one that was ever started is struck only when it has
  stopped, the hosts that run after it are among the hosts that the link held before, so that
  every host the start itself had started was stopped again. What is watched is what happens
  without the ledger.\<close>

theorem start_fails_clean:
  assumes "linked_hosts (le_ops env) (le_registry env)"
    "link_run (watchedEnv env) (initialLink (watchedEnv env) (noHosts w)) rt" "\<not> rt_monitor rt"
    "rt_state rt \<in> {Stopped, Failed}" "freshStart (watchedEnv env) inp options sel rt = Some (False, rt')"
  shows "freshStart env inp options sel (unwatch rt) = Some (False, unwatch rt') \<and>
    rt_state rt' \<in> {Failed, Stopped} \<and> rt_hosts rt' = rt_hosts rt \<and> rt_targets rt' = rt_targets rt \<and>
    rt_terminated rt' = rt_terminated rt \<and> (\<forall>h \<in> set (rt_destroyed rt'). \<not> ho_running (le_ops env) (fst h)) \<and>
    runningHosts (rt_world rt') \<subseteq> heldNumbers (rt_hosts rt)"
proof -
  let ?env = "watchedEnv env"
  note loc = linked_hosts.watched_linked_hosts [OF assms(1)]
  note vh = linked_hosts.axioms(1) [OF assms(1)]
  have env: "le_ops ?env = watched (le_ops env) \<and> le_registry ?env = watchedRegistry (le_registry env)" by simp
  have "virtual_host.dead (watched (le_ops env)) rt"
    using linked_hosts.reachable_link_inv [OF loc env watched_run_reachable(2) [OF assms(2)]]
    by (simp add: linked_hosts.link_inv_def [OF loc])
  with linked_hosts.freshStart_result [OF loc env assms(5)] assms(3,4)
  have "rt_state rt' \<in> {Failed, Stopped} \<and> rt_hosts rt' = rt_hosts rt \<and> rt_targets rt' = rt_targets rt \<and>
    rt_terminated rt' = rt_terminated rt \<and> (\<forall>h \<in> set (rt_destroyed rt'). \<not> ho_running (le_ops env) (fst h))"
    by (auto simp: start_result_def linked_hosts.start_keeps_def [OF loc] virtual_host.dead_def [OF linked_hosts.axioms(1) [OF loc]])
  moreover have "all_held rt'"
    by (rule virtual_host.all_held_fresh [OF vh refl assms(5) virtual_host.all_held_run [OF vh refl assms(2) all_held_initial]])
  ultimately show ?thesis by (simp add: freshStart_unwatch assms(5) all_held_def)
qed

text \<open>A start that is cancelled when its first host runs: one host was started, and none runs.\<close>

lemma sample_first: "first_start sample_env etherDreamHostInfo sample_link_options {}"
  by (rule first_start_default [OF sample_default]) (simp_all add: etherDreamHostInfo_def)

theorem start_fails_clean_witness:
  "\<exists>rt'. freshStart (watchedEnv sample_env) (first_inputs True) sample_link_options {}
      (initialLink (watchedEnv sample_env) (noHosts ())) = Some (False, rt') \<and>
     startedHosts (rt_world rt') = 1 \<and> runningHosts (rt_world rt') = {} \<and> rt_state rt' \<in> {Failed, Stopped} \<and> rt_hosts rt' = []"
proof -
  let ?rt0 = "initialLink (watchedEnv sample_env) (noHosts ())"
  have "\<forall>g t. pg_info g = etherDreamHostInfo \<and> pg_options g = lo_virtualControllerHostOptions sample_link_options \<and>
      pg_targets g = [t] \<longrightarrow> (\<exists>a w'. startActiveHostGroup sample_env g (lo_sliceDurationUs sample_link_options) () = (Inr a, w'))"
  proof (intro allI impI)
    fix g :: pending_group and t
    assume "pg_info g = etherDreamHostInfo \<and> pg_options g = lo_virtualControllerHostOptions sample_link_options \<and> pg_targets g = [t]"
    with sample_group_starts [of g t "lo_sliceDurationUs sample_link_options"] show
      "\<exists>a w'. startActiveHostGroup sample_env g (lo_sliceDurationUs sample_link_options) () = (Inr a, w')"
      by (auto simp: etherDream_id)
  qed
  from first_host_started [OF sample_first this initial_first, where cancelled = True] obtain rt' where
    r: "freshStart (watchedEnv sample_env) (first_inputs True) sample_link_options {} ?rt0 = Some (False, rt')"
    "startedHosts (rt_world rt') = 1" by auto
  have i: "rt_state ?rt0 \<in> {Stopped, Failed}" "\<not> rt_monitor ?rt0" "rt_hosts ?rt0 = []" by (simp_all add: initialLink_def)
  from start_fails_clean [OF sample_hosts link_run.here i(2,1) r(1)] r i(3) show ?thesis by (simp add: heldNumbers_def)
qed

text \<open>Start-up with a host whose factory is unknown to the registry.\<close>

definition unknown_options :: link_options where
  "unknown_options = sample_link_options\<lparr>lo_virtualControllerHostId := ''nope''\<rparr>"

lemma sample_unknown: "fallbackHost sample_env unknown_options = None" "lo_virtualControllerHostId unknown_options = ''nope''"
  by (simp_all add: fallbackHost_def unknown_options_def findVirtualControllerHost_def sample_env_def
      registerAll_def registerVirtualControllerHost_def etherDreamRegistration_def
      etherDreamHostInfo_def withDisplayName_def add_registration_def empty_registry_def Let_def)

text \<open>Stopping the link stops every host it holds, joins the monitor thread, and leaves it
  stopped, without hosts or targets, ready to start again.\<close>

theorem stop_link:
  assumes "virtual_host (le_ops env)"
  shows "\<exists>hs. rt_destroyed (stopLink env rt) = rt_destroyed rt @ hs \<and> length hs = length (rt_hosts rt) \<and>
      (\<forall>h \<in> set hs. \<not> ho_running (le_ops env) h) \<and>
      rt_state (stopLink env rt) = Stopped \<and> rt_hosts (stopLink env rt) = [] \<and>
      rt_targets (stopLink env rt) = [] \<and> \<not> rt_monitor (stopLink env rt) \<and>
      \<not> rt_stopRequested (stopLink env rt)"
proof -
  obtain hs w where s: "stopHosts (le_ops env) (map ah_host (rt_hosts rt)) (rt_world rt) = (hs, w)" by fastforce
  have "rt_destroyed (stopLink env rt) = rt_destroyed rt @ hs"
    using s by (auto simp: stopLink_def Let_def destroyHosts_def setState_def say_def)
  with virtual_host.stopHosts_stopped [OF assms s] show ?thesis by (intro exI [of _ hs]) simp
qed

theorem stop_link_witness:
  "\<exists>hs. rt_destroyed (stopLink sample_env (initialLink sample_env ())) = hs \<and>
     list_all (\<lambda>h. \<not> eh_active h) hs"
  using stop_link [OF linked_hosts.axioms(1) [OF sample_hosts], of "initialLink sample_env ()"]
  by (auto simp: ed_host_ops_def initialLink_def list_all_iff)

section \<open>Updates\<close>

text \<open>C4: An update of a running link that keeps the runtime options and succeeds either
  stops the link, when no selected target could be linked, or leaves it running with targets
  whose identifiers are selected and in increasing order, without duplicates; and then the
  running hosts are those of the desired groups: each group has a host with its key, options
  and targets, and each host is one of these.\<close>

theorem update_selection:
  assumes "linked_hosts (le_ops env) (le_registry env)" "link_reachable env rt" "finite sel"
    "\<not> targetRuntimeOptionsChanged (rt_activeOptions rt) options"
    "updateRunning env inp options sel rt = Some (True, rt')"
  shows "rt_state rt' = Stopped \<and> rt_hosts rt' = [] \<or>
    rt_state rt' = Running \<and> rt_targets rt' \<noteq> [] \<and>
    set (map (ti_id \<circ> lt_info) (rt_targets rt')) \<subseteq> sel \<and>
    sorted_wrt (<) (map (ti_id \<circ> lt_info) (rt_targets rt')) \<and>
    (\<exists>gs. groups_ok env options (rt_targets rt') gs \<and>
      (\<forall>g \<in> set gs. \<exists>a \<in> set (rt_hosts rt'). host_for a g) \<and>
      (\<forall>a \<in> set (rt_hosts rt'). ho_running (le_ops env) (ah_host a) \<and> (\<exists>g \<in> set gs. host_for a g)))"
  using assms(5)
proof (cases rule: updateRunning_cases)
  case restart
  with assms(4) show ?thesis by simp
next
  case (unknown byId rt1 e)
  then show ?thesis using failStart_fields by blast
next
  case (selection byId rt1 ds groups)
  from linked_hosts.reachable_link_inv [OF assms(1) conjI [OF refl refl] assms(2)] updateTargets_frame [OF selection(2)]
  have "\<forall>a \<in> set (rt_hosts rt1). virtual_host.active_ok (le_ops env) a"
    by (simp add: linked_hosts.link_inv_def [OF assms(1)])
  note r = linked_hosts.applySelection_result [OF assms(1) conjI [OF refl refl] selection(6) this]
  have "groups_ok env options ([] @ ds) groups"
    by (rule groupTargets_ok [OF selection(5)]) (simp add: groups_ok_def)
  moreover have ids: "map (ti_id \<circ> lt_info) ds = filter (\<lambda>i. byId i \<noteq> None) (sorted_list_of_set sel)"
    unfolding selection(3) by (rule keyed_filter [OF updateTargets_keyed [OF selection(2)]])
  moreover have "sorted_wrt (<) (filter (\<lambda>i. byId i \<noteq> None) (sorted_list_of_set sel))"
    by (intro sorted_wrt_filter strict_sorted_list_of_set)
  moreover have "set (filter (\<lambda>i. byId i \<noteq> None) (sorted_list_of_set sel)) \<subseteq> sel"
    using assms(3) by auto
  moreover have "(\<forall>g \<in> set groups. \<exists>a \<in> set (rt_hosts rt'). host_for a g) \<and>
      (\<forall>a \<in> set (rt_hosts rt'). ho_running (le_ops env) (ah_host a) \<and> (\<exists>g \<in> set groups. host_for a g))"
    by (rule linked_hosts.matched_all [OF assms(1)]) (use r in simp)
  ultimately show ?thesis using r selection(4) by (intro disjI2) auto
qed simp_all

text \<open>Selecting the controller that is linked already keeps its host.\<close>

lemma sample_same_selection:
  assumes "sample_running ''etherdream'' rt"
  shows "\<exists>rt'. updateRunning sample_env sample_inputs sample_link_options {''1''} rt = Some (True, rt') \<and>
    rt_state rt' = Running"
proof -
  from assms obtain t a where rt: "rt_activeOptions rt = sample_link_options" "rt_targets rt = [t]"
      "ti_id (lt_info t) = ''1''" "rt_hosts rt = [a]" "ah_targets a = [t]" "ah_id a = ''etherdream''"
      "ah_instanceKey a = ''etherdream''" "ah_options a = cfg_options loopback_config"
    by (auto simp: sample_running_def)
  have "\<not> targetRuntimeOptionsChanged sample_link_options sample_link_options"
    by (simp add: targetRuntimeOptionsChanged_def)
  moreover have "updateTargets sample_env sample_inputs sample_link_options {''1''} rt = ([''1'' \<mapsto> t], rt)"
    by (simp add: updateTargets_def targetsById_def rt Let_def)
  moreover have g: "groupTargets sample_env sample_link_options [t] [] = Inr [\<lparr>pg_info = etherDreamHostInfo,
      pg_instanceKey = ''etherdream'', pg_options = cfg_options loopback_config, pg_targets = [t]\<rparr>]"
    by (simp add: Let_def routesByControllerId_def resolveHost_def fallbackHost_def sample_default
        instanceKeyFor_def optionsFor_def etherDreamHostInfo_def)
  moreover have "\<exists>rt'. applySelection sample_env sample_link_options [t] [\<lparr>pg_info = etherDreamHostInfo,
      pg_instanceKey = ''etherdream'', pg_options = cfg_options loopback_config, pg_targets = [t]\<rparr>] rt =
      (True, rt') \<and> rt_state rt' = Running"
    by (simp add: applySelection_def rt reconcileHost_def activeHostMatchesGroup_def etherDreamHostInfo_def Let_def)
  ultimately show ?thesis
    unfolding updateRunning_def updateTargets_def Let_def
    by (simp add: rt(1) map_filter_simps)
qed

theorem update_selection_witness:
  "\<exists>rt rt'. updateRunning sample_env sample_inputs sample_link_options {''1''} rt = Some (True, rt') \<and>
     rt_state rt' = Running \<and> sorted_wrt (<) (map (ti_id \<circ> lt_info) (rt_targets rt'))"
proof -
  obtain rt where rt: "link_reachable sample_env rt" "sample_running ''etherdream'' rt" by (rule sample_started)
  obtain rt' where u: "updateRunning sample_env sample_inputs sample_link_options {''1''} rt = Some (True, rt')"
    "rt_state rt' = Running" using sample_same_selection [OF rt(2)] by blast
  have "\<not> targetRuntimeOptionsChanged (rt_activeOptions rt) sample_link_options"
    using rt(2) by (simp add: sample_running_def targetRuntimeOptionsChanged_def)
  from update_selection [OF sample_hosts rt(1) _ this u(1)] u show ?thesis by auto
qed

text \<open>C39: When the update of a running link fails, be it that a virtual controller host is not
  registered or that one does not start, the link is left failed with its monitor thread not
  joined; the next call of \<open>start\<close> that brings the link up again assigns to the running
  thread object, which ends the process.\<close>

theorem failed_update_then_start:
  assumes "linked_hosts (le_ops env) (le_registry env)" "link_reachable env rt" "rt_state rt = Running" "rt_monitor rt"
    "sel \<noteq> {}" "\<not> targetRuntimeOptionsChanged (rt_activeOptions rt) options"
    "startLink env inp options sel rt = Some (ok1, rt1)" "rt_state rt1 = Failed"
    "startLink env inp' options' sel' rt1 = Some (ok2, rt2)" "rt_state rt2 = Running"
  shows "\<not> ok1 \<and> (rt_hosts rt1 = rt_hosts rt \<or> rt_hosts rt1 = []) \<and> rt_monitor rt1 \<and> rt_terminated rt2"
proof -
  let ?rt = "rt\<lparr>rt_statusMessage := ''Updating link...''\<rparr>"
  note env = conjI [OF refl refl]
  have "\<forall>a \<in> set (rt_hosts rt). virtual_host.active_ok (le_ops env) a"
    using linked_hosts.reachable_link_inv [OF assms(1) env assms(2)] by (simp add: linked_hosts.link_inv_def [OF assms(1)])
  note run = this
  have "updateRunning env inp options sel ?rt = Some (ok1, rt1)" using assms(3,7) by (simp add: startLink_def)
  then have 1: "\<not> ok1 \<and> (rt_hosts rt1 = rt_hosts rt \<or> rt_hosts rt1 = []) \<and> rt_monitor rt1"
  proof (cases rule: updateRunning_cases)
    case (unknown byId rtu e)
    with failStart_fields [OF unknown(3)] updateTargets_frame [OF unknown(2)] assms(4) show ?thesis by simp
  next
    case (selection byId rtu ds groups)
    from updateTargets_frame [OF selection(2)] run have "\<forall>a \<in> set (rt_hosts rtu). virtual_host.active_ok (le_ops env) a" by simp
    from linked_hosts.applySelection_result [OF assms(1) env selection(6) this] updateTargets_frame [OF selection(2)]
      assms(4,8) show ?thesis by (auto split: if_splits)
  qed (use assms(5,6,8) in simp_all)
  then have "freshStart env inp' options' sel' rt1 = Some (ok2, rt2)" using assms(8,9) by (simp add: startLink_def)
  from linked_hosts.freshStart_result [OF assms(1) env this] 1 assms(10) have "rt_terminated rt2"
    by (auto simp: start_result_def split: if_splits)
  with 1 show ?thesis by simp
qed

theorem failed_update_then_start_witness:
  "\<exists>rt rt1 rt2. sample_running ''etherdream'' rt \<and>
     startLink sample_env sample_inputs unknown_options {''1''} rt = Some (False, rt1) \<and> rt_monitor rt1 \<and>
     startLink sample_env sample_inputs sample_link_options {} rt1 = Some (False, rt2) \<and> rt_terminated rt2"
proof -
  obtain rt where rt: "link_reachable sample_env rt" "sample_running ''etherdream'' rt" by (rule sample_started)
  then have r: "rt_state rt = Running" "rt_monitor rt" "rt_infos rt = [sample_controller]"
      "\<not> targetRuntimeOptionsChanged (rt_activeOptions rt) unknown_options" and id: "\<exists>t. targetsById (rt_targets rt) ''1'' = Some t"
    by (auto simp: sample_running_def unknown_options_def targetRuntimeOptionsChanged_def targetsById_def)
  let ?u = "rt\<lparr>rt_statusMessage := ''Updating link...''\<rparr>"
  obtain rt1 where u: "startLink sample_env sample_inputs unknown_options {''1''} rt = Some (False, rt1)"
    and 1: "rt_state rt1 = Failed" "rt_infos rt1 = [sample_controller]" "rt_monitor rt1"
    using r id by (auto simp: startLink_def updateRunning_def sample_unknown failStart_def Let_def)
  obtain rt2 where 2: "startLink sample_env sample_inputs sample_link_options {} rt1 = Some (False, rt2)" "sample_running ''etherdream'' rt2"
    using sample_restarted [of rt1] 1 by (auto simp: startLink_def)
  have "rt_state rt2 = Running" using 2(2) by (simp add: sample_running_def)
  from failed_update_then_start [OF sample_hosts rt(1) r(1,2) _ r(4) u 1(1) 2(1) this] u 2(1) rt(2)
  show ?thesis by blast
qed

text \<open>Starting all controllers is passed on as the empty selection, so that on a running
  link it stops the link and reports success.\<close>

theorem start_all_stops_running:
  assumes "rt_state rt = Running"
  shows "\<exists>rt'. startAll env inp options rt = Some (True, rt') \<and> rt_state rt' = Stopped \<and> rt_hosts rt' = [] \<and>
    rt_targets rt' = []"
  using assms by (simp add: startAll_def startLink_def updateRunning_def)

theorem start_all_stops_running_witness:
  "\<exists>rt rt'. link_reachable sample_env rt \<and> rt_hosts rt \<noteq> [] \<and>
     startAll sample_env sample_inputs sample_link_options rt = Some (True, rt') \<and> rt_hosts rt' = []"
proof -
  obtain rt where rt: "link_reachable sample_env rt" "sample_running ''etherdream'' rt" by (rule sample_started)
  then have "rt_state rt = Running" "rt_hosts rt \<noteq> []" by (auto simp: sample_running_def)
  with start_all_stops_running [of rt sample_env sample_inputs sample_link_options] rt show ?thesis by blast
qed

end
