(* ===== verification/Settings_Thms.thy ===== *)
theory Settings_Thms
  imports Settings
begin

text \<open>
  The settings files: what is saved is loaded again, for every identifier the format can carry,
  and an AVB file with an invalid line changes nothing.
\<close>

section \<open>Lines\<close>

lemma getlines_line: "newline \<notin> set l \<Longrightarrow> getlines_acc acc (l @ newline # r) = (rev acc @ l) # getlines_acc [] r"
  by (induction l arbitrary: acc) auto

lemma getlines_print: "\<forall>l \<in> set ls. newline \<notin> set l \<Longrightarrow> getlines (printLines ls) = ls"
  unfolding getlines_def by (induction ls) (simp_all add: printLines_def getlines_line)

definition trimmed :: "string \<Rightarrow> bool" where
  "trimmed s \<longleftrightarrow> s \<noteq> [] \<and> newline \<notin> set s \<and> \<not> isBlankChar (hd s) \<and> \<not> isBlankChar (last s)"

lemma trimSettingLine_id:
  assumes "trimmed s"
  shows "trimSettingLine s = s"
proof -
  have "dropWhile isBlankChar s = s" using assms by (cases s) (simp_all add: trimmed_def)
  moreover have "dropWhile isBlankChar (rev s) = rev s"
  proof -
    have "rev s \<noteq> []" "\<not> isBlankChar (hd (rev s))" using assms by (simp_all add: trimmed_def hd_rev)
    then show ?thesis by (cases "rev s") simp_all
  qed
  ultimately show ?thesis by (simp add: trimSettingLine_def)
qed

text \<open>Identifiers that survive: trimmed, and no comment.\<close>

definition storable :: "string \<Rightarrow> bool" where
  "storable s \<longleftrightarrow> trimmed s \<and> hd s \<noteq> CHR ''#''"

lemma settingLines_print: "\<forall>l \<in> set ls. storable l \<Longrightarrow> settingLines (Some (printLines ls)) = ls"
proof -
  assume a: "\<forall>l \<in> set ls. storable l"
  then have "getlines (printLines ls) = ls" "map trimSettingLine ls = ls"
    by (auto simp: storable_def trimmed_def intro!: getlines_print map_idI trimSettingLine_id)
  with a show ?thesis by (simp add: settingLines_def storable_def trimmed_def)
qed

section \<open>Routes\<close>

lemma find_index_at: "x \<notin> set xs \<Longrightarrow> find_index (\<lambda>c. c = x) (xs @ x # ys) = Some (length xs)"
  by (induction xs) auto

lemma parse_route_line:
  assumes "trimmed c" "tab \<notin> set c" "trimmed h"
  shows "parseRoute (c @ [tab] @ h) = Some (c, h)"
  using assms find_index_at [OF assms(2), of h]
  by (simp add: parseRoute_def trimSettingLine_id Let_def trimmed_def)

lemma route_line_storable:
  "storable c \<Longrightarrow> trimmed h \<Longrightarrow> storable (c @ [tab] @ h)"
  by (auto simp: storable_def trimmed_def)

lemma load_route_lines:
  assumes "distinct cs" "\<forall>c \<in> set cs. storable c \<and> tab \<notin> set c \<and> trimmed (f c)"
  shows "foldl (\<lambda>routes line. case parseRoute line of None \<Rightarrow> routes | Some (c, h) \<Rightarrow> fmupd c h routes) m
      (map (\<lambda>c. c @ [tab] @ f c) cs) = foldl (\<lambda>routes c. fmupd c (f c) routes) m cs"
  using assms(2) by (induction cs arbitrary: m) (simp_all add: parse_route_line [simplified] storable_def)

lemma lookup_fold_upd:
  "fmlookup (foldl (\<lambda>routes c. fmupd c (f c) routes) m cs) k = (if k \<in> set cs then Some (f k) else fmlookup m k)"
  by (induction cs arbitrary: m) auto

lemma routes_roundtrip:
  assumes "\<forall>c h. fmlookup routes c = Some h \<longrightarrow> storable c \<and> tab \<notin> set c \<and> trimmed h"
  shows "loadControllerHostRoutes (Some (saveControllerHostRoutes routes)) = routes"
proof -
  let ?cs = "sorted_list_of_set (fset (fmdom routes))" and ?f = "\<lambda>c. the (fmlookup routes c)"
  have in_dom: "fmlookup routes c = Some (?f c)" if "c \<in> set ?cs" for c
    using that by (auto simp: fmlookup_dom'_iff)
  with assms have ok: "\<forall>c \<in> set ?cs. storable c \<and> tab \<notin> set c \<and> trimmed (?f c)" by blast
  then have "filter (\<lambda>(c, h). c \<noteq> [] \<and> h \<noteq> []) (map (\<lambda>c. (c, ?f c)) ?cs) = map (\<lambda>c. (c, ?f c)) ?cs"
    by (auto simp: filter_id_conv storable_def trimmed_def)
  then have "saveControllerHostRoutes routes = printLines (map (\<lambda>c. c @ [tab] @ ?f c) ?cs)"
    by (simp add: saveControllerHostRoutes_def Let_def comp_def)
  moreover have "settingLines (Some (printLines (map (\<lambda>c. c @ [tab] @ ?f c) ?cs))) = map (\<lambda>c. c @ [tab] @ ?f c) ?cs"
    by (rule settingLines_print) (use ok route_line_storable in auto)
  ultimately have "loadControllerHostRoutes (Some (saveControllerHostRoutes routes)) =
      foldl (\<lambda>routes c. fmupd c (?f c) routes) fmempty ?cs"
    using load_route_lines [OF _ ok, of fmempty] by (simp add: loadControllerHostRoutes_def)
  moreover have "foldl (\<lambda>routes c. fmupd c (?f c) routes) fmempty ?cs = routes"
  proof (rule fmap_ext)
    fix k
    have "fmlookup routes k = None" if "k \<notin> set ?cs" using that by (simp add: fmdom_notD)
    then show "fmlookup (foldl (\<lambda>routes c. fmupd c (?f c) routes) fmempty ?cs) k = fmlookup routes k"
      using in_dom [of k] by (simp only: lookup_fold_upd) (metis fmempty_lookup)
  qed
  ultimately show ?thesis by simp
qed

text \<open>The files of the main window are loaded as they were saved: sets of identifiers, the
  default host and the routes, provided that the identifiers are not empty, have no blanks at
  their ends, no newline and, but for the host of a route, no \<open>#\<close> in front, and that the
  controller of a route has no tab. Once a set has been saved, the fallback is not used again,
  even if the set is empty.\<close>

theorem settings_roundtrip:
  assumes "finite ids" "\<forall>s \<in> ids. storable s" "hostId = [] \<or> trimmed hostId"
    "\<forall>c h. fmlookup routes c = Some h \<longrightarrow> storable c \<and> tab \<notin> set c \<and> trimmed h"
  shows "loadEnabledControllers (Some (saveEnabledControllers ids)) = ids \<and>
    loadDisabledControllerTypes fallback (Some (saveDisabledControllerTypes ids)) = ids \<and>
    loadDefaultVirtualControllerHostId (Some (saveDefaultVirtualControllerHostId hostId)) = hostId \<and>
    loadControllerHostRoutes (Some (saveControllerHostRoutes routes)) = routes"
proof -
  have "settingLines (Some (printLines (sorted_list_of_set ids))) = sorted_list_of_set ids"
    by (rule settingLines_print) (use assms(1,2) in simp)
  moreover have "loadDefaultVirtualControllerHostId (Some (saveDefaultVirtualControllerHostId hostId)) = hostId"
    using assms(3) getlines_print [of "[hostId]"] getlines_print [of "[]"]
    by (auto simp: loadDefaultVirtualControllerHostId_def saveDefaultVirtualControllerHostId_def
        trimSettingLine_id trimmed_def printLines_def)
  ultimately show ?thesis using assms(1) routes_roundtrip [OF assms(4)]
    by (simp add: loadEnabledControllers_def saveEnabledControllers_def loadDisabledControllerTypes_def
        saveDisabledControllerTypes_def)
qed

lemma sample_storable: "storable ''USB 1''" "trimmed ''idn''" "tab \<notin> set ''USB 1''"
  by (simp_all add: storable_def trimmed_def isBlankChar_def)

theorem settings_roundtrip_witness:
  "loadEnabledControllers (Some (saveEnabledControllers {''USB 1''})) = {''USB 1''} \<and>
   loadControllerHostRoutes (Some (saveControllerHostRoutes (fmupd ''USB 1'' ''idn'' fmempty))) =
     fmupd ''USB 1'' ''idn'' fmempty"
  using settings_roundtrip [of "{''USB 1''}" "''idn''" "fmupd ''USB 1'' ''idn'' fmempty" "{}"] sample_storable
  by (auto split: if_splits)

section \<open>The AVB file\<close>

lemma read_quoted_body:
  "readQuotedBody acc (concat (map (\<lambda>c. if c = quotation \<or> c = backslash then [backslash, c] else [c]) s) @ quotation # r) =
     Some (acc @ s, r)"
  by (induction s arbitrary: acc) auto

lemma read_quoted: "readQuoted ('' '' @ quoted s @ r) = Some (s, r)"
  using read_quoted_body [of "[]" s r] by (simp add: readQuoted_def quoted_def skipws_def isspace_def)

lemma read_number:
  assumes "n < 2 ^ 63"
  shows "readInt64 ('' '' @ to_string n) = Some (int n, [])"
proof -
  obtain d ds where d: "to_string n = d # ds" using to_string_nonempty [of n] by (cases "to_string n") auto
  with to_string_digits [of n] have "isdigit d" by simp
  then have "skipws ('' '' @ to_string n) = to_string n" "d \<noteq> CHR ''-''" "d \<noteq> CHR ''+''"
    by (auto simp: skipws_def d isspace_def isdigit_def)
  moreover have "takeWhile isdigit (to_string n) = to_string n" "dropWhile isdigit (to_string n) = []"
    using to_string_digits [of n] by (simp_all add: takeWhile_eq_all_conv)
  moreover have "\<not> 2 ^ 63 \<le> int n" "\<not> int n < - (2 ^ 63)" using assms by simp_all
  ultimately show ?thesis
    by (simp add: readInt64_def Let_def d digits_value_to_string [of n, unfolded d])
qed

lemma read_kind:
  "readWord (''device'' @ '' '' @ r) = Some (''device'', '' '' @ r)"
  "readWord (''half-xy'' @ '' '' @ r) = Some (''half-xy'', '' '' @ r)"
  by (simp_all add: readWord_def skipws_def isspace_def)

lemma skip_kind:
  "skipws (''device'' @ r) = ''device'' @ r" "skipws (''half-xy'' @ r) = ''half-xy'' @ r"
  by (simp_all add: skipws_def isspace_def)

lemma parse_device_line:
  assumes "av_deviceUid config \<noteq> []" "av_preferredPointRate config \<noteq> 0"
  shows "parseAvbLine (''device'' @ '' '' @ quoted (av_deviceUid config) @ '' '' @ to_string (unat (av_preferredPointRate config))) =
    AvbDevice config"
proof -
  have n: "unat (av_preferredPointRate config) < 2 ^ 63" "unat (av_preferredPointRate config) \<le> 4294967295"
    "0 < unat (av_preferredPointRate config)"
    using unat_u32_le [of "av_preferredPointRate config"] assms(2) by (simp_all add: unat_gt_0)
  then have i: "0 < int (unat (av_preferredPointRate config))" "int (unat (av_preferredPointRate config)) \<le> 4294967295"
    by linarith+
  have w: "word_of_int (int (unat (av_preferredPointRate config))) = av_preferredPointRate config" by simp
  show ?thesis unfolding parseAvbLine_def skip_kind Let_def read_kind
    using assms(1) by (simp only: option.case prod.case read_quoted read_number [OF n(1)] w)
      (simp add: skipws_def n i del: of_nat_unat)
qed

lemma parse_half_line:
  "ident \<noteq> [] \<Longrightarrow> parseAvbLine (''half-xy'' @ '' '' @ quoted ident) = AvbHalfXY ident"
  using read_quoted [of ident "[]"] unfolding parseAvbLine_def skip_kind Let_def read_kind
  by (simp add: skipws_def)

lemma quoted_line: "newline \<notin> set s \<Longrightarrow> newline \<notin> set (quoted s)"
  by (auto simp: quoted_def)

lemma number_line: "newline \<notin> set (to_string n)"
  using to_string_digits [of n] by (auto simp: isdigit_def)

definition avb_storable :: "avb_state \<Rightarrow> bool" where
  "avb_storable st \<longleftrightarrow>
     (\<forall>config \<in> set (as_configuredDevices st). av_deviceUid config \<noteq> [] \<and> newline \<notin> set (av_deviceUid config) \<and>
        av_preferredPointRate config \<noteq> 0) \<and>
     (\<forall>ident \<in> set (as_halfXYOutputControllers st). ident \<noteq> [] \<and> newline \<notin> set ident)"

lemma read_half_lines:
  "\<forall>i \<in> set hs. i \<noteq> [] \<Longrightarrow> readAvbLines n (map (\<lambda>i. ''half-xy'' @ '' '' @ quoted i) hs) st =
     Inr (st\<lparr>as_halfXYOutputControllers := as_halfXYOutputControllers st @ hs\<rparr>)"
proof (induction hs arbitrary: n st)
  case (Cons h hs)
  then show ?case using parse_half_line [of h] by simp
qed simp

lemma read_device_lines:
  "\<forall>c \<in> set cs. av_deviceUid c \<noteq> [] \<and> av_preferredPointRate c \<noteq> 0 \<Longrightarrow>
     readAvbLines n (map (\<lambda>c. ''device'' @ '' '' @ quoted (av_deviceUid c) @ '' '' @
         to_string (unat (av_preferredPointRate c))) cs @ ls) st =
     readAvbLines (n + length cs) ls (st\<lparr>as_configuredDevices := as_configuredDevices st @ cs\<rparr>)"
proof (induction cs arbitrary: n st)
  case (Cons c cs)
  then show ?case using parse_device_line [of c] by simp
qed simp

lemma avb_text_read:
  assumes "avb_storable st"
  shows "readAvbLines 0 (getlines (avbText st)) no_avb = Inr st"
proof -
  let ?header = "''# Libera Link AVB interfaces and per-bank output settings''"
  let ?ds = "map (\<lambda>c. ''device'' @ '' '' @ quoted (av_deviceUid c) @ '' '' @ to_string (unat (av_preferredPointRate c)))
    (as_configuredDevices st)"
  let ?hs = "map (\<lambda>i. ''half-xy'' @ '' '' @ quoted i) (as_halfXYOutputControllers st)"
  have "avbText st = printLines (?header # ?ds @ ?hs)" by (simp add: avbText_def)
  moreover have "getlines (printLines (?header # ?ds @ ?hs)) = ?header # ?ds @ ?hs"
    by (rule getlines_print) (use assms quoted_line number_line in \<open>auto simp: avb_storable_def\<close>)
  moreover have "parseAvbLine ?header = AvbSkip" by (simp add: parseAvbLine_def skipws_def isspace_def)
  ultimately show ?thesis
    using assms read_device_lines [of "as_configuredDevices st"] read_half_lines [of "as_halfXYOutputControllers st"]
    by (simp add: no_avb_def avb_storable_def)
qed

text \<open>C37: The AVB settings are loaded as they were saved, whatever was set before: every
  interface with its point rate and every bank, in order, provided that the identifiers are not
  empty and have no newline and the rates are not zero. Blanks, quotation marks and backslashes
  in an identifier are preserved.\<close>

theorem avb_settings_roundtrip:
  assumes "avb_storable st" "saveAvbSettings path failed st = (Inr (), file)"
  shows "loadAvbSettings path file st0 = (Inr (), st)"
  using assms avb_text_read by (auto simp: saveAvbSettings_def loadAvbSettings_def split: option.splits)

definition sample_avb :: avb_state where
  "sample_avb = \<lparr>as_configuredDevices = [\<lparr>av_deviceUid = [CHR ''a'', CHR '' '', quotation], av_preferredPointRate = 48000\<rparr>],
     as_halfXYOutputControllers = [[backslash]]\<rparr>"

lemma sample_avb_storable: "avb_storable sample_avb"
  by (simp add: avb_storable_def sample_avb_def)

theorem avb_settings_roundtrip_witness:
  "saveAvbSettings ''avb'' None sample_avb = (Inr (), AvbContent (avbText sample_avb)) \<and>
   loadAvbSettings ''avb'' (AvbContent (avbText sample_avb)) no_avb = (Inr (), sample_avb)"
proof -
  have s: "saveAvbSettings ''avb'' None sample_avb = (Inr (), AvbContent (avbText sample_avb))" by (simp add: saveAvbSettings_def)
  from avb_settings_roundtrip [OF sample_avb_storable this, of no_avb] s show ?thesis by simp
qed

lemma readAvbLines_error:
  "readAvbLines n ls st = Inl m \<Longrightarrow> \<exists>k < length ls. m = n + k + 1 \<and> parseAvbLine (ls ! k) = AvbInvalid \<and>
     (\<forall>j < k. parseAvbLine (ls ! j) \<noteq> AvbInvalid)"
proof (induction ls arbitrary: n st)
  case (Cons l ls)
  show ?case
  proof (cases "parseAvbLine l = AvbInvalid")
    case True
    with Cons.prems show ?thesis by (intro exI [of _ 0]) simp
  next
    case False
    with Cons.prems obtain st' where "readAvbLines (Suc n) ls st' = Inl m" by (cases "parseAvbLine l") auto
    from Cons.IH [OF this] obtain k where "k < length ls" "m = Suc n + k + 1" "parseAvbLine (ls ! k) = AvbInvalid"
      "\<forall>j < k. parseAvbLine (ls ! j) \<noteq> AvbInvalid" by blast
    with False show ?thesis by (intro exI [of _ "Suc k"]) (auto simp: less_Suc_eq_0_disj)
  qed
qed simp

lemma readAvbLines_ok: "readAvbLines n ls st = Inr st' \<Longrightarrow> \<forall>l \<in> set ls. parseAvbLine l \<noteq> AvbInvalid"
  by (induction ls arbitrary: n st) (auto split: avb_entry.splits)

text \<open>The AVB settings in force are replaced as a whole or not at all: loading succeeds with
  no file, which changes nothing, or with a file that was read to its end and has no invalid
  line; otherwise there is a message, everything stays as it was, and when a line that was read
  is invalid the message names the first such line.\<close>

theorem avb_settings_atomic:
  assumes "loadAvbSettings path file st = (res, st')"
  shows "case res of
      Inl err \<Rightarrow> st' = st \<and> err \<noteq> [] \<and> file \<noteq> AvbAbsent \<and>
        (\<forall>content. file = AvbContent content \<longrightarrow> (\<exists>k < length (getlines content). err = invalidLine (k + 1) \<and>
           parseAvbLine (getlines content ! k) = AvbInvalid \<and> (\<forall>j < k. parseAvbLine (getlines content ! j) \<noteq> AvbInvalid)))
    | Inr u \<Rightarrow> (file = AvbAbsent \<and> st' = st) \<or>
        (\<exists>content. file = AvbContent content \<and> (\<forall>l \<in> set (getlines content). parseAvbLine l \<noteq> AvbInvalid))"
proof (cases "file")
  case (AvbContent content)
  show ?thesis
  proof (cases "readAvbLines 0 (getlines content) no_avb")
    case (Inl m)
    with readAvbLines_error [OF Inl] assms AvbContent show ?thesis by (auto simp: loadAvbSettings_def invalidLine_def)
  next
    case (Inr st2)
    with readAvbLines_ok [OF Inr] assms AvbContent show ?thesis by (auto simp: loadAvbSettings_def)
  qed
next
  case (AvbBroken content)
  with assms show ?thesis
    by (cases "readAvbLines 0 (getlines content) no_avb") (auto simp: loadAvbSettings_def invalidLine_def)
qed (use assms in \<open>auto simp: loadAvbSettings_def\<close>)

theorem avb_settings_atomic_witness:
  "loadAvbSettings ''avb'' (AvbContent ''device'') sample_avb = (Inl (invalidLine 1), sample_avb)"
proof -
  obtain res st' where r: "loadAvbSettings ''avb'' (AvbContent ''device'') sample_avb = (res, st')" by fastforce
  moreover have "res = Inl (invalidLine 1)"
    using r by (simp add: loadAvbSettings_def getlines_def parseAvbLine_def skipws_def isspace_def readWord_def
        readQuoted_def split: prod.splits)
  ultimately show ?thesis using avb_settings_atomic [OF r] by simp
qed

end
