(* ===== verification/Gui_Props.thy ===== *)
theory Gui_Props
  imports Gui Runtime_Thms Settings_Thms
begin

text \<open>
  What a frame of the window may do: it launches at most one task, and only when none is under
  way; the links it starts have a registered host for every controller.
\<close>

section \<open>Tasks\<close>

definition flags :: "gui_state \<Rightarrow> bool \<times> bool \<times> bool" where
  "flags g = (gs_scanInFlight g, gs_startInFlight g, gs_stopInFlight g)"

fun flagsOf :: "gui_task \<Rightarrow> bool \<times> bool \<times> bool" where
  "flagsOf (ScanTask options) = (True, False, False)"
| "flagsOf (StartTask options selected) = (False, True, False)"
| "flagsOf StopTask = (False, False, True)"

abbreviation noFlags :: "bool \<times> bool \<times> bool" where "noFlags \<equiv> (False, False, False)"

definition launches :: "gui_state \<Rightarrow> gui_task list" where
  "launches g = List.map_filter launched (gs_calls g)"

lemma taskInFlight_flags: "taskInFlight g \<longleftrightarrow> flags g \<noteq> noFlags"
  by (auto simp: taskInFlight_def flags_def)

text \<open>A part of a frame leaves the tasks as they are, or launches one when there is none.\<close>

definition oneLaunch :: "gui_state \<Rightarrow> gui_state \<Rightarrow> bool" where
  "oneLaunch g g' \<longleftrightarrow> (flags g' = flags g \<and> launches g' = launches g) \<or>
     (\<exists>t. flags g = noFlags \<and> flags g' = flagsOf t \<and> launches g' = launches g @ [t])"

lemma oneLaunch_refl [simp]: "oneLaunch g g"
  by (simp add: oneLaunch_def)

lemma flagsOf_some [simp]: "flagsOf t \<noteq> noFlags" "noFlags \<noteq> flagsOf t"
  by (cases t; simp)+

lemma oneLaunch_trans: "oneLaunch g1 g2 \<Longrightarrow> oneLaunch g2 g3 \<Longrightarrow> oneLaunch g1 g3"
  unfolding oneLaunch_def by (elim disjE exE conjE) auto

lemma launches_call [simp]:
  "launches (call CallRequestStop g) = launches g" "launches (call CallInvalidate g) = launches g"
  "launches (call (LaunchScan opts) g) = launches g @ [ScanTask opts]"
  "launches (call (LaunchStart opts sel) g) = launches g @ [StartTask opts sel]"
  "launches (call LaunchStop g) = launches g @ [StopTask]" "flags (call c g) = flags g"
  by (simp_all add: launches_def call_def List.map_filter_def flags_def)

text \<open>The fields that flags and launches do not read.\<close>

lemma flags_frame [simp]:
  "flags (g\<lparr>gs_linkOptions := a\<rparr>) = flags g" "flags (g\<lparr>gs_disabledControllerTypes := b\<rparr>) = flags g"
  "flags (g\<lparr>gs_rescanInFlight := c\<rparr>) = flags g" "flags (g\<lparr>gs_linkSyncPending := d\<rparr>) = flags g"
  "flags (g\<lparr>gs_enabledControllers := e\<rparr>) = flags g" "flags (g\<lparr>gs_controllerHostRoutes := f\<rparr>) = flags g"
  "flags (g\<lparr>gs_files := h\<rparr>) = flags g" "flags (g\<lparr>gs_windows := w\<rparr>) = flags g" "flags (saveEnabled g) = flags g" "flags (saveRoutes g) = flags g"
  by (simp_all add: flags_def saveEnabled_def saveRoutes_def)

lemma launches_frame [simp]:
  "launches (g\<lparr>gs_linkOptions := a\<rparr>) = launches g" "launches (g\<lparr>gs_disabledControllerTypes := b\<rparr>) = launches g"
  "launches (g\<lparr>gs_rescanInFlight := c\<rparr>) = launches g" "launches (g\<lparr>gs_linkSyncPending := d\<rparr>) = launches g"
  "launches (g\<lparr>gs_enabledControllers := e\<rparr>) = launches g" "launches (g\<lparr>gs_controllerHostRoutes := f\<rparr>) = launches g"
  "launches (g\<lparr>gs_files := h\<rparr>) = launches g" "launches (g\<lparr>gs_windows := w\<rparr>) = launches g" "launches (saveEnabled g) = launches g" "launches (saveRoutes g) = launches g"
  by (simp_all add: launches_def saveEnabled_def saveRoutes_def)

lemma launch_one:
  "flags g = noFlags \<Longrightarrow> oneLaunch g (launchScan g)" "flags g = noFlags \<Longrightarrow> oneLaunch g (launchStop g)"
  "flags g = noFlags \<Longrightarrow> oneLaunch g (launchSelectedStart sel g)"
proof -
  assume n: "flags g = noFlags"
  have scan: "flags (launchScan g) = flagsOf (ScanTask (gs_linkOptions g))"
    "launches (launchScan g) = launches g @ [ScanTask (gs_linkOptions g)]"
    using n by (simp_all add: launchScan_def) (simp_all add: flags_def launches_def)
  have stop: "flags (launchStop g) = flagsOf StopTask" "launches (launchStop g) = launches g @ [StopTask]"
    using n by (simp_all add: launchStop_def) (simp_all add: flags_def launches_def)
  let ?opts = "(gs_linkOptions g)\<lparr>lo_virtualControllerRoutes := selectedRoutes g sel\<rparr>"
  have start: "flags (launchSelectedStart sel g) = flagsOf (StartTask ?opts sel)"
    "launches (launchSelectedStart sel g) = launches g @ [StartTask ?opts sel]" if "sel \<noteq> {}"
    using n that by (simp_all add: launchSelectedStart_def) (simp_all add: flags_def launches_def)
  show "oneLaunch g (launchScan g)" using n scan unfolding oneLaunch_def by blast
  show "oneLaunch g (launchStop g)" using n stop unfolding oneLaunch_def by blast
  show "oneLaunch g (launchSelectedStart sel g)"
  proof (cases "sel = {}")
    case False
    with n start show ?thesis unfolding oneLaunch_def by blast
  qed (simp add: launchSelectedStart_def)
qed

lemma oneLaunch_cong: "flags g = flags h \<Longrightarrow> launches g = launches h \<Longrightarrow> oneLaunch g k \<Longrightarrow> oneLaunch h k"
  by (simp add: oneLaunch_def)

lemma oneLaunch_same: "flags g' = flags g \<Longrightarrow> launches g' = launches g \<Longrightarrow> oneLaunch g g'"
  by (simp add: oneLaunch_def)

lemma discovery_sync_one: "oneLaunch g (requestDiscoverySettingsSync sn g)"
proof -
  let ?g1 = "g\<lparr>gs_linkOptions := (gs_linkOptions g)\<lparr>lo_disabledControllerTypes := gs_disabledControllerTypes g\<rparr>,
      gs_files := (gs_files g)\<lparr>gf_disabledTypes := Some (saveDisabledControllerTypes (gs_disabledControllerTypes g))\<rparr>\<rparr>"
  have "oneLaunch g (launchScan (?g1\<lparr>gs_linkSyncPending := False\<rparr>))" if "flags g = noFlags"
    by (rule oneLaunch_cong [OF _ _ launch_one(1)]) (simp_all add: that)
  then show ?thesis
    unfolding requestDiscoverySettingsSync_def Let_def
    by (auto simp: taskInFlight_flags intro: oneLaunch_same)
qed

lemma selectionChanged_one [simp]: "flags (selectionChanged g) = flags g" "launches (selectionChanged g) = launches g"
  by (simp_all add: selectionChanged_def Let_def)

lemma inWindow_one: "oneLaunch g g' \<Longrightarrow> oneLaunch g (inWindow w g g')"
  by (simp add: inWindow_def)

lemma click_one: "oneLaunch g (click reg inp a g)"
proof (cases a)
  case RescanClicked
  then show ?thesis
    using launch_one(1) [of g] by (auto simp: clickRescan_def flags_def [of g] intro!: oneLaunch_same)
next
  case BulkClicked
  then show ?thesis by (auto simp: clickBulk_def intro: oneLaunch_same)
next
  case (PowerClicked c)
  then show ?thesis by (auto simp: clickPower_def Let_def intro: oneLaunch_same)
next
  case (RouteDefaultClicked c)
  then show ?thesis by (auto simp: clickRoute_def Let_def intro: oneLaunch_same)
next
  case (RouteHostClicked c h)
  then show ?thesis by (auto simp: clickRoute_def Let_def intro: oneLaunch_same)
next
  case (DefaultHostChosen h)
  have "oneLaunch g (chooseDefaultHost reg h g)" by (auto simp: chooseDefaultHost_def intro: oneLaunch_same)
  with DefaultHostChosen show ?thesis by (simp add: inWindow_one)
next
  case EnableAllClicked
  then show ?thesis
    using oneLaunch_cong [OF _ _ discovery_sync_one [of "g\<lparr>gs_disabledControllerTypes := {}\<rparr>"]] by (simp add: inWindow_one)
next
  case (TypeToggled ty)
  have "oneLaunch g (toggleType inp ty g)"
    using oneLaunch_cong [OF _ _ discovery_sync_one [of "g\<lparr>gs_disabledControllerTypes := d\<rparr>" for d]]
    by (auto simp: toggleType_def Let_def)
  with TypeToggled show ?thesis by (simp add: inWindow_one)
next
  case (DriverChosen ty d acc)
  have "oneLaunch g (chooseDriver inp ty d acc g)"
    using oneLaunch_cong [OF _ _ discovery_sync_one [of "g\<lparr>gs_linkOptions := d\<rparr>" for d]]
    by (auto simp: chooseDriver_def)
  with DriverChosen show ?thesis by (simp add: inWindow_one)
next
  case AvbChanged
  then show ?thesis by (simp add: inWindow_one discovery_sync_one)
next
  case (WindowOpened w)
  then show ?thesis by (auto simp: openWindow_def intro: oneLaunch_same)
next
  case (WindowClosed w)
  then show ?thesis by (auto intro: oneLaunch_same)
qed

lemma schedule_one: "oneLaunch g (schedule sn g)"
proof -
  have start: "oneLaunch g (launchSelectedStart sel (g\<lparr>gs_linkSyncPending := False\<rparr>))" if "flags g = noFlags" for sel
    by (rule oneLaunch_cong [OF _ _ launch_one(3)]) (simp_all add: that)
  have stop: "oneLaunch g (launchStop (g\<lparr>gs_linkSyncPending := False\<rparr>))" if "flags g = noFlags"
    by (rule oneLaunch_cong [OF _ _ launch_one(2)]) (simp_all add: that)
  show ?thesis
    unfolding schedule_def Let_def
    by (auto simp: taskInFlight_flags start stop intro: launch_one(2) oneLaunch_same)
qed

lemma checks_frame [simp]:
  "flags (checkDefaultHost reg g) = flags g" "launches (checkDefaultHost reg g) = launches g"
  "flags (checkRoutes reg g) = flags g" "launches (checkRoutes reg g) = launches g"
  "flags (checkEnabled sn g) = flags g" "launches (checkEnabled sn g) = launches g"
  by (simp_all add: checkDefaultHost_def checkRoutes_def checkEnabled_def Let_def)

lemma collect_launches [simp]: "launches (collectFutures inp g) = launches g"
  by (simp add: collectFutures_def Let_def launches_def)

lemma frame_one: "oneLaunch (collectFutures inp (g\<lparr>gs_calls := []\<rparr>)) (guiFrame reg inp g)"
proof -
  let ?g1 = "collectFutures inp (g\<lparr>gs_calls := []\<rparr>)"
  let ?g2 = "checkEnabled (gi_snapshot inp) (checkRoutes reg (checkDefaultHost reg ?g1))"
  let ?g3 = "case gi_action inp of None \<Rightarrow> ?g2 | Some a \<Rightarrow> click reg inp a ?g2"
  have "oneLaunch ?g1 ?g2" by (rule oneLaunch_same) simp_all
  moreover have "oneLaunch ?g2 ?g3" by (auto intro: click_one split: option.split)
  moreover have "oneLaunch ?g3 (schedule (gi_snapshot inp) ?g3)" by (rule schedule_one)
  ultimately show ?thesis unfolding guiFrame_def Let_def by (blast intro: oneLaunch_trans)
qed


section \<open>The window and its tasks\<close>

text \<open>The flags tell the one task that is under way, or whose end has not been noticed yet.\<close>

definition tasks_ok :: "('c, 'h, 'w) gui_system \<Rightarrow> bool" where
  "tasks_ok sys \<longleftrightarrow>
     (case gy_tasks sys of
        [] \<Rightarrow> flags (gy_gui sys) = noFlags \<or> (\<exists>t. flags (gy_gui sys) = flagsOf t)
      | [t] \<Rightarrow> flags (gy_gui sys) = flagsOf t
      | t # u # ts \<Rightarrow> False)"

lemma flags_collect:
  "flags (collectFutures inp g) =
     (gs_scanInFlight g \<and> \<not> gi_scanReady inp, gs_startInFlight g \<and> \<not> gi_startReady inp,
      gs_stopInFlight g \<and> \<not> gi_stopReady inp)"
  by (auto simp: collectFutures_def flags_def Let_def)

lemma collect_waiting:
  assumes "input_fits env inp sys" "gy_tasks sys = [t]" "flags g = flagsOf t"
  shows "flags (collectFutures inp g) = flagsOf t"
  unfolding flags_collect using assms
  by (cases t) (auto simp: flags_def input_fits_def isScanTask_def isStartTask_def isStopTask_def)

lemma collect_idle:
  assumes "flags g = noFlags \<or> (\<exists>t. flags g = flagsOf t)"
  shows "flags (collectFutures inp g) = noFlags \<or> flags (collectFutures inp g) = flags g"
proof -
  from assms consider "flags g = noFlags" | t where "flags g = flagsOf t" by blast
  then show ?thesis
  proof cases
    case 1
    then show ?thesis unfolding flags_collect by (simp add: flags_def)
  next
    case 2
    then show ?thesis unfolding flags_collect by (cases t) (auto simp: flags_def)
  qed
qed

lemma frame_tasks_ok:
  assumes "tasks_ok sys" "input_fits env inp sys"
  shows "tasks_ok (frameStep env inp sys)"
proof -
  let ?g = "gy_gui sys" and ?g' = "guiFrame (le_registry env) inp (gy_gui sys)"
  let ?g1 = "collectFutures inp (?g\<lparr>gs_calls := []\<rparr>)"
  have f: "flags (?g\<lparr>gs_calls := []\<rparr>) = flags ?g" by (simp add: flags_def)
  have l: "launches ?g1 = []" unfolding collect_launches by (simp add: launches_def List.map_filter_def)
  have s: "gy_gui (frameStep env inp sys) = ?g'" "gy_tasks (frameStep env inp sys) = gy_tasks sys @ launches ?g'"
    by (simp_all add: frameStep_def Let_def launches_def)
  from frame_one [of inp ?g "le_registry env"] l consider
    (same) "flags ?g' = flags ?g1" "launches ?g' = []"
    | (one) t where "flags ?g1 = noFlags" "flags ?g' = flagsOf t" "launches ?g' = [t]"
    unfolding oneLaunch_def by auto
  note step = this
  show ?thesis
  proof (cases "gy_tasks sys")
    case Nil
    then have "flags ?g = noFlags \<or> (\<exists>t. flags ?g = flagsOf t)" using assms(1) by (simp add: tasks_ok_def)
    then have c: "flags ?g1 = noFlags \<or> flags ?g1 = flags ?g" "flags ?g = noFlags \<or> (\<exists>t. flags ?g = flagsOf t)"
      using collect_idle [of "?g\<lparr>gs_calls := []\<rparr>" inp] f by auto
    show ?thesis
    proof (cases rule: step)
      case same
      with c Nil s show ?thesis by (auto simp: tasks_ok_def)
    next
      case (one t)
      with Nil s show ?thesis by (auto simp: tasks_ok_def)
    qed
  next
    case (Cons t ts)
    then have t: "gy_tasks sys = [t]" "flags ?g = flagsOf t" using assms(1) by (auto simp: tasks_ok_def split: list.splits)
    from collect_waiting [OF assms(2) t(1)] t(2) f have "flags ?g1 = flagsOf t" by simp
    with step have "flags ?g' = flagsOf t" "launches ?g' = []" by (metis flagsOf_some(1))+
    with t(1) s show ?thesis by (simp add: tasks_ok_def)
  qed
qed

lemma open_tasks_ok: "tasks_ok (openSystem env w drivers files)"
  by (simp add: openSystem_def openGui_def launchScan_def call_def tasks_ok_def flags_def List.map_filter_def Let_def)

lemma reachable_tasks_ok:
  assumes "gui_reachable env sys"
  shows "tasks_ok sys"
  using assms
proof induction
  case (opened w drivers files)
  then show ?case by (rule open_tasks_ok)
next
  case (frame sys inp)
  then show ?case by (blast intro: frame_tasks_ok)
next
  case (task sys ts t us inp rt)
  have "tasks_ok sys" by (rule task.IH)
  then have "ts = [] \<and> us = [] \<and> flags (gy_gui sys) = flagsOf t"
    unfolding tasks_ok_def task.hyps(3) by (cases ts; cases us) (simp_all split: list.splits)
  then show ?case by (auto simp: tasks_ok_def)
next
  case (activity sys ev rt)
  then show ?case by (simp add: tasks_ok_def split: list.splits)
qed

section \<open>The link in the window\<close>

text \<open>The calls of a frame are calls on the link, so that the link stays a reachable one.\<close>

lemma directCall_reachable:
  assumes "link_reachable env rt" "\<not> rt_terminated rt"
  shows "link_reachable env (directCall c rt) \<and> \<not> rt_terminated (directCall c rt)"
proof (cases c)
  case CallRequestStop
  have "link_reachable env (requestStop rt)" by (rule link_reachable.stepped [OF assms, of RequestStop]) simp
  with CallRequestStop assms show ?thesis by (simp add: requestStop_def Let_def)
next
  case CallInvalidate
  have "link_reachable env (invalidateDiscoveryCache rt)"
    by (rule link_reachable.stepped [OF assms, of Invalidate]) simp
  with CallInvalidate assms show ?thesis by (simp add: invalidateDiscoveryCache_def)
qed (use assms in simp_all)

lemma directCalls_reachable:
  "link_reachable env rt \<Longrightarrow> \<not> rt_terminated rt \<Longrightarrow>
     link_reachable env (fold directCall cs rt) \<and> \<not> rt_terminated (fold directCall cs rt)"
  by (induction cs arbitrary: rt) (simp_all add: directCall_reachable)

lemma gui_link_reachable:
  assumes "gui_reachable env sys"
  shows "link_reachable env (gy_link sys)"
  using assms
proof induction
  case (opened w drivers files)
  then show ?case by (simp add: openSystem_def Let_def link_reachable.initial)
next
  case (frame sys inp)
  let ?rt = "snd (snapshotLink env (gy_link sys))"
  have "link_reachable env ?rt"
    by (rule link_reachable.stepped [OF frame.IH frame.hyps(2), of Snapshot]) simp
  moreover have "\<not> rt_terminated ?rt" using frame by (simp add: snapshotLink_def split: prod.splits)
  ultimately show ?case by (simp add: frameStep_def Let_def directCalls_reachable)
next
  case (task sys ts t us inp rt)
  have "link_reachable env rt" by (rule link_reachable.stepped [OF task.IH task.hyps(2,4)])
  then show ?case by simp
next
  case (activity sys ev rt)
  have "link_reachable env rt" by (rule link_reachable.stepped [OF activity.IH activity.hyps(2,4)])
  then show ?case by simp
qed

end
