(* ===== verification/Gui_Start.thy ===== *)
theory Gui_Start
  imports Gui_Props
begin

text \<open>
  What the window starts: every controller selected gets a route to the host shown for it, and
  that host is registered, so that no start of the window fails for an unknown host.
\<close>

section \<open>Hosts that are there\<close>

text \<open>After the checks at the beginning of a frame, every host named is registered.\<close>

definition hosts_ok :: "'h registry \<Rightarrow> gui_state \<Rightarrow> bool" where
  "hosts_ok reg g \<longleftrightarrow> isAvailable reg (lo_virtualControllerHostId (gs_linkOptions g)) \<and>
     (\<forall>c h. fmlookup (gs_controllerHostRoutes g) c = Some h \<longrightarrow> isAvailable reg h)"

lemma isAvailable_find:
  assumes "registry_inv reg"
  shows "isAvailable reg h \<longleftrightarrow> (\<exists>info. findVirtualControllerHost h reg = Some info)"
  using assms by (auto simp: isAvailable_def reg.find_available)

lemma isAvailable_nonempty: "registry_inv reg \<Longrightarrow> isAvailable reg h \<Longrightarrow> h \<noteq> []"
  by (auto simp: isAvailable_def registry_inv_def availableVirtualControllerHosts_def)

lemma checkDefaultHost_ok:
  assumes "registry_inv reg" "availableVirtualControllerHosts reg \<noteq> []"
  shows "isAvailable reg (lo_virtualControllerHostId (gs_linkOptions (checkDefaultHost reg g)))"
proof -
  from reg.default_exists [OF assms] obtain d where d: "defaultVirtualControllerHost reg = Some d" by blast
  with reg.default_available [OF assms(1)] have "isAvailable reg (hi_id d)" by (simp add: isAvailable_def)
  with d show ?thesis by (simp add: checkDefaultHost_def Let_def)
qed

lemma checkRoutes_ok:
  "fmlookup (gs_controllerHostRoutes (checkRoutes reg g)) c = Some h \<Longrightarrow> isAvailable reg h"
proof -
  let ?routes = "gs_controllerHostRoutes g"
  have "gs_controllerHostRoutes (checkRoutes reg g) = fmfilter (\<lambda>c. isAvailable reg (the (fmlookup ?routes c))) ?routes"
    by (simp add: checkRoutes_def saveRoutes_def Let_def)
  moreover assume "fmlookup (gs_controllerHostRoutes (checkRoutes reg g)) c = Some h"
  ultimately show ?thesis by (auto split: if_splits)
qed

lemma checkRoutes_options [simp]: "gs_linkOptions (checkRoutes reg g) = gs_linkOptions g"
  by (simp add: checkRoutes_def saveRoutes_def Let_def)

lemma checkEnabled_frame [simp]:
  "gs_linkOptions (checkEnabled sn g) = gs_linkOptions g"
  "gs_controllerHostRoutes (checkEnabled sn g) = gs_controllerHostRoutes g"
  by (simp_all add: checkEnabled_def saveEnabled_def Let_def)

lemma checks_hosts_ok:
  assumes "registry_inv reg" "availableVirtualControllerHosts reg \<noteq> []"
  shows "hosts_ok reg (checkEnabled sn (checkRoutes reg (checkDefaultHost reg g)))"
  using checkDefaultHost_ok [OF assms] checkRoutes_ok by (auto simp: hosts_ok_def)

lemma selectionChanged_frame [simp]:
  "gs_linkOptions (selectionChanged g) = gs_linkOptions g"
  "gs_controllerHostRoutes (selectionChanged g) = gs_controllerHostRoutes g"
  "gs_enabledControllers (selectionChanged g) = gs_enabledControllers g"
  "gs_files (selectionChanged g) = gs_files g"
  "gs_disabledControllerTypes (selectionChanged g) = gs_disabledControllerTypes g"
  by (simp_all add: selectionChanged_def call_def Let_def)

lemma discovery_sync_frame [simp]:
  "lo_virtualControllerHostId (gs_linkOptions (requestDiscoverySettingsSync sn g)) =
     lo_virtualControllerHostId (gs_linkOptions g)"
  "gs_controllerHostRoutes (requestDiscoverySettingsSync sn g) = gs_controllerHostRoutes g"
  "gs_enabledControllers (requestDiscoverySettingsSync sn g) = gs_enabledControllers g"
  "gs_disabledControllerTypes (requestDiscoverySettingsSync sn g) = gs_disabledControllerTypes g"
  "gs_files (requestDiscoverySettingsSync sn g) =
     (gs_files g)\<lparr>gf_disabledTypes := Some (saveDisabledControllerTypes (gs_disabledControllerTypes g))\<rparr>"
  by (simp_all add: requestDiscoverySettingsSync_def launchScan_def call_def Let_def)

lemma click_hosts_ok:
  assumes "hosts_ok reg g"
  shows "hosts_ok reg (click reg inp a g)"
  using assms
  by (cases a) (auto simp: hosts_ok_def clickRescan_def launchScan_def call_def clickBulk_def saveEnabled_def
      clickPower_def clickRoute_def saveRoutes_def chooseDefaultHost_def toggleType_def chooseDriver_def inWindow_def openWindow_def Let_def
      split: if_splits)

section \<open>Routes\<close>

lemma routes_lookup:
  fixes route :: "string \<Rightarrow> vc_route" and id :: string
  assumes "distinct ids" "id \<noteq> []" "\<And>c. vr_controllerId (route c) = c"
  shows "foldl (\<lambda>m r. if vr_controllerId r \<noteq> [] then m(vr_controllerId r \<mapsto> r) else m) m0
      (List.map_filter (\<lambda>c. if h c = [] then None else Some (route c)) ids) id =
    (if id \<in> set ids \<and> h id \<noteq> [] then Some (route id) else m0 id)"
  using assms(1)
proof (induction ids arbitrary: m0)
  case (Cons c ids)
  then show ?case using assms(2,3) by (auto simp: List.map_filter_def)
qed (simp add: List.map_filter_def)

lemma selected_route:
  fixes id :: string
  assumes "finite sel" "id \<noteq> []"
  shows "routesByControllerId (selectedRoutes g sel) id =
    (if id \<in> sel \<and> configuredHostId g id \<noteq> []
     then Some \<lparr>vr_controllerId = id, vr_hostId = configuredHostId g id, vr_hostInstanceKey = [],
       vr_options = lo_virtualControllerHostOptions (gs_linkOptions g)\<rparr> else None)"
  using routes_lookup [OF _ assms(2), of "sorted_list_of_set sel" "\<lambda>c. \<lparr>vr_controllerId = c,
      vr_hostId = configuredHostId g c, vr_hostInstanceKey = [],
      vr_options = lo_virtualControllerHostOptions (gs_linkOptions g)\<rparr>" Map.empty "configuredHostId g"] assms(1)
  by (simp add: routesByControllerId_def selectedRoutes_def)

lemma configuredHostId_ok: "hosts_ok reg g \<Longrightarrow> isAvailable reg (configuredHostId g c)"
  by (auto simp: hosts_ok_def configuredHostId_def split: option.split)

definition startOptions :: "gui_state \<Rightarrow> string set \<Rightarrow> link_options" where
  "startOptions g sel = (gs_linkOptions g)\<lparr>lo_virtualControllerRoutes := selectedRoutes g sel\<rparr>"

lemma startOptions_cong:
  assumes "gs_linkOptions g = gs_linkOptions g'" "gs_controllerHostRoutes g = gs_controllerHostRoutes g'"
  shows "configuredHostId g = configuredHostId g'" "startOptions g sel = startOptions g' sel"
proof -
  show c: "configuredHostId g = configuredHostId g'" unfolding configuredHostId_def assms ..
  show "startOptions g sel = startOptions g' sel" unfolding startOptions_def selectedRoutes_def c assms ..
qed

lemma no_route_unnamed: "routesByControllerId rs [] = None"
proof -
  have "foldl (\<lambda>m r. if vr_controllerId r \<noteq> [] then m(vr_controllerId r \<mapsto> r) else m) m rs [] = m []" for m
    by (induction rs arbitrary: m) auto
  then show ?thesis by (simp add: routesByControllerId_def)
qed

lemma fallback_ok:
  assumes "registry_inv (le_registry env)" "hosts_ok (le_registry env) g"
  shows "\<exists>info. fallbackHost env (startOptions g sel) = Some info"
  using assms isAvailable_find [OF assms(1)] isAvailable_nonempty [OF assms(1)]
  by (auto simp: fallbackHost_def startOptions_def hosts_ok_def)

lemma resolve_selected:
  fixes id :: string
  assumes reg: "registry_inv (le_registry env)" and "hosts_ok (le_registry env) g" "finite sel"
    and "id \<in> sel" "id \<noteq> []"
  shows "\<exists>info. resolveHost env (startOptions g sel)
      (routesByControllerId (lo_virtualControllerRoutes (startOptions g sel)) id) = Inr info \<and>
    hi_id info = configuredHostId g id"
proof -
  have av: "isAvailable (le_registry env) (configuredHostId g id)" by (rule configuredHostId_ok [OF assms(2)])
  then have ne: "configuredHostId g id \<noteq> []" by (rule isAvailable_nonempty [OF reg])
  from av obtain info where i: "findVirtualControllerHost (configuredHostId g id) (le_registry env) = Some info"
    using isAvailable_find [OF reg] by blast
  then have "hi_id info = configuredHostId g id" by (rule reg.find_id [OF reg])
  with i ne show ?thesis
    using selected_route [OF assms(3,5), of g] assms(4) by (simp add: startOptions_def resolveHost_def Let_def)
qed

lemma resolve_any:
  fixes id :: string
  assumes "registry_inv (le_registry env)" "hosts_ok (le_registry env) g" "finite sel" "id \<in> sel"
  shows "\<exists>info. resolveHost env (startOptions g sel)
      (routesByControllerId (lo_virtualControllerRoutes (startOptions g sel)) id) = Inr info"
proof (cases "id = []")
  case True
  from fallback_ok [OF assms(1,2)] obtain info where "fallbackHost env (startOptions g sel) = Some info" by blast
  with True show ?thesis by (simp add: no_route_unnamed resolveHost_def)
qed (use resolve_selected [OF assms] in blast)

lemma groupTargets_all:
  assumes "\<forall>t \<in> set ts. \<exists>info. resolveHost env opts (routesByControllerId (lo_virtualControllerRoutes opts) (ti_id (lt_info t))) = Inr info"
  shows "\<exists>groups. groupTargets env opts ts gs = Inr groups"
  using assms
proof (induction ts arbitrary: gs)
  case (Cons t ts)
  then obtain info where "resolveHost env opts (routesByControllerId (lo_virtualControllerRoutes opts) (ti_id (lt_info t))) = Inr info"
    by auto
  with Cons show ?case by (simp add: Let_def)
qed simp

section \<open>The start of a frame\<close>

lemma launches_selected:
  "StartTask opts sel \<in> set (launches (launchSelectedStart s g)) \<Longrightarrow>
     StartTask opts sel \<in> set (launches g) \<or> (s \<noteq> {} \<and> sel = s \<and> opts = startOptions g s)"
  by (auto simp: launchSelectedStart_def startOptions_def launches_def call_def List.map_filter_def split: if_splits)

lemma scan_no_start [simp]: "StartTask opts sel \<in> set (launches (launchScan g)) \<longleftrightarrow> StartTask opts sel \<in> set (launches g)"
  by (auto simp: launchScan_def launches_def call_def List.map_filter_def)

lemma stop_no_start [simp]: "StartTask opts sel \<in> set (launches (launchStop g)) \<longleftrightarrow> StartTask opts sel \<in> set (launches g)"
  by (auto simp: launchStop_def launches_def call_def List.map_filter_def)

lemma sync_no_start [simp]:
  "StartTask opts sel \<in> set (launches (requestDiscoverySettingsSync sn g)) \<longleftrightarrow> StartTask opts sel \<in> set (launches g)"
  by (simp add: requestDiscoverySettingsSync_def Let_def)

lemma click_no_start:
  "StartTask opts sel \<in> set (launches (click reg inp a g)) \<longleftrightarrow> StartTask opts sel \<in> set (launches g)"
  by (cases a) (simp_all add: clickRescan_def clickBulk_def clickPower_def clickRoute_def chooseDefaultHost_def
      toggleType_def chooseDriver_def inWindow_def openWindow_def Let_def split: option.split)

lemma launch_frame [simp]:
  "gs_linkOptions (launchSelectedStart s g) = gs_linkOptions g"
  "gs_controllerHostRoutes (launchSelectedStart s g) = gs_controllerHostRoutes g"
  "gs_enabledControllers (launchSelectedStart s g) = gs_enabledControllers g"
  "gs_linkOptions (launchStop g) = gs_linkOptions g"
  "gs_controllerHostRoutes (launchStop g) = gs_controllerHostRoutes g"
  "gs_enabledControllers (launchStop g) = gs_enabledControllers g"
  by (simp_all add: launchSelectedStart_def launchStop_def call_def)

lemma schedule_frame [simp]:
  "gs_linkOptions (schedule sn g) = gs_linkOptions g"
  "gs_controllerHostRoutes (schedule sn g) = gs_controllerHostRoutes g"
  "gs_enabledControllers (schedule sn g) = gs_enabledControllers g"
  by (simp_all add: schedule_def Let_def)

lemma schedule_start:
  assumes "StartTask opts sel \<in> set (launches (schedule sn g))" "StartTask opts sel \<notin> set (launches g)"
  shows "sel \<noteq> {} \<and> sel = selectedLinkableIds sn g \<and> opts = startOptions g sel"
proof -
  let ?s = "selectedLinkableIds sn g" and ?g = "g\<lparr>gs_linkSyncPending := False\<rparr>"
  have "launches ?g = launches g" by simp
  with assms have "StartTask opts sel \<in> set (launches (launchSelectedStart ?s ?g))"
    by (simp add: schedule_def Let_def split: if_splits)
  from launches_selected [OF this] assms(2) have "?s \<noteq> {} \<and> sel = ?s \<and> opts = startOptions ?g ?s" by simp
  moreover have "startOptions ?g ?s = startOptions g ?s"
    by (rule startOptions_cong) simp_all
  ultimately show ?thesis by simp
qed

lemma finite_linkable [simp]: "finite (linkableIds sn)"
  by (simp add: linkableIds_def)

lemma frame_start:
  assumes reg: "registry_inv reg" "availableVirtualControllerHosts reg \<noteq> []"
    and s: "StartTask opts sel \<in> set (launches (guiFrame reg inp g))"
  shows "hosts_ok reg (guiFrame reg inp g) \<and> sel \<noteq> {} \<and> finite sel \<and>
    sel = linkableIds (gi_snapshot inp) \<inter> gs_enabledControllers (guiFrame reg inp g) \<and>
    opts = startOptions (guiFrame reg inp g) sel"
proof -
  let ?sn = "gi_snapshot inp"
  let ?g2 = "checkEnabled ?sn (checkRoutes reg (checkDefaultHost reg (collectFutures inp (g\<lparr>gs_calls := []\<rparr>))))"
  define g3 where "g3 = (case gi_action inp of None \<Rightarrow> ?g2 | Some a \<Rightarrow> click reg inp a ?g2)"
  have f: "guiFrame reg inp g = schedule ?sn g3" by (simp add: guiFrame_def g3_def Let_def)
  have "hosts_ok reg g3" using checks_hosts_ok [OF reg] by (simp add: click_hosts_ok g3_def split: option.split)
  then have ok: "hosts_ok reg (schedule ?sn g3)" by (simp add: hosts_ok_def)
  have "launches (g\<lparr>gs_calls := []\<rparr>) = []" by (simp add: launches_def List.map_filter_def)
  then have "launches ?g2 = []" by simp
  then have "StartTask opts sel \<notin> set (launches g3)" by (simp add: click_no_start g3_def split: option.split)
  from schedule_start [OF s [unfolded f] this]
  have st: "sel \<noteq> {}" "sel = selectedLinkableIds ?sn g3" "opts = startOptions g3 sel" by blast+
  from st(2) have "finite sel" by (simp add: selectedLinkableIds_def)
  moreover have "startOptions (schedule ?sn g3) sel = startOptions g3 sel" by (rule startOptions_cong) simp_all
  moreover have "sel = linkableIds ?sn \<inter> gs_enabledControllers (schedule ?sn g3)"
    using st(2) unfolding selectedLinkableIds_def schedule_frame .
  ultimately show ?thesis using ok st(1,3) unfolding f by (simp only: simp_thms)
qed

end
