(* ===== verification/Gui_Settings.thy ===== *)
theory Gui_Settings
  imports Gui_Start
begin

text \<open>
  The settings of the window and its files: after every frame, the files hold what the window
  holds, so that a window opened on them starts from the same settings.
\<close>

section \<open>What is loaded can be saved\<close>

lemma getlines_no_newline: "newline \<notin> set acc \<Longrightarrow> l \<in> set (getlines_acc acc s) \<Longrightarrow> newline \<notin> set l"
  by (induction acc s rule: getlines_acc.induct) (auto split: if_splits)

lemma trim_trimmed:
  assumes "trimSettingLine l \<noteq> []" "newline \<notin> set l"
  shows "trimmed (trimSettingLine l)"
proof -
  let ?d = "dropWhile isBlankChar l" and ?t = "trimSettingLine l"
  have t: "?t = rev (dropWhile isBlankChar (rev ?d))" by (simp add: trimSettingLine_def)
  have "\<not> isBlankChar (last ?t)"
    using assms(1) hd_dropWhile [of isBlankChar "rev ?d"] by (simp add: t last_rev)
  moreover have "\<not> isBlankChar (hd ?t)"
  proof -
    obtain u where u: "?d = ?t @ u"
      by (metis rev_append rev_rev_ident t takeWhile_dropWhile_id)
    with assms(1) have "?d \<noteq> []" "hd ?d = hd ?t" by auto
    then show ?thesis using hd_dropWhile [of isBlankChar l] by simp
  qed
  moreover have "set ?t \<subseteq> set l" unfolding t by (auto dest!: set_dropWhileD)
  ultimately show ?thesis using assms by (auto simp: trimmed_def)
qed

lemma settingLines_storable: "l \<in> set (settingLines file) \<Longrightarrow> storable l"
  using trim_trimmed getlines_no_newline [of "[]"]
  by (auto simp: settingLines_def storable_def getlines_def split: option.splits)

lemma find_index_split:
  "find_index (\<lambda>c. c = x) xs = Some i \<Longrightarrow> i < length xs \<and> x \<notin> set (take i xs)"
  by (induction xs arbitrary: i) (auto split: if_splits)

text \<open>Routes that the file can carry.\<close>

definition routes_storable :: "options_map \<Rightarrow> bool" where
  "routes_storable routes \<longleftrightarrow>
     (\<forall>c h. fmlookup routes c = Some h \<longrightarrow> storable c \<and> tab \<notin> set c \<and> trimmed h)"

lemma trim_subset: "set (trimSettingLine l) \<subseteq> set l"
  by (auto simp: trimSettingLine_def dest!: set_dropWhileD)

lemma trim_prefix_hd:
  assumes "storable l" "0 < i" "trimSettingLine (take i l) \<noteq> []"
  shows "hd (trimSettingLine (take i l)) = hd l"
proof -
  from assms obtain c cs where l: "l = c # cs" "\<not> isBlankChar c" by (cases l) (auto simp: storable_def trimmed_def)
  obtain k where i: "i = Suc k" using assms(2) by (cases i) auto
  let ?u = "dropWhile isBlankChar (rev (take k cs) @ [c])"
  have "?u \<noteq> []" "last ?u = c" using l(2) by (simp_all add: dropWhile_append)
  then show ?thesis by (simp add: trimSettingLine_def l i hd_rev)
qed

lemma parseRoute_storable:
  assumes "storable l" "parseRoute l = Some (c, h)"
  shows "storable c \<and> tab \<notin> set c \<and> trimmed h"
proof -
  from assms(2) obtain i where i: "find_index (\<lambda>c. c = tab) l = Some i"
    and c: "c = trimSettingLine (take i l)" "c \<noteq> []" and h: "h = trimSettingLine (drop (i + 1) l)" "h \<noteq> []"
    by (auto simp: parseRoute_def Let_def split: option.splits if_splits)
  have nl: "newline \<notin> set l" "hd l \<noteq> CHR ''#''" using assms(1) by (auto simp: storable_def trimmed_def)
  then have "newline \<notin> set (take i l)" "newline \<notin> set (drop (i + 1) l)"
    by (auto dest: in_set_takeD in_set_dropD)
  with c h trim_trimmed have "trimmed c" "trimmed h" by simp_all
  moreover have "i \<noteq> 0" using c by (cases i) (simp_all add: trimSettingLine_def)
  moreover have "tab \<notin> set c" using find_index_split [OF i] trim_subset [of "take i l"] c by auto
  ultimately show ?thesis using trim_prefix_hd [OF assms(1), of i] c nl by (simp add: storable_def)
qed

lemma loaded_routes_storable: "routes_storable (loadControllerHostRoutes file)"
proof -
  let ?step = "\<lambda>routes line. case parseRoute line of None \<Rightarrow> routes | Some (c, h) \<Rightarrow> fmupd c h routes"
  have "routes_storable (foldl ?step m ls)" if "\<forall>l \<in> set ls. storable l" "routes_storable m" for ls m
    using that
  proof (induction ls arbitrary: m)
    case (Cons l ls)
    have "routes_storable (?step m l)"
    proof (cases "parseRoute l")
      case (Some p)
      obtain c h where "p = (c, h)" by fastforce
      with Some Cons.prems parseRoute_storable [of l c h] show ?thesis
        by (auto simp: routes_storable_def split: if_splits)
    qed (use Cons.prems in simp)
    with Cons show ?case by simp
  qed simp
  from this [of "settingLines file" fmempty] show ?thesis
    using settingLines_storable [of _ "file"] by (simp add: loadControllerHostRoutes_def routes_storable_def)
qed

section \<open>The files hold the settings\<close>

definition enabled_saved :: "gui_state \<Rightarrow> bool" where
  "enabled_saved g \<longleftrightarrow> finite (gs_enabledControllers g) \<and> (\<forall>e \<in> gs_enabledControllers g. storable e) \<and>
     loadEnabledControllers (gf_enabled (gs_files g)) = gs_enabledControllers g"

definition routes_saved :: "gui_state \<Rightarrow> bool" where
  "routes_saved g \<longleftrightarrow> routes_storable (gs_controllerHostRoutes g) \<and>
     loadControllerHostRoutes (gf_routes (gs_files g)) = gs_controllerHostRoutes g"

definition loadedTypes :: "string option \<Rightarrow> string set" where
  "loadedTypes file = loadDisabledControllerTypes (lo_disabledControllerTypes default_options) file"

definition types_saved :: "gui_state \<Rightarrow> bool" where
  "types_saved g \<longleftrightarrow> finite (gs_disabledControllerTypes g) \<and> (\<forall>t \<in> gs_disabledControllerTypes g. storable t) \<and>
     loadedTypes (gf_disabledTypes (gs_files g)) = gs_disabledControllerTypes g"

text \<open>The default host: chosen in the window, or what a new window would start with.\<close>

definition checkedHost :: "'h registry \<Rightarrow> string \<Rightarrow> string" where
  "checkedHost reg hostId =
     (if hostId = [] \<or> \<not> isAvailable reg hostId
      then (case defaultVirtualControllerHost reg of Some info \<Rightarrow> hi_id info | None \<Rightarrow> []) else hostId)"

definition host_saved :: "'h registry \<Rightarrow> gui_state \<Rightarrow> bool" where
  "host_saved reg g \<longleftrightarrow>
     checkedHost reg (lo_virtualControllerHostId (gs_linkOptions g)) =
     checkedHost reg (startupHostId reg (gs_files g))"

lemma load_printed:
  assumes "finite S" "\<forall>e \<in> S. storable e"
  shows "set (settingLines (Some (printLines (sorted_list_of_set S)))) = S"
  using settingLines_print [of "sorted_list_of_set S"] assms by simp

lemma saveEnabled_saved:
  "finite (gs_enabledControllers g) \<Longrightarrow> \<forall>e \<in> gs_enabledControllers g. storable e \<Longrightarrow> enabled_saved (saveEnabled g)"
  using load_printed by (simp add: enabled_saved_def saveEnabled_def loadEnabledControllers_def saveEnabledControllers_def)

lemma saveRoutes_saved: "routes_storable (gs_controllerHostRoutes g) \<Longrightarrow> routes_saved (saveRoutes g)"
  using routes_roundtrip by (simp add: routes_saved_def saveRoutes_def routes_storable_def)

lemma sync_types_saved:
  "finite (gs_disabledControllerTypes g) \<Longrightarrow> \<forall>t \<in> gs_disabledControllerTypes g. storable t \<Longrightarrow>
     types_saved (requestDiscoverySettingsSync sn g)"
  using load_printed
  by (simp add: types_saved_def loadedTypes_def loadDisabledControllerTypes_def saveDisabledControllerTypes_def)

definition all_saved :: "'h registry \<Rightarrow> gui_state \<Rightarrow> bool" where
  "all_saved reg g \<longleftrightarrow> enabled_saved g \<and> routes_saved g \<and> types_saved g \<and> host_saved reg g"

text \<open>Only these fields matter.\<close>

lemma all_saved_cong:
  assumes "gs_enabledControllers g = gs_enabledControllers g'" "gs_controllerHostRoutes g = gs_controllerHostRoutes g'"
    "gs_disabledControllerTypes g = gs_disabledControllerTypes g'" "gs_files g = gs_files g'"
    "lo_virtualControllerHostId (gs_linkOptions g) = lo_virtualControllerHostId (gs_linkOptions g')"
  shows "all_saved reg g = all_saved reg g'"
  unfolding all_saved_def enabled_saved_def routes_saved_def types_saved_def host_saved_def assms ..

text \<open>Writing one file leaves the others.\<close>

lemma saved_frame [simp]:
  "routes_saved (saveEnabled g) = routes_saved g" "types_saved (saveEnabled g) = types_saved g"
  "host_saved reg (saveEnabled g) = host_saved reg g"
  "enabled_saved (saveRoutes g) = enabled_saved g" "types_saved (saveRoutes g) = types_saved g"
  "host_saved reg (saveRoutes g) = host_saved reg g"
  "enabled_saved (requestDiscoverySettingsSync sn g) = enabled_saved g"
  "routes_saved (requestDiscoverySettingsSync sn g) = routes_saved g"
  "host_saved reg (requestDiscoverySettingsSync sn g) = host_saved reg g"
  by (simp_all add: routes_saved_def types_saved_def enabled_saved_def host_saved_def saveEnabled_def
      saveRoutes_def startupHostId_def)

lemma saved_update [simp]:
  "routes_saved (g\<lparr>gs_enabledControllers := e\<rparr>) = routes_saved g"
  "types_saved (g\<lparr>gs_enabledControllers := e\<rparr>) = types_saved g"
  "host_saved reg (g\<lparr>gs_enabledControllers := e\<rparr>) = host_saved reg g"
  "enabled_saved (g\<lparr>gs_controllerHostRoutes := r\<rparr>) = enabled_saved g"
  "types_saved (g\<lparr>gs_controllerHostRoutes := r\<rparr>) = types_saved g"
  "host_saved reg (g\<lparr>gs_controllerHostRoutes := r\<rparr>) = host_saved reg g"
  "enabled_saved (g\<lparr>gs_disabledControllerTypes := d\<rparr>) = enabled_saved g"
  "routes_saved (g\<lparr>gs_disabledControllerTypes := d\<rparr>) = routes_saved g"
  "host_saved reg (g\<lparr>gs_disabledControllerTypes := d\<rparr>) = host_saved reg g"
  by (simp_all add: routes_saved_def types_saved_def enabled_saved_def host_saved_def)


section \<open>Every frame keeps them\<close>

text \<open>Identifiers the files can carry.\<close>

definition storable_input :: "gui_input \<Rightarrow> bool" where
  "storable_input inp \<longleftrightarrow>
     (\<forall>c \<in> set (sn_discovered (gi_snapshot inp)). storable (dc_id c) \<and> tab \<notin> set (dc_id c)) \<and>
     (\<forall>t \<in> set (gi_managerTypes inp). t \<noteq> [] \<longrightarrow> storable t)"

definition storable_registry :: "'h registry \<Rightarrow> bool" where
  "storable_registry reg \<longleftrightarrow> registry_inv reg \<and>
     (\<forall>info \<in> set (availableVirtualControllerHosts reg). trimmed (hi_id info))"

lemma available_trimmed: "storable_registry reg \<Longrightarrow> isAvailable reg h \<Longrightarrow> trimmed h"
  by (auto simp: storable_registry_def isAvailable_def)

lemma checkedHost_idem:
  assumes "registry_inv reg"
  shows "checkedHost reg (checkedHost reg h) = checkedHost reg h"
proof -
  have "isAvailable reg (hi_id d)" if "defaultVirtualControllerHost reg = Some d" for d
    using reg.default_available [OF assms that] by (simp add: isAvailable_def)
  then show ?thesis by (auto simp: checkedHost_def split: option.split)
qed

lemma checkDefaultHost_saved:
  assumes "registry_inv reg" "all_saved reg g"
  shows "all_saved reg (checkDefaultHost reg g)"
proof -
  have "lo_virtualControllerHostId (gs_linkOptions (checkDefaultHost reg g)) =
      checkedHost reg (lo_virtualControllerHostId (gs_linkOptions g))"
    by (simp add: checkDefaultHost_def checkedHost_def Let_def)
  with assms checkedHost_idem [OF assms(1)] show ?thesis
    by (simp add: all_saved_def host_saved_def enabled_saved_def routes_saved_def types_saved_def checkDefaultHost_def Let_def)
qed

lemma checkRoutes_saved:
  assumes "all_saved reg g"
  shows "all_saved reg (checkRoutes reg g)"
proof -
  let ?kept = "fmfilter (\<lambda>c. isAvailable reg (the (fmlookup (gs_controllerHostRoutes g) c))) (gs_controllerHostRoutes g)"
  have "routes_storable ?kept" using assms by (auto simp: all_saved_def routes_saved_def routes_storable_def split: if_splits)
  then have "routes_saved (saveRoutes (g\<lparr>gs_controllerHostRoutes := ?kept\<rparr>))" by (intro saveRoutes_saved) simp
  with assms show ?thesis by (auto simp: all_saved_def checkRoutes_def Let_def)
qed

lemma checkEnabled_saved:
  assumes "all_saved reg g"
  shows "all_saved reg (checkEnabled sn g)"
proof -
  let ?kept = "gs_enabledControllers g \<inter> linkableIds sn"
  have "enabled_saved (saveEnabled (g\<lparr>gs_enabledControllers := ?kept\<rparr>))"
    by (intro saveEnabled_saved) (use assms in \<open>auto simp: all_saved_def enabled_saved_def\<close>)
  with assms show ?thesis by (auto simp: all_saved_def checkEnabled_def Let_def)
qed

lemma linkable_storable: "storable_input inp \<Longrightarrow> e \<in> linkableIds (gi_snapshot inp) \<Longrightarrow> storable e"
  by (auto simp: storable_input_def linkableIds_def)

lemma clickRescan_saved [simp]: "all_saved reg (clickRescan sn g) = all_saved reg g"
  by (rule all_saved_cong) (simp_all add: clickRescan_def launchScan_def call_def)

lemma clickBulk_saved:
  assumes "all_saved reg g" "storable_input inp"
  shows "all_saved reg (clickBulk (gi_snapshot inp) g)"
proof -
  let ?g = "g\<lparr>gs_enabledControllers := if allControllersRunning (gi_snapshot inp) then {} else linkableIds (gi_snapshot inp)\<rparr>"
  have "enabled_saved (saveEnabled ?g)"
    using linkable_storable [OF assms(2)] by (intro saveEnabled_saved) auto
  with assms(1) have "all_saved reg (saveEnabled ?g)" by (simp add: all_saved_def)
  moreover have "all_saved reg ((saveEnabled ?g)\<lparr>gs_linkSyncPending := True\<rparr>) = all_saved reg (saveEnabled ?g)"
    by (rule all_saved_cong) simp_all
  ultimately show ?thesis using assms(1) by (auto simp: clickBulk_def)
qed

lemma selectionChanged_saved [simp]: "all_saved reg (selectionChanged g) = all_saved reg g"
  by (rule all_saved_cong) simp_all

lemma clickPower_saved:
  assumes "all_saved reg g" "storable_input inp"
  shows "all_saved reg (clickPower (gi_snapshot inp) c g)"
proof -
  let ?E = "gs_enabledControllers g"
  let ?g = "g\<lparr>gs_enabledControllers := if c \<in> ?E then ?E - {c} else insert c ?E\<rparr>"
  have "enabled_saved (saveEnabled ?g)" if "c \<in> linkableIds (gi_snapshot inp)"
    using linkable_storable [OF assms(2) that] assms(1) by (intro saveEnabled_saved) (auto simp: all_saved_def enabled_saved_def)
  with assms(1) show ?thesis by (simp add: clickPower_def all_saved_def [of reg "saveEnabled x" for x] Let_def)
    (simp add: all_saved_def)
qed

lemma clickRoute_saved:
  assumes "all_saved reg g" "storable_input inp" "storable_registry reg"
  shows "all_saved reg (clickRoute reg (gi_snapshot inp) c host g)"
proof -
  have new: "all_saved reg (saveRoutes (g\<lparr>gs_controllerHostRoutes := r\<rparr>))" if "routes_storable r" for r
    using saveRoutes_saved [of "g\<lparr>gs_controllerHostRoutes := r\<rparr>"] that assms(1) by (simp add: all_saved_def)
  have old: "routes_storable (gs_controllerHostRoutes g)" using assms(1) by (simp add: all_saved_def routes_saved_def)
  then have drop: "routes_storable (fmdrop c (gs_controllerHostRoutes g))" by (simp add: routes_storable_def)
  have upd: "routes_storable (fmupd c h (gs_controllerHostRoutes g))"
    if "c \<in> dc_id ` set (sn_discovered (gi_snapshot inp))" "isAvailable reg h" for h
    using that old assms(2) available_trimmed [OF assms(3)] by (auto simp: routes_storable_def storable_input_def)
  show ?thesis using assms(1) new [OF drop] new [OF upd] by (simp add: clickRoute_def Let_def split: option.split)
qed

lemma load_host: "trimmed h \<Longrightarrow> loadDefaultVirtualControllerHostId (Some (saveDefaultVirtualControllerHostId h)) = h"
  using getlines_print [of "[h]"]
  by (simp add: loadDefaultVirtualControllerHostId_def saveDefaultVirtualControllerHostId_def trimmed_def trimSettingLine_id)

lemma chooseDefaultHost_saved:
  assumes "all_saved reg g" "storable_registry reg"
  shows "all_saved reg (chooseDefaultHost reg h g)"
proof -
  have "startupHostId reg (files\<lparr>gf_defaultHost := Some (saveDefaultVirtualControllerHostId h)\<rparr>) = h"
    if "isAvailable reg h" for files
    using available_trimmed [OF assms(2) that] load_host by (simp add: startupHostId_def trimmed_def)
  with assms(1) show ?thesis
    by (simp add: chooseDefaultHost_def all_saved_def enabled_saved_def routes_saved_def types_saved_def host_saved_def)
qed

lemma types_all_saved:
  assumes "all_saved reg g" "finite d" "\<forall>t \<in> d. storable t"
  shows "all_saved reg (requestDiscoverySettingsSync sn (g\<lparr>gs_disabledControllerTypes := d\<rparr>))"
  using assms sync_types_saved [of "g\<lparr>gs_disabledControllerTypes := d\<rparr>"] by (simp add: all_saved_def)

lemma sync_all_saved:
  assumes "all_saved reg g"
  shows "all_saved reg (requestDiscoverySettingsSync sn g)"
  using assms sync_types_saved [of g] by (simp add: all_saved_def types_saved_def)

lemma inWindow_saved: "all_saved reg g \<Longrightarrow> all_saved reg g' \<Longrightarrow> all_saved reg (inWindow w g g')"
  by (simp add: inWindow_def)

lemma windows_saved [simp]: "all_saved reg (g\<lparr>gs_windows := w\<rparr>) = all_saved reg g"
  by (rule all_saved_cong) simp_all

lemma click_saved:
  assumes "all_saved reg g" "storable_input inp" "storable_registry reg"
  shows "all_saved reg (click reg inp a g)"
proof (cases a)
  case (TypeToggled ty)
  let ?d = "gs_disabledControllerTypes g"
  have "finite ?d" "\<forall>t \<in> ?d. storable t" using assms(1) by (simp_all add: all_saved_def types_saved_def)
  moreover have "storable ty" if "ty \<noteq> []" "ty \<in> set (gi_managerTypes inp)" using that assms(2) by (simp add: storable_input_def)
  ultimately show ?thesis
    using TypeToggled assms(1) by (auto simp: toggleType_def Let_def intro!: types_all_saved inWindow_saved)
next
  case (DriverChosen ty d acc)
  have "all_saved reg (g\<lparr>gs_linkOptions := (gs_linkOptions g)\<lparr>lo_selectedControllerDrivers := x\<rparr>\<rparr>) = all_saved reg g" for x
    by (rule all_saved_cong) simp_all
  then show ?thesis using DriverChosen assms(1) by (simp add: chooseDriver_def sync_all_saved inWindow_saved)
qed (use assms in \<open>simp_all add: clickBulk_saved clickPower_saved clickRoute_saved chooseDefaultHost_saved
       types_all_saved sync_all_saved inWindow_saved openWindow_def\<close>)

lemma schedule_saved: "all_saved reg (schedule sn g) = all_saved reg g"
proof (rule all_saved_cong)
  show "gs_disabledControllerTypes (schedule sn g) = gs_disabledControllerTypes g" "gs_files (schedule sn g) = gs_files g"
    by (simp_all add: schedule_def launchSelectedStart_def launchStop_def call_def Let_def)
qed simp_all

lemma collect_saved: "all_saved reg (collectFutures inp (g\<lparr>gs_calls := []\<rparr>)) = all_saved reg g"
  by (rule all_saved_cong) (simp_all add: collectFutures_def Let_def)

lemma frame_saved:
  assumes "all_saved reg g" "storable_input inp" "storable_registry reg"
  shows "all_saved reg (guiFrame reg inp g)"
proof -
  have reg: "registry_inv reg" using assms(3) by (simp add: storable_registry_def)
  have "all_saved reg (checkEnabled (gi_snapshot inp) (checkRoutes reg (checkDefaultHost reg
      (collectFutures inp (g\<lparr>gs_calls := []\<rparr>)))))"
    by (intro checkEnabled_saved checkRoutes_saved checkDefaultHost_saved reg) (use assms(1) in \<open>simp add: collect_saved\<close>)
  with click_saved [OF _ assms(2,3)] show ?thesis
    by (simp add: guiFrame_def schedule_saved Let_def split: option.split)
qed

lemma open_saved:
  assumes "storable_registry reg"
  shows "all_saved reg (openGui reg drivers files)"
proof -
  let ?g = "openGui reg drivers files"
  have f: "gs_enabledControllers ?g = loadEnabledControllers (gf_enabled files)"
    "gs_controllerHostRoutes ?g = loadControllerHostRoutes (gf_routes files)"
    "gs_disabledControllerTypes ?g = loadedTypes (gf_disabledTypes files)"
    "lo_virtualControllerHostId (gs_linkOptions ?g) = startupHostId reg files" "gs_files ?g = files"
    by (simp_all add: openGui_def launchScan_def call_def loadedTypes_def Let_def)
  have "storable ''IDN''" by (simp add: storable_def trimmed_def isBlankChar_def)
  then have t: "\<forall>t \<in> loadedTypes (gf_disabledTypes files). storable t" "finite (loadedTypes (gf_disabledTypes files))"
    using settingLines_storable by (auto simp: loadedTypes_def loadDisabledControllerTypes_def default_options_def)
  show ?thesis
    unfolding all_saved_def enabled_saved_def routes_saved_def types_saved_def host_saved_def f
    using t loaded_routes_storable settingLines_storable by (simp add: loadEnabledControllers_def)
qed

text \<open>The window after a series of frames.\<close>

definition runFrames :: "'h registry \<Rightarrow> options_map \<Rightarrow> gui_files \<Rightarrow> gui_input list \<Rightarrow> gui_state" where
  "runFrames reg drivers files inps = fold (guiFrame reg) inps (openGui reg drivers files)"

lemma frames_saved:
  "all_saved reg g \<Longrightarrow> storable_registry reg \<Longrightarrow> \<forall>inp \<in> set inps. storable_input inp \<Longrightarrow>
     all_saved reg (fold (guiFrame reg) inps g)"
  by (induction inps arbitrary: g) (simp_all add: frame_saved)

end
