(* ===== verification/Libera_Session.thy ===== *)
theory Libera_Session
  imports Os_Api
begin

text \<open>
  The session half of \<open>virtual_controller/LiberaProtocolVirtualControllerHost.cpp\<close>: the options
  of the host, the conversion of points, the state of one protocol session and the handlers
  of its records. A handler returns whether the session goes on, what it did in order
  (\<open>lp_action\<close>) and the new session state.

  The record codec, the numeric codes of the protocol and its default ports belong to the
  libera-laser library: they are the parameter \<open>proto_lib\<close>, whose senders have the abstract
  type \<open>'s\<close>. Of a record its type and payload are represented: flags and sequence number are
  copied by the host and never read. Servers are built for targets with a sink only, so the
  null-sink exits are not represented.
\<close>

section \<open>Protocol data\<close>

datatype stream_mode = RawPointStream | FrameByCount | MarkedPointStream | OtherMode u8

datatype record_type =
    RecHello
  | RecReady
  | RecStreamConfig
  | RecSetScannerSync
  | RecFrameMarker
  | RecPoints
  | RecPing
  | RecClose
  | RecOther u16

datatype reject_code = MalformedHello | Busy
datatype endpoint_availability = Available | EndpointBusy

record record_header =
  rh_type :: record_type
  rh_payloadSize :: u32

record proto_record =
  pr_type :: record_type
  pr_payload :: "u8 list"

record hello =
  he_senderName :: string
  he_requestedStreamMode :: stream_mode
  he_requestedUserChannelCount :: u32
  he_defaultPointRate :: u32

record accept_msg =
  ac_acceptedStreamMode :: stream_mode
  ac_acceptedUserChannelCount :: u8
  ac_defaultPointRate :: u32
  ac_maxPointRate :: u32
  ac_maxFramePointCount :: u32
  ac_maxRecordPayloadSize :: u32
  ac_sessionId :: u64
  ac_featureFlags :: u32

record stream_config =
  sc_streamMode :: stream_mode
  sc_userChannelCount :: u32
  sc_defaultPointRate :: u32

record scanner_sync =
  sy_offsetNs :: int
  sy_enabled :: bool

record frame_marker =
  fm_framePointCount :: u32
  fm_pointRate :: u32
  fm_targetBeginTimeNs :: nanos

record point_sample =
  ps_x :: u16
  ps_y :: u16
  ps_r :: u16
  ps_g :: u16
  ps_b :: u16
  ps_i :: u16
  ps_user :: "u16 list"

record advertisement =
  ad_endpointId :: string
  ad_displayName :: string
  ad_endpointType :: string
  ad_address :: string
  ad_tcpPort :: u16
  ad_supportedStreamModes :: u32
  ad_availability :: endpoint_availability
  ad_maxUserChannelCount :: u8
  ad_minPointRate :: u32
  ad_maxPointRate :: u32
  ad_maxFramePointCount :: u32
  ad_featureFlags :: u32

text \<open>
  The library: a decoder gives \<open>Inl\<close> the error text or \<open>Inr\<close> the value; a sender makes bytes
  and changes (it numbers its records).
\<close>

record 's proto_lib =
  pl_sessionPort :: u16
  pl_discoveryPort :: u16
  pl_headerSize :: nat
  pl_featureTargetBeginTime :: u32
  pl_featureScannerSync :: u32
  pl_streamModeMask :: "stream_mode \<Rightarrow> u32"
  pl_decodeRecordHeader :: "u8 list \<Rightarrow> string + record_header"
  pl_decodeHello :: "u8 list \<Rightarrow> string + hello"
  pl_decodeStreamConfig :: "u8 list \<Rightarrow> string + stream_config"
  pl_decodeScannerSync :: "u8 list \<Rightarrow> string + scanner_sync"
  pl_decodeFrameMarker :: "u8 list \<Rightarrow> string + frame_marker"
  pl_decodePointSamples :: "u8 list \<Rightarrow> u8 \<Rightarrow> string + point_sample list"
  pl_readUInt64 :: "u8 list \<Rightarrow> u64"
  pl_newSender :: 's
  pl_setUserChannelCount :: "u8 \<Rightarrow> 's \<Rightarrow> 's"
  pl_makeAccept :: "accept_msg \<Rightarrow> 's \<Rightarrow> u8 list \<times> 's"
  pl_makeReject :: "reject_code \<Rightarrow> string \<Rightarrow> 's \<Rightarrow> u8 list \<times> 's"
  pl_makePong :: "u64 \<Rightarrow> 's \<Rightarrow> u8 list \<times> 's"
  pl_defaultPoint :: laser_point
  pl_encodeAdvertisement :: "advertisement \<Rightarrow> u8 list"

section \<open>Options\<close>

definition defaultMaxPointRate :: u32 where "defaultMaxPointRate = 100000"
definition defaultMinPointRate :: u32 where "defaultMinPointRate = 1000"
definition defaultMaxFramePoints :: u32 where "defaultMaxFramePoints = 300000"
definition defaultMaxRecordPayloadBytes :: u32 where "defaultMaxRecordPayloadBytes = 4 * 1024 * 1024"
definition defaultHandshakeTimeoutMs :: u32 where "defaultHandshakeTimeoutMs = 2000"
definition defaultSessionTimeoutMs :: u32 where "defaultSessionTimeoutMs = 1500"
definition maxConcurrentSockets :: nat where "maxConcurrentSockets = 32"
definition maxLaserPointUserChannels :: u8 where "maxLaserPointUserChannels = 2"

definition supportedFeatureFlags :: "'s proto_lib \<Rightarrow> u32" where
  "supportedFeatureFlags lib = pl_featureTargetBeginTime lib OR pl_featureScannerSync lib"

record proto_options =
  po_listenAddress :: string
  po_advertisedAddress :: string
  po_broadcastAddresses :: "string list"
  po_tcpPort :: u16
  po_discoveryPort :: u16
  po_broadcastIntervalMs :: u32
  po_minPointRate :: u32
  po_maxPointRate :: u32
  po_maxFramePoints :: u32
  po_maxRecordPayloadBytes :: u32
  po_handshakeTimeoutMs :: u32
  po_sessionTimeoutMs :: u32
  po_maxUserChannels :: u8
  po_discoveryEnabled :: bool

definition makeHostOptions :: "'s proto_lib \<Rightarrow> host_config \<Rightarrow> proto_options" where
  "makeHostOptions lib config =
     (let listenAddress = optionString config ''listen_address'' ''0.0.0.0'';
          advertisedAddress = optionString config ''advertised_address'' [];
          minPointRate = max 1 (optionU32 config ''min_point_rate'' defaultMinPointRate);
          broadcastAddresses = splitCsv (optionString config ''broadcast_addresses'' []);
          discovery = optionString config ''discovery'' ''true''
      in \<lparr>po_listenAddress = listenAddress,
          po_advertisedAddress =
            (if advertisedAddress = [] \<and> listenAddress \<noteq> ''0.0.0.0'' then listenAddress else advertisedAddress),
          po_broadcastAddresses =
            (if broadcastAddresses \<noteq> [] then broadcastAddresses else [''255.255.255.255'']),
          po_tcpPort = optionU16 config ''tcp_port'' (pl_sessionPort lib),
          po_discoveryPort = optionU16 config ''discovery_port'' (pl_discoveryPort lib),
          po_broadcastIntervalMs = max 100 (optionU32 config ''broadcast_interval_ms'' 500),
          po_minPointRate = minPointRate,
          po_maxPointRate = max minPointRate (optionU32 config ''max_point_rate'' defaultMaxPointRate),
          po_maxFramePoints = max 1 (optionU32 config ''max_frame_points'' defaultMaxFramePoints),
          po_maxRecordPayloadBytes =
            max 1024 (optionU32 config ''max_record_payload_bytes'' defaultMaxRecordPayloadBytes),
          po_handshakeTimeoutMs = max 100 (optionU32 config ''handshake_timeout_ms'' defaultHandshakeTimeoutMs),
          po_sessionTimeoutMs = max 250 (optionU32 config ''session_timeout_ms'' defaultSessionTimeoutMs),
          po_maxUserChannels = ucast (min (ucast maxLaserPointUserChannels)
            (optionU32 config ''max_user_channels'' (ucast maxLaserPointUserChannels))),
          po_discoveryEnabled =
            \<not> (discovery = ''0'' \<or> discovery = ''false'' \<or> discovery = ''off'' \<or> discovery = ''no'')\<rparr>)"

section \<open>Points\<close>

definition coordFromProtocol :: "u16 \<Rightarrow> rat" where
  "coordFromProtocol w =
     (let v = sint w in
      if v = - 32768 then - 1 else std_clamp (f32 (of_int v / 32767)) (- 1) 1)"

definition channelFromProtocol :: "u16 \<Rightarrow> rat" where
  "channelFromProtocol w = f32 (of_nat (unat w) / 65535)"

text \<open>The user channels a sample does not have stay as the default point has them.\<close>

definition toLaserPoint :: "'s proto_lib \<Rightarrow> point_sample \<Rightarrow> laser_point" where
  "toLaserPoint lib s =
     (let out = (pl_defaultPoint lib)
            \<lparr>lp_x := coordFromProtocol (ps_x s), lp_y := coordFromProtocol (ps_y s),
             lp_r := channelFromProtocol (ps_r s), lp_g := channelFromProtocol (ps_g s),
             lp_b := channelFromProtocol (ps_b s), lp_i := channelFromProtocol (ps_i s)\<rparr>;
          out1 = (if ps_user s \<noteq> [] then out\<lparr>lp_u1 := channelFromProtocol (ps_user s ! 0)\<rparr> else out)
      in if 1 < length (ps_user s) then out1\<lparr>lp_u2 := channelFromProtocol (ps_user s ! 1)\<rparr> else out1)"

definition toLaserPoints :: "'s proto_lib \<Rightarrow> point_sample list \<Rightarrow> laser_point list" where
  "toLaserPoints lib samples = map (toLaserPoint lib) samples"

definition pointDurationUs :: "nat \<Rightarrow> u32 \<Rightarrow> u32" where
  "pointDurationUs pointCount pointRate =
     (if pointCount = 0 \<or> pointRate = 0 then 0
      else let duration = f64 (f64 (1000000 * f64 (of_nat pointCount)) / of_nat (unat pointRate))
           in if duration \<le> 0 then 0 else word_of_int (llround duration))"

section \<open>Names of endpoints\<close>

definition targetEndpointId :: "target_info \<Rightarrow> nat \<Rightarrow> string" where
  "targetEndpointId info index =
     (if ti_id info \<noteq> [] then ti_id info
      else if ti_label info \<noteq> [] then ti_label info
      else ''target-'' @ to_string (index + 1))"

definition targetDisplayName :: "target_info \<Rightarrow> nat \<Rightarrow> string" where
  "targetDisplayName info index =
     (let name = (if ti_label info \<noteq> [] then ti_label info
                  else if ti_id info \<noteq> [] then ti_id info
                  else ''Libera target '' @ to_string (index + 1))
      in if take 5 name = ''LL - '' then name else ''LL - '' @ name)"

definition acceptedMode :: "stream_mode \<Rightarrow> stream_mode" where
  "acceptedMode requested =
     (if requested = FrameByCount \<or> requested = MarkedPointStream then FrameByCount
      else RawPointStream)"

section \<open>The state of a session\<close>

record pending_frame =
  pf_marker :: frame_marker
  pf_points :: "laser_point list"
  pf_targetBeginTime :: "nanos option"

record 's session_state =
  se_sender :: 's
  se_streamMode :: stream_mode
  se_userChannelCount :: u8
  se_pointRate :: u32
  se_sessionStartedAt :: nanos
  se_pendingFrame :: "pending_frame option"

definition newSessionState :: "'s proto_lib \<Rightarrow> nanos \<Rightarrow> 's session_state" where
  "newSessionState lib now = \<lparr>se_sender = pl_newSender lib, se_streamMode = RawPointStream,
     se_userChannelCount = 0, se_pointRate = 30000, se_sessionStartedAt = now, se_pendingFrame = None\<rparr>"

text \<open>What a session reads of its server, which stays the same as long as the server lives.\<close>

record server_config =
  sv_info :: target_info
  sv_options :: proto_options
  sv_tcpPort :: u16
  sv_index :: nat

definition effectiveMaxPointRate :: "('a) server_config_scheme \<Rightarrow> u32" where
  "effectiveMaxPointRate sv =
     (let targetMax = (if 0 < ti_maxPointRate (sv_info sv) then ti_maxPointRate (sv_info sv)
                       else po_maxPointRate (sv_options sv))
      in max 1 (min targetMax (po_maxPointRate (sv_options sv))))"

definition effectiveMinPointRate :: "('a) server_config_scheme \<Rightarrow> u32" where
  "effectiveMinPointRate sv = min (po_minPointRate (sv_options sv)) (effectiveMaxPointRate sv)"

definition clampRate :: "('a) server_config_scheme \<Rightarrow> u32 \<Rightarrow> u32" where
  "clampRate sv rate = std_clamp rate (effectiveMinPointRate sv) (effectiveMaxPointRate sv)"

definition limitChannels :: "('a) server_config_scheme \<Rightarrow> u32 \<Rightarrow> u8" where
  "limitChannels sv count = ucast (min (ucast (po_maxUserChannels (sv_options sv))) count)"

datatype lp_log =
    ConnectionLimit
  | SessionAccepted string
  | BusyRejected string nat
  | SessionEnded string

datatype lp_action =
    LpSend "u8 list"
  | LpSink sink_call
  | LpLog lp_log

type_synonym 's handled = "bool \<times> lp_action list \<times> 's session_state"

section \<open>Handlers of records\<close>

definition handleStreamConfig ::
  "'s proto_lib \<Rightarrow> ('a) server_config_scheme \<Rightarrow> proto_record \<Rightarrow> 's session_state \<Rightarrow> 's handled" where
  "handleStreamConfig lib sv rec state =
     (case pl_decodeStreamConfig lib (pr_payload rec) of
        Inl err \<Rightarrow> (False, [], state)
      | Inr config \<Rightarrow>
          let channels = limitChannels sv (sc_userChannelCount config);
              state1 = state\<lparr>se_streamMode := acceptedMode (sc_streamMode config),
                             se_userChannelCount := channels,
                             se_sender := pl_setUserChannelCount lib channels (se_sender state)\<rparr>;
              state2 = (if sc_defaultPointRate config \<noteq> 0
                        then state1\<lparr>se_pointRate := clampRate sv (sc_defaultPointRate config)\<rparr>
                        else state1)
          in (True, [], state2\<lparr>se_pendingFrame := None\<rparr>))"

definition handleScannerSync ::
  "'s proto_lib \<Rightarrow> proto_record \<Rightarrow> 's session_state \<Rightarrow> 's handled" where
  "handleScannerSync lib rec state =
     (case pl_decodeScannerSync lib (pr_payload rec) of
        Inl err \<Rightarrow> (False, [], state)
      | Inr sync \<Rightarrow> (True, [LpSink (SetScannerSync (sy_offsetNs sync) (sy_enabled sync))], state))"

definition handleFrameMarker ::
  "'s proto_lib \<Rightarrow> ('a) server_config_scheme \<Rightarrow> proto_record \<Rightarrow> 's session_state \<Rightarrow> 's handled" where
  "handleFrameMarker lib sv rec state =
     (case pl_decodeFrameMarker lib (pr_payload rec) of
        Inl err \<Rightarrow> (False, [], state)
      | Inr marker \<Rightarrow>
          if fm_framePointCount marker = 0 \<or> po_maxFramePoints (sv_options sv) < fm_framePointCount marker
          then (False, [], state)
          else if se_streamMode state \<noteq> FrameByCount \<or> se_pendingFrame state \<noteq> None
          then (False, [], state)
          else
            let begin_time = (if fm_targetBeginTimeNs marker \<noteq> 0
                              then Some (se_sessionStartedAt state + fm_targetBeginTimeNs marker) else None);
                state1 = state\<lparr>se_pendingFrame := Some \<lparr>pf_marker = marker, pf_points = [],
                                                       pf_targetBeginTime = begin_time\<rparr>\<rparr>
            in (True, [], if fm_pointRate marker \<noteq> 0
                          then state1\<lparr>se_pointRate := clampRate sv (fm_pointRate marker)\<rparr> else state1))"

definition submitContinuousPoints :: "laser_point list \<Rightarrow> u32 \<Rightarrow> lp_action list" where
  "submitContinuousPoints points pointRate =
     (if points = [] then []
      else [LpSink (SubmitContinuous \<lparr>sl_points = points,
              sl_durationUs = pointDurationUs (length points) pointRate,
              sl_effectivePointRate = Some pointRate, sl_discontinuous = False\<rparr>)])"

definition submitPendingFrame ::
  "('a) server_config_scheme \<Rightarrow> 's session_state \<Rightarrow> lp_action list \<times> 's session_state" where
  "submitPendingFrame sv state =
     (case se_pendingFrame state of
        None \<Rightarrow> ([], state)
      | Some pending \<Rightarrow>
          let state1 = state\<lparr>se_pendingFrame := None\<rparr> in
          if pf_points pending = [] then ([], state1)
          else
            let pointRate = (if fm_pointRate (pf_marker pending) \<noteq> 0
                             then clampRate sv (fm_pointRate (pf_marker pending)) else se_pointRate state);
                slice = \<lparr>sl_points = pf_points pending,
                         sl_durationUs = pointDurationUs (length (pf_points pending)) pointRate,
                         sl_effectivePointRate = Some pointRate, sl_discontinuous = False\<rparr>
            in ([LpSink (SubmitFrame \<lparr>fs_slices = [slice], fs_effectivePointRate = Some pointRate,
                   fs_targetBeginTime = pf_targetBeginTime pending,
                   fs_clearTransportPrefetch = False\<rparr>)], state1))"

definition appendFramePoints ::
  "('a) server_config_scheme \<Rightarrow> laser_point list \<Rightarrow> 's session_state \<Rightarrow> 's handled" where
  "appendFramePoints sv points state =
     (case se_pendingFrame state of
        None \<Rightarrow> (False, [], state)
      | Some pending \<Rightarrow>
          let expected = unat (fm_framePointCount (pf_marker pending)) in
          if expected = 0 \<or> expected < length (pf_points pending) \<or>
             expected - length (pf_points pending) < length points
          then (False, [], state)
          else
            let pending1 = pending\<lparr>pf_points := pf_points pending @ points\<rparr>;
                state1 = state\<lparr>se_pendingFrame := Some pending1\<rparr>
            in if length (pf_points pending1) = expected
               then (True, submitPendingFrame sv state1) else (True, [], state1))"

definition handlePoints ::
  "'s proto_lib \<Rightarrow> ('a) server_config_scheme \<Rightarrow> proto_record \<Rightarrow> 's session_state \<Rightarrow> 's handled" where
  "handlePoints lib sv rec state =
     (case pl_decodePointSamples lib (pr_payload rec) (se_userChannelCount state) of
        Inl err \<Rightarrow> (False, [], state)
      | Inr samples \<Rightarrow>
          let points = toLaserPoints lib samples in
          if se_pendingFrame state \<noteq> None then appendFramePoints sv points state
          else if se_streamMode state = FrameByCount then (False, [], state)
          else (True, submitContinuousPoints points (se_pointRate state), state))"

text \<open>\<open>wrote\<close>: whether \<open>writeBytes\<close> could write the pong.\<close>

definition handlePing ::
  "'s proto_lib \<Rightarrow> bool \<Rightarrow> proto_record \<Rightarrow> 's session_state \<Rightarrow> 's handled" where
  "handlePing lib wrote rec state =
     (if length (pr_payload rec) = 8
      then case pl_makePong lib (pl_readUInt64 lib (pr_payload rec)) (se_sender state) of
             (bytes, sender) \<Rightarrow> (wrote, [LpSend bytes], state\<lparr>se_sender := sender\<rparr>)
      else (False, [], state))"

definition handleRecord ::
  "'s proto_lib \<Rightarrow> ('a) server_config_scheme \<Rightarrow> bool \<Rightarrow> proto_record \<Rightarrow> 's session_state \<Rightarrow> 's handled" where
  "handleRecord lib sv wrote rec state =
     (case pr_type rec of
        RecStreamConfig \<Rightarrow> handleStreamConfig lib sv rec state
      | RecSetScannerSync \<Rightarrow> handleScannerSync lib rec state
      | RecFrameMarker \<Rightarrow> handleFrameMarker lib sv rec state
      | RecPoints \<Rightarrow> handlePoints lib sv rec state
      | RecPing \<Rightarrow> handlePing lib wrote rec state
      | RecClose \<Rightarrow> (False, [], state)
      | _ \<Rightarrow> (True, [], state))"

end
