(* ===== verification/Libera_Wire.thy ===== *)
theory Libera_Wire
  imports Libera_Session
begin

text \<open>
  Reading and writing on the non-blocking socket of a session: \<open>readExact\<close>, \<open>readRecord\<close> and
  \<open>writeBytes\<close> of \<open>LiberaProtocolVirtualControllerHost.cpp\<close>.

  The bytes the client sends are a list; how the network delivers them is a schedule, one
  entry per pass of a loop: the server's running flag at the loop test, what the socket call
  came to, and the time read after it. A reader consumes a prefix of both and has no result
  (\<open>None\<close>) when the schedule ends while it still waits. The lemmas show that what is read
  does not depend on the schedule.
\<close>

datatype io_outcome =
    Transferred nat
  | WouldBlock
  | IoFailed string

record io_pass =
  io_running :: bool
  io_outcome :: io_outcome
  io_now :: nanos

type_synonym 'r io_result = "((string + 'r) \<times> io_pass list \<times> u8 list) option"

section \<open>Readers\<close>

text \<open>The deadline starts at the reader's call and moves with every byte received.\<close>

fun readExact ::
  "nat \<Rightarrow> nanos \<Rightarrow> nanos \<Rightarrow> u8 list \<Rightarrow> io_pass list \<Rightarrow> u8 list \<Rightarrow> u8 list io_result" where
  "readExact len idleTimeout deadline got [] stream =
     (if length got < len then None else Some (Inr got, [], stream))"
| "readExact len idleTimeout deadline got (p # ps) stream =
     (if \<not> length got < len then Some (Inr got, p # ps, stream)
      else if \<not> io_running p then Some (Inl ''server stopped'', ps, stream)
      else (case io_outcome p of
          Transferred n \<Rightarrow>
            (let received = take (min n (len - length got)) stream in
             if received = [] then Some (Inl ''connection closed'', ps, stream)
             else readExact len idleTimeout (io_now p + idleTimeout) (got @ received) ps
                    (drop (length received) stream))
        | IoFailed message \<Rightarrow> Some (Inl message, ps, stream)
        | WouldBlock \<Rightarrow>
            (if deadline \<le> io_now p then Some (Inl ''session inactivity timeout'', ps, stream)
             else readExact len idleTimeout deadline got ps stream)))"

text \<open>\<open>now1\<close> and \<open>now2\<close> are the times at which the two parts start.\<close>

definition readRecord ::
  "'s proto_lib \<Rightarrow> proto_options \<Rightarrow> nanos \<Rightarrow> nanos \<Rightarrow> nanos \<Rightarrow> io_pass list \<Rightarrow> u8 list \<Rightarrow>
   proto_record io_result" where
  "readRecord lib options idleTimeout now1 now2 ps stream =
     (case readExact (pl_headerSize lib) idleTimeout (now1 + idleTimeout) [] ps stream of
        None \<Rightarrow> None
      | Some (Inl err, ps1, stream1) \<Rightarrow> Some (Inl err, ps1, stream1)
      | Some (Inr headerBytes, ps1, stream1) \<Rightarrow>
          (case pl_decodeRecordHeader lib headerBytes of
             Inl err \<Rightarrow> Some (Inl err, ps1, stream1)
           | Inr header \<Rightarrow>
               if po_maxRecordPayloadBytes options < rh_payloadSize header
               then Some (Inl ''Libera protocol record payload exceeds configured limit.'', ps1, stream1)
               else if rh_payloadSize header = 0
               then Some (Inr \<lparr>pr_type = rh_type header, pr_payload = []\<rparr>, ps1, stream1)
               else (case readExact (unat (rh_payloadSize header)) idleTimeout (now2 + idleTimeout) [] ps1 stream1 of
                    None \<Rightarrow> None
                  | Some (Inl err, ps2, stream2) \<Rightarrow> Some (Inl err, ps2, stream2)
                  | Some (Inr payload, ps2, stream2) \<Rightarrow>
                      Some (Inr \<lparr>pr_type = rh_type header, pr_payload = payload\<rparr>, ps2, stream2))))"

text \<open>The bytes written, and whether all were; the deadline does not move.\<close>

fun writeBytes :: "u8 list \<Rightarrow> nanos \<Rightarrow> u8 list \<Rightarrow> io_pass list \<Rightarrow> (bool \<times> u8 list) option" where
  "writeBytes bytes deadline written [] =
     (if length written < length bytes then None else Some (True, written))"
| "writeBytes bytes deadline written (p # ps) =
     (if \<not> length written < length bytes then Some (True, written)
      else if \<not> io_running p then Some (False, written)
      else (case io_outcome p of
          Transferred n \<Rightarrow>
            (let sent = take n (drop (length written) bytes) in
             if sent = [] then Some (False, written)
             else writeBytes bytes deadline (written @ sent) ps)
        | IoFailed message \<Rightarrow> Some (False, written)
        | WouldBlock \<Rightarrow>
            (if deadline \<le> io_now p then Some (False, written)
             else writeBytes bytes deadline written ps)))"

section \<open>What is read does not depend on the schedule\<close>

lemma take_drop_length: "take k xs @ drop (length (take k xs)) xs = xs"
  by (cases "k \<le> length xs") (simp_all add: min_absorb2 min_absorb1)

lemma readExact_ok:
  "readExact len idle dl got ps stream = Some (Inr bytes, ps', stream') \<Longrightarrow> length got \<le> len \<Longrightarrow>
     \<exists>read. bytes = got @ read \<and> length bytes = len \<and> stream = read @ stream'"
proof (induction len idle dl got ps stream rule: readExact.induct)
  case (1 len idle dl got stream)
  then show ?case by (auto split: if_splits)
next
  case (2 len idle dl got p ps stream)
  show ?case
  proof (cases "length got < len \<and> io_running p")
    case False
    with 2 show ?thesis by (auto split: if_splits)
  next
    case True
    show ?thesis
    proof (cases "io_outcome p")
      case (Transferred n)
      let ?r = "take (min n (len - length got)) stream"
      from 2(3) True Transferred have ne: "?r \<noteq> []" and rec:
        "readExact len idle (io_now p + idle) (got @ ?r) ps (drop (length ?r) stream) = Some (Inr bytes, ps', stream')"
        by (auto simp: Let_def split: if_splits)
      have "length ?r \<le> len - length got" by simp
      with True have "length (got @ ?r) \<le> len" by (auto simp del: length_take)
      from 2(1) [OF _ _ Transferred refl ne rec this] True obtain read where
        "bytes = (got @ ?r) @ read" "length bytes = len" "drop (length ?r) stream = read @ stream'" by auto
      moreover have "stream = ?r @ drop (length ?r) stream"
        by (simp only: take_drop_length)
      ultimately show ?thesis by (intro exI [of _ "?r @ read"]) simp
    next
      case WouldBlock
      with 2(3) True have "\<not> dl \<le> io_now p" "readExact len idle dl got ps stream = Some (Inr bytes, ps', stream')"
        by (auto split: if_splits)
      with 2(2) [OF _ _ WouldBlock] 2(4) True show ?thesis by simp
    next
      case (IoFailed m)
      with 2(3) True show ?thesis by auto
    qed
  qed
qed

lemma readExact_take:
  "readExact len idle dl [] ps stream = Some (Inr bytes, ps', stream') \<Longrightarrow>
     len \<le> length stream \<and> bytes = take len stream \<and> stream' = drop len stream"
  using readExact_ok [of len idle dl "[]" ps stream bytes ps' stream'] by auto

text \<open>The record at the front of a byte stream, read all at once.\<close>

definition parseRecord :: "'s proto_lib \<Rightarrow> proto_options \<Rightarrow> u8 list \<Rightarrow> (proto_record \<times> u8 list) option" where
  "parseRecord lib options stream =
     (if length stream < pl_headerSize lib then None
      else case pl_decodeRecordHeader lib (take (pl_headerSize lib) stream) of
        Inl err \<Rightarrow> None
      | Inr header \<Rightarrow>
          (let rest = drop (pl_headerSize lib) stream; n = unat (rh_payloadSize header) in
           if po_maxRecordPayloadBytes options < rh_payloadSize header \<or> length rest < n then None
           else Some (\<lparr>pr_type = rh_type header, pr_payload = take n rest\<rparr>, drop n rest)))"

lemma readRecord_parse:
  assumes "readRecord lib options idle now1 now2 ps stream = Some (Inr rec, ps', stream')"
  shows "parseRecord lib options stream = Some (rec, stream')"
proof -
  let ?h = "pl_headerSize lib"
  from assms obtain hb ps1 s1 header where
    h: "readExact ?h idle (now1 + idle) [] ps stream = Some (Inr hb, ps1, s1)"
    and d: "pl_decodeRecordHeader lib hb = Inr header"
    and lim: "\<not> po_maxRecordPayloadBytes options < rh_payloadSize header"
    and rest: "(if rh_payloadSize header = 0 then Some (Inr \<lparr>pr_type = rh_type header, pr_payload = []\<rparr>, ps1, s1)
      else (case readExact (unat (rh_payloadSize header)) idle (now2 + idle) [] ps1 s1 of
              None \<Rightarrow> None
            | Some (Inl err, ps2, stream2) \<Rightarrow> Some (Inl err, ps2, stream2)
            | Some (Inr payload, ps2, stream2) \<Rightarrow>
                Some (Inr \<lparr>pr_type = rh_type header, pr_payload = payload\<rparr>, ps2, stream2)))
      = Some (Inr rec, ps', stream')"
    by (auto simp: readRecord_def split: option.splits sum.splits if_splits)
  note t = readExact_take [OF h]
  show ?thesis
  proof (cases "rh_payloadSize header = 0")
    case True
    with rest t d lim show ?thesis by (simp add: parseRecord_def Let_def)
  next
    case False
    with rest obtain payload ps2 s2 where
      p: "readExact (unat (rh_payloadSize header)) idle (now2 + idle) [] ps1 s1 = Some (Inr payload, ps2, s2)"
      and r: "rec = \<lparr>pr_type = rh_type header, pr_payload = payload\<rparr>" "stream' = s2"
      by (auto split: option.splits sum.splits)
    from readExact_take [OF p] t d lim r show ?thesis by (simp add: parseRecord_def Let_def)
  qed
qed

text \<open>An inactive client is noticed: a call that would block after the deadline ends the read.\<close>

lemma readExact_timeout:
  "length got < len \<Longrightarrow> io_running p \<Longrightarrow> io_outcome p = WouldBlock \<Longrightarrow> dl \<le> io_now p \<Longrightarrow>
     readExact len idle dl got (p # ps) stream = Some (Inl ''session inactivity timeout'', ps, stream)"
  by simp

text \<open>What was written is a prefix of the message, all of it when the write succeeded.\<close>

lemma take_step:
  "w = take (length w) xs \<Longrightarrow> w @ take n (drop (length w) xs) = take (length w + n) xs"
  by (metis take_add)

lemma prefix_take_length: "take (length (take k xs)) xs = take k xs"
  by (simp add: min_def)

lemma writeBytes_prefix:
  "writeBytes bytes dl written ps = Some (ok, sent) \<Longrightarrow> written = take (length written) bytes \<Longrightarrow>
     sent = take (length sent) bytes \<and> (ok \<longleftrightarrow> sent = bytes)"
proof (induction bytes dl written ps rule: writeBytes.induct)
  case (1 bytes dl written)
  then show ?case by (auto split: if_splits)
next
  case (2 bytes dl written p ps)
  let ?sent = "\<lambda>n. take n (drop (length written) bytes)"
  have pre: "written @ ?sent n = take (length (written @ ?sent n)) bytes" for n
    by (simp only: take_step [OF 2(4)] prefix_take_length)
  consider (all) "\<not> length written < length bytes"
    | (stop) "length written < length bytes" "ok = False" "sent = written"
    | (more) n where "length written < length bytes" "io_running p" "io_outcome p = Transferred n"
        "?sent n \<noteq> []" "writeBytes bytes dl (written @ ?sent n) ps = Some (ok, sent)"
    | (wait) "length written < length bytes" "io_running p" "io_outcome p = WouldBlock" "\<not> dl \<le> io_now p"
        "writeBytes bytes dl written ps = Some (ok, sent)"
    using 2(3) by (auto simp: Let_def split: if_splits io_outcome.splits)
  then show ?case
  proof cases
    case all
    with 2(3,4) show ?thesis by (auto split: if_splits)
  next
    case stop
    with 2(4) show ?thesis by auto
  next
    case more
    from 2(1) [OF _ _ more(3) refl more(4,5) pre] more(1,2) show ?thesis by simp
  next
    case wait
    from 2(2) [OF _ _ wait(3,4,5) 2(4)] wait(1,2) show ?thesis by simp
  qed
qed

end
