(* ===== verification/Libera_Server.thy ===== *)
theory Libera_Server
  imports Libera_Wire
begin

text \<open>
  \<open>TargetServer\<close> of \<open>LiberaProtocolVirtualControllerHost.cpp\<close>: the TCP endpoint of one target.
  Each accepted connection has a thread that runs \<open>runSession\<close>; the threads share the running
  flag, the ownership of the session and the counters of rejected clients. A thread is a
  \<open>phase\<close>, and one step takes it to the next: it reads a record, touches the shared flags at
  most once, and calls the sink. \<open>lp_run\<close> interleaves the steps of all threads with those of
  the accepting thread in any order.

  What a read came to is an input, \<open>Inl\<close> the error; \<open>Libera_Wire\<close> says which records a read
  gives. The peer's address, which is only logged, is left out. A session whose thread has
  returned keeps its socket until the thread removes it: its phase is \<open>Returned\<close>, then
  \<open>Finished\<close>.
\<close>

datatype 's phase =
    AwaitHello
  | Acquired hello
  | AwaitReady "'s session_state"
  | Streaming "'s session_state"
  | Releasing "string option"
  | Returned
  | Finished

record 's target_server = server_config +
  sv_running :: bool
  sv_owned :: bool
  sv_busyRejectsSinceLog :: u64
  sv_lastBusyLogNs :: nanos
  sv_workers :: "'s phase list"

record session_input =
  si_read :: "string + proto_record"
  si_wrote :: bool
  si_open :: bool
  si_now :: nanos

definition newTargetServer :: "target_info \<Rightarrow> proto_options \<Rightarrow> u16 \<Rightarrow> nat \<Rightarrow> 's target_server" where
  "newTargetServer info options tcpPort index =
     \<lparr>sv_info = info, sv_options = options, sv_tcpPort = tcpPort, sv_index = index, sv_running = False,
      sv_owned = False, sv_busyRejectsSinceLog = 0, sv_lastBusyLogNs = 0, sv_workers = []\<rparr>"

section \<open>Session ownership and rejections\<close>

definition tryAcquireSession :: "'s target_server \<Rightarrow> bool \<times> 's target_server" where
  "tryAcquireSession sv = (if sv_owned sv then (False, sv) else (True, sv\<lparr>sv_owned := True\<rparr>))"

definition releaseSession :: "'s target_server \<Rightarrow> 's target_server" where
  "releaseSession sv = sv\<lparr>sv_owned := False\<rparr>"

definition endpointAvailability :: "'s target_server \<Rightarrow> endpoint_availability" where
  "endpointAvailability sv = (if sv_owned sv then EndpointBusy else Available)"

text \<open>At most one line per second, with the number of rejections since the last one.\<close>

definition logBusyRejection ::
  "nanos \<Rightarrow> string \<Rightarrow> 's target_server \<Rightarrow> lp_action list \<times> 's target_server" where
  "logBusyRejection now senderName sv =
     (let rejected = sv_busyRejectsSinceLog sv + 1;
          sv1 = sv\<lparr>sv_busyRejectsSinceLog := rejected\<rparr>
      in if now - sv_lastBusyLogNs sv < ms 1000 then ([], sv1)
         else ([LpLog (BusyRejected senderName (unat rejected))],
               sv1\<lparr>sv_lastBusyLogNs := now, sv_busyRejectsSinceLog := 0\<rparr>))"

definition sendReject :: "'s proto_lib \<Rightarrow> reject_code \<Rightarrow> string \<Rightarrow> lp_action" where
  "sendReject lib code message = LpSend (fst (pl_makeReject lib code message (pl_newSender lib)))"

section \<open>One session\<close>

text \<open>The negotiation: what is accepted of a client's hello.\<close>

definition negotiate ::
  "'s proto_lib \<Rightarrow> ('a) server_config_scheme \<Rightarrow> hello \<Rightarrow> nanos \<Rightarrow> 's session_state" where
  "negotiate lib sv hello now =
     (let channels = limitChannels sv (he_requestedUserChannelCount hello) in
      (newSessionState lib now)
        \<lparr>se_streamMode := acceptedMode (he_requestedStreamMode hello),
         se_userChannelCount := channels,
         se_pointRate := clampRate sv (if he_defaultPointRate hello = 0 then 30000
                                       else he_defaultPointRate hello),
         se_sender := pl_setUserChannelCount lib channels (pl_newSender lib)\<rparr>)"

definition acceptFor :: "'s proto_lib \<Rightarrow> ('a) server_config_scheme \<Rightarrow> 's session_state \<Rightarrow> accept_msg" where
  "acceptFor lib sv state =
     \<lparr>ac_acceptedStreamMode = se_streamMode state,
      ac_acceptedUserChannelCount = se_userChannelCount state,
      ac_defaultPointRate = se_pointRate state,
      ac_maxPointRate = effectiveMaxPointRate sv,
      ac_maxFramePointCount = po_maxFramePoints (sv_options sv),
      ac_maxRecordPayloadSize = po_maxRecordPayloadBytes (sv_options sv),
      ac_sessionId = word_of_int (se_sessionStartedAt state),
      ac_featureFlags = supportedFeatureFlags lib\<rparr>"

type_synonym 's stepped = "lp_action list \<times> 's phase \<times> 's target_server"

definition helloStep :: "'s proto_lib \<Rightarrow> session_input \<Rightarrow> 's target_server \<Rightarrow> 's stepped" where
  "helloStep lib inp sv =
     (case si_read inp of
        Inl err \<Rightarrow> ([], Returned, sv)
      | Inr rec \<Rightarrow>
          if pr_type rec \<noteq> RecHello then ([], Returned, sv)
          else (case pl_decodeHello lib (pr_payload rec) of
              Inl err \<Rightarrow> ([sendReject lib MalformedHello err], Returned, sv)
            | Inr hello \<Rightarrow>
                (case tryAcquireSession sv of
                   (True, sv1) \<Rightarrow> ([], Acquired hello, sv1)
                 | (False, sv1) \<Rightarrow>
                     (case logBusyRejection (si_now inp) (he_senderName hello) sv1 of
                        (logs, sv2) \<Rightarrow>
                          (logs @ [sendReject lib Busy ''Endpoint already has an active session.''],
                           Returned, sv2)))))"

definition acquiredStep ::
  "'s proto_lib \<Rightarrow> session_input \<Rightarrow> hello \<Rightarrow> 's target_server \<Rightarrow> 's stepped" where
  "acquiredStep lib inp hello sv =
     (let state = negotiate lib sv hello (si_now inp) in
      case pl_makeAccept lib (acceptFor lib sv state) (se_sender state) of
        (bytes, sender) \<Rightarrow>
          let acts = [LpLog (SessionAccepted (he_senderName hello)), LpSink Reset, LpSend bytes] in
          if \<not> si_wrote inp then (acts @ [LpSink Reset], Releasing None, sv)
          else (acts, AwaitReady (state\<lparr>se_sender := sender\<rparr>), sv))"

definition readyStep ::
  "session_input \<Rightarrow> 's session_state \<Rightarrow> 's target_server \<Rightarrow> 's stepped" where
  "readyStep inp state sv =
     (case si_read inp of
        Inl err \<Rightarrow> ([LpSink Reset], Releasing None, sv)
      | Inr rec \<Rightarrow>
          if pr_type rec \<noteq> RecReady then ([LpSink Reset], Releasing None, sv)
          else ([], Streaming state, sv))"

definition streamingStep ::
  "'s proto_lib \<Rightarrow> session_input \<Rightarrow> 's session_state \<Rightarrow> 's target_server \<Rightarrow> 's stepped" where
  "streamingStep lib inp state sv =
     (let finish = (\<lambda>acts error. (acts @ [LpSink Reset],
            Releasing (Some (if error = [] then ''closed'' else error)), sv))
      in if \<not> (sv_running sv \<and> si_open inp) then finish [] []
         else (case si_read inp of
             Inl err \<Rightarrow> finish [] err
           | Inr rec \<Rightarrow>
               (case handleRecord lib sv (si_wrote inp) rec state of
                  (True, acts, state') \<Rightarrow> (acts, Streaming state', sv)
                | (False, acts, state') \<Rightarrow>
                    finish acts (if pr_type rec = RecClose then ''orderly close''
                                 else ''invalid protocol record''))))"

definition releasingStep :: "string option \<Rightarrow> 's target_server \<Rightarrow> 's stepped" where
  "releasingStep reason sv =
     ((case reason of None \<Rightarrow> [] | Some r \<Rightarrow> [LpLog (SessionEnded r)]), Returned, releaseSession sv)"

fun phase_step ::
  "'s proto_lib \<Rightarrow> session_input \<Rightarrow> 's phase \<Rightarrow> 's target_server \<Rightarrow> 's stepped" where
  "phase_step lib inp AwaitHello sv = helloStep lib inp sv"
| "phase_step lib inp (Acquired hello) sv = acquiredStep lib inp hello sv"
| "phase_step lib inp (AwaitReady state) sv = readyStep inp state sv"
| "phase_step lib inp (Streaming state) sv = streamingStep lib inp state sv"
| "phase_step lib inp (Releasing reason) sv = releasingStep reason sv"
| "phase_step lib inp Returned sv = ([], Finished, sv)"
| "phase_step lib inp Finished sv = ([], Finished, sv)"

text \<open>A stopped server's reads and writes fail at the test of their loops.\<close>

definition effective_input :: "'s target_server \<Rightarrow> session_input \<Rightarrow> session_input" where
  "effective_input sv inp =
     (if sv_running sv then inp else inp\<lparr>si_read := Inl ''server stopped'', si_wrote := False\<rparr>)"

definition sessionStep ::
  "'s proto_lib \<Rightarrow> nat \<Rightarrow> session_input \<Rightarrow> 's target_server \<Rightarrow> lp_action list \<times> 's target_server" where
  "sessionStep lib i inp sv =
     (if i < length (sv_workers sv)
      then case phase_step lib (effective_input sv inp) (sv_workers sv ! i) sv of
             (acts, phase, sv1) \<Rightarrow> (acts, sv1\<lparr>sv_workers := (sv_workers sv)[i := phase]\<rparr>)
      else ([], sv))"

section \<open>Accepting\<close>

definition reapCompletedSessionWorkers :: "'s target_server \<Rightarrow> 's target_server" where
  "reapCompletedSessionWorkers sv = sv\<lparr>sv_workers := filter (\<lambda>p. p \<noteq> Finished) (sv_workers sv)\<rparr>"

definition activeSockets :: "'s target_server \<Rightarrow> nat" where
  "activeSockets sv = length (filter (\<lambda>p. p \<noteq> Finished) (sv_workers sv))"

text \<open>
  One pass of \<open>acceptLoop\<close>: \<open>None\<close> when the accept call failed or would block, otherwise
  whether the socket could be made non-blocking.
\<close>

definition acceptPass ::
  "bool option \<Rightarrow> 's target_server \<Rightarrow> lp_action list \<times> 's target_server" where
  "acceptPass accepted sv =
     (if \<not> sv_running sv then ([], sv)
      else let sv1 = reapCompletedSessionWorkers sv in
        case accepted of
          None \<Rightarrow> ([], sv1)
        | Some nonBlocking \<Rightarrow>
            if maxConcurrentSockets \<le> activeSockets sv1 then ([LpLog ConnectionLimit], sv1)
            else if \<not> nonBlocking then ([], sv1)
            else ([], sv1\<lparr>sv_workers := sv_workers sv1 @ [AwaitHello]\<rparr>))"

section \<open>Runs of a server\<close>

datatype server_event =
    SvAccept "bool option"
  | SvSession nat session_input
  | SvStop

fun server_step ::
  "'s proto_lib \<Rightarrow> server_event \<Rightarrow> 's target_server \<Rightarrow> lp_action list \<times> 's target_server" where
  "server_step lib (SvAccept accepted) sv = acceptPass accepted sv"
| "server_step lib (SvSession i inp) sv = sessionStep lib i inp sv"
| "server_step lib SvStop sv = ([], sv\<lparr>sv_running := False\<rparr>)"

fun lp_run ::
  "'s proto_lib \<Rightarrow> server_event list \<Rightarrow> 's target_server \<Rightarrow> lp_action list \<times> 's target_server" where
  "lp_run lib [] sv = ([], sv)"
| "lp_run lib (ev # evs) sv =
     (case server_step lib ev sv of
        (acts, sv1) \<Rightarrow> (case lp_run lib evs sv1 of (acts', sv2) \<Rightarrow> (acts @ acts', sv2)))"

definition sink_calls :: "lp_action list \<Rightarrow> sink_call list" where
  "sink_calls acts = List.map_filter (\<lambda>a. case a of LpSink c \<Rightarrow> Some c | _ \<Rightarrow> None) acts"

section \<open>Start, stop, what is offered\<close>

definition startServer :: "'o os_ops \<Rightarrow> 's target_server \<Rightarrow> 'o \<Rightarrow> (string + 's target_server) \<times> 'o" where
  "startServer os sv w =
     (let run = (\<lambda>call msg k w. case os_socket os call w of
              (None, w') \<Rightarrow> k w' | (Some e, w') \<Rightarrow> (Inl (msg @ e), w'));
          address = po_listenAddress (sv_options sv); port = sv_tcpPort sv
      in run (MakeAddress address) (''Invalid Libera protocol listen address '' @ address @ '': '')
         (run TcpOpen ''Libera protocol TCP acceptor open failed: ''
         (run (TcpBind address port)
            (''Libera protocol TCP bind failed on '' @ address @ '':'' @ to_string (unat port) @ '': '')
         (run TcpListen ''Libera protocol TCP listen failed: ''
         (run TcpNonBlocking ''Libera protocol TCP non-blocking mode failed: ''
         (\<lambda>w. (Inr (sv\<lparr>sv_running := True\<rparr>), w)))))) w)"

text \<open>
  Stopping joins the threads: with the flag cleared every session runs to its end, in at most
  three steps, whatever it was waiting for; then all sockets are closed.
\<close>

definition joinWorker :: "'s proto_lib \<Rightarrow> nat \<Rightarrow> 's target_server \<Rightarrow> lp_action list \<times> 's target_server" where
  "joinWorker lib i sv =
     (let inp = \<lparr>si_read = Inl ''server stopped'', si_wrote = False, si_open = True, si_now = 0\<rparr>
      in lp_run lib (replicate 3 (SvSession i inp)) sv)"

fun joinWorkers ::
  "'s proto_lib \<Rightarrow> nat \<Rightarrow> nat \<Rightarrow> 's target_server \<Rightarrow> lp_action list \<times> 's target_server" where
  "joinWorkers lib i 0 sv = ([], sv)"
| "joinWorkers lib i (Suc n) sv =
     (case joinWorker lib i sv of
        (acts, sv1) \<Rightarrow> (case joinWorkers lib (Suc i) n sv1 of (acts', sv2) \<Rightarrow> (acts @ acts', sv2)))"

definition stopServer :: "'s proto_lib \<Rightarrow> 's target_server \<Rightarrow> lp_action list \<times> 's target_server" where
  "stopServer lib sv =
     (if \<not> sv_running sv then ([], sv)
      else case joinWorkers lib 0 (length (sv_workers sv)) (sv\<lparr>sv_running := False\<rparr>) of
             (acts, sv1) \<Rightarrow> (acts, sv1\<lparr>sv_workers := []\<rparr>))"

definition serverEndpoint :: "'s target_server \<Rightarrow> vc_endpoint" where
  "serverEndpoint sv =
     (let options = sv_options sv; advertised = po_advertisedAddress options in
      \<lparr>ep_targetId = ti_id (sv_info sv), ep_label = targetDisplayName (sv_info sv) (sv_index sv),
       ep_value = (if advertised = []
                   then ''UDP source address, port '' @ to_string (unat (sv_tcpPort sv))
                   else advertised @ '':'' @ to_string (unat (sv_tcpPort sv))),
       ep_kind = ''virtual-dac'', ep_protocol = ''libera'', ep_transport = ''tcp'',
       ep_address = advertised, ep_port = sv_tcpPort sv,
       ep_channels = ucast (po_maxUserChannels options),
       ep_attributes = fmap_of_list
         [(''stream_modes'', ''raw,frame-by-count''),
          (''discovery_port'', to_string (unat (po_discoveryPort options))),
          (''availability'', if endpointAvailability sv = Available then ''available'' else ''busy'')]\<rparr>)"

definition serverAdvertisement :: "'s proto_lib \<Rightarrow> 's target_server \<Rightarrow> advertisement" where
  "serverAdvertisement lib sv =
     \<lparr>ad_endpointId = targetEndpointId (sv_info sv) (sv_index sv),
      ad_displayName = targetDisplayName (sv_info sv) (sv_index sv),
      ad_endpointType = ''virtual'', ad_address = po_advertisedAddress (sv_options sv),
      ad_tcpPort = sv_tcpPort sv,
      ad_supportedStreamModes = pl_streamModeMask lib RawPointStream OR pl_streamModeMask lib FrameByCount,
      ad_availability = endpointAvailability sv,
      ad_maxUserChannelCount = po_maxUserChannels (sv_options sv),
      ad_minPointRate = effectiveMinPointRate sv, ad_maxPointRate = effectiveMaxPointRate sv,
      ad_maxFramePointCount = po_maxFramePoints (sv_options sv),
      ad_featureFlags = supportedFeatureFlags lib\<rparr>"

end
