(* ===== verification/Libera_Server_Props.thy ===== *)
theory Libera_Server_Props
  imports Libera_Server
begin

text \<open>
  Lemmas on sessions and servers of the Libera protocol: what a session's state satisfies and
  which calls it makes on the sink; that one thread at most owns the endpoint; and that the
  sink has been reset whenever no session plays on it.
\<close>

section \<open>Rates, channels, points\<close>

lemma effective_rates: "effectiveMinPointRate sv \<le> effectiveMaxPointRate sv" "1 \<le> effectiveMaxPointRate sv"
  by (simp_all add: effectiveMinPointRate_def effectiveMaxPointRate_def Let_def)

definition rate_ok :: "('a) server_config_scheme \<Rightarrow> u32 \<Rightarrow> bool" where
  "rate_ok sv rate \<longleftrightarrow> effectiveMinPointRate sv \<le> rate \<and> rate \<le> effectiveMaxPointRate sv"

lemma clampRate_ok [simp]: "rate_ok sv (clampRate sv rate)"
  using std_clamp_bounds [OF effective_rates(1)] by (simp add: rate_ok_def clampRate_def)

lemma unat_ucast_8_32 [simp]: "unat (ucast (w :: u8) :: u32) = unat w"
proof -
  have "unat w < 2 ^ LENGTH(8)" by (rule unsigned_less)
  then show ?thesis by (simp add: unsigned_ucast_eq unsigned_take_bit_eq take_bit_nat_eq_self_iff)
qed

lemma limitChannels_eq:
  "unat (limitChannels sv n) = min (unat (po_maxUserChannels (sv_options sv))) (unat n)"
proof -
  let ?m = "po_maxUserChannels (sv_options sv)"
  have m: "unat (min (ucast ?m) n) = min (unat ?m) (unat n)"
    by (cases "ucast ?m \<le> n") (auto simp: min_def word_le_nat_alt)
  have "unat ?m < 2 ^ LENGTH(8)" by (rule unsigned_less)
  then have "min (unat ?m) (unat n) < 256" by simp
  with m show ?thesis
    by (simp add: limitChannels_def unsigned_ucast_eq unsigned_take_bit_eq take_bit_nat_eq_self_iff)
qed

lemma limitChannels_le [simp]: "limitChannels sv n \<le> po_maxUserChannels (sv_options sv)"
  by (simp add: word_le_nat_alt limitChannels_eq)

definition point_ok :: "laser_point \<Rightarrow> bool" where
  "point_ok p \<longleftrightarrow> \<bar>lp_x p\<bar> \<le> 1 \<and> \<bar>lp_y p\<bar> \<le> 1 \<and> 0 \<le> lp_r p \<and> lp_r p \<le> 1 \<and>
     0 \<le> lp_g p \<and> lp_g p \<le> 1 \<and> 0 \<le> lp_b p \<and> lp_b p \<le> 1 \<and> 0 \<le> lp_i p \<and> lp_i p \<le> 1"

lemma coordFromProtocol_unit: "\<bar>coordFromProtocol w\<bar> \<le> 1"
proof -
  have "- 1 \<le> coordFromProtocol w \<and> coordFromProtocol w \<le> 1"
    by (simp add: coordFromProtocol_def Let_def std_clamp_bounds)
  then show ?thesis by linarith
qed

lemma channelFromProtocol_unit: "0 \<le> channelFromProtocol w \<and> channelFromProtocol w \<le> 1"
  unfolding channelFromProtocol_def by (rule f32_channel_unit)

lemma toLaserPoint_ok [simp]: "point_ok (toLaserPoint lib s)"
  using coordFromProtocol_unit channelFromProtocol_unit
  by (simp add: point_ok_def toLaserPoint_def Let_def)

lemma toLaserPoints_simps [simp]:
  "length (toLaserPoints lib samples) = length samples"
  "toLaserPoints lib samples = [] \<longleftrightarrow> samples = []"
  "toLaserPoints lib (xs @ ys) = toLaserPoints lib xs @ toLaserPoints lib ys"
  "\<forall>p \<in> set (toLaserPoints lib samples). point_ok p"
  by (auto simp: toLaserPoints_def)

section \<open>Calls on the sink\<close>

lemma sink_calls_simps [simp]:
  "sink_calls [] = []"
  "sink_calls (LpSink c # acts) = c # sink_calls acts"
  "sink_calls (LpSend b # acts) = sink_calls acts"
  "sink_calls (LpLog l # acts) = sink_calls acts"
  "sink_calls (xs @ ys) = sink_calls xs @ sink_calls ys"
  by (simp_all add: sink_calls_def List.map_filter_def)

definition slice_ok :: "('a) server_config_scheme \<Rightarrow> slice_submission \<Rightarrow> bool" where
  "slice_ok sv s \<longleftrightarrow> sl_points s \<noteq> [] \<and> (\<forall>p \<in> set (sl_points s). point_ok p) \<and> \<not> sl_discontinuous s \<and>
     (\<exists>rate. sl_effectivePointRate s = Some rate \<and> rate_ok sv rate \<and>
        sl_durationUs s = pointDurationUs (length (sl_points s)) rate)"

definition frame_ok :: "('a) server_config_scheme \<Rightarrow> frame_submission \<Rightarrow> bool" where
  "frame_ok sv f \<longleftrightarrow> \<not> fs_clearTransportPrefetch f \<and>
     (\<exists>s. fs_slices f = [s] \<and> slice_ok sv s \<and> fs_effectivePointRate f = sl_effectivePointRate s \<and>
        length (sl_points s) \<le> unat (po_maxFramePoints (sv_options sv)))"

fun call_ok :: "('a) server_config_scheme \<Rightarrow> sink_call \<Rightarrow> bool" where
  "call_ok sv (SubmitContinuous s) = slice_ok sv s"
| "call_ok sv (SubmitFrame f) = frame_ok sv f"
| "call_ok sv (ReplaceFrame f) = False"
| "call_ok sv (SetScannerSync off en) = True"
| "call_ok sv Reset = True"

section \<open>The state of a session\<close>

definition pending_ok :: "('a) server_config_scheme \<Rightarrow> pending_frame \<Rightarrow> bool" where
  "pending_ok sv pending \<longleftrightarrow>
     length (pf_points pending) < unat (fm_framePointCount (pf_marker pending)) \<and>
     fm_framePointCount (pf_marker pending) \<le> po_maxFramePoints (sv_options sv) \<and>
     (\<forall>p \<in> set (pf_points pending). point_ok p)"

definition session_ok :: "('a) server_config_scheme \<Rightarrow> 's session_state \<Rightarrow> bool" where
  "session_ok sv state \<longleftrightarrow>
     se_streamMode state \<in> {RawPointStream, FrameByCount} \<and> rate_ok sv (se_pointRate state) \<and>
     se_userChannelCount state \<le> po_maxUserChannels (sv_options sv) \<and>
     (case se_pendingFrame state of None \<Rightarrow> True
      | Some pending \<Rightarrow> se_streamMode state = FrameByCount \<and> pending_ok sv pending)"

lemma acceptedMode_modes [simp]: "acceptedMode m = RawPointStream \<or> acceptedMode m = FrameByCount"
  by (simp add: acceptedMode_def)

lemma negotiate_ok [simp]: "session_ok sv (negotiate lib sv hello now)"
  by (simp add: negotiate_def newSessionState_def session_ok_def Let_def)

text \<open>Submitting the pending frame, which is complete.\<close>

lemma submitPendingFrame_ok:
  assumes "submitPendingFrame sv state = (acts, state')" "se_pendingFrame state = Some pending"
    "rate_ok sv (se_pointRate state)" "pf_points pending \<noteq> []" "\<forall>p \<in> set (pf_points pending). point_ok p"
    "length (pf_points pending) \<le> unat (po_maxFramePoints (sv_options sv))"
  shows "state' = state\<lparr>se_pendingFrame := None\<rparr> \<and> list_all (call_ok sv) (sink_calls acts)"
  using assms by (auto simp: submitPendingFrame_def Let_def frame_ok_def slice_ok_def)

definition handled_ok :: "('a) server_config_scheme \<Rightarrow> 's handled \<Rightarrow> bool" where
  "handled_ok sv r \<longleftrightarrow> (case r of (ok, acts, state) \<Rightarrow>
     session_ok sv state \<and> list_all (call_ok sv) (sink_calls acts))"

lemma handleStreamConfig_ok [inv_intros]:
  "session_ok sv state \<Longrightarrow> handled_ok sv (handleStreamConfig lib sv rec state)"
  by (auto simp: handleStreamConfig_def handled_ok_def session_ok_def Let_def split: sum.splits)

lemma handleScannerSync_ok [inv_intros]:
  "session_ok sv state \<Longrightarrow> handled_ok sv (handleScannerSync lib rec state)"
  by (auto simp: handleScannerSync_def handled_ok_def split: sum.splits)

lemma handleFrameMarker_ok [inv_intros]:
  "session_ok sv state \<Longrightarrow> handled_ok sv (handleFrameMarker lib sv rec state)"
  by (auto simp: handleFrameMarker_def handled_ok_def session_ok_def pending_ok_def Let_def
      unat_gt_0 not_less split: sum.splits)

lemma appendFramePoints_ok:
  assumes st: "session_ok sv state" and pts: "\<forall>p \<in> set points. point_ok p"
  shows "handled_ok sv (appendFramePoints sv points state)"
proof (cases "se_pendingFrame state")
  case None
  with st show ?thesis by (simp add: appendFramePoints_def handled_ok_def)
next
  case (Some pending)
  let ?n = "unat (fm_framePointCount (pf_marker pending))"
  let ?p = "pending\<lparr>pf_points := pf_points pending @ points\<rparr>"
  let ?st = "state\<lparr>se_pendingFrame := Some ?p\<rparr>"
  from st Some have pend: "pending_ok sv pending" and mode: "se_streamMode state = FrameByCount"
    and rate: "rate_ok sv (se_pointRate state)" by (simp_all add: session_ok_def)
  note pd = pend [unfolded pending_ok_def word_le_nat_alt]
  show ?thesis
  proof (cases "?n = 0 \<or> ?n < length (pf_points pending) \<or> ?n - length (pf_points pending) < length points")
    case True
    with st Some show ?thesis by (auto simp: appendFramePoints_def handled_ok_def Let_def)
  next
    case False
    show ?thesis
    proof (cases "length (pf_points ?p) = ?n")
      case True
      obtain acts st' where s: "submitPendingFrame sv ?st = (acts, st')" by fastforce
      have "pf_points ?p \<noteq> []" "length (pf_points ?p) \<le> unat (po_maxFramePoints (sv_options sv))"
        using True False pd by auto
      moreover have "\<forall>x \<in> set (pf_points ?p). point_ok x" using pd pts by auto
      ultimately have "st' = ?st\<lparr>se_pendingFrame := None\<rparr> \<and> list_all (call_ok sv) (sink_calls acts)"
        using submitPendingFrame_ok [OF s, of ?p] rate by simp
      with st Some False True s show ?thesis
        by (simp add: appendFramePoints_def handled_ok_def session_ok_def Let_def)
    next
      case neq: False
      with False have "length (pf_points ?p) < ?n" by simp arith
      with st Some False neq pd pts show ?thesis
        by (auto simp: appendFramePoints_def handled_ok_def session_ok_def pending_ok_def Let_def word_le_nat_alt)
    qed
  qed
qed

lemma handlePoints_ok [inv_intros]:
  assumes "session_ok sv state"
  shows "handled_ok sv (handlePoints lib sv rec state)"
proof (cases "pl_decodePointSamples lib (pr_payload rec) (se_userChannelCount state)")
  case (Inl e)
  with assms show ?thesis by (simp add: handlePoints_def handled_ok_def)
next
  case (Inr samples)
  with assms appendFramePoints_ok [OF assms toLaserPoints_simps(4) [of lib samples]] show ?thesis
    by (auto simp: handlePoints_def handled_ok_def submitContinuousPoints_def slice_ok_def
        session_ok_def Let_def)
qed

lemma handlePing_ok [inv_intros]: "session_ok sv state \<Longrightarrow> handled_ok sv (handlePing lib wrote rec state)"
  by (auto simp: handlePing_def handled_ok_def session_ok_def split: prod.splits option.splits)

lemma handleRecord_ok:
  "session_ok sv state \<Longrightarrow> handled_ok sv (handleRecord lib sv wrote rec state)"
  unfolding handleRecord_def
  by (cases "pr_type rec") (simp_all add: inv_intros, simp_all add: handled_ok_def)

lemma handleRecord_keeps:
  assumes "handleRecord lib sv wrote rec state = (ok, acts, state')" "session_ok sv state"
  shows "session_ok sv state'" "list_all (call_ok sv) (sink_calls acts)"
  using handleRecord_ok [OF assms(2), of lib wrote rec] assms(1) by (simp_all add: handled_ok_def)

section \<open>Threads and ownership\<close>

text \<open>A thread owns the endpoint from the acquisition to the release; it plays in between.\<close>

fun owns :: "'s phase \<Rightarrow> bool" where
  "owns (Acquired hello) = True"
| "owns (AwaitReady state) = True"
| "owns (Streaming state) = True"
| "owns (Releasing reason) = True"
| "owns _ = False"

fun playing :: "'s phase \<Rightarrow> bool" where
  "playing (AwaitReady state) = True"
| "playing (Streaming state) = True"
| "playing _ = False"

fun phase_ok :: "('a) server_config_scheme \<Rightarrow> 's phase \<Rightarrow> bool" where
  "phase_ok sv (AwaitReady state) = session_ok sv state"
| "phase_ok sv (Streaming state) = session_ok sv state"
| "phase_ok sv _ = True"

lemma playing_owns: "playing p \<Longrightarrow> owns p"
  by (cases p) simp_all

definition quiet :: "sink_call list \<Rightarrow> bool" where
  "quiet calls \<longleftrightarrow> calls = [] \<or> last calls = Reset"

text \<open>What the threads of a server leave alone.\<close>

definition same_config :: "('a) server_config_scheme \<Rightarrow> ('b) server_config_scheme \<Rightarrow> bool" where
  "same_config sv sv' \<longleftrightarrow> sv_info sv' = sv_info sv \<and> sv_options sv' = sv_options sv \<and>
     sv_tcpPort sv' = sv_tcpPort sv \<and> sv_index sv' = sv_index sv"

lemma same_config_rates:
  assumes "same_config sv sv'"
  shows "effectiveMaxPointRate sv' = effectiveMaxPointRate sv"
    "effectiveMinPointRate sv' = effectiveMinPointRate sv"
    "rate_ok sv' = rate_ok sv" "pending_ok sv' = pending_ok sv"
  using assms by (simp_all add: same_config_def effectiveMaxPointRate_def effectiveMinPointRate_def
      rate_ok_def [abs_def] pending_ok_def [abs_def])

lemma same_config_ok:
  assumes "same_config sv sv'"
  shows "session_ok sv' = session_ok sv" "slice_ok sv' = slice_ok sv" "frame_ok sv' = frame_ok sv"
proof -
  show "session_ok sv' = session_ok sv"
    using assms by (simp add: session_ok_def [abs_def] same_config_rates [OF assms] same_config_def
        cong: option.case_cong)
  show sl: "slice_ok sv' = slice_ok sv"
    by (simp add: slice_ok_def [abs_def] same_config_rates [OF assms])
  show "frame_ok sv' = frame_ok sv"
    using assms by (simp add: frame_ok_def [abs_def] sl same_config_def)
qed

lemma same_config_phase: "same_config sv sv' \<Longrightarrow> phase_ok sv' p = phase_ok sv p"
  by (cases p) (simp_all add: same_config_ok)

lemma same_config_call: "same_config sv sv' \<Longrightarrow> call_ok sv' c = call_ok sv c"
  by (cases c) (simp_all add: same_config_ok)

definition server_frame :: "'s target_server \<Rightarrow> 's target_server \<Rightarrow> bool" where
  "server_frame sv sv' \<longleftrightarrow> same_config sv sv' \<and> sv_running sv' = sv_running sv \<and> sv_workers sv' = sv_workers sv"

lemma server_frame_simps [simp]:
  "server_frame sv sv" "server_frame sv (sv\<lparr>sv_owned := b\<rparr>)" "server_frame sv (releaseSession sv)"
  by (simp_all add: server_frame_def same_config_def releaseSession_def)

lemma logBusyRejection_frame:
  "logBusyRejection now name sv = (acts, sv') \<Longrightarrow>
     server_frame sv sv' \<and> sv_owned sv' = sv_owned sv \<and> sink_calls acts = []"
  by (auto simp: logBusyRejection_def Let_def server_frame_def same_config_def split: if_splits)

section \<open>One step of a thread\<close>

text \<open>
  A thread that does not own the endpoint makes no call and may only acquire it; one that owns
  it keeps it or releases it, and when it stops playing its last call is a reset.
\<close>

definition step_result ::
  "'s phase \<Rightarrow> 's target_server \<Rightarrow> sink_call list \<Rightarrow> 's phase \<Rightarrow> 's target_server \<Rightarrow> bool" where
  "step_result p sv calls p' sv' \<longleftrightarrow> server_frame sv sv' \<and> list_all (call_ok sv) calls \<and> phase_ok sv p' \<and>
     (if owns p
      then sv_owned sv' = (if owns p' then sv_owned sv else False) \<and>
        (playing p' \<or> calls = [] \<and> \<not> playing p \<or> calls \<noteq> [] \<and> last calls = Reset)
      else calls = [] \<and> \<not> playing p' \<and>
        (if owns p' then \<not> sv_owned sv \<and> sv_owned sv' else sv_owned sv' = sv_owned sv))"

lemma helloStep_result: "helloStep lib inp sv = (acts, p', sv') \<Longrightarrow>
    step_result AwaitHello sv (sink_calls acts) p' sv'"
  using logBusyRejection_frame [of "si_now inp" _ sv]
  by (auto simp: helloStep_def step_result_def tryAcquireSession_def sendReject_def
      split: sum.splits if_splits prod.splits)

lemma acquiredStep_result: "acquiredStep lib inp hello sv = (acts, p', sv') \<Longrightarrow>
    step_result (Acquired hello) sv (sink_calls acts) p' sv'"
proof -
  have "session_ok sv ((negotiate lib sv hello now)\<lparr>se_sender := snd\<rparr>)" for now snd
    using negotiate_ok [of sv lib hello now] by (simp add: session_ok_def split: option.splits)
  then show "acquiredStep lib inp hello sv = (acts, p', sv') \<Longrightarrow> ?thesis"
    by (auto simp: acquiredStep_def step_result_def Let_def split: prod.splits if_splits)
qed

lemma readyStep_result: "readyStep inp state sv = (acts, p', sv') \<Longrightarrow> session_ok sv state \<Longrightarrow>
    step_result (AwaitReady state) sv (sink_calls acts) p' sv'"
  by (auto simp: readyStep_def step_result_def split: sum.splits if_splits)

lemma streamingStep_result: "streamingStep lib inp state sv = (acts, p', sv') \<Longrightarrow> session_ok sv state \<Longrightarrow>
    step_result (Streaming state) sv (sink_calls acts) p' sv'"
  by (auto simp: streamingStep_def step_result_def Let_def handleRecord_keeps
      split: sum.splits if_splits prod.splits bool.splits)

lemma phase_step_result:
  assumes "phase_step lib inp p sv = (acts, p', sv')" "phase_ok sv p"
  shows "step_result p sv (sink_calls acts) p' sv'"
proof (cases p)
  case AwaitHello
  with assms show ?thesis using helloStep_result by simp
next
  case (Acquired hello)
  with assms show ?thesis using acquiredStep_result by simp
next
  case (AwaitReady state)
  with assms show ?thesis using readyStep_result by simp
next
  case (Streaming state)
  with assms show ?thesis using streamingStep_result by simp
next
  case (Releasing reason)
  with assms show ?thesis
    by (auto simp: releasingStep_def step_result_def releaseSession_def server_frame_def same_config_def
        split: option.splits)
qed (use assms in \<open>auto simp: step_result_def\<close>)

section \<open>Runs\<close>

lemma filter_update:
  "i < length xs \<Longrightarrow> length (filter P (xs[i := y])) + (if P (xs ! i) then 1 else 0) =
     length (filter P xs) + (if P y then 1 else 0)"
proof (induction xs arbitrary: i)
  case (Cons x xs)
  then show ?case by (cases i) auto
qed simp

text \<open>The state of a server after the calls \<open>calls\<close> on its sink.\<close>

definition server_inv :: "'s target_server \<Rightarrow> sink_call list \<Rightarrow> bool" where
  "server_inv sv calls \<longleftrightarrow>
     length (filter owns (sv_workers sv)) = (if sv_owned sv then 1 else 0) \<and>
     activeSockets sv \<le> maxConcurrentSockets \<and>
     (\<forall>p \<in> set (sv_workers sv). phase_ok sv p) \<and> list_all (call_ok sv) calls \<and>
     ((\<forall>p \<in> set (sv_workers sv). \<not> playing p) \<longrightarrow> quiet calls)"

lemma quiet_append: "quiet xs \<Longrightarrow> ys = [] \<or> last ys = Reset \<Longrightarrow> quiet (xs @ ys)"
  by (cases "ys = []") (auto simp: quiet_def)

lemma last_append_quiet: "ys \<noteq> [] \<Longrightarrow> last ys = Reset \<Longrightarrow> quiet (xs @ ys)"
  by (simp add: quiet_def)

lemma sessionStep_inv:
  assumes inv: "server_inv sv calls" and st: "sessionStep lib i inp sv = (acts, sv')"
  shows "server_inv sv' (calls @ sink_calls acts) \<and> same_config sv sv' \<and> sv_running sv' = sv_running sv"
proof (cases "i < length (sv_workers sv)")
  case False
  with st inv show ?thesis by (simp add: sessionStep_def same_config_def)
next
  case True
  let ?p = "sv_workers sv ! i" and ?c = "sink_calls acts"
  obtain acts0 p' sv1 where p: "phase_step lib (effective_input sv inp) ?p sv = (acts0, p', sv1)"
    by (metis prod_cases3)
  with st True have a: "acts0 = acts" and sv': "sv' = sv1\<lparr>sv_workers := (sv_workers sv)[i := p']\<rparr>"
    by (auto simp: sessionStep_def)
  have ok: "phase_ok sv ?p" using inv True by (simp add: server_inv_def)
  note r = phase_step_result [OF p ok, unfolded a step_result_def]
  from r have c: "same_config sv sv'" by (simp add: sv' server_frame_def same_config_def)
  have run: "sv_running sv' = sv_running sv" using r by (simp add: sv' server_frame_def)
  have "length (filter owns (sv_workers sv')) = (if sv_owned sv' then 1 else 0)"
    using filter_update [OF True, of owns p'] inv r
    by (auto simp: sv' server_inv_def split: if_splits)
  moreover have "activeSockets sv' \<le> maxConcurrentSockets"
  proof -
    have "?p = Finished \<Longrightarrow> p' = Finished" using p by simp
    then have "activeSockets sv' \<le> activeSockets sv"
      using filter_update [OF True, of "\<lambda>p. p \<noteq> Finished" p']
      by (auto simp: sv' activeSockets_def split: if_splits)
    with inv show ?thesis by (simp add: server_inv_def)
  qed
  moreover have "\<forall>p \<in> set (sv_workers sv'). phase_ok sv' p"
  proof -
    have "set (sv_workers sv') \<subseteq> insert p' (set (sv_workers sv))"
      using set_update_subset_insert [of "sv_workers sv" i p'] by (simp add: sv')
    with inv r show ?thesis by (auto simp: same_config_phase [OF c] server_inv_def)
  qed
  moreover have "list_all (call_ok sv') (calls @ ?c)"
    using inv r by (auto simp: server_inv_def list_all_iff same_config_call [OF c])
  moreover have "quiet (calls @ ?c)" if q: "\<forall>p \<in> set (sv_workers sv'). \<not> playing p"
  proof (cases "playing ?p")
    case play: True
    with playing_owns have "owns ?p" by blast
    moreover have "\<not> playing p'" using q True by (simp add: sv' set_update_memI)
    ultimately show ?thesis using r play last_append_quiet by auto
  next
    case np: False
    show ?thesis
    proof (cases "\<forall>p \<in> set (sv_workers sv). \<not> playing p")
      case True
      with inv have "quiet calls" by (simp add: server_inv_def)
      moreover have "\<not> playing p'" using q \<open>i < length (sv_workers sv)\<close> by (simp add: sv' set_update_memI)
      ultimately show ?thesis using r quiet_append by (cases "owns ?p") auto
    next
      case False
      then obtain j where j: "j < length (sv_workers sv)" "playing (sv_workers sv ! j)"
        by (auto simp: in_set_conv_nth)
      with np have "j \<noteq> i" by auto
      with j have "playing (sv_workers sv' ! j)" "j < length (sv_workers sv')" by (simp_all add: sv')
      with q show ?thesis by (metis nth_mem)
    qed
  qed
  ultimately show ?thesis using c run by (simp add: server_inv_def)
qed

lemma owns_not_finished: "owns p \<Longrightarrow> p \<noteq> Finished"
  by (cases p) simp_all

lemma filter_owns_finished [simp]: "filter owns (filter (\<lambda>p. p \<noteq> Finished) ps) = filter owns ps"
  by (induction ps) auto

lemma same_config_refl [simp]: "same_config sv sv"
  "same_config sv (sv\<lparr>sv_workers := ws\<rparr>)" "same_config sv (sv\<lparr>sv_running := b\<rparr>)"
  by (simp_all add: same_config_def)

lemma reap_inv:
  assumes "server_inv sv calls"
  shows "server_inv (reapCompletedSessionWorkers sv) calls"
proof -
  let ?sv = "reapCompletedSessionWorkers sv"
  have c: "same_config sv ?sv" by (simp add: reapCompletedSessionWorkers_def)
  have "filter owns (sv_workers ?sv) = filter owns (sv_workers sv)"
    by (simp del: filter_filter add: reapCompletedSessionWorkers_def)
  moreover have "activeSockets ?sv = activeSockets sv"
    by (simp add: activeSockets_def reapCompletedSessionWorkers_def)
  moreover have "(\<forall>p \<in> set (sv_workers ?sv). \<not> playing p) \<longleftrightarrow> (\<forall>p \<in> set (sv_workers sv). \<not> playing p)"
    using owns_not_finished playing_owns by (auto simp: reapCompletedSessionWorkers_def)
  ultimately show ?thesis
    using assms by (simp add: server_inv_def same_config_call [OF c] same_config_phase [OF c] list_all_iff)
      (simp add: reapCompletedSessionWorkers_def)
qed

lemma acceptPass_inv:
  assumes "server_inv sv calls" "acceptPass accepted sv = (acts, sv')"
  shows "server_inv sv' (calls @ sink_calls acts) \<and> same_config sv sv' \<and> sv_running sv' = sv_running sv"
proof -
  let ?sv = "reapCompletedSessionWorkers sv"
  have add: "server_inv (?sv\<lparr>sv_workers := sv_workers ?sv @ [AwaitHello]\<rparr>) calls"
    if "\<not> maxConcurrentSockets \<le> activeSockets ?sv"
  proof -
    let ?new = "?sv\<lparr>sv_workers := sv_workers ?sv @ [AwaitHello]\<rparr>"
    have c: "same_config ?sv ?new" by simp
    show ?thesis using reap_inv [OF assms(1)] that
      by (auto simp: server_inv_def same_config_call [OF c] same_config_phase [OF c] activeSockets_def list_all_iff)
  qed
  have "same_config sv ?sv" "sv_running ?sv = sv_running sv" by (simp_all add: reapCompletedSessionWorkers_def)
  then show ?thesis using assms reap_inv [OF assms(1)] add
    by (auto simp: acceptPass_def Let_def same_config_def split: if_splits option.splits)
qed

lemma server_step_inv:
  assumes "server_inv sv calls" "server_step lib ev sv = (acts, sv')"
  shows "server_inv sv' (calls @ sink_calls acts) \<and> same_config sv sv'"
proof (cases ev)
  case (SvAccept accepted)
  then show ?thesis using acceptPass_inv [OF assms(1), of accepted acts sv'] assms(2) by simp
next
  case (SvSession i inp)
  then show ?thesis using sessionStep_inv [OF assms(1), of lib i inp acts sv'] assms(2) by simp
next
  case SvStop
  have c: "same_config sv (sv\<lparr>sv_running := False\<rparr>)" by simp
  from assms SvStop show ?thesis
    by (auto simp: server_inv_def same_config_call [OF c] same_config_phase [OF c] activeSockets_def list_all_iff)
qed

lemma lp_run_inv:
  "lp_run lib evs sv = (acts, sv') \<Longrightarrow> server_inv sv calls \<Longrightarrow>
     server_inv sv' (calls @ sink_calls acts) \<and> same_config sv sv'"
proof (induction evs arbitrary: sv acts calls)
  case Nil
  then show ?case by simp
next
  case (Cons ev evs)
  obtain a1 sv1 where 1: "server_step lib ev sv = (a1, sv1)" by fastforce
  obtain a2 sv2 where 2: "lp_run lib evs sv1 = (a2, sv2)" by fastforce
  from Cons.prems 1 2 have "acts = a1 @ a2" "sv' = sv2" by simp_all
  with server_step_inv [OF Cons.prems(2) 1] Cons.IH [of sv1 a2 "calls @ sink_calls a1"] 2 show ?case
    by (auto simp: same_config_def)
qed

definition startedServer :: "target_info \<Rightarrow> proto_options \<Rightarrow> u16 \<Rightarrow> nat \<Rightarrow> 's target_server" where
  "startedServer info options tcpPort index = (newTargetServer info options tcpPort index)\<lparr>sv_running := True\<rparr>"

lemma started_inv [simp]: "server_inv (startedServer info options tcpPort index) []"
  by (simp add: server_inv_def startedServer_def newTargetServer_def activeSockets_def quiet_def)

lemma startServer_result:
  "startServer os sv w = (Inr sv', w') \<Longrightarrow> sv' = sv\<lparr>sv_running := True\<rparr>"
  by (auto simp: startServer_def Let_def split: prod.splits option.splits)

end
