(* ===== verification/Libera_Host.thy ===== *)
theory Libera_Host
  imports Libera_Server_Props Registry
begin

text \<open>
  \<open>LiberaProtocolVirtualControllerHost\<close> and its \<open>Impl\<close>: a pool of servers, one per target,
  each on a TCP port of its own at or above the configured one; targets come and go while the
  host runs. An operation that stops servers also returns what their threads did at last. The
  advertiser sends a round of datagrams at a time; its pauses are not represented.
\<close>

record 's lp_host =
  lh_config :: host_config
  lh_options :: proto_options
  lh_servers :: "'s target_server list"
  lh_active :: bool

definition newLpHost :: "'s proto_lib \<Rightarrow> host_config \<Rightarrow> 's lp_host" where
  "newLpHost lib config = \<lparr>lh_config = config,
     lh_options = makeHostOptions lib \<lparr>cfg_sliceDurationUs = 0, cfg_options = fmempty\<rparr>,
     lh_servers = [], lh_active = False\<rparr>"

section \<open>The pool of servers\<close>

definition candidatePort :: "proto_options \<Rightarrow> nat \<Rightarrow> u16" where
  "candidatePort options index = of_nat (unat (po_tcpPort options) + index)"

definition nextServerIndexLocked :: "'s lp_host \<Rightarrow> nat option" where
  "nextServerIndexLocked h =
     (let availablePortCount = 65535 - unat (po_tcpPort (lh_options h)) + 1
      in find (\<lambda>index. \<not> (\<exists>sv \<in> set (lh_servers h).
                 ep_port (serverEndpoint sv) = candidatePort (lh_options h) index))
           [0..<availablePortCount])"

definition addServer ::
  "'o os_ops \<Rightarrow> link_target \<Rightarrow> 's lp_host \<Rightarrow> 'o \<Rightarrow> string option \<times> 's lp_host \<times> 'o" where
  "addServer os target h w =
     (if \<exists>sv \<in> set (lh_servers h). ep_targetId (serverEndpoint sv) = ti_id (lt_info target)
      then (None, h, w)
      else case nextServerIndexLocked h of
        None \<Rightarrow> (Some ''No Libera protocol TCP ports remain at or above the configured base port.'', h, w)
      | Some index \<Rightarrow>
          (case startServer os (newTargetServer (lt_info target) (lh_options h)
                  (candidatePort (lh_options h) index) index) w of
             (Inl err, w') \<Rightarrow> (Some err, h, w')
           | (Inr server, w') \<Rightarrow> (None, h\<lparr>lh_servers := lh_servers h @ [server]\<rparr>, w')))"

definition removeServer ::
  "'s proto_lib \<Rightarrow> string \<Rightarrow> 's lp_host \<Rightarrow> string option \<times> lp_action list \<times> 's lp_host" where
  "removeServer lib targetId h =
     (case find_index (\<lambda>sv. ep_targetId (serverEndpoint sv) = targetId) (lh_servers h) of
        None \<Rightarrow> (Some ''Libera protocol target is not active.'', [], h)
      | Some i \<Rightarrow>
          (None, fst (stopServer lib (lh_servers h ! i)),
           h\<lparr>lh_servers := take i (lh_servers h) @ drop (Suc i) (lh_servers h)\<rparr>))"

definition stopImpl :: "'s proto_lib \<Rightarrow> 's lp_host \<Rightarrow> lp_action list \<times> 's lp_host" where
  "stopImpl lib h =
     (if \<not> lh_active h then ([], h)
      else (concat (map (\<lambda>sv. fst (stopServer lib sv)) (lh_servers h)),
            h\<lparr>lh_active := False, lh_servers := []\<rparr>))"

section \<open>Advertising\<close>

text \<open>\<open>valid\<close>: whether a destination can be parsed as an address.\<close>

definition advertiseRound ::
  "'s proto_lib \<Rightarrow> (string \<Rightarrow> bool) \<Rightarrow> 's lp_host \<Rightarrow> (string \<times> u16 \<times> u8 list) list" where
  "advertiseRound lib valid h =
     concat (map (\<lambda>sv. map (\<lambda>address. (address, po_discoveryPort (lh_options h),
                                       pl_encodeAdvertisement lib (serverAdvertisement lib sv)))
                         (filter valid (po_broadcastAddresses (lh_options h))))
       (lh_servers h))"

section \<open>The host's operations\<close>

fun addServers ::
  "'o os_ops \<Rightarrow> link_target list \<Rightarrow> 's lp_host \<Rightarrow> 'o \<Rightarrow> string option \<times> 's lp_host \<times> 'o" where
  "addServers os [] h w = (None, h, w)"
| "addServers os (t # ts) h w =
     (case addServer os t h w of
        (Some err, h', w') \<Rightarrow> (Some err, h', w')
      | (None, h', w') \<Rightarrow> addServers os ts h' w')"

definition startLpHost ::
  "'o os_ops \<Rightarrow> 's proto_lib \<Rightarrow> link_target list \<Rightarrow> 's lp_host \<Rightarrow> 'o \<Rightarrow> string option \<times> 's lp_host \<times> 'o" where
  "startLpHost os lib targets h w =
     (if lh_active h then (None, h, w)
      else if targets = [] then (Some ''Libera protocol host requires at least one target.'', h, w)
      else
        let options = makeHostOptions lib (lh_config h); h1 = h\<lparr>lh_options := options\<rparr> in
        if po_tcpPort options = 0
        then (Some ''Libera protocol TCP base port must be between 1 and 65535.'', h1, w)
        else if po_discoveryEnabled options \<and> po_discoveryPort options = 0
        then (Some ''Libera protocol discovery port must be between 1 and 65535.'', h1, w)
        else (case addServers os targets (h1\<lparr>lh_active := True\<rparr>) w of
            (Some err, h2, w2) \<Rightarrow> (Some err, snd (stopImpl lib h2), w2)
          | (None, h2, w2) \<Rightarrow> (None, h2, w2)))"

definition lpEndpoints :: "'s lp_host \<Rightarrow> vc_endpoint list" where
  "lpEndpoints h = map serverEndpoint (lh_servers h)"

definition lpAddTarget ::
  "'o os_ops \<Rightarrow> link_target \<Rightarrow> 's lp_host \<Rightarrow> 'o \<Rightarrow> string option \<times> 's lp_host \<times> 'o" where
  "lpAddTarget os target h w =
     (if \<not> lh_active h then (Some ''Libera protocol host is not running.'', h, w)
      else addServer os target h w)"

definition lpRemoveTarget ::
  "'s proto_lib \<Rightarrow> string \<Rightarrow> 's lp_host \<Rightarrow> string option \<times> lp_action list \<times> 's lp_host" where
  "lpRemoveTarget lib targetId h =
     (if \<not> lh_active h then (Some ''Libera protocol host is not running.'', [], h)
      else removeServer lib targetId h)"

definition lp_host_ops :: "'o os_ops \<Rightarrow> 's proto_lib \<Rightarrow> ('s lp_host, 'o) host_ops" where
  "lp_host_ops os lib = \<lparr>ho_displayName = (\<lambda>h. ''Libera Protocol''), ho_start = startLpHost os lib,
     ho_stop = (\<lambda>h w. (snd (stopImpl lib h), w)), ho_running = lh_active, ho_endpoints = lpEndpoints,
     ho_supportsDynamicTargets = (\<lambda>h. True), ho_addTarget = lpAddTarget os,
     ho_removeTarget = (\<lambda>targetId h w. case lpRemoveTarget lib targetId h of (res, acts, h') \<Rightarrow> (res, h', w))\<rparr>"

section \<open>Registration\<close>

definition lp_option :: "string \<Rightarrow> string \<Rightarrow> string \<Rightarrow> vc_option_type \<Rightarrow> string \<Rightarrow> vc_option" where
  "lp_option key name description ty def = \<lparr>vo_key = key, vo_displayName = name,
     vo_description = description, vo_type = ty, vo_defaultValue = def, vo_choices = [], vo_required = False\<rparr>"

definition liberaHostInfo :: "'s proto_lib \<Rightarrow> vc_host_info" where
  "liberaHostInfo lib = \<lparr>hi_id = ''libera'', hi_displayName = ''Libera Protocol'',
     hi_description = ''Expose linked controllers through the Libera protocol.'',
     hi_options =
       [lp_option ''listen_address'' ''Listen Address'' ''Local address for TCP sessions.''
          OptString ''0.0.0.0'',
        lp_option ''advertised_address'' ''Advertised Address''
          ''Address advertised to senders. Leave empty to let senders use the UDP source address.''
          OptString [],
        lp_option ''tcp_port'' ''TCP Port'' ''Base TCP port for Libera protocol sessions.''
          OptInteger (to_string (unat (pl_sessionPort lib))),
        lp_option ''discovery_port'' ''Discovery Port'' ''UDP discovery advertisement port.''
          OptInteger (to_string (unat (pl_discoveryPort lib))),
        lp_option ''broadcast_addresses'' ''Broadcast Addresses''
          ''Comma-separated UDP advertisement destinations.'' OptString ''255.255.255.255'',
        lp_option ''broadcast_interval_ms'' ''Broadcast Interval''
          ''Discovery advertisement interval in milliseconds.'' OptInteger ''500'',
        lp_option ''max_frame_points'' ''Max Frame Points''
          ''Maximum accepted points in one counted frame.'' OptInteger (to_string (unat defaultMaxFramePoints)),
        lp_option ''max_user_channels'' ''User Channels''
          ''Maximum accepted user channels. Libera Link currently maps u1 and u2.''
          OptInteger (to_string (unat maxLaserPointUserChannels)),
        lp_option ''handshake_timeout_ms'' ''Handshake Timeout''
          ''Close clients that do not complete the handshake within this idle period.''
          OptInteger (to_string (unat defaultHandshakeTimeoutMs)),
        lp_option ''session_timeout_ms'' ''Session Timeout''
          ''Reset and release an endpoint after this long without protocol traffic.''
          OptInteger (to_string (unat defaultSessionTimeoutMs))],
     hi_defaultSelection = False, hi_separateInstancePerTarget = False\<rparr>"

definition liberaRegistration :: "'s proto_lib \<Rightarrow> 's lp_host registration" where
  "liberaRegistration lib =
     \<lparr>rg_info = liberaHostInfo lib, rg_factory = Some (\<lambda>config. Some (newLpHost lib config))\<rparr>"

section \<open>Runs of the host\<close>

text \<open>
  Between calls the servers' threads run: one event of one server. The running flag of a server
  is only cleared by the calls that remove it.
\<close>

fun is_stop :: "server_event \<Rightarrow> bool" where
  "is_stop SvStop = True"
| "is_stop _ = False"

definition serveStep :: "'s proto_lib \<Rightarrow> nat \<Rightarrow> server_event \<Rightarrow> 's lp_host \<Rightarrow> 's lp_host" where
  "serveStep lib i ev h =
     (if i < length (lh_servers h) \<and> \<not> is_stop ev
      then h\<lparr>lh_servers := (lh_servers h)[i := snd (server_step lib ev (lh_servers h ! i))]\<rparr> else h)"

inductive lp_reachable :: "'o os_ops \<Rightarrow> 's proto_lib \<Rightarrow> 's lp_host \<Rightarrow> bool" for os lib where
  new: "lp_reachable os lib (newLpHost lib config)"
| start: "lp_reachable os lib h \<Longrightarrow> startLpHost os lib ts h w = (res, h', w') \<Longrightarrow> lp_reachable os lib h'"
| stop: "lp_reachable os lib h \<Longrightarrow> lp_reachable os lib (snd (stopImpl lib h))"
| add: "lp_reachable os lib h \<Longrightarrow> lpAddTarget os t h w = (res, h', w') \<Longrightarrow> lp_reachable os lib h'"
| remove: "lp_reachable os lib h \<Longrightarrow> lpRemoveTarget lib tid h = (res, acts, h') \<Longrightarrow> lp_reachable os lib h'"
| serve: "lp_reachable os lib h \<Longrightarrow> lp_reachable os lib (serveStep lib i ev h)"

end
