(* ===== verification/Libera_Server_Thms.thy ===== *)
theory Libera_Server_Thms
  imports Libera_Server_Props
begin

text \<open>
  The properties of the Libera protocol's sessions and servers: exclusive ownership, the calls
  a server makes on its sink, the delivery of counted frames, the release of idle sessions,
  stopping, the framing of records on the wire and the bounds of the options.
\<close>

section \<open>A sample library and server\<close>

text \<open>A codec in which the first byte of a header is the type and the second the payload size.\<close>

definition sample_types :: "u8 \<Rightarrow> record_type" where
  "sample_types b = (if b = 0 then RecHello else if b = 1 then RecReady else if b = 2 then RecFrameMarker
     else if b = 3 then RecPoints else RecOther (ucast b))"

definition sample_proto :: "unit proto_lib" where
  "sample_proto = \<lparr>pl_sessionPort = 9999, pl_discoveryPort = 9998, pl_headerSize = 2,
     pl_featureTargetBeginTime = 1, pl_featureScannerSync = 2, pl_streamModeMask = (\<lambda>_. 1),
     pl_decodeRecordHeader = (\<lambda>h. Inr \<lparr>rh_type = sample_types (h ! 0), rh_payloadSize = ucast (h ! 1)\<rparr>),
     pl_decodeHello = (\<lambda>_. Inr \<lparr>he_senderName = ''me'', he_requestedStreamMode = FrameByCount,
       he_requestedUserChannelCount = 2, he_defaultPointRate = 0\<rparr>),
     pl_decodeStreamConfig = (\<lambda>_. Inl ''none''), pl_decodeScannerSync = (\<lambda>_. Inl ''none''),
     pl_decodeFrameMarker = (\<lambda>bytes. Inr \<lparr>fm_framePointCount = ucast (bytes ! 0), fm_pointRate = 0,
       fm_targetBeginTimeNs = 0\<rparr>),
     pl_decodePointSamples = (\<lambda>bytes channels. Inr (map (\<lambda>b. \<lparr>ps_x = ucast b, ps_y = 0, ps_r = 0, ps_g = 0,
       ps_b = 0, ps_i = 0, ps_user = []\<rparr>) bytes)),
     pl_readUInt64 = (\<lambda>_. 0), pl_newSender = (), pl_setUserChannelCount = (\<lambda>_ s. s),
     pl_makeAccept = (\<lambda>_ s. ([], s)), pl_makeReject = (\<lambda>_ _ s. ([], s)), pl_makePong = (\<lambda>_ s. ([], s)),
     pl_defaultPoint = \<lparr>lp_x = 0, lp_y = 0, lp_r = 0, lp_g = 0, lp_b = 0, lp_i = 0, lp_u1 = 0, lp_u2 = 0\<rparr>,
     pl_encodeAdvertisement = (\<lambda>_. [])\<rparr>"

lemma sample_proto_simps [simp]:
  "pl_headerSize sample_proto = 2"
  "pl_decodeRecordHeader sample_proto h = Inr \<lparr>rh_type = sample_types (h ! 0), rh_payloadSize = ucast (h ! 1)\<rparr>"
  "pl_decodeHello sample_proto bytes = Inr \<lparr>he_senderName = ''me'', he_requestedStreamMode = FrameByCount,
     he_requestedUserChannelCount = 2, he_defaultPointRate = 0\<rparr>"
  "pl_decodeFrameMarker sample_proto bytes = Inr \<lparr>fm_framePointCount = ucast (bytes ! 0), fm_pointRate = 0,
     fm_targetBeginTimeNs = 0\<rparr>"
  "pl_decodePointSamples sample_proto bytes channels = Inr (map (\<lambda>b. \<lparr>ps_x = ucast b, ps_y = 0, ps_r = 0,
     ps_g = 0, ps_b = 0, ps_i = 0, ps_user = []\<rparr>) bytes)"
  "pl_makeAccept sample_proto a = (\<lambda>s. ([], s))" "pl_makeReject sample_proto code m = (\<lambda>s. ([], s))"
  "pl_newSender sample_proto = ()" "pl_setUserChannelCount sample_proto n = (\<lambda>s. s)"
  by (simp_all add: sample_proto_def)

text \<open>What a run of the sample server computes.\<close>

lemmas run_defs = acceptPass_def reapCompletedSessionWorkers_def activeSockets_def maxConcurrentSockets_def
  startedServer_def newTargetServer_def sessionStep_def effective_input_def tryAcquireSession_def
  helloStep_def logBusyRejection_def acquiredStep_def readyStep_def streamingStep_def releasingStep_def
  negotiate_def newSessionState_def acceptedMode_def handleRecord_def Let_def

definition no_options :: host_config where
  "no_options = \<lparr>cfg_sliceDurationUs = 0, cfg_options = fmempty\<rparr>"

abbreviation sample_options :: proto_options where
  "sample_options \<equiv> makeHostOptions sample_proto no_options"

definition lp_sample_info :: target_info where
  "lp_sample_info = \<lparr>ti_id = ''a'', ti_label = ''Laser'', ti_type = ''Helios'', ti_maxPointRate = 0\<rparr>"

abbreviation sample_server :: "unit target_server" where
  "sample_server \<equiv> startedServer lp_sample_info sample_options 9999 0"

abbreviation got :: "record_type \<Rightarrow> u8 list \<Rightarrow> session_input" where
  "got rt bytes \<equiv> \<lparr>si_read = Inr \<lparr>pr_type = rt, pr_payload = bytes\<rparr>, si_wrote = True, si_open = True, si_now = 0\<rparr>"

lemma default_option [simp]:
  "optionU16 no_options key n = n" "optionU32 no_options key m = m" "optionString no_options key s = s"
  by (simp_all add: optionU16_def optionU32_def optionString_def no_options_def)

lemma lp_sample_options_simps [simp]:
  "po_maxFramePoints sample_options = 300000" "po_minPointRate sample_options = 1000"
  "po_maxPointRate sample_options = 100000" "po_maxRecordPayloadBytes sample_options = 4194304"
  by (simp_all add: makeHostOptions_def Let_def max_def defaultMaxFramePoints_def defaultMinPointRate_def
      defaultMaxPointRate_def defaultMaxRecordPayloadBytes_def)

section \<open>Ownership\<close>

lemma unowned_quiet:
  assumes "server_inv sv calls" "\<not> sv_owned sv"
  shows "quiet calls"
proof -
  from assms have "\<forall>p \<in> set (sv_workers sv). \<not> owns p" by (simp add: server_inv_def filter_empty_conv)
  with assms(1) playing_owns show ?thesis by (auto simp: server_inv_def)
qed

text \<open>C11: Whatever clients do and however their threads interleave, at most one of them owns the
  endpoint, the busy flag that the endpoint reports says whether one does, at most 32 sockets
  are open, and when no session is being played the last call on the target, if there was any,
  is a reset.\<close>

theorem session_exclusive:
  assumes "lp_run lib evs (startedServer info options tcpPort index) = (acts, sv)"
  shows "length (filter owns (sv_workers sv)) = (if sv_owned sv then 1 else 0) \<and>
    activeSockets sv \<le> 32 \<and> (\<not> sv_owned sv \<longrightarrow> quiet (sink_calls acts))"
proof -
  have inv: "server_inv sv (sink_calls acts)" using lp_run_inv [OF assms started_inv] by simp
  then have "length (filter owns (sv_workers sv)) = (if sv_owned sv then 1 else 0)" "activeSockets sv \<le> 32"
    by (simp_all add: server_inv_def maxConcurrentSockets_def)
  with unowned_quiet [OF inv] show ?thesis by blast
qed

text \<open>Two clients: the second is told that the endpoint is busy.\<close>

definition two_clients :: "server_event list" where
  "two_clients = [SvAccept (Some True), SvAccept (Some True), SvSession 0 (got RecHello []),
     SvSession 1 (got RecHello []), SvSession 0 (got RecReady []), SvSession 0 (got RecReady [])]"

theorem session_exclusive_witness:
  "case lp_run sample_proto two_clients sample_server of (acts, sv) \<Rightarrow>
     sv_owned sv \<and> length (sv_workers sv) = 2 \<and> length (filter owns (sv_workers sv)) = 1"
proof -
  obtain acts sv where r: "lp_run sample_proto two_clients sample_server = (acts, sv)" by fastforce
  then have "sv_owned sv \<and> length (sv_workers sv) = 2"
    by (simp add: two_clients_def run_defs split: prod.splits) auto
  with session_exclusive [OF r] r show ?thesis by simp
qed

section \<open>What reaches the target\<close>

text \<open>C21: Every call that a server makes on its target, in any run, is well formed: a slice has
  points, a frame is one slice of at most the announced limit and never clears the prefetch;
  coordinates lie in [-1, 1] and colours in [0, 1]; the rate lies between the effective bounds
  of the server and the duration is the one computed from it; a frame is never replaced.\<close>

theorem submissions_valid:
  assumes "lp_run lib evs (startedServer info options tcpPort index) = (acts, sv)"
  shows "sv_info sv = info \<and> sv_options sv = options \<and> list_all (call_ok sv) (sink_calls acts)"
  using lp_run_inv [OF assms started_inv]
  by (simp add: server_inv_def same_config_def startedServer_def newTargetServer_def)

definition one_frame :: "server_event list" where
  "one_frame = [SvAccept (Some True), SvSession 0 (got RecHello []), SvSession 0 (got RecReady []),
     SvSession 0 (got RecReady []), SvSession 0 (got RecFrameMarker [3]), SvSession 0 (got RecPoints [1, 2]),
     SvSession 0 (got RecPoints [3])]"

theorem submissions_valid_witness:
  "case lp_run sample_proto one_frame sample_server of (acts, sv) \<Rightarrow>
     \<exists>f. sink_calls acts = [Reset, SubmitFrame f] \<and> frame_ok sv f"
proof -
  obtain acts sv where r: "lp_run sample_proto one_frame sample_server = (acts, sv)" by fastforce
  moreover have "\<exists>f. sink_calls (fst (lp_run sample_proto one_frame sample_server)) = [Reset, SubmitFrame f]"
    by (simp add: one_frame_def run_defs handleFrameMarker_def handlePoints_def appendFramePoints_def
        submitPendingFrame_def)
  ultimately obtain f where f: "sink_calls acts = [Reset, SubmitFrame f]" by auto
  with submissions_valid [OF r] have "frame_ok sv f" by simp
  with r f show ?thesis by auto
qed

text \<open>The records of a session handled in order, until one ends it.\<close>

fun handleRecords ::
  "'s proto_lib \<Rightarrow> ('a) server_config_scheme \<Rightarrow> proto_record list \<Rightarrow> 's session_state \<Rightarrow> 's handled" where
  "handleRecords lib sv [] state = (True, [], state)"
| "handleRecords lib sv (rec # recs) state =
     (case handleRecord lib sv True rec state of
        (False, acts, state1) \<Rightarrow> (False, acts, state1)
      | (True, acts, state1) \<Rightarrow>
          (case handleRecords lib sv recs state1 of (ok, acts', state2) \<Rightarrow> (ok, acts @ acts', state2)))"

text \<open>The frame that a marker and the samples it counts stand for.\<close>

definition counted_frame ::
  "'s proto_lib \<Rightarrow> ('a) server_config_scheme \<Rightarrow> 's session_state \<Rightarrow> frame_marker \<Rightarrow> point_sample list \<Rightarrow>
   frame_submission" where
  "counted_frame lib sv state marker samples =
     (let rate = (if fm_pointRate marker \<noteq> 0 then clampRate sv (fm_pointRate marker) else se_pointRate state)
      in \<lparr>fs_slices = [\<lparr>sl_points = toLaserPoints lib samples,
            sl_durationUs = pointDurationUs (length samples) rate, sl_effectivePointRate = Some rate,
            sl_discontinuous = False\<rparr>],
          fs_effectivePointRate = Some rate,
          fs_targetBeginTime = (if fm_targetBeginTimeNs marker \<noteq> 0
            then Some (se_sessionStartedAt state + fm_targetBeginTimeNs marker) else None),
          fs_clearTransportPrefetch = False\<rparr>)"

definition points_record ::
  "'s proto_lib \<Rightarrow> u8 \<Rightarrow> proto_record \<Rightarrow> point_sample list \<Rightarrow> bool" where
  "points_record lib channels rec samples \<longleftrightarrow> pr_type rec = RecPoints \<and> samples \<noteq> [] \<and>
     pl_decodePointSamples lib (pr_payload rec) channels = Inr samples"

lemma handle_points_record:
  assumes "points_record lib (se_userChannelCount state) rec samples"
    "se_pendingFrame state = Some pending"
  shows "handleRecord lib sv wrote rec state = appendFramePoints sv (toLaserPoints lib samples) state"
  using assms by (simp add: handleRecord_def handlePoints_def points_record_def Let_def)

lemma append_records:
  assumes "se_pendingFrame state = Some pending" "list_all2 (points_record lib (se_userChannelCount state)) recs samples"
    "recs \<noteq> []" "pf_points pending = toLaserPoints lib before"
    "length before + length (concat samples) = unat (fm_framePointCount (pf_marker pending))"
  shows "handleRecords lib sv recs state =
    (True, submitPendingFrame sv (state\<lparr>se_pendingFrame :=
       Some (pending\<lparr>pf_points := toLaserPoints lib (before @ concat samples)\<rparr>)\<rparr>))"
  using assms
proof (induction recs arbitrary: samples state pending before)
  case Nil
  then show ?case by simp
next
  case (Cons rec recs)
  obtain s ss where samples: "samples = s # ss" and rec: "points_record lib (se_userChannelCount state) rec s"
    and rest: "list_all2 (points_record lib (se_userChannelCount state)) recs ss"
    using Cons.prems(2) by (auto simp: list_all2_Cons1)
  let ?n = "unat (fm_framePointCount (pf_marker pending))"
  let ?p = "pending\<lparr>pf_points := toLaserPoints lib (before @ s)\<rparr>"
  have s: "s \<noteq> []" using rec by (simp add: points_record_def)
  note h = handle_points_record [OF rec Cons.prems(1), of sv True]
  have fits: "\<not> (?n = 0 \<or> ?n < length (pf_points pending) \<or> ?n - length (pf_points pending) < length (toLaserPoints lib s))"
    using Cons.prems(4,5) s by (cases s) (auto simp: samples)
  show ?case
  proof (cases "recs = []")
    case True
    with rest have ss: "ss = []" by simp
    then have "length (before @ s) = ?n" using Cons.prems(5) by (simp add: samples)
    with fits h True ss Cons.prems(1,4) show ?thesis
      by (simp add: appendFramePoints_def samples Let_def split: prod.split)
  next
    case False
    with rest obtain r rs where "ss = r # rs" "r \<noteq> []"
      by (cases recs; cases ss) (auto simp: points_record_def)
    then have "length (before @ s) \<noteq> ?n" using Cons.prems(5) by (cases r) (auto simp: samples)
    with fits h Cons.prems(1,4) have
      a: "handleRecord lib sv True rec state = (True, [], state\<lparr>se_pendingFrame := Some ?p\<rparr>)"
      by (simp add: appendFramePoints_def Let_def)
    have "handleRecords lib sv recs (state\<lparr>se_pendingFrame := Some ?p\<rparr>) =
      (True, submitPendingFrame sv (state\<lparr>se_pendingFrame :=
         Some (pending\<lparr>pf_points := toLaserPoints lib ((before @ s) @ concat ss)\<rparr>)\<rparr>))"
      using Cons.IH [of "state\<lparr>se_pendingFrame := Some ?p\<rparr>" ?p ss "before @ s"] rest False Cons.prems(5)
      by (simp add: samples)
    then show ?thesis by (simp add: a samples split: prod.split)
  qed
qed

text \<open>C19: In frame mode a marker announces a frame; the point records that follow deliver it.
  However the announced number of samples is spread over point records, exactly one frame is
  submitted, with all samples converted in their order, at the clamped rate and the requested
  time, and no pending frame is left; when the first point record alone has more samples than
  were announced, the session ends without submitting anything.\<close>

theorem counted_frame_delivered:
  assumes "se_streamMode state = FrameByCount" "se_pendingFrame state = None"
    "pr_type m = RecFrameMarker" "pl_decodeFrameMarker lib (pr_payload m) = Inr marker"
    "fm_framePointCount marker \<noteq> 0" "fm_framePointCount marker \<le> po_maxFramePoints (sv_options sv)"
    "list_all2 (points_record lib (se_userChannelCount state)) recs samples" "recs \<noteq> []"
  shows "(length (concat samples) = unat (fm_framePointCount marker) \<longrightarrow>
      (\<exists>state'. handleRecords lib sv (m # recs) state =
        (True, [LpSink (SubmitFrame (counted_frame lib sv state marker (concat samples)))], state') \<and>
        se_pendingFrame state' = None)) \<and>
    (unat (fm_framePointCount marker) < length (hd samples) \<longrightarrow>
      (\<exists>state'. handleRecords lib sv (m # recs) state = (False, [], state')))"
proof (intro conjI impI)
  let ?pending = "\<lparr>pf_marker = marker, pf_points = [], pf_targetBeginTime = if fm_targetBeginTimeNs marker \<noteq> 0
    then Some (se_sessionStartedAt state + fm_targetBeginTimeNs marker) else None\<rparr>"
  let ?st = "state\<lparr>se_pendingFrame := Some ?pending\<rparr>"
  let ?st1 = "if fm_pointRate marker \<noteq> 0 then ?st\<lparr>se_pointRate := clampRate sv (fm_pointRate marker)\<rparr> else ?st"
  have h: "handleRecord lib sv True m state = (True, [], ?st1)"
    using assms(1-6) by (simp add: handleRecord_def handleFrameMarker_def Let_def)
  have st: "se_pendingFrame ?st1 = Some ?pending" "se_userChannelCount ?st1 = se_userChannelCount state"
    "se_pointRate ?st1 = (if fm_pointRate marker \<noteq> 0 then clampRate sv (fm_pointRate marker) else se_pointRate state)"
    by simp_all
  {
    assume n: "length (concat samples) = unat (fm_framePointCount marker)"
    have "concat samples \<noteq> []" using assms(5) n by (metis list.size(3) unat_eq_0)
    have "handleRecords lib sv recs ?st1 = (True, submitPendingFrame sv (?st1\<lparr>se_pendingFrame :=
        Some (?pending\<lparr>pf_points := toLaserPoints lib ([] @ concat samples)\<rparr>)\<rparr>))"
      by (rule append_records [OF st(1)]) (use assms(7,8) n in \<open>simp_all add: toLaserPoints_def\<close>)
    with \<open>concat samples \<noteq> []\<close>
    show "\<exists>state'. handleRecords lib sv (m # recs) state =
        (True, [LpSink (SubmitFrame (counted_frame lib sv state marker (concat samples)))], state') \<and>
        se_pendingFrame state' = None"
      by (simp add: h submitPendingFrame_def counted_frame_def Let_def del: concat_eq_Nil_conv)
  next
    assume n: "unat (fm_framePointCount marker) < length (hd samples)"
    obtain r rs s ss where c: "recs = r # rs" "samples = s # ss" and
      r: "points_record lib (se_userChannelCount ?st1) r s"
      using assms(7,8) st(2) by (cases recs; cases samples) auto
    with n st(1) have "handleRecord lib sv True r ?st1 = (False, [], ?st1)"
      by (simp add: handle_points_record [OF r st(1)] appendFramePoints_def Let_def)
    then show "\<exists>state'. handleRecords lib sv (m # recs) state = (False, [], state')"
      by (simp add: h c)
  }
qed

theorem counted_frame_delivered_witness:
  "\<exists>state'. handleRecords sample_proto sample_server
     [\<lparr>pr_type = RecFrameMarker, pr_payload = [3]\<rparr>, \<lparr>pr_type = RecPoints, pr_payload = [1, 2]\<rparr>,
      \<lparr>pr_type = RecPoints, pr_payload = [5]\<rparr>]
     ((newSessionState sample_proto 0)\<lparr>se_streamMode := FrameByCount\<rparr>) =
     (True, [LpSink (SubmitFrame (counted_frame sample_proto sample_server
        ((newSessionState sample_proto 0)\<lparr>se_streamMode := FrameByCount\<rparr>)
        \<lparr>fm_framePointCount = 3, fm_pointRate = 0, fm_targetBeginTimeNs = 0\<rparr>
        (map (\<lambda>b. \<lparr>ps_x = b, ps_y = 0, ps_r = 0, ps_g = 0, ps_b = 0, ps_i = 0, ps_user = []\<rparr>) [1, 2, 5])))], state')"
proof -
  let ?s = "\<lambda>b :: u16. \<lparr>ps_x = b, ps_y = 0, ps_r = 0, ps_g = 0, ps_b = 0, ps_i = 0, ps_user = []\<rparr>"
  let ?st = "(newSessionState sample_proto 0)\<lparr>se_streamMode := FrameByCount\<rparr>"
  let ?marker = "\<lparr>fm_framePointCount = 3, fm_pointRate = 0, fm_targetBeginTimeNs = 0\<rparr>"
  have "po_maxFramePoints (sv_options sample_server) = 300000"
    by (simp add: startedServer_def newTargetServer_def)
  then show ?thesis
    using counted_frame_delivered [of ?st "\<lparr>pr_type = RecFrameMarker, pr_payload = [3]\<rparr>" sample_proto ?marker
        sample_server "[\<lparr>pr_type = RecPoints, pr_payload = [1, 2]\<rparr>, \<lparr>pr_type = RecPoints, pr_payload = [5]\<rparr>]"
        "[[?s 1, ?s 2], [?s 5]]"]
    by (auto simp: newSessionState_def points_record_def)
qed

section \<open>The end of a session\<close>

text \<open>How many steps a thread whose reads and writes fail still needs.\<close>

fun steps_left :: "'s phase \<Rightarrow> nat" where
  "steps_left AwaitHello = 2"
| "steps_left (Acquired hello) = 3"
| "steps_left (AwaitReady state) = 3"
| "steps_left (Streaming state) = 3"
| "steps_left (Releasing reason) = 2"
| "steps_left Returned = 1"
| "steps_left Finished = 0"

lemma steps_left_0 [simp]: "steps_left p = 0 \<longleftrightarrow> p = Finished"
  by (cases p) simp_all

definition failing :: "session_input \<Rightarrow> bool" where
  "failing inp \<longleftrightarrow> (\<exists>err. si_read inp = Inl err) \<and> \<not> si_wrote inp"

lemma phase_step_left:
  "failing inp \<Longrightarrow> phase_step lib inp p sv = (acts, p', sv') \<Longrightarrow> steps_left p' \<le> steps_left p - 1"
  by (cases p) (auto simp: failing_def helloStep_def acquiredStep_def readyStep_def streamingStep_def
      releasingStep_def Let_def split: prod.splits if_splits option.splits)

lemma sessionStep_left:
  assumes "sessionStep lib i inp sv = (acts, sv')" "i < length (sv_workers sv)" "failing inp \<or> \<not> sv_running sv"
    "server_inv sv calls"
  shows "length (sv_workers sv') = length (sv_workers sv) \<and>
    steps_left (sv_workers sv' ! i) \<le> steps_left (sv_workers sv ! i) - 1 \<and>
    (\<forall>j. j \<noteq> i \<longrightarrow> sv_workers sv' ! j = sv_workers sv ! j)"
proof -
  have "failing (effective_input sv inp)" using assms(3) by (auto simp: effective_input_def failing_def)
  with assms(1,2) phase_step_left [of "effective_input sv inp" lib "sv_workers sv ! i" sv] show ?thesis
    by (auto simp: sessionStep_def split: prod.splits)
qed

lemma joinWorker_result:
  assumes "joinWorker lib i sv = (acts, sv')" "i < length (sv_workers sv)" "\<not> sv_running sv" "server_inv sv calls"
  shows "server_inv sv' (calls @ sink_calls acts) \<and> same_config sv sv' \<and> \<not> sv_running sv' \<and>
    length (sv_workers sv') = length (sv_workers sv) \<and> sv_workers sv' ! i = Finished \<and>
    (\<forall>j. j \<noteq> i \<longrightarrow> sv_workers sv' ! j = sv_workers sv ! j)"
proof -
  let ?inp = "\<lparr>si_read = Inl ''server stopped'', si_wrote = False, si_open = True, si_now = 0\<rparr>"
  obtain a1 s1 where 1: "sessionStep lib i ?inp sv = (a1, s1)" by fastforce
  obtain a2 s2 where 2: "sessionStep lib i ?inp s1 = (a2, s2)" by fastforce
  obtain a3 s3 where 3: "sessionStep lib i ?inp s2 = (a3, s3)" by fastforce
  have r: "acts = a1 @ a2 @ a3" "sv' = s3"
    using assms(1) 1 2 3 by (auto simp: joinWorker_def numeral_3_eq_3 split: prod.splits)
  note i1 = sessionStep_inv [OF assms(4) 1]
  note i2 = sessionStep_inv [OF conjunct1 [OF i1] 2]
  note i3 = sessionStep_inv [OF conjunct1 [OF i2] 3]
  have f: "failing ?inp" by (simp add: failing_def)
  note l1 = sessionStep_left [OF 1 assms(2) disjI1 [OF f] assms(4)]
  have "i < length (sv_workers s1)" using l1 assms(2) by simp
  note l2 = sessionStep_left [OF 2 this disjI1 [OF f] conjunct1 [OF i1]]
  have "i < length (sv_workers s2)" using l1 l2 assms(2) by simp
  note l3 = sessionStep_left [OF 3 this disjI1 [OF f] conjunct1 [OF i2]]
  have "steps_left (sv_workers sv ! i) \<le> 3" by (cases "sv_workers sv ! i") simp_all
  with l1 l2 l3 have "steps_left (sv_workers s3 ! i) = 0" by linarith
  moreover have "same_config sv s3" using i1 i2 i3 by (simp add: same_config_def)
  ultimately show ?thesis using l1 l2 l3 i1 i2 i3 assms(3) r by simp
qed

lemma joinWorkers_result:
  assumes "joinWorkers lib i n sv = (acts, sv')" "i + n = length (sv_workers sv)" "\<not> sv_running sv"
    "server_inv sv calls" "\<forall>j < i. sv_workers sv ! j = Finished"
  shows "server_inv sv' (calls @ sink_calls acts) \<and> same_config sv sv' \<and> \<not> sv_running sv' \<and>
    (\<forall>p \<in> set (sv_workers sv'). p = Finished)"
  using assms
proof (induction lib i n sv arbitrary: acts calls rule: joinWorkers.induct)
  case (1 lib i sv)
  then show ?case by (auto simp: in_set_conv_nth)
next
  case (2 lib i n sv)
  obtain a1 s1 where 1: "joinWorker lib i sv = (a1, s1)" by fastforce
  obtain a2 s2 where r2: "joinWorkers lib (Suc i) n s1 = (a2, s2)" by fastforce
  have r: "acts = a1 @ a2" "sv' = s2" using 2(2) 1 r2 by auto
  have "i < length (sv_workers sv)" using 2(3) by simp
  note j = joinWorker_result [OF 1 this 2(4,5)]
  have "\<forall>k < Suc i. sv_workers s1 ! k = Finished"
  proof (intro allI impI)
    fix k assume "k < Suc i"
    then show "sv_workers s1 ! k = Finished" using j 2(6) by (cases "k = i") auto
  qed
  moreover have "joinWorkers lib (Suc i) n s1 = (a2, sv')" using r2 r by simp
  ultimately have "server_inv sv' ((calls @ sink_calls a1) @ sink_calls a2) \<and> same_config s1 sv' \<and>
      \<not> sv_running sv' \<and> (\<forall>p \<in> set (sv_workers sv'). p = Finished)"
    using 2(1) [OF 1 [symmetric], of a2 "calls @ sink_calls a1"] j 2(3) by simp
  with j r show ?case by (simp add: same_config_def)
qed

text \<open>Stopping a server, whatever its threads were doing, leaves it not running, without
  threads, its endpoint available, and the last call on its target, if there was any, a reset:
  the session that was being played is reset before the server is gone.\<close>

theorem stop_server:
  assumes "lp_run lib evs (startedServer info options tcpPort index) = (acts, sv)" "sv_running sv"
    "stopServer lib sv = (acts', sv')"
  shows "\<not> sv_running sv' \<and> sv_workers sv' = [] \<and> endpointAvailability sv' = Available \<and>
    serverEndpoint sv' = (serverEndpoint sv)\<lparr>ep_attributes := ep_attributes (serverEndpoint sv')\<rparr> \<and>
    quiet (sink_calls (acts @ acts'))"
proof -
  let ?sv = "sv\<lparr>sv_running := False\<rparr>"
  have inv: "server_inv sv (sink_calls acts)" using lp_run_inv [OF assms(1) started_inv] by simp
  have "server_step lib SvStop sv = ([], ?sv)" by simp
  from server_step_inv [OF inv this] have inv1: "server_inv ?sv (sink_calls acts)" by simp
  obtain sv2 where j: "joinWorkers lib 0 (length (sv_workers ?sv)) ?sv = (acts', sv2)"
    and sv': "sv' = sv2\<lparr>sv_workers := []\<rparr>"
    using assms(2,3) by (auto simp: stopServer_def split: prod.splits)
  have r: "server_inv sv2 (sink_calls acts @ sink_calls acts')" "same_config ?sv sv2" "\<not> sv_running sv2"
      "\<forall>p \<in> set (sv_workers sv2). p = Finished"
    using joinWorkers_result [OF j _ _ inv1] by simp_all
  from r(4) have n: "filter owns (sv_workers sv2) = []" "\<forall>p \<in> set (sv_workers sv2). \<not> playing p"
    by (auto simp: filter_empty_conv)
  with r(1) have "\<not> sv_owned sv2" "quiet (sink_calls acts @ sink_calls acts')"
    by (auto simp: server_inv_def split: if_splits)
  with r(2,3) show ?thesis
    by (simp add: sv' endpointAvailability_def serverEndpoint_def same_config_def Let_def)
qed

theorem stop_server_witness:
  "case lp_run sample_proto two_clients sample_server of (acts, sv) \<Rightarrow>
     (case stopServer sample_proto sv of (acts', sv') \<Rightarrow>
        sv_owned sv \<and> endpointAvailability sv' = Available \<and> quiet (sink_calls (acts @ acts')))"
proof -
  obtain acts sv where r: "lp_run sample_proto two_clients sample_server = (acts, sv)" by fastforce
  obtain acts' sv' where s: "stopServer sample_proto sv = (acts', sv')" by fastforce
  from r have "sv_owned sv \<and> sv_running sv"
    by (simp add: two_clients_def run_defs split: prod.splits) auto
  with stop_server [OF r _ s] r s show ?thesis by simp
qed

text \<open>A read in which nothing arrives until the deadline.\<close>

lemma readExact_idle:
  "\<forall>p \<in> set ps. io_running p \<and> io_outcome p = WouldBlock \<Longrightarrow> ps \<noteq> [] \<Longrightarrow> deadline \<le> io_now (last ps) \<Longrightarrow>
     0 < len \<Longrightarrow> \<exists>ps'. readExact len timeout deadline [] ps stream =
       Some (Inl ''session inactivity timeout'', ps', stream)"
proof (induction ps)
  case (Cons p ps)
  show ?case
  proof (cases "deadline \<le> io_now p")
    case True
    with Cons.prems show ?thesis by simp
  next
    case False
    with Cons.prems(3) have "ps \<noteq> []" "deadline \<le> io_now (last ps)" by (auto split: if_splits)
    then obtain ps' where "readExact len timeout deadline [] ps stream =
        Some (Inl ''session inactivity timeout'', ps', stream)"
      using Cons.IH Cons.prems(1,4) by fastforce
    moreover have "io_running p" "io_outcome p = WouldBlock" using Cons.prems(1) by simp_all
    ultimately show ?thesis using False Cons.prems(4) by simp
  qed
qed simp

text \<open>C26: A client that falls silent loses the endpoint: when nothing arrives before the idle
  timeout, the read fails, and three steps of its thread later the target has been reset, the
  endpoint is available again and the thread is done, whatever other clients wait for.\<close>

theorem silent_session_released:
  assumes run: "lp_run lib evs (startedServer info options tcpPort index) = (acts, sv)"
    and i: "i < length (sv_workers sv)" "playing (sv_workers sv ! i)"
    and silent: "\<forall>p \<in> set ps. io_running p \<and> io_outcome p = WouldBlock" "ps \<noteq> []"
      "now + timeout \<le> io_now (last ps)" "0 < pl_headerSize lib"
  shows "\<exists>ps' err. readRecord lib options timeout now now2 ps stream = Some (Inl err, ps', stream) \<and>
    (\<forall>wrote open t. case lp_run lib (replicate 3 (SvSession i
          \<lparr>si_read = Inl err, si_wrote = wrote, si_open = open, si_now = t\<rparr>)) sv of (acts', sv') \<Rightarrow>
        sv_workers sv' ! i = Finished \<and> endpointAvailability sv' = Available \<and> sink_calls acts' = [Reset])"
proof -
  obtain ps' where "readExact (pl_headerSize lib) timeout (now + timeout) [] ps stream =
      Some (Inl ''session inactivity timeout'', ps', stream)"
    using readExact_idle [OF silent] by blast
  then have "readRecord lib options timeout now now2 ps stream =
      Some (Inl ''session inactivity timeout'', ps', stream)"
    by (simp add: readRecord_def)
  moreover have "case lp_run lib (replicate 3 (SvSession i inp)) sv of (acts', sv') \<Rightarrow>
        sv_workers sv' ! i = Finished \<and> endpointAvailability sv' = Available \<and> sink_calls acts' = [Reset]"
    if inp: "si_read inp = Inl err" for inp err
  proof -
    have eff [simp]: "si_read (effective_input s inp) =
        Inl (if sv_running s then err else ''server stopped'')" for s :: "'a target_server"
      using inp by (simp add: effective_input_def)
    from i(2) consider st where "sv_workers sv ! i = AwaitReady st" | st where "sv_workers sv ! i = Streaming st"
      by (cases "sv_workers sv ! i") auto
    then show ?thesis
      by cases (use i(1) in \<open>simp_all add: numeral_3_eq_3 sessionStep_def readyStep_def streamingStep_def
        releasingStep_def releaseSession_def endpointAvailability_def Let_def\<close>)
  qed
  ultimately show ?thesis by auto
qed

definition one_client :: "server_event list" where
  "one_client = [SvAccept (Some True), SvSession 0 (got RecHello []), SvSession 0 (got RecReady []),
     SvSession 0 (got RecReady [])]"

theorem silent_session_released_witness:
  "case lp_run sample_proto one_client sample_server of (acts, sv) \<Rightarrow>
     sv_owned sv \<and>
     (\<exists>err. readRecord sample_proto sample_options 5 0 0
        [\<lparr>io_running = True, io_outcome = WouldBlock, io_now = 5\<rparr>] [] = Some (Inl err, [], []) \<and>
      (case lp_run sample_proto (replicate 3 (SvSession 0
          \<lparr>si_read = Inl err, si_wrote = True, si_open = True, si_now = 0\<rparr>)) sv of
         (acts', sv') \<Rightarrow> endpointAvailability sv' = Available \<and> sink_calls acts' = [Reset]))"
proof -
  let ?p = "\<lparr>io_running = True, io_outcome = WouldBlock, io_now = 5\<rparr>"
  obtain acts sv where r: "lp_run sample_proto one_client sample_server = (acts, sv)" by fastforce
  then have w: "sv_owned sv \<and> length (sv_workers sv) = 1 \<and> playing (sv_workers sv ! 0)"
    by (auto simp: one_client_def run_defs split: prod.splits)
  let ?run = "\<lambda>err wrote open t. lp_run sample_proto (replicate 3 (SvSession 0
    \<lparr>si_read = Inl err, si_wrote = wrote, si_open = open, si_now = t\<rparr>)) sv"
  have "\<exists>ps' err. readRecord sample_proto sample_options 5 0 0 [?p] [] = Some (Inl err, ps', []) \<and>
    (\<forall>wrote open t. case ?run err wrote open t of (acts', sv') \<Rightarrow>
        sv_workers sv' ! 0 = Finished \<and> endpointAvailability sv' = Available \<and> sink_calls acts' = [Reset])"
    by (rule silent_session_released [OF r]) (use w in simp_all)
  then obtain ps' err where read: "readRecord sample_proto sample_options 5 0 0 [?p] [] = Some (Inl err, ps', [])"
    and all: "\<forall>wrote open t. case ?run err wrote open t of (acts', sv') \<Rightarrow>
        sv_workers sv' ! 0 = Finished \<and> endpointAvailability sv' = Available \<and> sink_calls acts' = [Reset]"
    by (elim exE conjE)
  note run = all [rule_format, of True True 0]
  from read have "ps' = []" by (simp add: readRecord_def)
  with read run r w show ?thesis by (auto split: prod.splits)
qed

section \<open>The wire\<close>

text \<open>C33: The record that a session reads depends on the bytes the client sent and on nothing
  else: it is the record at the front of the stream, header and payload, the rest of the stream
  follows it, and the payload has the length its header announces, within the configured limit.
  Any other delivery of the same bytes that leads to a record leads to the same one.\<close>

theorem record_framing:
  assumes "readRecord lib options timeout now1 now2 ps stream = Some (Inr rec, ps', stream')"
  shows "parseRecord lib options stream = Some (rec, stream') \<and>
    (\<exists>header. stream = take (pl_headerSize lib) stream @ pr_payload rec @ stream' \<and>
      pl_decodeRecordHeader lib (take (pl_headerSize lib) stream) = Inr header \<and> rh_type header = pr_type rec \<and>
      length (pr_payload rec) = unat (rh_payloadSize header) \<and>
      rh_payloadSize header \<le> po_maxRecordPayloadBytes options) \<and>
    (readRecord lib options timeout' now3 now4 qs stream = Some (Inr rec', qs', stream'') \<longrightarrow>
      rec' = rec \<and> stream'' = stream')"
proof -
  have split3: "xs = take h xs @ take n (drop h xs) @ drop (n + h) xs" for n h and xs :: "u8 list"
    by (simp only: drop_drop [symmetric] append_take_drop_id)
  have p: "parseRecord lib options stream = Some (rec, stream')" by (rule readRecord_parse [OF assms])
  moreover have "\<exists>header. stream = take (pl_headerSize lib) stream @ pr_payload rec @ stream' \<and>
      pl_decodeRecordHeader lib (take (pl_headerSize lib) stream) = Inr header \<and> rh_type header = pr_type rec \<and>
      length (pr_payload rec) = unat (rh_payloadSize header) \<and>
      rh_payloadSize header \<le> po_maxRecordPayloadBytes options"
    using p split3 by (auto simp: parseRecord_def Let_def not_less split: if_splits sum.splits)
  ultimately show ?thesis using readRecord_parse by fastforce
qed

text \<open>A record that arrives in three pieces, with a pause.\<close>

abbreviation pass :: "io_outcome \<Rightarrow> io_pass" where
  "pass out \<equiv> \<lparr>io_running = True, io_outcome = out, io_now = 0\<rparr>"

theorem record_framing_witness:
  "parseRecord sample_proto sample_options [3, 2, 7, 8, 9] = Some (\<lparr>pr_type = RecPoints, pr_payload = [7, 8]\<rparr>, [9])"
proof -
  have "readRecord sample_proto sample_options 5 0 0
      [pass (Transferred 1), pass WouldBlock, pass (Transferred 1), pass (Transferred 9)] [3, 2, 7, 8, 9] =
      Some (Inr \<lparr>pr_type = RecPoints, pr_payload = [7, 8]\<rparr>, [], [9])"
    by (simp add: readRecord_def Let_def sample_types_def)
  from record_framing [OF this] show ?thesis by blast
qed

section \<open>Bounds\<close>

text \<open>Whatever the configuration says, the host's options are within their bounds, and for
  every target the effective rates satisfy 1 <= min <= max, within the configured maximum and,
  when the target states one, the target's maximum.\<close>

theorem host_options_bounds:
  "case makeHostOptions lib config of options \<Rightarrow>
     100 \<le> po_broadcastIntervalMs options \<and> 1 \<le> po_minPointRate options \<and>
     po_minPointRate options \<le> po_maxPointRate options \<and> 1 \<le> po_maxFramePoints options \<and>
     1024 \<le> po_maxRecordPayloadBytes options \<and> 100 \<le> po_handshakeTimeoutMs options \<and>
     250 \<le> po_sessionTimeoutMs options \<and> po_maxUserChannels options \<le> 2 \<and>
     po_broadcastAddresses options \<noteq> [] \<and>
     (let sv = newTargetServer info options tcpPort index in
        1 \<le> effectiveMinPointRate sv \<and> effectiveMinPointRate sv \<le> effectiveMaxPointRate sv \<and>
        effectiveMaxPointRate sv \<le> po_maxPointRate options \<and>
        (ti_maxPointRate info = 0 \<or> effectiveMaxPointRate sv \<le> ti_maxPointRate info))"
proof -
  let ?o = "makeHostOptions lib config"
  have "po_maxUserChannels ?o = ucast (min 2 (optionU32 config ''max_user_channels'' 2))"
    by (simp add: makeHostOptions_def Let_def maxLaserPointUserChannels_def)
  moreover have "ucast (min 2 n) \<le> (2 :: u8)" for n :: u32
  proof -
    have "unat (min 2 n) \<le> 2" by (cases "2 \<le> n") (simp_all add: min_def word_le_nat_alt)
    with take_bit_nat_less_eq_self have "take_bit 8 (unat (min 2 n)) \<le> 2" by (rule order_trans)
    then show ?thesis by (simp add: word_le_nat_alt unsigned_ucast_eq unsigned_take_bit_eq)
  qed
  ultimately have ch: "po_maxUserChannels ?o \<le> 2" by simp
  have b: "1 \<le> po_minPointRate ?o" "po_minPointRate ?o \<le> po_maxPointRate ?o"
    by (simp_all add: makeHostOptions_def Let_def)
  have rest: "100 \<le> po_broadcastIntervalMs ?o" "1 \<le> po_maxFramePoints ?o" "1024 \<le> po_maxRecordPayloadBytes ?o"
    "100 \<le> po_handshakeTimeoutMs ?o" "250 \<le> po_sessionTimeoutMs ?o" "po_broadcastAddresses ?o \<noteq> []"
    by (simp_all add: makeHostOptions_def Let_def)
  let ?sv = "newTargetServer info ?o tcpPort index"
  have max: "1 \<le> po_maxPointRate ?o" using b by order
  have "1 \<le> ti_maxPointRate info" if "0 < ti_maxPointRate info"
    using that by (simp add: word_le_nat_alt word_less_nat_alt)
  with max have "effectiveMaxPointRate ?sv \<le> po_maxPointRate ?o \<and>
      (ti_maxPointRate info = 0 \<or> effectiveMaxPointRate ?sv \<le> ti_maxPointRate info)"
    by (auto simp: effectiveMaxPointRate_def newTargetServer_def Let_def word_gt_0)
  moreover have "1 \<le> effectiveMinPointRate ?sv"
    using b effective_rates(2) [of ?sv] by (simp add: effectiveMinPointRate_def newTargetServer_def)
  ultimately show ?thesis
    using b ch rest effective_rates(1) [of ?sv] by (simp add: Let_def)
qed

text \<open>
  The duration of a slice is cut to 32 bits: with the rate at its lowest configurable value, a
  slice of 4295 points, which lasts 4295 seconds, is announced as one of 32.7 milliseconds.
\<close>

lemma duration_wraps: "pointDurationUs 4295 1 = 32704"
  using llround_of_int [of 4295000000] by (simp add: pointDurationUs_def Let_def)

end
