(* ===== verification/Libera_Host_Thms.thy ===== *)
theory Libera_Host_Thms
  imports Libera_Host Libera_Server_Thms
begin

text \<open>
  The pool of Libera protocol servers: its invariant, the interpretation of \<open>virtual_host\<close> on
  the host, and the properties of its operations.
\<close>

lemma serverEndpoint_simps [simp]:
  "ep_targetId (serverEndpoint sv) = ti_id (sv_info sv)" "ep_port (serverEndpoint sv) = sv_tcpPort sv"
  by (simp_all add: serverEndpoint_def Let_def)

lemma newTargetServer_simps [simp]:
  "sv_info (newTargetServer i opts p k) = i" "sv_options (newTargetServer i opts p k) = opts"
  "sv_tcpPort (newTargetServer i opts p k) = p" "sv_index (newTargetServer i opts p k) = k"
  by (simp_all add: newTargetServer_def)

section \<open>The pool's invariant\<close>

definition server_in :: "proto_options \<Rightarrow> 's target_server \<Rightarrow> bool" where
  "server_in options sv \<longleftrightarrow> sv_running sv \<and> sv_options sv = options \<and>
     unat (sv_tcpPort sv) = unat (po_tcpPort options) + sv_index sv \<and> (\<exists>calls. server_inv sv calls)"

definition pool_ok :: "'s lp_host \<Rightarrow> bool" where
  "pool_ok h \<longleftrightarrow> distinct (map sv_tcpPort (lh_servers h)) \<and> distinct (map (ti_id \<circ> sv_info) (lh_servers h)) \<and>
     (\<forall>sv \<in> set (lh_servers h). server_in (lh_options h) sv)"

definition host_inv :: "'s lp_host \<Rightarrow> bool" where
  "host_inv h \<longleftrightarrow> pool_ok h \<and> (lh_active h \<or> lh_servers h = [])"

lemma nextServerIndex_free:
  assumes "nextServerIndexLocked h = Some index"
  shows "unat (candidatePort (lh_options h) index) = unat (po_tcpPort (lh_options h)) + index"
    "candidatePort (lh_options h) index \<notin> sv_tcpPort ` set (lh_servers h)"
proof -
  let ?base = "unat (po_tcpPort (lh_options h))"
  from find_Some_set [OF assms [unfolded nextServerIndexLocked_def Let_def]]
  have "index < 65535 - ?base + 1" and free: "\<not> (\<exists>sv \<in> set (lh_servers h).
      sv_tcpPort sv = candidatePort (lh_options h) index)" by auto
  then have "?base + index \<le> 65535" using unat_u16_le [of "po_tcpPort (lh_options h)"] by simp
  then show "unat (candidatePort (lh_options h) index) = ?base + index"
    by (simp add: candidatePort_def unat_of_nat take_bit_nat_eq_self_iff flip: of_nat_add)
  from free show "candidatePort (lh_options h) index \<notin> sv_tcpPort ` set (lh_servers h)" by auto
qed

lemma find_upt: "find P [0..<n] = Some i \<longleftrightarrow> i < n \<and> P i \<and> (\<forall>j < i. \<not> P j)"
  by (auto simp: find_Some_iff)

lemma nextServerIndex_least:
  "nextServerIndexLocked h = Some index \<longleftrightarrow>
     index < 65535 - unat (po_tcpPort (lh_options h)) + 1 \<and>
     candidatePort (lh_options h) index \<notin> sv_tcpPort ` set (lh_servers h) \<and>
     (\<forall>j < index. candidatePort (lh_options h) j \<in> sv_tcpPort ` set (lh_servers h))"
  unfolding nextServerIndexLocked_def Let_def find_upt by (auto simp: image_iff) metis+

definition server_for :: "'s lp_host \<Rightarrow> link_target \<Rightarrow> nat \<Rightarrow> 's target_server" where
  "server_for h t index = startedServer (lt_info t) (lh_options h) (candidatePort (lh_options h) index) index"

lemma addServer_cases:
  fixes h :: "'s lp_host"
  assumes "addServer os t h w = (res, h', w')"
  obtains (present) "res = None" "h' = h" "ti_id (lt_info t) \<in> (ti_id \<circ> sv_info) ` set (lh_servers h)"
  | (failed) err where "res = Some err" "h' = h"
  | (added) index where "res = None" "ti_id (lt_info t) \<notin> (ti_id \<circ> sv_info) ` set (lh_servers h)"
      "nextServerIndexLocked h = Some index"
      "h' = h\<lparr>lh_servers := lh_servers h @ [server_for h t index]\<rparr>"
proof (cases "\<exists>sv \<in> set (lh_servers h). ti_id (sv_info sv) = ti_id (lt_info t)")
  case True
  then have yes: "(\<exists>sv \<in> set (lh_servers h). ti_id (sv_info sv) = ti_id (lt_info t)) = True" by simp
  with assms have "res = None" "h' = h" by (simp_all add: addServer_def yes)
  with True present show thesis by force
next
  case False
  then have no: "(\<exists>sv \<in> set (lh_servers h). ti_id (sv_info sv) = ti_id (lt_info t)) = False" by simp
  show thesis
  proof (cases "nextServerIndexLocked h")
    case None
    with assms have "res = Some ''No Libera protocol TCP ports remain at or above the configured base port.''" "h' = h"
      by (simp_all add: addServer_def no)
    then show thesis by (rule failed)
  next
    case (Some index)
    obtain r w1 where s: "startServer os (newTargetServer (lt_info t) (lh_options h)
        (candidatePort (lh_options h) index) index :: 's target_server) w = (r, w1)" by fastforce
    show thesis
    proof (cases r)
      case (Inl err)
      with assms Some s have "res = Some err" "h' = h" by (simp_all add: addServer_def no)
      then show thesis by (rule failed)
    next
      case (Inr sv)
      with startServer_result s have "sv = server_for h t index" by (simp add: server_for_def startedServer_def)
      with assms Some s Inr have "res = None" "h' = h\<lparr>lh_servers := lh_servers h @ [server_for h t index]\<rparr>"
        by (simp_all add: addServer_def no)
      moreover have "ti_id (lt_info t) \<notin> (ti_id \<circ> sv_info) ` set (lh_servers h)" using False by force
      ultimately show thesis using added Some by blast
    qed
  qed
qed

lemma server_for_simps [simp]:
  "sv_info (server_for h t index) = lt_info t" "sv_options (server_for h t index) = lh_options h"
  "sv_tcpPort (server_for h t index) = candidatePort (lh_options h) index" "sv_index (server_for h t index) = index"
  "sv_running (server_for h t index)"
  by (simp_all add: server_for_def startedServer_def)

lemma server_for_inv: "server_inv (server_for h t index) []"
  by (simp add: server_for_def)

lemma addServer_pool:
  assumes "addServer os t h w = (res, h', w')"
  shows "lh_active h' = lh_active h \<and> lh_options h' = lh_options h \<and> lh_config h' = lh_config h \<and>
    (pool_ok h \<longrightarrow> pool_ok h') \<and>
    (case res of
       None \<Rightarrow> (ti_id \<circ> sv_info) ` set (lh_servers h') = insert (ti_id (lt_info t)) ((ti_id \<circ> sv_info) ` set (lh_servers h))
     | Some err \<Rightarrow> h' = h)"
  using assms
proof (cases rule: addServer_cases)
  case present
  then show ?thesis by auto
next
  case (failed err)
  then show ?thesis by simp
next
  case (added index)
  note f = nextServerIndex_free [OF added(3)]
  have "pool_ok h'" if "pool_ok h"
    using that f added(2) by (auto simp: added(4) pool_ok_def server_in_def image_iff intro: server_for_inv)
  then show ?thesis using added by auto
qed

lemma addServers_pool:
  assumes "addServers os ts h w = (res, h', w')"
  shows "lh_active h' = lh_active h \<and> lh_options h' = lh_options h \<and> (pool_ok h \<longrightarrow> pool_ok h') \<and>
    (res = None \<longrightarrow> (ti_id \<circ> sv_info) ` set (lh_servers h') =
       (ti_id \<circ> lt_info) ` set ts \<union> (ti_id \<circ> sv_info) ` set (lh_servers h))"
  using assms
proof (induction os ts h w rule: addServers.induct)
  case (1 os h w)
  then show ?case by simp
next
  case (2 os t ts h w)
  obtain r h1 w1 where a: "addServer os t h w = (r, h1, w1)" by (metis prod_cases3)
  note p = addServer_pool [OF a]
  show ?case
  proof (cases r)
    case None
    with 2(2) a have "addServers os ts h1 w1 = (res, h', w')" by simp
    from 2(1) [OF a [symmetric] None refl this] p None show ?thesis by auto
  next
    case (Some err)
    with 2(2) a p show ?thesis by auto
  qed
qed

lemma startLpHost_result:
  assumes "startLpHost os lib ts h w = (res, h', w')"
  shows "(host_inv h \<longrightarrow> host_inv h') \<and>
    (res = None \<longrightarrow> lh_active h' \<and> (\<not> lh_active h \<and> lh_servers h = [] \<longrightarrow>
       (ti_id \<circ> sv_info) ` set (lh_servers h') = (ti_id \<circ> lt_info) ` set ts)) \<and>
    (res = None \<and> \<not> lh_active h \<longrightarrow> ts \<noteq> [] \<and> lh_options h' = makeHostOptions lib (lh_config h) \<and>
       po_tcpPort (lh_options h') \<noteq> 0) \<and>
    (res \<noteq> None \<longrightarrow> lh_active h' = lh_active h)"
proof (cases "lh_active h \<or> ts = []")
  case True
  with assms show ?thesis by (auto simp: startLpHost_def split: if_splits)
next
  case False
  let ?h1 = "h\<lparr>lh_options := makeHostOptions lib (lh_config h)\<rparr>"
  consider (early) err where "res = Some err" "h' = ?h1"
    | (add) r h2 where "addServers os ts (?h1\<lparr>lh_active := True\<rparr>) w = (r, h2, w')" "res = r"
        "h' = (if r = None then h2 else snd (stopImpl lib h2))"
        "po_tcpPort (makeHostOptions lib (lh_config h)) \<noteq> 0"
    using assms False by (auto simp: startLpHost_def Let_def split: if_splits prod.splits option.splits)
  then show ?thesis
  proof cases
    case early
    with False show ?thesis by (auto simp: host_inv_def pool_ok_def)
  next
    case add
    note p = addServers_pool [OF add(1)]
    have "pool_ok (?h1\<lparr>lh_active := True\<rparr>)" if "host_inv h" using that False by (simp add: host_inv_def pool_ok_def)
    with p False add(2,3,4) show ?thesis by (auto simp: host_inv_def pool_ok_def stopImpl_def)
  qed
qed

lemma serveStep_inv:
  assumes "host_inv h"
  shows "host_inv (serveStep lib i ev h)"
proof (cases "i < length (lh_servers h) \<and> \<not> is_stop ev")
  case False
  then have "serveStep lib i ev h = h" unfolding serveStep_def by (rule if_not_P)
  with assms show ?thesis by simp
next
  case True
  let ?sv = "lh_servers h ! i"
  obtain acts sv' where s: "server_step lib ev ?sv = (acts, sv')" by fastforce
  from assms True have sv: "server_in (lh_options h) ?sv" by (simp add: host_inv_def pool_ok_def)
  then obtain calls where "server_inv ?sv calls" by (auto simp: server_in_def)
  from server_step_inv [OF this s] have inv: "server_inv sv' (calls @ sink_calls acts)" and c: "same_config ?sv sv'"
    by simp_all
  have "sv_running sv' = sv_running ?sv"
    using \<open>server_inv ?sv calls\<close> s True acceptPass_inv [of ?sv calls] sessionStep_inv [of ?sv calls lib]
    by (cases ev) auto
  with inv c sv have in': "server_in (lh_options h) sv'" by (auto simp: server_in_def same_config_def)
  have "map sv_tcpPort ((lh_servers h)[i := sv']) = map sv_tcpPort (lh_servers h)"
    "map (ti_id \<circ> sv_info) ((lh_servers h)[i := sv']) = map (ti_id \<circ> sv_info) (lh_servers h)"
    using c True by (simp_all add: map_update same_config_def list_update_same_conv)
  moreover have "\<forall>sv \<in> set ((lh_servers h)[i := sv']). server_in (lh_options h) sv"
    using assms in' set_update_subset_insert [of "lh_servers h" i sv'] by (auto simp: host_inv_def pool_ok_def)
  ultimately show ?thesis using assms True s by (simp add: serveStep_def host_inv_def pool_ok_def)
qed

lemma removeServer_result:
  assumes "removeServer lib tid h = (res, acts, h')"
  shows "lh_active h' = lh_active h \<and> lh_options h' = lh_options h \<and> (pool_ok h \<longrightarrow> pool_ok h') \<and>
    (if tid \<in> (ti_id \<circ> sv_info) ` set (lh_servers h)
     then res = None \<and> (pool_ok h \<longrightarrow> lh_servers h' = filter (\<lambda>sv. ti_id (sv_info sv) \<noteq> tid) (lh_servers h))
     else res \<noteq> None \<and> acts = [] \<and> h' = h)"
proof (cases "find_index (\<lambda>sv. ep_targetId (serverEndpoint sv) = tid) (lh_servers h)")
  case None
  then have "removeServer lib tid h = (Some ''Libera protocol target is not active.'', [], h)"
    by (simp add: removeServer_def del: find_index_None)
  moreover from None have "tid \<notin> (ti_id \<circ> sv_info) ` set (lh_servers h)" by auto
  ultimately show ?thesis using assms by auto
next
  case (Some i)
  note f = find_index_Some [OF Some]
  let ?ss = "lh_servers h"
  have ss: "?ss = take i ?ss @ ?ss ! i # drop (Suc i) ?ss" using f by (simp add: id_take_nth_drop)
  have h': "res = None" "h' = h\<lparr>lh_servers := take i ?ss @ drop (Suc i) ?ss\<rparr>"
    using Some assms by (simp_all add: removeServer_def)
  have "tid \<in> (ti_id \<circ> sv_info) ` set ?ss" using f by (auto simp: image_iff intro!: bexI [of _ "?ss ! i"])
  moreover have "pool_ok h'" if "pool_ok h"
  proof -
    from that have "distinct (map sv_tcpPort (take i ?ss @ ?ss ! i # drop (Suc i) ?ss))"
      "distinct (map (ti_id \<circ> sv_info) (take i ?ss @ ?ss ! i # drop (Suc i) ?ss))"
      by (simp_all add: pool_ok_def flip: ss)
    with that show ?thesis
      by (auto simp: pool_ok_def h' dest: in_set_takeD in_set_dropD)
  qed
  moreover have "take i ?ss @ drop (Suc i) ?ss = filter (\<lambda>sv. ti_id (sv_info sv) \<noteq> tid) ?ss" if "pool_ok h"
  proof -
    from that have d: "distinct (map (ti_id \<circ> sv_info) (take i ?ss @ ?ss ! i # drop (Suc i) ?ss))"
      by (simp add: pool_ok_def flip: ss)
    have "\<forall>sv \<in> set (take i ?ss). ti_id (sv_info sv) \<noteq> tid" "\<forall>sv \<in> set (drop (Suc i) ?ss). ti_id (sv_info sv) \<noteq> tid"
      using d f by (auto simp: image_iff)
    then have "filter (\<lambda>sv. ti_id (sv_info sv) \<noteq> tid) (take i ?ss @ ?ss ! i # drop (Suc i) ?ss) =
        take i ?ss @ drop (Suc i) ?ss"
      using f by (simp add: filter_id_conv)
    then show ?thesis by (simp flip: ss)
  qed
  ultimately show ?thesis using h' by simp
qed

lemma stopImpl_result:
  "lh_active h \<Longrightarrow> stopImpl lib h = (acts, h') \<Longrightarrow> \<not> lh_active h' \<and> lh_servers h' = []"
  by (auto simp: stopImpl_def)

lemma reachable_host_inv: "lp_reachable os lib h \<Longrightarrow> host_inv h"
proof (induction rule: lp_reachable.induct)
  case (new config)
  show ?case by (simp add: host_inv_def pool_ok_def newLpHost_def)
next
  case (start h ts w res h' w')
  then show ?case using startLpHost_result [OF start(2)] by simp
next
  case (stop h)
  then show ?case by (cases "lh_active h") (simp_all add: stopImpl_def host_inv_def pool_ok_def)
next
  case (add h t w res h' w')
  then show ?case using addServer_pool [of os t h w res h' w']
    by (auto simp: lpAddTarget_def host_inv_def split: if_splits)
next
  case (remove h tid res acts h')
  then show ?case using removeServer_result [of lib tid h res acts h']
    by (auto simp: lpRemoveTarget_def host_inv_def split: if_splits)
next
  case (serve h i ev)
  then show ?case by (simp add: serveStep_inv)
qed

section \<open>The host contract\<close>

lemma lpEndpoints_ids: "ep_targetId ` set (lpEndpoints h) = (ti_id \<circ> sv_info) ` set (lh_servers h)"
  by (force simp: lpEndpoints_def)

interpretation lp_host: virtual_host "lp_host_ops os lib" for os lib
proof (unfold_locales, goal_cases)
  case (1 h w h' w')
  then show ?case by (cases "lh_active h") (auto simp: lp_host_ops_def stopImpl_def)
next
  case (2 h w h' w')
  then show ?case by (cases "lh_active h") (auto simp: lp_host_ops_def stopImpl_def lpEndpoints_def)
next
  case (3 ts h w h' w')
  then show ?case using startLpHost_result [of os lib ts h w None h' w'] by (simp add: lp_host_ops_def)
next
  case (4 ts h w h' w')
  then have "\<not> lh_active h \<and> lh_servers h = []" "startLpHost os lib ts h w = (None, h', w')"
    by (simp_all add: lp_host_ops_def idle_host_def lpEndpoints_def)
  with startLpHost_result [OF this(2)] lpEndpoints_ids [of h'] show ?case by (simp add: lp_host_ops_def)
next
  case (5 ts h w err h' w')
  then show ?case using startLpHost_result [of os lib ts h w "Some err" h' w'] by (simp add: lp_host_ops_def)
next
  case (6 h t w res h' w')
  then show ?case using addServer_pool [of os t h w res h' w']
    by (simp add: lp_host_ops_def lpAddTarget_def)
next
  case (7 h tid w res h' w')
  obtain r acts h1 where "removeServer lib tid h = (r, acts, h1)" by (metis prod_cases3)
  with 7 removeServer_result [OF this] show ?case by (simp add: lp_host_ops_def lpRemoveTarget_def)
qed

section \<open>Properties\<close>

text \<open>C22: In every state the host can reach, by starting, stopping, adding and removing targets
  while clients come and go, its servers have ports of their own, at or above the configured
  one, and targets of their own; each reports itself busy exactly when one of its clients owns
  the session; and a host that does not run has no servers.\<close>

theorem lp_host_invariant:
  assumes "lp_reachable os lib h"
  shows "distinct (map sv_tcpPort (lh_servers h)) \<and> distinct (map (ti_id \<circ> sv_info) (lh_servers h)) \<and>
    (\<forall>sv \<in> set (lh_servers h). sv_running sv \<and> po_tcpPort (lh_options h) \<le> sv_tcpPort sv \<and>
       length (filter owns (sv_workers sv)) = (if endpointAvailability sv = EndpointBusy then 1 else 0)) \<and>
    (\<not> lh_active h \<longrightarrow> lh_servers h = [])"
proof -
  have inv: "host_inv h" by (rule reachable_host_inv [OF assms])
  have "sv_running sv \<and> po_tcpPort (lh_options h) \<le> sv_tcpPort sv \<and>
       length (filter owns (sv_workers sv)) = (if endpointAvailability sv = EndpointBusy then 1 else 0)"
    if "sv \<in> set (lh_servers h)" for sv
  proof -
    from inv that have "server_in (lh_options h) sv" by (simp add: host_inv_def pool_ok_def)
    then show ?thesis
      by (auto simp: server_in_def word_le_nat_alt server_inv_def endpointAvailability_def)
  qed
  with inv show ?thesis by (auto simp: host_inv_def pool_ok_def)
qed

definition open_os :: "unit os_ops" where
  "open_os = \<lparr>os_interfaces = (\<lambda>w. []), os_readCommand = (\<lambda>c w. None), os_canBind = (\<lambda>a p w. True),
     os_system = (\<lambda>c w. (True, w)), os_socket = (\<lambda>c w. (None, w))\<rparr>"

definition target_named :: "string \<Rightarrow> link_target" where
  "target_named name = \<lparr>lt_ref = 0, lt_info = \<lparr>ti_id = name, ti_label = [], ti_type = [], ti_maxPointRate = 0\<rparr>\<rparr>"

lemma target_named_simps [simp]: "ti_id (lt_info (target_named name)) = name"
  by (simp add: target_named_def)

lemma startServer_open [simp]: "startServer open_os sv w = (Inr (sv\<lparr>sv_running := True\<rparr>), w)"
  by (simp add: startServer_def open_os_def)

abbreviation sample_lp_host :: "unit lp_host" where
  "sample_lp_host \<equiv> newLpHost sample_proto no_options"

lemma sample_base [simp]: "po_tcpPort sample_options = 9999" "po_discoveryPort sample_options = 9998"
  by (simp_all add: makeHostOptions_def Let_def sample_proto_def)

text \<open>Two targets, on the first two ports.\<close>

lemma sample_two_servers:
  "\<exists>h'. startLpHost open_os sample_proto [target_named ''a'', target_named ''b''] sample_lp_host () = (None, h', ()) \<and>
     map sv_tcpPort (lh_servers h') = [9999, 10000] \<and> lh_active h' \<and> lh_options h' = sample_options \<and>
     map (ti_id \<circ> sv_info) (lh_servers h') = [''a'', ''b'']"
proof -
  let ?h = "\<lambda>ss :: unit target_server list. \<lparr>lh_config = no_options, lh_options = sample_options, lh_servers = ss, lh_active = True\<rparr>"
  let ?sv = "\<lambda>name k. server_for (?h []) (target_named name) k"
  have 1: "nextServerIndexLocked (?h []) = Some 0"
    by (simp add: nextServerIndex_least)
  have 2: "nextServerIndexLocked (?h [?sv ''a'' 0]) = Some 1"
    by (simp add: nextServerIndex_least candidatePort_def)
  have a: "addServer open_os (target_named ''a'') (?h []) () = (None, ?h [?sv ''a'' 0], ())"
    using 1 by (simp add: addServer_def server_for_def startedServer_def)
  have b: "addServer open_os (target_named ''b'') (?h [?sv ''a'' 0]) () = (None, ?h [?sv ''a'' 0, ?sv ''b'' 1], ())"
    using 2 by (simp add: addServer_def server_for_def startedServer_def)
  have "startLpHost open_os sample_proto [target_named ''a'', target_named ''b''] sample_lp_host () =
      (None, ?h [?sv ''a'' 0, ?sv ''b'' 1], ())"
    by (simp add: startLpHost_def newLpHost_def a b Let_def)
  then show ?thesis by (simp add: candidatePort_def)
qed

theorem lp_host_invariant_witness:
  "\<exists>h'. startLpHost open_os sample_proto [target_named ''a'', target_named ''b''] sample_lp_host () = (None, h', ()) \<and>
     length (lh_servers h') = 2 \<and> distinct (map sv_tcpPort (lh_servers h'))"
proof -
  from sample_two_servers
  obtain h' where h': "startLpHost open_os sample_proto [target_named ''a'', target_named ''b''] sample_lp_host () = (None, h', ())"
      "map sv_tcpPort (lh_servers h') = [9999, 10000]"
    by (elim exE conjE)
  have "lp_reachable open_os sample_proto h'" by (rule lp_reachable.start [OF lp_reachable.new h'(1)])
  from conjunct1 [OF lp_host_invariant [OF this]] have "distinct (map sv_tcpPort (lh_servers h'))" .
  moreover have "length (lh_servers h') = 2" using arg_cong [OF h'(2), of length] by simp
  ultimately show ?thesis using h'(1) by (intro exI [of _ h'] conjI)
qed

text \<open>C31: Starting an idle host: when it succeeds, the host runs and its servers serve exactly
  the given targets, each of them; when it fails, for whatever reason, the host is idle again
  and the servers that had started are gone. A host that runs already is left as it is.\<close>

theorem lp_start:
  assumes "lp_reachable os lib h" "startLpHost os lib ts h w = (res, h', w')"
  shows "if lh_active h then res = None \<and> h' = h \<and> w' = w
    else (case res of
        None \<Rightarrow> lh_active h' \<and> ts \<noteq> [] \<and> ep_targetId ` set (lpEndpoints h') = (ti_id \<circ> lt_info) ` set ts \<and>
          lh_options h' = makeHostOptions lib (lh_config h) \<and> po_tcpPort (lh_options h') \<noteq> 0
      | Some err \<Rightarrow> \<not> lh_active h' \<and> lpEndpoints h' = [])"
proof (cases "lh_active h")
  case True
  with assms(2) show ?thesis by (simp add: startLpHost_def)
next
  case False
  have inv: "host_inv h" "host_inv h'"
    using reachable_host_inv assms(1) lp_reachable.start [OF assms] by blast+
  with False have "lh_servers h = []" by (simp add: host_inv_def)
  note r = startLpHost_result [OF assms(2)]
  show ?thesis
  proof (cases res)
    case None
    with r False have "ts \<noteq> [] \<and> lh_options h' = makeHostOptions lib (lh_config h) \<and> po_tcpPort (lh_options h') \<noteq> 0"
      by blast
    with r None False \<open>lh_servers h = []\<close> lpEndpoints_ids [of h'] show ?thesis by auto
  next
    case (Some err)
    with r False inv(2) show ?thesis by (auto simp: host_inv_def lpEndpoints_def)
  qed
qed

theorem lp_start_witness:
  "\<exists>h'. startLpHost open_os sample_proto [target_named ''a'', target_named ''b''] sample_lp_host () = (None, h', ()) \<and>
     ep_targetId ` set (lpEndpoints h') = {''a'', ''b''}"
proof -
  from sample_two_servers
  obtain h' where h': "startLpHost open_os sample_proto [target_named ''a'', target_named ''b''] sample_lp_host () = (None, h', ())"
    by (elim exE conjE)
  from lp_start [OF lp_reachable.new h'] have "ep_targetId ` set (lpEndpoints h') = {''a'', ''b''}"
    by (simp add: newLpHost_def)
  with h' show ?thesis by (intro exI [of _ h'] conjI)
qed

text \<open>What adding and removing do to the endpoints.\<close>

lemma lpRemove_endpoints:
  assumes "pool_ok h" "lh_active h" "lpRemoveTarget lib k h = (r, a, h')"
  shows "lpEndpoints h' = filter (\<lambda>e. ep_targetId e \<noteq> k) (lpEndpoints h) \<and>
    (r = None \<longleftrightarrow> k \<in> ep_targetId ` set (lpEndpoints h))"
proof -
  from assms have "removeServer lib k h = (r, a, h')" by (simp add: lpRemoveTarget_def)
  note rm = removeServer_result [OF this]
  show ?thesis
  proof (cases "k \<in> (ti_id \<circ> sv_info) ` set (lh_servers h)")
    case True
    with rm assms(1) show ?thesis
      by (simp only: lpEndpoints_ids) (simp add: lpEndpoints_def filter_map comp_def)
  next
    case False
    then have "filter (\<lambda>e. ep_targetId e \<noteq> k) (lpEndpoints h) = lpEndpoints h"
      by (auto simp: lpEndpoints_def filter_id_conv image_iff)
    with rm False show ?thesis by (simp only: lpEndpoints_ids) simp
  qed
qed

lemma lower_ports_used:
  assumes "nextServerIndexLocked h = Some index"
  shows "{p. po_tcpPort (lh_options h) \<le> p \<and> p < candidatePort (lh_options h) index} \<subseteq>
    sv_tcpPort ` set (lh_servers h)"
proof
  fix p assume "p \<in> {p. po_tcpPort (lh_options h) \<le> p \<and> p < candidatePort (lh_options h) index}"
  then have "unat (po_tcpPort (lh_options h)) \<le> unat p" "unat p - unat (po_tcpPort (lh_options h)) < index"
    using nextServerIndex_free(1) [OF assms] by (auto simp: word_le_nat_alt word_less_nat_alt)
  moreover from this have "candidatePort (lh_options h) (unat p - unat (po_tcpPort (lh_options h))) = p"
    by (simp add: candidatePort_def flip: of_nat_add)
  ultimately show "p \<in> sv_tcpPort ` set (lh_servers h)" using assms by (metis nextServerIndex_least)
qed

text \<open>The endpoint of a target that is added, and removing the target again.\<close>

lemma addServer_added:
  assumes "addServer os t h w = (None, h1, w1)" "pool_ok h" "lh_active h"
    "ti_id (lt_info t) \<notin> ep_targetId ` set (lpEndpoints h)"
  obtains e where "lpEndpoints h1 = lpEndpoints h @ [e]" "ep_targetId e = ti_id (lt_info t)"
    "ep_port e \<notin> ep_port ` set (lpEndpoints h)"
    "{p. po_tcpPort (lh_options h) \<le> p \<and> p < ep_port e} \<subseteq> ep_port ` set (lpEndpoints h)"
    "\<And>res acts h2. lpRemoveTarget lib (ti_id (lt_info t)) h1 = (res, acts, h2) \<Longrightarrow>
       res = None \<and> lpEndpoints h2 = lpEndpoints h"
  using assms(1)
proof (cases rule: addServer_cases)
  case present
  then show ?thesis using assms(4) by (simp only: lpEndpoints_ids not_True_eq_False)
next
  case (added index)
  note new = that
  have ports: "ep_port ` set (lpEndpoints h) = sv_tcpPort ` set (lh_servers h)" by (force simp: lpEndpoints_def)
  let ?e = "serverEndpoint (server_for h t index)"
  have e: "lpEndpoints h1 = lpEndpoints h @ [?e]" by (simp add: added(4) lpEndpoints_def)
  have "pool_ok h1" "lh_active h1" using addServer_pool [OF assms(1)] assms(2,3) by simp_all
  note rm = lpRemove_endpoints [OF this, of lib "ti_id (lt_info t)"]
  have filt: "filter (\<lambda>e. ep_targetId e \<noteq> ti_id (lt_info t)) (lpEndpoints h1) = lpEndpoints h"
    using assms(4) by (auto simp: e filter_id_conv image_iff)
  show ?thesis
  proof (rule new [OF e])
    show "res = None \<and> lpEndpoints h2 = lpEndpoints h"
      if "lpRemoveTarget lib (ti_id (lt_info t)) h1 = (res, acts, h2)" for res acts h2
      using rm [OF that] filt by (auto simp: e image_iff)
  qed (use lower_ports_used [OF added(3)] nextServerIndex_free(2) [OF added(3)] added(1) ports in simp_all)
qed simp_all

text \<open>C27: Targets come and go while the host runs. Adding one that is served already changes
  nothing; otherwise, when it succeeds, one endpoint for it is appended, on the lowest port at
  or above the base that no server uses; when it fails nothing changes. Removing a target
  succeeds exactly when it is served and then takes away its endpoint alone; removing what was
  just added brings the endpoints back.\<close>

theorem lp_dynamic_targets:
  assumes "lp_reachable os lib h" "lh_active h" "lpAddTarget os t h w = (res, h1, w1)"
    "lpRemoveTarget lib tid h = (res2, acts, h2)"
  shows "(case res of
      Some err \<Rightarrow> h1 = h
    | None \<Rightarrow> if ti_id (lt_info t) \<in> ep_targetId ` set (lpEndpoints h) then h1 = h
        else (\<exists>e. lpEndpoints h1 = lpEndpoints h @ [e] \<and> ep_targetId e = ti_id (lt_info t) \<and>
          ep_port e \<notin> ep_port ` set (lpEndpoints h) \<and>
          {p. po_tcpPort (lh_options h) \<le> p \<and> p < ep_port e} \<subseteq> ep_port ` set (lpEndpoints h) \<and>
          (\<forall>res3 acts3 h3. lpRemoveTarget lib (ti_id (lt_info t)) h1 = (res3, acts3, h3) \<longrightarrow>
             res3 = None \<and> lpEndpoints h3 = lpEndpoints h))) \<and>
    (res2 = None \<longleftrightarrow> tid \<in> ep_targetId ` set (lpEndpoints h)) \<and>
    lpEndpoints h2 = filter (\<lambda>e. ep_targetId e \<noteq> tid) (lpEndpoints h)"
proof -
  have inv: "pool_ok h" using reachable_host_inv [OF assms(1)] by (simp add: host_inv_def)
  have add: "addServer os t h w = (res, h1, w1)" using assms(2,3) by (simp add: lpAddTarget_def)
  have rm: "(res2 = None) = (tid \<in> ep_targetId ` set (lpEndpoints h)) \<and>
      lpEndpoints h2 = filter (\<lambda>e. ep_targetId e \<noteq> tid) (lpEndpoints h)"
    using lpRemove_endpoints [OF inv assms(2,4)] by simp
  show ?thesis
  proof (cases "res = None \<and> ti_id (lt_info t) \<notin> ep_targetId ` set (lpEndpoints h)")
    case True
    then have new: "res = None" "ti_id (lt_info t) \<notin> ep_targetId ` set (lpEndpoints h)" by blast+
    show ?thesis
    proof (rule addServer_added [OF add [unfolded new(1)] inv assms(2) new(2), of lib])
      fix e
      assume e: "lpEndpoints h1 = lpEndpoints h @ [e]" "ep_targetId e = ti_id (lt_info t)"
        "ep_port e \<notin> ep_port ` set (lpEndpoints h)"
        "{p. po_tcpPort (lh_options h) \<le> p \<and> p < ep_port e} \<subseteq> ep_port ` set (lpEndpoints h)"
        "\<And>res acts h2. lpRemoveTarget lib (ti_id (lt_info t)) h1 = (res, acts, h2) \<Longrightarrow>
           res = None \<and> lpEndpoints h2 = lpEndpoints h"
      show ?thesis unfolding new(1) option.case if_not_P [OF new(2)] by (intro conjI exI [of _ e] rm [THEN conjunct1] rm [THEN conjunct2]) (use e in blast)+
    qed
  next
    case False
    have "h1 = h"
      using add
    proof (cases rule: addServer_cases)
      case (added index)
      with False show ?thesis by (simp only: lpEndpoints_ids simp_thms)
    qed simp_all
    with False rm show ?thesis by (cases res) simp_all
  qed
qed

theorem lp_dynamic_targets_witness:
  "\<exists>h h1. startLpHost open_os sample_proto [target_named ''a'', target_named ''b''] sample_lp_host () = (None, h, ()) \<and>
     lpAddTarget open_os (target_named ''a'') h () = (None, h1, ()) \<and> h1 = h \<and>
     lpEndpoints (snd (snd (lpRemoveTarget sample_proto ''a'' h))) =
       filter (\<lambda>e. ep_targetId e \<noteq> ''a'') (lpEndpoints h)"
proof -
  from sample_two_servers
  obtain h where h: "startLpHost open_os sample_proto [target_named ''a'', target_named ''b''] sample_lp_host () = (None, h, ())"
    "lh_active h" "map (ti_id \<circ> sv_info) (lh_servers h) = [''a'', ''b'']"
    by (elim exE conjE)
  have reach: "lp_reachable open_os sample_proto h" by (rule lp_reachable.start [OF lp_reachable.new h(1)])
  have "''a'' \<in> set (map (ti_id \<circ> sv_info) (lh_servers h))" by (simp add: h(3))
  then have ids: "''a'' \<in> ep_targetId ` set (lpEndpoints h)" by (simp only: lpEndpoints_ids set_map)
  then have add: "lpAddTarget open_os (target_named ''a'') h () = (None, h, ())"
    using h(2) by (auto simp: lpAddTarget_def addServer_def lpEndpoints_def)
  obtain r a h2 where rm: "lpRemoveTarget sample_proto ''a'' h = (r, a, h2)" by (metis prod_cases3)
  from lp_dynamic_targets [OF reach h(2) add rm]
  have "lpEndpoints h2 = filter (\<lambda>e. ep_targetId e \<noteq> ''a'') (lpEndpoints h)" by (elim conjE)
  with h(1) add rm show ?thesis by (intro exI [of _ h]) simp
qed

end
