(* ===== verification/Idn_Host.thy ===== *)
theory Idn_Host
  imports Registry
begin

text \<open>
  \<open>virtual_controller/IdnVirtualControllerHost.cpp\<close>: the conversion of IDN samples, the driver
  loop of one IDN service and the host. The IDN protocol server, which decodes packets into
  buffers of slices, is vendored third-party code (\<open>third_party/openidn\<close>): what a call of
  \<open>getNextBuffer\<close> delivers is an input of a pass of the driver loop, and starting and stopping
  the server are the parameter \<open>idn_lib\<close>. Of that code the layout of \<open>ISPDB25Point\<close> (eleven
  16-bit fields, little-endian) and of \<open>TimeSlice\<close> is used.

  The host creates sessions for targets with a sink only, so the null-sink exits are not
  represented. Calls of the host on its targets are pairs of the target's address and the call.
\<close>

section \<open>Samples\<close>

record isp_point =
  isp_x :: u16
  isp_y :: u16
  isp_r :: u16
  isp_g :: u16
  isp_b :: u16
  isp_intensity :: u16
  isp_shutter :: u16
  isp_u1 :: u16
  isp_u2 :: u16
  isp_u3 :: u16
  isp_u4 :: u16

definition sizeof_isp :: nat where "sizeof_isp = 22"

text \<open>\<open>reinterpret_cast\<close> of the bytes of a slice, point \<open>i\<close>.\<close>

definition le16_at :: "u8 list \<Rightarrow> nat \<Rightarrow> u16" where
  "le16_at bytes k = ucast (bytes ! k) OR push_bit 8 (ucast (bytes ! (k + 1)))"

definition isp_at :: "u8 list \<Rightarrow> nat \<Rightarrow> isp_point" where
  "isp_at bytes i =
     (let f = (\<lambda>k. le16_at bytes (sizeof_isp * i + 2 * k))
      in \<lparr>isp_x = f 0, isp_y = f 1, isp_r = f 2, isp_g = f 3, isp_b = f 4, isp_intensity = f 5,
          isp_shutter = f 6, isp_u1 = f 7, isp_u2 = f 8, isp_u3 = f 9, isp_u4 = f 10\<rparr>)"

definition unitFromU16 :: "u16 \<Rightarrow> rat" where
  "unitFromU16 v = f32 (of_nat (unat v) / 65535)"

definition signedUnitFromU16 :: "u16 \<Rightarrow> rat" where
  "signedUnitFromU16 v = f32 (f32 (unitFromU16 v * 2) - 1)"

definition idnLaserPoint :: "isp_point \<Rightarrow> laser_point" where
  "idnLaserPoint p =
     (let x = std_clamp (signedUnitFromU16 (isp_x p)) (- 1) 1;
          y = std_clamp (signedUnitFromU16 (isp_y p)) (- 1) 1;
          r = std_clamp (unitFromU16 (isp_r p)) 0 1;
          g = std_clamp (unitFromU16 (isp_g p)) 0 1;
          b = std_clamp (unitFromU16 (isp_b p)) 0 1;
          i0 = std_clamp (unitFromU16 (isp_intensity p)) 0 1;
          rgbMax = max r (max g b);
          i = (if i0 \<le> 0 \<and> 0 < rgbMax then rgbMax else i0);
          dark = (i \<le> 0)
      in \<lparr>lp_x = x, lp_y = y,
          lp_r = (if dark then 0 else r), lp_g = (if dark then 0 else g),
          lp_b = (if dark then 0 else b), lp_i = (if dark then 0 else i),
          lp_u1 = std_clamp (unitFromU16 (isp_u1 p)) 0 1,
          lp_u2 = std_clamp (unitFromU16 (isp_u2 p)) 0 1\<rparr>)"

section \<open>Slices and frames\<close>

record time_slice =
  tl_dataChunk :: "u8 list"
  tl_durationUs :: u32

text \<open>A buffer of shared pointers: \<open>None\<close> is null.\<close>

type_synonym slice_buf = "time_slice option list"

definition idnInferPointRate :: "nat \<Rightarrow> rat \<Rightarrow> u32 option" where
  "idnInferPointRate pointCount durationUs =
     (if pointCount = 0 \<or> durationUs \<le> 0 then None
      else let inferredRate = f64 (f64 (1000000 * f64 (of_nat pointCount)) / durationUs)
           in if inferredRate \<le> 0 then None else Some (word_of_int (llround inferredRate)))"

definition makeSliceSubmission :: "time_slice \<Rightarrow> rat \<Rightarrow> slice_submission" where
  "makeSliceSubmission sl durationUs =
     (let pointCount = length (tl_dataChunk sl) div sizeof_isp
      in \<lparr>sl_points = map (\<lambda>i. idnLaserPoint (isp_at (tl_dataChunk sl) i)) [0..<pointCount],
          sl_durationUs = (if 0 < durationUs then word_of_int (llround durationUs) else tl_durationUs sl),
          sl_effectivePointRate = idnInferPointRate pointCount durationUs, sl_discontinuous = False\<rparr>)"

text \<open>A slice with its own duration as a double, which holds 32 bits exactly.\<close>

definition ownDuration :: "time_slice \<Rightarrow> slice_submission" where
  "ownDuration sl = makeSliceSubmission sl (of_nat (unat (tl_durationUs sl)))"

definition makeFrameSubmission :: "slice_buf \<Rightarrow> bool \<Rightarrow> frame_submission" where
  "makeFrameSubmission buffer clearTransportPrefetch =
     \<lparr>fs_slices = map (ownDuration \<circ> the) (filter (\<lambda>s. s \<noteq> None) buffer),
      fs_effectivePointRate = None, fs_targetBeginTime = None,
      fs_clearTransportPrefetch = clearTransportPrefetch\<rparr>"

section \<open>The transport adapter\<close>

text \<open>
  The interface to the device that the adapter offers the IDN server: the points as bytes, the
  limits it reports and the slices it writes. \<open>unsigned\<close> has 32 bits.
\<close>

definition isp_fields :: "isp_point \<Rightarrow> u16 list" where
  "isp_fields p = [isp_x p, isp_y p, isp_r p, isp_g p, isp_b p, isp_intensity p, isp_shutter p,
     isp_u1 p, isp_u2 p, isp_u3 p, isp_u4 p]"

definition isp_bytes :: "isp_point \<Rightarrow> u8 list" where
  "isp_bytes p = concat (map (\<lambda>f. [ucast f, ucast (drop_bit 8 f)]) (isp_fields p))"

definition convertPoints :: "isp_point list \<Rightarrow> u8 list" where
  "convertPoints points = concat (map isp_bytes points)"

record idn_adapter =
  ia_displayName :: string
  ia_maxPointRateValue :: u32

definition newIdnAdapter :: "target_info \<Rightarrow> string \<Rightarrow> idn_adapter" where
  "newIdnAdapter info displayName = \<lparr>ia_displayName = displayName,
     ia_maxPointRateValue = (if 0 < ti_maxPointRate info then ti_maxPointRate info else 100000)\<rparr>"

definition setMaxPointrate :: "u32 \<Rightarrow> idn_adapter \<Rightarrow> idn_adapter" where
  "setMaxPointrate rate a = a\<lparr>ia_maxPointRateValue := max rate 1000\<rparr>"

definition bytesPerPoint :: u32 where "bytesPerPoint = of_nat sizeof_isp"

definition maxBytesPerTransmission :: u32 where "maxBytesPerTransmission = of_nat (4096 * sizeof_isp)"

text \<open>What \<open>getName\<close> writes into a buffer of a size: the name, cut, and a zero byte.\<close>

definition getName :: "nat \<Rightarrow> idn_adapter \<Rightarrow> string" where
  "getName nameBufferSize a = (if nameBufferSize = 0 then []
     else take (nameBufferSize - 1) (takeWhile (\<lambda>c. c \<noteq> CHR 0x00) (ia_displayName a)) @ [CHR 0x00])"

definition writeFrame :: "'s sink_ops \<Rightarrow> clock \<Rightarrow> time_slice \<Rightarrow> rat \<Rightarrow> 's \<Rightarrow> int \<times> 's" where
  "writeFrame so clk sl durationUs s =
     (case so_submitContinuous so clk (makeSliceSubmission sl durationUs) s of
        (result, s') \<Rightarrow> (if sr_accepted result then 0 else - 1, s'))"

section \<open>The driver loop\<close>

datatype driver_mode = DriverInactive | DriverWaveMode | DriverFrameMode

record driver =
  dr_currentBuffer :: slice_buf
  dr_nextFrameReplayAt :: nanos

definition newDriver :: driver where
  "newDriver = \<lparr>dr_currentBuffer = [], dr_nextFrameReplayAt = 0\<rparr>"

text \<open>
  One pass: what \<open>getNextBuffer\<close> delivered (\<open>None\<close> is null) and the mode it set, the running
  flag as read before the \<open>i\<close>-th slice, and the clock.
\<close>

record driver_pass =
  dp_nextBuffer :: "slice_buf option"
  dp_mode :: driver_mode
  dp_running :: "nat \<Rightarrow> bool"
  dp_clock :: clock

definition bufferReplayInterval :: "slice_buf \<Rightarrow> nanos" where
  "bufferReplayInterval buffer =
     1000 * sum_list (map (\<lambda>s. case s of None \<Rightarrow> 0 | Some sl \<Rightarrow> int (unat (tl_durationUs sl))) buffer)"

text \<open>The slices written before the flag is found cleared, and the buffer that is left.\<close>

fun writeSlices :: "(nat \<Rightarrow> bool) \<Rightarrow> nat \<Rightarrow> slice_buf \<Rightarrow> sink_call list \<times> slice_buf" where
  "writeSlices running i [] = ([], [])"
| "writeSlices running i (s # buffer) =
     (if \<not> running i then ([], s # buffer)
      else case writeSlices running (Suc i) buffer of
        (calls, rest) \<Rightarrow>
          ((case s of None \<Rightarrow> calls | Some sl \<Rightarrow> SubmitContinuous (ownDuration sl) # calls), rest))"

definition driverPass :: "driver_pass \<Rightarrow> driver \<Rightarrow> sink_call list \<times> driver" where
  "driverPass p d =
     (let frame = (dp_mode p = DriverFrameMode);
          fresh = (case dp_nextBuffer p of None \<Rightarrow> False | Some next \<Rightarrow> next \<noteq> []);
          hasFreshFrameInput = (fresh \<and> frame);
          d1 = (if fresh then d\<lparr>dr_currentBuffer := the (dp_nextBuffer p)\<rparr> else d);
          d2 = (if hasFreshFrameInput then d1\<lparr>dr_nextFrameReplayAt := dp_clock p 0\<rparr> else d1);
          buffer = dr_currentBuffer d2
      in if buffer = [] then ([], d2)
         else if frame \<and> dr_nextFrameReplayAt d2 \<noteq> 0 \<and> dp_clock p 1 < dr_nextFrameReplayAt d2 then ([], d2)
         else if frame
         then let interval = bufferReplayInterval buffer;
                  replayInterval = (if interval \<le> 0 then ms 1 else interval)
              in ([ReplaceFrame (makeFrameSubmission buffer hasFreshFrameInput)],
                  d2\<lparr>dr_nextFrameReplayAt := dp_clock p 2 + replayInterval\<rparr>)
         else case writeSlices (dp_running p) 0 buffer of
                (calls, rest) \<Rightarrow> (calls, d2\<lparr>dr_currentBuffer := rest, dr_nextFrameReplayAt := 0\<rparr>))"

fun driverLoop :: "driver_pass list \<Rightarrow> driver \<Rightarrow> sink_call list \<times> driver" where
  "driverLoop [] d = ([], d)"
| "driverLoop (p # ps) d =
     (case driverPass p d of
        (calls, d1) \<Rightarrow> (case driverLoop ps d1 of (calls', d2) \<Rightarrow> (calls @ calls', d2)))"

section \<open>Sessions\<close>

record idn_session =
  is_target :: link_target
  is_serviceId :: u8
  is_virtualControllerId :: string
  is_sliceDurationUs :: u32
  is_running :: bool

definition makeVirtualControllerId :: "target_info \<Rightarrow> string" where
  "makeVirtualControllerId info = ''LL '' @ (if ti_label info \<noteq> [] then ti_label info else ti_id info)"

text \<open>A session resets its target when it starts and when it stops.\<close>

definition startSession :: "idn_session \<Rightarrow> (nat \<times> sink_call) list \<times> idn_session" where
  "startSession s = (if is_running s then ([], s)
     else ([(lt_ref (is_target s), Reset)], s\<lparr>is_running := True\<rparr>))"

definition stopSession :: "idn_session \<Rightarrow> (nat \<times> sink_call) list \<times> idn_session" where
  "stopSession s = (if \<not> is_running s then ([], s)
     else ([(lt_ref (is_target s), Reset)], s\<lparr>is_running := False\<rparr>))"

definition stopSessions :: "idn_session list \<Rightarrow> (nat \<times> sink_call) list" where
  "stopSessions sessions = concat (map (fst \<circ> stopSession) sessions)"

section \<open>The host\<close>

text \<open>
  The server of the library: started with the services (identifier and name) it publishes,
  \<open>Some\<close> the error text, which may be empty, or \<open>None\<close> when it runs.
\<close>

record 'w idn_lib =
  in_startServer :: "(u8 \<times> string) list \<Rightarrow> 'w \<Rightarrow> string option \<times> 'w"
  in_stopServer :: "'w \<Rightarrow> 'w"

record idn_host =
  ih_sliceDurationUs :: u32
  ih_server :: bool
  ih_sessions :: "idn_session list"
  ih_endpoints :: "vc_endpoint list"
  ih_active :: bool

definition newIdnHost :: "host_config \<Rightarrow> idn_host" where
  "newIdnHost config = \<lparr>ih_sliceDurationUs = cfg_sliceDurationUs config, ih_server = False,
     ih_sessions = [], ih_endpoints = [], ih_active = False\<rparr>"

definition idnEndpoint :: "target_info \<Rightarrow> nat \<Rightarrow> vc_endpoint" where
  "idnEndpoint info serviceIdRaw =
     (let name = makeVirtualControllerId info in
      \<lparr>ep_targetId = ti_id info, ep_label = name, ep_value = name, ep_kind = ''service'',
       ep_protocol = ''IDN'', ep_transport = ''udp'', ep_address = ''0.0.0.0'', ep_port = 7255,
       ep_channels = 0,
       ep_attributes = fmap_of_list
         [(''virtual_controller_id'', name), (''service_id'', to_string serviceIdRaw)]\<rparr>)"

text \<open>
  Sessions and endpoints for the targets, in order; \<open>Inl\<close> when the identifiers run out. The
  endpoints are members of the host and keep what was added before.
\<close>

fun createSessions ::
  "u32 \<Rightarrow> link_target list \<Rightarrow> idn_session list \<Rightarrow> vc_endpoint list \<Rightarrow> (nat \<times> sink_call) list \<Rightarrow>
   (string + idn_session list) \<times> vc_endpoint list \<times> (nat \<times> sink_call) list" where
  "createSessions us [] sessions endpoints calls = (Inr sessions, endpoints, calls)"
| "createSessions us (t # ts) sessions endpoints calls =
     (let serviceIdRaw = length sessions + 1 in
      if 255 < serviceIdRaw
      then (Inl ''IDN service ID range exceeded.'', endpoints, calls @ stopSessions sessions)
      else
        let session = \<lparr>is_target = t, is_serviceId = of_nat serviceIdRaw,
              is_virtualControllerId = makeVirtualControllerId (lt_info t), is_sliceDurationUs = us,
              is_running = False\<rparr>
        in case startSession session of
             (started, session') \<Rightarrow>
               createSessions us ts (sessions @ [session'])
                 (endpoints @ [idnEndpoint (lt_info t) serviceIdRaw]) (calls @ started))"

definition startIdnHost ::
  "'w idn_lib \<Rightarrow> link_target list \<Rightarrow> idn_host \<Rightarrow> 'w \<Rightarrow>
   string option \<times> (nat \<times> sink_call) list \<times> idn_host \<times> 'w" where
  "startIdnHost lib targets h w =
     (if ih_active h then (Some ''IDN virtual controller host is already running.'', [], h, w)
      else case createSessions (ih_sliceDurationUs h) targets [] [] [] of
        (Inl err, endpoints, calls) \<Rightarrow> (Some err, calls, h\<lparr>ih_endpoints := endpoints\<rparr>, w)
      | (Inr sessions, endpoints, calls) \<Rightarrow>
          if sessions = []
          then (Some ''No IDN targets were created.'', calls, h\<lparr>ih_endpoints := endpoints\<rparr>, w)
          else (case in_startServer lib (map (\<lambda>s. (is_serviceId s, is_virtualControllerId s)) sessions) w of
              (Some startupError, w1) \<Rightarrow>
                (Some (if startupError = [] then ''IDN server failed to start.'' else startupError),
                 calls @ stopSessions sessions, h\<lparr>ih_endpoints := []\<rparr>, in_stopServer lib w1)
            | (None, w1) \<Rightarrow>
                (None, calls, h\<lparr>ih_server := True, ih_sessions := sessions, ih_endpoints := endpoints,
                                ih_active := True\<rparr>, w1)))"

definition stopIdnHost ::
  "'w idn_lib \<Rightarrow> idn_host \<Rightarrow> 'w \<Rightarrow> (nat \<times> sink_call) list \<times> idn_host \<times> 'w" where
  "stopIdnHost lib h w =
     (stopSessions (ih_sessions h),
      h\<lparr>ih_server := False, ih_sessions := [], ih_active := False, ih_endpoints := []\<rparr>,
      if ih_server h then in_stopServer lib w else w)"

definition idn_host_ops :: "'w idn_lib \<Rightarrow> (idn_host, 'w) host_ops" where
  "idn_host_ops lib = \<lparr>ho_displayName = (\<lambda>h. ''IDN''),
     ho_start = (\<lambda>ts h w. case startIdnHost lib ts h w of (res, calls, h', w') \<Rightarrow> (res, h', w')),
     ho_stop = (\<lambda>h w. snd (stopIdnHost lib h w)), ho_running = ih_active, ho_endpoints = ih_endpoints,
     ho_supportsDynamicTargets = (\<lambda>h. False), ho_addTarget = defaultAddTarget,
     ho_removeTarget = defaultRemoveTarget\<rparr>"

definition idnRegistration :: "idn_host registration" where
  "idnRegistration =
     \<lparr>rg_info = \<lparr>hi_id = ''idn'', hi_displayName = ''IDN'',
        hi_description = ''Expose linked controllers as IDN services.'', hi_options = [],
        hi_defaultSelection = True, hi_separateInstancePerTarget = False\<rparr>,
      rg_factory = Some (\<lambda>config. Some (newIdnHost config))\<rparr>"

end
