(* ===== verification/Idn_Thms.thy ===== *)
theory Idn_Thms
  imports Idn_Host
begin

text \<open>
  The IDN host: what a sample becomes, what the driver loop submits in wave and in frame mode,
  what starting and stopping the host do, and the interpretation of \<open>virtual_host\<close>.
\<close>

section \<open>Samples\<close>

lemma unitFromU16_unit: "0 \<le> unitFromU16 v \<and> unitFromU16 v \<le> 1"
  unfolding unitFromU16_def by (rule f32_channel_unit)

lemma unitFromU16_pos: "0 < unitFromU16 v \<longleftrightarrow> v \<noteq> 0"
  by (simp add: unitFromU16_def unat_gt_0 del: of_nat_unat)

text \<open>Every point made of an IDN sample lies in the square and the unit range; a point is
  lit exactly when the sample has an intensity or a colour; a sample with a colour and no
  intensity, which some senders produce, shines with its brightest colour; and a point whose
  intensity is zero is black.\<close>

theorem idn_point:
  "case idnLaserPoint p of q \<Rightarrow>
     \<bar>lp_x q\<bar> \<le> 1 \<and> \<bar>lp_y q\<bar> \<le> 1 \<and>
     list_all (\<lambda>c. 0 \<le> c \<and> c \<le> 1) [lp_r q, lp_g q, lp_b q, lp_i q, lp_u1 q, lp_u2 q] \<and>
     (0 < lp_i q \<longleftrightarrow> isp_intensity p \<noteq> 0 \<or> isp_r p \<noteq> 0 \<or> isp_g p \<noteq> 0 \<or> isp_b p \<noteq> 0) \<and>
     lp_i q = (if isp_intensity p \<noteq> 0 then unitFromU16 (isp_intensity p)
               else max (unitFromU16 (isp_r p)) (max (unitFromU16 (isp_g p)) (unitFromU16 (isp_b p)))) \<and>
     (lp_i q = 0 \<or> lp_r q = unitFromU16 (isp_r p) \<and> lp_g q = unitFromU16 (isp_g p) \<and>
        lp_b q = unitFromU16 (isp_b p))"
proof -
  let ?q = "idnLaserPoint p"
  have unit: "std_clamp (unitFromU16 v) 0 1 = unitFromU16 v" for v
    using unitFromU16_unit by simp
  have xy: "- 1 \<le> lp_x ?q \<and> lp_x ?q \<le> 1 \<and> - 1 \<le> lp_y ?q \<and> lp_y ?q \<le> 1"
    by (simp add: idnLaserPoint_def Let_def std_clamp_bounds)
  have z: "unitFromU16 v = 0 \<longleftrightarrow> v = 0" "unitFromU16 v \<le> 0 \<longleftrightarrow> v = 0" "0 \<le> unitFromU16 v" "unitFromU16 v \<le> 1" for v
    using unitFromU16_pos [of v] unitFromU16_unit [of v] by auto
  have pos: "0 < max a (max b c) \<longleftrightarrow> 0 < a \<or> 0 < b \<or> 0 < c" for a b c :: rat by (auto simp: max_def)
  show ?thesis using xy
    by (auto simp: idnLaserPoint_def Let_def unit z pos unitFromU16_pos abs_le_iff)
qed

text \<open>Blocks of equal length in a list of bytes.\<close>

lemma nth_concat_blocks:
  "(\<And>x. length (f x) = n) \<Longrightarrow> i < length xs \<Longrightarrow> k < n \<Longrightarrow>
     concat (map f xs) ! (n * i + k) = f (xs ! i) ! k"
proof (induction xs arbitrary: i)
  case Nil
  then show ?case by simp
next
  case (Cons x xs)
  then show ?case by (cases i) (simp_all add: nth_append)
qed

lemma length_concat_blocks: "(\<And>x. length (f x) = n) \<Longrightarrow> length (concat (map f xs)) = n * length xs"
  by (induction xs) simp_all

lemma length_isp_bytes [simp]: "length (isp_bytes p) = 22"
  by (simp add: isp_bytes_def isp_fields_def)

lemma le16_bytes:
  "(ucast (ucast f :: u8) OR push_bit 8 (ucast (ucast (drop_bit 8 f) :: u8)) :: u16) = f"
proof (rule bit_word_eqI)
  fix n assume "n < LENGTH(16)"
  then show "bit (ucast (ucast f :: u8) OR push_bit 8 (ucast (ucast (drop_bit 8 f) :: u8)) :: u16) n \<longleftrightarrow> bit f n"
    by (cases "n < 8") (auto simp: bit_simps)
qed

lemma isp_at_convert:
  assumes "i < length ps"
  shows "isp_at (convertPoints ps) i = ps ! i"
proof -
  have "le16_at (convertPoints ps) (sizeof_isp * i + 2 * k) = isp_fields (ps ! i) ! k" if "k < 11" for k
  proof -
    have b: "convertPoints ps ! (22 * i + j) = isp_bytes (ps ! i) ! j" if "j < 22" for j
      unfolding convertPoints_def by (rule nth_concat_blocks [OF length_isp_bytes assms that])
    have "isp_bytes (ps ! i) ! (2 * k + j) = (\<lambda>f. [ucast f, ucast (drop_bit 8 f)]) (isp_fields (ps ! i) ! k) ! j"
      if "j < 2" for j
      unfolding isp_bytes_def by (rule nth_concat_blocks) (use that \<open>k < 11\<close> in \<open>simp_all add: isp_fields_def\<close>)
    from this [of 0] this [of 1] that b [of "2 * k"] b [of "2 * k + 1"] show ?thesis
      by (simp add: le16_at_def sizeof_isp_def le16_bytes)
  qed
  from this [of 0] this [of 1] this [of 2] this [of 3] this [of 4] this [of 5] this [of 6] this [of 7]
    this [of 8] this [of 9] this [of 10]
  show ?thesis by (simp add: isp_at_def Let_def isp_fields_def)
qed

text \<open>C38: What the adapter makes of points for the IDN server, bytes in a slice, and what it
  reads of such a slice when it submits it are inverse: the target gets one laser point per
  sample, in order, made of that sample, and the slice's byte length is that of its points.\<close>

theorem idn_points_roundtrip:
  "map (isp_at (convertPoints ps)) [0..<length ps] = ps \<and>
   length (convertPoints ps) = unat bytesPerPoint * length ps \<and>
   sl_points (makeSliceSubmission \<lparr>tl_dataChunk = convertPoints ps, tl_durationUs = us\<rparr> d) =
     map idnLaserPoint ps"
proof -
  have len: "length (convertPoints ps) = 22 * length ps"
    unfolding convertPoints_def by (rule length_concat_blocks) simp
  have inv: "map (isp_at (convertPoints ps)) [0..<length ps] = ps"
    by (rule nth_equalityI) (simp_all add: isp_at_convert)
  have "sl_points (makeSliceSubmission \<lparr>tl_dataChunk = convertPoints ps, tl_durationUs = us\<rparr> d) =
      map idnLaserPoint (map (isp_at (convertPoints ps)) [0..<length ps])"
    by (simp add: makeSliceSubmission_def Let_def len sizeof_isp_def)
  then show ?thesis using len unfolding inv by (simp add: bytesPerPoint_def sizeof_isp_def inv)
qed

section \<open>The driver loop\<close>

lemma writeSlices_result:
  "writeSlices running i buffer = (calls, rest) \<Longrightarrow>
     \<exists>k \<le> length buffer. rest = drop k buffer \<and>
       calls = map (SubmitContinuous \<circ> ownDuration \<circ> the) (filter (\<lambda>s. s \<noteq> None) (take k buffer)) \<and>
       (\<forall>j < k. running (i + j)) \<and> (k < length buffer \<longrightarrow> \<not> running (i + k))"
proof (induction running i buffer arbitrary: calls rule: writeSlices.induct)
  case (1 running i)
  then show ?case by simp
next
  case (2 running i s buffer)
  show ?case
  proof (cases "running i")
    case False
    with 2(2) show ?thesis by (intro exI [of _ 0]) simp
  next
    case True
    obtain c r where w: "writeSlices running (Suc i) buffer = (c, r)" by fastforce
    with 2(2) True have w': "writeSlices running (Suc i) buffer = (c, rest)" by auto
    from 2(1) [OF _ w'] True obtain k where k: "k \<le> length buffer" "rest = drop k buffer"
      "c = map (SubmitContinuous \<circ> ownDuration \<circ> the) (filter (\<lambda>s. s \<noteq> None) (take k buffer))"
      "\<forall>j < k. running (Suc i + j)" "k < length buffer \<longrightarrow> \<not> running (Suc i + k)" by auto
    have "\<forall>j < Suc k. running (i + j)" using True k(4) by (auto simp: less_Suc_eq_0_disj)
    with True 2(2) w k show ?thesis
      by (intro exI [of _ "Suc k"]) (auto split: option.splits)
  qed
qed

text \<open>The buffer a pass was given, and the submissions it stands for.\<close>

definition delivered :: "driver_pass \<Rightarrow> slice_buf" where
  "delivered p = (case dp_nextBuffer p of None \<Rightarrow> [] | Some buffer \<Rightarrow> buffer)"

definition as_slices :: "slice_buf \<Rightarrow> sink_call list" where
  "as_slices buffer = map (SubmitContinuous \<circ> ownDuration \<circ> the) (filter (\<lambda>s. s \<noteq> None) buffer)"

lemma as_slices_append [simp]: "as_slices (xs @ ys) = as_slices xs @ as_slices ys" "as_slices [] = []"
  by (simp_all add: as_slices_def)

lemma wave_pass:
  assumes "dp_mode p \<noteq> DriverFrameMode" "\<forall>i. dp_running p i" "dr_currentBuffer d = []"
    "driverPass p d = (calls, d')"
  shows "calls = as_slices (delivered p) \<and> dr_currentBuffer d' = []"
proof -
  let ?b = "delivered p"
  obtain c r where w: "writeSlices (dp_running p) 0 ?b = (c, r)" by fastforce
  from writeSlices_result [OF w] assms(2) have "c = as_slices ?b \<and> r = []"
    by (auto simp: as_slices_def)
  with assms w show ?thesis
    by (cases "dp_nextBuffer p") (auto simp: driverPass_def delivered_def Let_def split: if_splits prod.splits)
qed

text \<open>C23: In wave mode the driver loop forwards what it receives: over any number of passes,
  every slice delivered by the IDN server is submitted to the target exactly once and in order,
  null pointers apart, and nothing else is.\<close>

theorem idn_wave_stream:
  assumes "list_all (\<lambda>p. dp_mode p \<noteq> DriverFrameMode \<and> (\<forall>i. dp_running p i)) ps"
    "driverLoop ps newDriver = (calls, d)"
  shows "calls = as_slices (concat (map delivered ps)) \<and> dr_currentBuffer d = []"
proof -
  have "calls = as_slices (concat (map delivered ps)) \<and> dr_currentBuffer d = []"
    if "list_all (\<lambda>p. dp_mode p \<noteq> DriverFrameMode \<and> (\<forall>i. dp_running p i)) ps"
      "driverLoop ps d0 = (calls, d)" "dr_currentBuffer d0 = []" for d0
    using that
  proof (induction ps arbitrary: d0 calls)
    case Nil
    then show ?case by simp
  next
    case (Cons p ps)
    obtain c1 d1 where 1: "driverPass p d0 = (c1, d1)" by fastforce
    obtain c2 d2 where 2: "driverLoop ps d1 = (c2, d2)" by fastforce
    from Cons.prems 1 2 have r: "calls = c1 @ c2" "d = d2" by auto
    note w = wave_pass [OF _ _ Cons.prems(3) 1]
    with Cons.prems(1) have "c1 = as_slices (delivered p)" "dr_currentBuffer d1 = []" by auto
    with Cons.IH [of d1 c2] Cons.prems(1) 2 r show ?case by simp
  qed
  with assms show ?thesis by (simp add: newDriver_def)
qed

definition wave_pass_of :: "slice_buf option \<Rightarrow> driver_pass" where
  "wave_pass_of buffer = \<lparr>dp_nextBuffer = buffer, dp_mode = DriverWaveMode, dp_running = (\<lambda>_. True), dp_clock = (\<lambda>_. 0)\<rparr>"

definition empty_slice :: "u32 \<Rightarrow> time_slice" where
  "empty_slice us = \<lparr>tl_dataChunk = [], tl_durationUs = us\<rparr>"

theorem idn_wave_stream_witness:
  "fst (driverLoop [wave_pass_of (Some [Some (empty_slice 1), None]), wave_pass_of None,
       wave_pass_of (Some [Some (empty_slice 2)])] newDriver) =
     [SubmitContinuous (ownDuration (empty_slice 1)), SubmitContinuous (ownDuration (empty_slice 2))]"
proof -
  let ?ps = "[wave_pass_of (Some [Some (empty_slice 1), None]), wave_pass_of None,
       wave_pass_of (Some [Some (empty_slice 2)])]"
  obtain calls d where r: "driverLoop ?ps newDriver = (calls, d)" by fastforce
  from idn_wave_stream [OF _ r]
  have "calls = [SubmitContinuous (ownDuration (empty_slice 1)), SubmitContinuous (ownDuration (empty_slice 2))]"
    by (simp add: wave_pass_of_def delivered_def as_slices_def)
  with r show ?thesis by (simp only: fst_conv)
qed

text \<open>In frame mode a pass submits nothing or replaces the target's frame by all slices of
  the current buffer: at once, discarding what the controller had prefetched, when a new frame
  has come; otherwise, keeping the prefetch, when the time of the last replay plus the duration
  of the frame (or a millisecond, if it is zero) has passed. The frame itself is kept.\<close>

theorem idn_frame_replay:
  assumes "dp_mode p = DriverFrameMode" "driverPass p d = (calls, d')"
  shows "let fresh = (delivered p \<noteq> []);
      buffer = (if fresh then delivered p else dr_currentBuffer d);
      due = (if fresh then dp_clock p 0 else dr_nextFrameReplayAt d);
      interval = bufferReplayInterval buffer
    in dr_currentBuffer d' = buffer \<and>
      (if buffer \<noteq> [] \<and> (due = 0 \<or> due \<le> dp_clock p 1)
       then calls = [ReplaceFrame (makeFrameSubmission buffer fresh)] \<and>
         dr_nextFrameReplayAt d' = dp_clock p 2 + max interval (if interval = 0 then ms 1 else 0)
       else calls = [] \<and> dr_nextFrameReplayAt d' = due)"
proof -
  have nonneg: "0 \<le> bufferReplayInterval b" for b
    unfolding bufferReplayInterval_def by (intro mult_nonneg_nonneg sum_list_nonneg) (auto split: option.splits)
  have i: "(if bufferReplayInterval b \<le> 0 then ms 1 else bufferReplayInterval b) =
      max (bufferReplayInterval b) (if bufferReplayInterval b = 0 then ms 1 else 0)" for b
    using nonneg [of b] by auto
  show ?thesis
  proof (cases "delivered p = []")
    case True
    then have e: "(case dp_nextBuffer p of None \<Rightarrow> False | Some next \<Rightarrow> next \<noteq> []) = False"
      by (simp add: delivered_def split: option.splits)
    show ?thesis using assms unfolding driverPass_def e Let_def i
      by (simp add: True split: if_splits) auto
  next
    case False
    then have e: "(case dp_nextBuffer p of None \<Rightarrow> False | Some next \<Rightarrow> next \<noteq> []) = True"
      and b: "the (dp_nextBuffer p) = delivered p"
      by (simp_all add: delivered_def split: option.splits)
    show ?thesis using assms False unfolding driverPass_def e b Let_def i
      by (simp split: if_splits) auto
  qed
qed

theorem idn_frame_replay_witness:
  "let buffer = [Some (empty_slice 20)];
       p = (\<lambda>next t. \<lparr>dp_nextBuffer = next, dp_mode = DriverFrameMode, dp_running = (\<lambda>_. True), dp_clock = (\<lambda>_. t)\<rparr>);
       d1 = snd (driverPass (p (Some buffer) 100) newDriver)
   in fst (driverPass (p None 200) d1) = [] \<and>
      fst (driverPass (p None 30000) d1) = [ReplaceFrame (makeFrameSubmission buffer False)]"
proof -
  let ?buffer = "[Some (empty_slice 20)]"
  let ?p = "\<lambda>next t. \<lparr>dp_nextBuffer = next, dp_mode = DriverFrameMode, dp_running = (\<lambda>_. True), dp_clock = (\<lambda>_. t)\<rparr>"
  obtain c1 d1 where 1: "driverPass (?p (Some ?buffer) 100) newDriver = (c1, d1)" by fastforce
  obtain c2 d2 where 2: "driverPass (?p None 200) d1 = (c2, d2)" by fastforce
  obtain c3 d3 where 3: "driverPass (?p None 30000) d1 = (c3, d3)" by fastforce
  have iv: "bufferReplayInterval ?buffer = 20000" by (simp add: bufferReplayInterval_def empty_slice_def)
  have s: "dr_currentBuffer d1 = ?buffer" "dr_nextFrameReplayAt d1 = 20100"
    using idn_frame_replay [OF _ 1] by (simp_all add: delivered_def iv Let_def)
  have "c2 = []" "c3 = [ReplaceFrame (makeFrameSubmission ?buffer False)]"
    using idn_frame_replay [OF _ 2] idn_frame_replay [OF _ 3] by (simp_all add: delivered_def iv s Let_def)
  then show ?thesis by (simp add: Let_def 1 2 3)
qed

section \<open>Starting and stopping\<close>

definition session_for :: "u32 \<Rightarrow> nat \<times> link_target \<Rightarrow> idn_session" where
  "session_for us it = \<lparr>is_target = snd it, is_serviceId = of_nat (fst it),
     is_virtualControllerId = makeVirtualControllerId (lt_info (snd it)), is_sliceDurationUs = us,
     is_running = True\<rparr>"

definition endpoint_for :: "nat \<times> link_target \<Rightarrow> vc_endpoint" where
  "endpoint_for it = idnEndpoint (lt_info (snd it)) (fst it)"

definition reset_of :: "link_target \<Rightarrow> nat \<times> sink_call" where
  "reset_of t = (lt_ref t, Reset)"

lemma createSessions_fits:
  "length ss + length ts \<le> 255 \<Longrightarrow> createSessions us ts ss es cs =
     (Inr (ss @ map (session_for us) (enumerate (length ss + 1) ts)),
      es @ map endpoint_for (enumerate (length ss + 1) ts), cs @ map reset_of ts)"
  by (induction us ts ss es cs rule: createSessions.induct)
    (simp_all add: startSession_def session_for_def endpoint_for_def reset_of_def Let_def)

lemma createSessions_overflow:
  "255 < length ss + length ts \<Longrightarrow> length ss \<le> 255 \<Longrightarrow> \<exists>cs'. createSessions us ts ss es cs =
     (Inl ''IDN service ID range exceeded.'',
      es @ map endpoint_for (enumerate (length ss + 1) (take (255 - length ss) ts)), cs')"
proof (induction us ts ss es cs rule: createSessions.induct)
  case (1 us ss es cs)
  then show ?case by simp
next
  case (2 us t ts ss es cs)
  show ?case
  proof (cases "length ss = 255")
    case True
    then show ?thesis by simp
  next
    case False
    then have "255 - length ss = Suc (255 - Suc (length ss))" using 2(3) by simp
    with 2(1) [OF refl _ refl, of "fst (startSession \<lparr>is_target = t, is_serviceId = of_nat (length ss + 1),
        is_virtualControllerId = makeVirtualControllerId (lt_info t), is_sliceDurationUs = us, is_running = False\<rparr>)"]
      2(2,3) False
    show ?thesis by (simp add: startSession_def endpoint_for_def Let_def)
  qed
qed

lemma enumerate_Nil_iff [simp]: "enumerate n ts = [] \<longleftrightarrow> ts = []"
  by (metis length_0_conv length_enumerate)

text \<open>A start of the host that succeeds, and one that does not.\<close>

lemma distinct_service_ids:
  assumes "length ts \<le> 255"
  shows "distinct (map is_serviceId (map (session_for us) (enumerate 1 ts)))"
proof -
  have "map is_serviceId (map (session_for us) (enumerate 1 ts)) = map of_nat (map fst (enumerate 1 ts))"
    unfolding map_map by (rule map_cong [OF refl]) (simp add: session_for_def)
  then have "map is_serviceId (map (session_for us) (enumerate 1 ts)) = map of_nat [1..<1 + length ts]"
    by (simp only: map_fst_enumerate)
  moreover have "inj_on (of_nat :: nat \<Rightarrow> u8) {1..<1 + length ts}"
  proof (rule inj_onI)
    fix i j assume ij: "i \<in> {1..<1 + length ts}" "j \<in> {1..<1 + length ts}" and eq: "(of_nat i :: u8) = of_nat j"
    have k: "unat (of_nat k :: u8) = k" if "k \<in> {1..<1 + length ts}" for k
      using that assms by (simp add: unat_of_nat take_bit_nat_eq_self_iff)
    have "i = unat (of_nat i :: u8)" by (rule k [OF ij(1), symmetric])
    also have "\<dots> = unat (of_nat j :: u8)" by (simp only: eq)
    also have "\<dots> = j" by (rule k [OF ij(2)])
    finally show "i = j" .
  qed
  ultimately show ?thesis by (simp only: distinct_map distinct_upt set_upt simp_thms)
qed

lemma startIdnHost_started:
  assumes "startIdnHost lib ts h w = (None, calls, h', w')"
  shows "ih_active h' \<and> ts \<noteq> [] \<and> length ts \<le> 255 \<and>
    ih_sliceDurationUs h' = ih_sliceDurationUs h \<and> ih_endpoints h' = map endpoint_for (enumerate 1 ts) \<and>
    ih_sessions h' = map (session_for (ih_sliceDurationUs h)) (enumerate 1 ts) \<and> calls = map reset_of ts"
proof (cases "255 < length ts")
  case True
  with createSessions_overflow [of "[]" ts "ih_sliceDurationUs h" "[]" "[]"] assms show ?thesis
    by (auto simp: startIdnHost_def split: if_splits)
next
  case False
  then have "createSessions (ih_sliceDurationUs h) ts [] [] [] =
      (Inr (map (session_for (ih_sliceDurationUs h)) (enumerate 1 ts)),
       map endpoint_for (enumerate 1 ts), map reset_of ts)"
    using createSessions_fits [of "[]" ts] by simp
  with False assms show ?thesis
    by (auto simp: startIdnHost_def split: if_splits prod.splits option.splits)
qed

lemma startIdnHost_failed:
  assumes "startIdnHost lib ts h w = (Some err, calls, h', w')" "\<not> ih_active h"
  shows "\<not> ih_active h' \<and> ih_sessions h' = ih_sessions h \<and>
    ih_endpoints h' = (if 255 < length ts then map endpoint_for (enumerate 1 (take 255 ts)) else [])"
proof (cases "255 < length ts")
  case True
  with createSessions_overflow [of "[]" ts "ih_sliceDurationUs h" "[]" "[]"] assms show ?thesis
    by (auto simp: startIdnHost_def)
next
  case False
  then have "createSessions (ih_sliceDurationUs h) ts [] [] [] =
      (Inr (map (session_for (ih_sliceDurationUs h)) (enumerate 1 ts)),
       map endpoint_for (enumerate 1 ts), map reset_of ts)"
    using createSessions_fits [of "[]" ts] by simp
  with False assms show ?thesis
    by (cases "ts = []") (auto simp: startIdnHost_def split: prod.splits option.splits)
qed

text \<open>C32: Starting the idle host succeeds only for 1 to 255 targets and a server that starts; then
  it publishes one service per target, numbered from 1 in their order, named after it, and every
  target has been reset once. When it fails, the host does not run and has no session; but its
  endpoints are those of the first 255 targets when there were more.\<close>

theorem idn_start:
  assumes "startIdnHost lib ts h w = (res, calls, h', w')" "\<not> ih_active h"
  shows "case res of
      None \<Rightarrow> ih_active h' \<and> ts \<noteq> [] \<and> length ts \<le> 255 \<and>
        ih_endpoints h' = map endpoint_for (enumerate 1 ts) \<and>
        ih_sessions h' = map (session_for (ih_sliceDurationUs h)) (enumerate 1 ts) \<and>
        distinct (map is_serviceId (ih_sessions h')) \<and> calls = map reset_of ts
    | Some err \<Rightarrow> \<not> ih_active h' \<and> ih_sessions h' = ih_sessions h \<and>
        ih_endpoints h' = (if 255 < length ts then map endpoint_for (enumerate 1 (take 255 ts)) else [])"
proof (cases res)
  case None
  with startIdnHost_started [of lib ts h w calls h' w'] assms have "ih_active h' \<and> ts \<noteq> [] \<and> length ts \<le> 255 \<and>
        ih_endpoints h' = map endpoint_for (enumerate 1 ts) \<and>
        ih_sessions h' = map (session_for (ih_sliceDurationUs h)) (enumerate 1 ts) \<and> calls = map reset_of ts"
    by simp
  with None distinct_service_ids [of ts "ih_sliceDurationUs h"] show ?thesis by simp
next
  case (Some err)
  with startIdnHost_failed [of lib ts h w err calls h' w'] assms show ?thesis by simp
qed

theorem idn_start_witness:
  "case startIdnHost \<lparr>in_startServer = (\<lambda>services w. (None, w)), in_stopServer = id\<rparr>
       (replicate 256 \<lparr>lt_ref = 0, lt_info = \<lparr>ti_id = ''a'', ti_label = [], ti_type = [], ti_maxPointRate = 0\<rparr>\<rparr>)
       (newIdnHost \<lparr>cfg_sliceDurationUs = 0, cfg_options = fmempty\<rparr>) () of
     (res, calls, h', w') \<Rightarrow> res = None \<or> \<not> ih_active h' \<and> length (ih_endpoints h') = 255"
proof -
  let ?t = "\<lparr>lt_ref = 0 :: nat, lt_info = \<lparr>ti_id = ''a'', ti_label = [], ti_type = [], ti_maxPointRate = 0\<rparr>\<rparr>"
  let ?lib = "\<lparr>in_startServer = (\<lambda>services w. (None, w)), in_stopServer = id\<rparr> :: unit idn_lib"
  let ?h = "newIdnHost \<lparr>cfg_sliceDurationUs = 0, cfg_options = fmempty\<rparr>"
  obtain res calls h' w' where r: "startIdnHost ?lib (replicate 256 ?t) ?h () = (res, calls, h', w')"
    by (metis prod_cases4)
  have "\<not> ih_active ?h" by (simp add: newIdnHost_def)
  from idn_start [OF r this] show ?thesis
    by (cases res) (simp_all only: r option.case prod.case length_map length_enumerate length_take length_replicate, simp_all)
qed

text \<open>Stopping resets every target once more and leaves nothing.\<close>

lemma stopIdnHost_result:
  "stopIdnHost lib h w = (calls, h', w') \<Longrightarrow>
     \<not> ih_active h' \<and> ih_endpoints h' = [] \<and> ih_sessions h' = [] \<and> \<not> ih_server h' \<and>
     calls = map (reset_of \<circ> is_target) (filter is_running (ih_sessions h)) \<and>
     w' = (if ih_server h then in_stopServer lib w else w)"
proof -
  have "stopSessions ss = map (reset_of \<circ> is_target) (filter is_running ss)" for ss
    by (induction ss) (simp_all add: stopSessions_def stopSession_def reset_of_def)
  then show "stopIdnHost lib h w = (calls, h', w') \<Longrightarrow> ?thesis" by (auto simp: stopIdnHost_def)
qed

lemma idn_start_result:
  assumes "startIdnHost lib ts h w = (res, calls, h', w')"
  shows "(res = None \<longrightarrow> ih_active h' \<and> ih_endpoints h' = map endpoint_for (enumerate 1 ts)) \<and>
     (res \<noteq> None \<longrightarrow> ih_active h' = ih_active h)"
proof (cases res)
  case None
  with startIdnHost_started [of lib ts h w calls h' w'] assms show ?thesis by simp
next
  case (Some err)
  then show ?thesis using startIdnHost_failed [of lib ts h w err calls h' w'] assms
    by (cases "ih_active h") (simp_all add: startIdnHost_def)
qed

interpretation idn_host: virtual_host "idn_host_ops lib" for lib
proof (unfold_locales, goal_cases)
  case (1 h w h' w')
  then show ?case by (auto simp: idn_host_ops_def stopIdnHost_def)
next
  case (2 h w h' w')
  then show ?case by (auto simp: idn_host_ops_def stopIdnHost_def)
next
  case (3 ts h w h' w')
  then show ?case by (auto simp: idn_host_ops_def dest: idn_start_result split: prod.splits)
next
  case (4 ts h w h' w')
  then have "ih_endpoints h' = map endpoint_for (enumerate 1 ts)"
    by (auto simp: idn_host_ops_def dest: idn_start_result split: prod.splits)
  moreover have "map ep_targetId (map endpoint_for (enumerate 1 ts)) = map (ti_id \<circ> lt_info) (map snd (enumerate 1 ts))"
    unfolding map_map by (rule map_cong [OF refl]) (simp add: endpoint_for_def idnEndpoint_def Let_def)
  ultimately show ?case
    by (simp only: idn_host_ops_def host_ops.select_convs map_snd_enumerate flip: set_map)
next
  case (5 ts h w err h' w')
  then show ?case by (auto simp: idn_host_ops_def dest: idn_start_result split: prod.splits)
next
  case (6 h t w res h' w')
  then show ?case by (simp add: idn_host_ops_def defaultAddTarget_def)
next
  case (7 h tid w res h' w')
  then show ?case by (simp add: idn_host_ops_def defaultRemoveTarget_def)
qed

end
