(* ===== verification/Builtin_Hosts.thy ===== *)
theory Builtin_Hosts
  imports Runtime_Thms Libera_Host_Thms Idn_Thms
begin

text \<open>
  The link with the hosts that are built into the application. \<open>LinkRuntime.cpp\<close> makes sure that
  the registrars of the IDN and of the Libera protocol host are linked in; that of the Ether
  Dream host is linked into the tests only. A host behind a \<open>unique_ptr\<close> is a value of a sum
  type, and a call goes to the operations of its kind. In which order the registrars of two
  translation units run is not specified: it is a parameter.
\<close>

section \<open>Hosts of two kinds\<close>

definition sum_ops :: "('h, 'w) host_ops \<Rightarrow> ('k, 'w) host_ops \<Rightarrow> ('h + 'k, 'w) host_ops" where
  "sum_ops a b = \<lparr>
     ho_displayName = case_sum (ho_displayName a) (ho_displayName b),
     ho_start = (\<lambda>ts h w. case h of
         Inl x \<Rightarrow> (case ho_start a ts x w of (res, x', w') \<Rightarrow> (res, Inl x', w'))
       | Inr y \<Rightarrow> (case ho_start b ts y w of (res, y', w') \<Rightarrow> (res, Inr y', w'))),
     ho_stop = (\<lambda>h w. case h of
         Inl x \<Rightarrow> (case ho_stop a x w of (x', w') \<Rightarrow> (Inl x', w'))
       | Inr y \<Rightarrow> (case ho_stop b y w of (y', w') \<Rightarrow> (Inr y', w'))),
     ho_running = case_sum (ho_running a) (ho_running b),
     ho_endpoints = case_sum (ho_endpoints a) (ho_endpoints b),
     ho_supportsDynamicTargets = case_sum (ho_supportsDynamicTargets a) (ho_supportsDynamicTargets b),
     ho_addTarget = (\<lambda>t h w. case h of
         Inl x \<Rightarrow> (case ho_addTarget a t x w of (res, x', w') \<Rightarrow> (res, Inl x', w'))
       | Inr y \<Rightarrow> (case ho_addTarget b t y w of (res, y', w') \<Rightarrow> (res, Inr y', w'))),
     ho_removeTarget = (\<lambda>tid h w. case h of
         Inl x \<Rightarrow> (case ho_removeTarget a tid x w of (res, x', w') \<Rightarrow> (res, Inl x', w'))
       | Inr y \<Rightarrow> (case ho_removeTarget b tid y w of (res, y', w') \<Rightarrow> (res, Inr y', w')))\<rparr>"

lemma sum_idle [simp]:
  "idle_host (sum_ops a b) (Inl x) = idle_host a x" "idle_host (sum_ops a b) (Inr y) = idle_host b y"
  by (simp_all add: idle_host_def sum_ops_def)

lemma sum_start:
  "ho_start (sum_ops a b) ts (Inl x) w = (res, h', w') \<longleftrightarrow> (\<exists>x'. ho_start a ts x w = (res, x', w') \<and> h' = Inl x')"
  "ho_start (sum_ops a b) ts (Inr y) w = (res, h', w') \<longleftrightarrow> (\<exists>y'. ho_start b ts y w = (res, y', w') \<and> h' = Inr y')"
  by (auto simp: sum_ops_def split: prod.splits)

lemma sum_endpoints [simp]:
  "ho_endpoints (sum_ops a b) (Inl x) = ho_endpoints a x" "ho_endpoints (sum_ops a b) (Inr y) = ho_endpoints b y"
  by (simp_all add: sum_ops_def)

text \<open>A sum of hosts that obey the contract obeys it.\<close>

lemma sum_virtual_host:
  assumes a: "virtual_host a" and b: "virtual_host b"
  shows "virtual_host (sum_ops a b)"
proof (unfold_locales, goal_cases)
  case (1 h w h' w')
  then show ?case using virtual_host.stop_stops [OF a] virtual_host.stop_stops [OF b]
    by (auto simp: sum_ops_def split: sum.splits prod.splits)
next
  case (2 h w h' w')
  then show ?case using virtual_host.stop_clears [OF a] virtual_host.stop_clears [OF b]
    by (auto simp: sum_ops_def split: sum.splits prod.splits)
next
  case (3 ts h w h' w')
  then show ?case using virtual_host.start_runs [OF a] virtual_host.start_runs [OF b]
    by (auto simp: sum_ops_def split: sum.splits prod.splits)
next
  case (4 ts h w h' w')
  show ?case
  proof (cases h)
    case (Inl x)
    with 4 obtain x' where "ho_start a ts x w = (None, x', w')" "h' = Inl x'" "idle_host a x"
      by (auto simp: sum_start)
    then show ?thesis by (simp add: virtual_host.start_serves [OF a])
  next
    case (Inr y)
    with 4 obtain y' where "ho_start b ts y w = (None, y', w')" "h' = Inr y'" "idle_host b y"
      by (auto simp: sum_start)
    then show ?thesis by (simp add: virtual_host.start_serves [OF b])
  qed
next
  case (5 ts h w err h' w')
  then show ?case using virtual_host.start_fails [OF a] virtual_host.start_fails [OF b]
    by (auto simp: sum_ops_def split: sum.splits prod.splits)
next
  case (6 h t w res h' w')
  then show ?case using virtual_host.add_runs [OF a] virtual_host.add_runs [OF b]
    by (auto simp: sum_ops_def split: sum.splits prod.splits)
next
  case (7 h tid w res h' w')
  then show ?case using virtual_host.remove_runs [OF a] virtual_host.remove_runs [OF b]
    by (auto simp: sum_ops_def split: sum.splits prod.splits)
qed

section \<open>The hosts of the application\<close>

type_synonym 's builtin_host = "idn_host + 's lp_host"

definition builtin_ops :: "'o idn_lib \<Rightarrow> 'o os_ops \<Rightarrow> 's proto_lib \<Rightarrow> ('s builtin_host, 'o) host_ops" where
  "builtin_ops ilib os lib = sum_ops (idn_host_ops ilib) (lp_host_ops os lib)"

definition upcast :: "('h \<Rightarrow> 'k) \<Rightarrow> 'h registration \<Rightarrow> 'k registration" where
  "upcast f r = \<lparr>rg_info = rg_info r, rg_factory = map_option (\<lambda>g config. map_option f (g config)) (rg_factory r)\<rparr>"

definition builtinRegistry :: "bool \<Rightarrow> 's proto_lib \<Rightarrow> 's builtin_host registry" where
  "builtinRegistry idnFirst lib =
     (let regs = [upcast Inl idnRegistration, upcast Inr (liberaRegistration lib)]
      in registerAll (if idnFirst then regs else rev regs))"

lemma upcast_simps [simp]: "rg_info (upcast f r) = rg_info r"
  "rg_factory (upcast f r) = map_option (\<lambda>g config. map_option f (g config)) (rg_factory r)"
  by (simp_all add: upcast_def)

lemma builtin_infos:
  "rs_orderedInfos (builtinRegistry idnFirst lib) =
     (if idnFirst then [rg_info idnRegistration, liberaHostInfo lib] else [liberaHostInfo lib, rg_info idnRegistration])"
  "rs_registrationsById (builtinRegistry idnFirst lib) =
     [''idn'' \<mapsto> upcast Inl idnRegistration, ''libera'' \<mapsto> upcast Inr (liberaRegistration lib)]"
  by (auto simp: builtinRegistry_def registerAll_def registerVirtualControllerHost_def withDisplayName_def
      add_registration_def empty_registry_def idnRegistration_def liberaRegistration_def liberaHostInfo_def
      Let_def)

lemma builtin_created:
  assumes "createVirtualControllerHost hostId config (builtinRegistry idnFirst lib) = Inr h"
  shows "hostId = ''idn'' \<and> h = Inl (newIdnHost config) \<or> hostId = ''libera'' \<and> h = Inr (newLpHost lib config)"
  using assms by (auto simp: createVirtualControllerHost_def builtin_infos idnRegistration_def
      liberaRegistration_def split: if_splits)

lemma new_hosts_idle [simp]:
  "idle_host (idn_host_ops ilib) (newIdnHost config)" "idle_host (lp_host_ops os lib) (newLpHost lib config)"
  by (simp_all add: idle_host_def idn_host_ops_def lp_host_ops_def newIdnHost_def newLpHost_def lpEndpoints_def)

interpretation builtin: linked_hosts "builtin_ops ilib os lib" "builtinRegistry idnFirst lib"
  for ilib :: "'o idn_lib" and os and lib :: "'s proto_lib" and idnFirst
proof (rule linked_hosts.intro)
  show "virtual_host (builtin_ops ilib os lib)" unfolding builtin_ops_def
    by (rule sum_virtual_host [OF idn_host.virtual_host_axioms lp_host.virtual_host_axioms])
  show "linked_hosts_axioms (builtin_ops ilib os lib) (builtinRegistry idnFirst lib)"
    by (rule linked_hosts_axioms.intro, drule builtin_created)
      (auto simp: builtin_ops_def)
qed

section \<open>Properties\<close>

text \<open>In whatever order the registrars of the application run, it offers the IDN and the
  Libera host and no other, each found under its identifier, and IDN is the default.\<close>

theorem builtin_registry:
  "mset (map hi_id (availableVirtualControllerHosts (builtinRegistry idnFirst lib))) = mset [''idn'', ''libera''] \<and>
   defaultVirtualControllerHost (builtinRegistry idnFirst lib) = Some (rg_info idnRegistration) \<and>
   findVirtualControllerHost key (builtinRegistry idnFirst lib) =
     (if key = ''idn'' then Some (rg_info idnRegistration)
      else if key = ''libera'' then Some (liberaHostInfo lib) else None)"
proof (intro conjI)
  show "findVirtualControllerHost key (builtinRegistry idnFirst lib) =
     (if key = ''idn'' then Some (rg_info idnRegistration)
      else if key = ''libera'' then Some (liberaHostInfo lib) else None)"
    by (simp add: findVirtualControllerHost_def builtin_infos liberaRegistration_def)
qed (auto simp: availableVirtualControllerHosts_def defaultVirtualControllerHost_def builtin_infos
      idnRegistration_def liberaHostInfo_def Let_def)

text \<open>What serving its targets means for a host of each kind.\<close>

definition idn_serves :: "u32 \<Rightarrow> link_target list \<Rightarrow> idn_host \<Rightarrow> bool" where
  "idn_serves us ts i \<longleftrightarrow> ih_active i \<and> length ts \<le> 255 \<and> map is_target (ih_sessions i) = ts \<and>
     distinct (map is_serviceId (ih_sessions i)) \<and>
     (\<forall>s \<in> set (ih_sessions i). is_running s \<and> is_sliceDurationUs s = us)"

definition lp_serves ::
  "'o os_ops \<Rightarrow> 's proto_lib \<Rightarrow> host_config \<Rightarrow> link_target list \<Rightarrow> 's lp_host \<Rightarrow> bool" where
  "lp_serves os lib config ts h \<longleftrightarrow> lh_active h \<and> lp_reachable os lib h \<and>
     lh_options h = makeHostOptions lib config \<and>
     (ti_id \<circ> sv_info) ` set (lh_servers h) = (ti_id \<circ> lt_info) ` set ts"

lemma idn_started_serves:
  assumes "ho_start (idn_host_ops ilib) ts (newIdnHost config) w = (None, i, w')"
  shows "idn_serves (cfg_sliceDurationUs config) ts i"
proof -
  from assms obtain calls where "startIdnHost ilib ts (newIdnHost config) w = (None, calls, i, w')"
    by (auto simp: idn_host_ops_def split: prod.splits)
  note st = startIdnHost_started [OF this]
  have "map is_target (map (session_for us) (enumerate 1 ts)) = map snd (enumerate 1 ts)" for us
    unfolding map_map by (rule map_cong [OF refl]) (simp add: session_for_def)
  then have "map is_target (map (session_for us) (enumerate 1 ts)) = ts" for us by (simp only: map_snd_enumerate)
  with st distinct_service_ids [of ts] show ?thesis by (auto simp: idn_serves_def newIdnHost_def session_for_def)
qed

lemma lp_started_serves:
  assumes "ho_start (lp_host_ops os lib) ts (newLpHost lib config) w = (None, h, w')"
  shows "lp_serves os lib config ts h"
proof -
  from assms have st: "startLpHost os lib ts (newLpHost lib config) w = (None, h, w')" by (simp add: lp_host_ops_def)
  then have "lp_reachable os lib h" by (rule lp_reachable.start [OF lp_reachable.new])
  with startLpHost_result [OF st] show ?thesis by (simp add: lp_serves_def newLpHost_def)
qed

text \<open>C6: When the application's link has started, its targets are divided among its hosts, and
  each of these serves its share in the way of its protocol: an IDN host runs one session for
  each of at most 255 targets, with the slice duration of the link and service identifiers of
  their own; a Libera host is in a state reached by starting it, with the options of its group,
  and has a server for each of its targets and for nothing else.\<close>

theorem builtin_link_serves:
  assumes "le_ops env = builtin_ops ilib os lib" "le_registry env = builtinRegistry idnFirst lib"
    "freshStart env inp options sel rt = Some (True, rt')"
  shows "mset (concat (map ah_targets (rt_hosts rt'))) = mset (rt_targets rt') \<and>
    (\<forall>a \<in> set (rt_hosts rt'). ah_targets a \<noteq> [] \<and> (case ah_host a of
       Inl i \<Rightarrow> ah_id a = ''idn'' \<and> idn_serves (lo_sliceDurationUs options) (ah_targets a) i
     | Inr h \<Rightarrow> ah_id a = ''libera'' \<and> lp_serves os lib
         \<lparr>cfg_sliceDurationUs = lo_sliceDurationUs options, cfg_options = ah_options a\<rparr> (ah_targets a) h))"
proof -
  from builtin.freshStart_result [OF conjI [OF assms(1,2)] assms(3)]
  have "linked env options sel (rt_infos rt') rt'" by (simp add: start_result_def)
  then obtain gs where gs: "groups_ok env options (rt_targets rt') gs" "map ah_targets (rt_hosts rt') = map pg_targets gs"
    and st: "\<forall>a \<in> set (rt_hosts rt'). started_from env (lo_sliceDurationUs options) a"
    by (auto simp: linked_def)
  have "ah_targets a \<noteq> [] \<and> (case ah_host a of
       Inl i \<Rightarrow> ah_id a = ''idn'' \<and> idn_serves (lo_sliceDurationUs options) (ah_targets a) i
     | Inr h \<Rightarrow> ah_id a = ''libera'' \<and> lp_serves os lib
         \<lparr>cfg_sliceDurationUs = lo_sliceDurationUs options, cfg_options = ah_options a\<rparr> (ah_targets a) h)"
    if a: "a \<in> set (rt_hosts rt')" for a
  proof -
    have "ah_targets a \<in> set (map pg_targets gs)" using a unfolding gs(2) [symmetric] by simp
    then have ne: "ah_targets a \<noteq> []" using gs(1) by (auto simp: groups_ok_def)
    let ?c = "\<lparr>cfg_sliceDurationUs = lo_sliceDurationUs options, cfg_options = ah_options a\<rparr>"
    from st a obtain host w w' where c: "createVirtualControllerHost (ah_id a) ?c (builtinRegistry idnFirst lib) = Inr host"
      and s: "ho_start (builtin_ops ilib os lib) (ah_targets a) host w = (None, ah_host a, w')"
      unfolding started_from_def assms(1,2) by blast
    from builtin_created [OF c] show ?thesis
    proof (elim disjE conjE)
      assume "ah_id a = ''idn''" "host = Inl (newIdnHost ?c)"
      with s obtain i where "ho_start (idn_host_ops ilib) (ah_targets a) (newIdnHost ?c) w = (None, i, w')" "ah_host a = Inl i"
        by (auto simp: builtin_ops_def sum_start)
      with idn_started_serves [of ilib "ah_targets a" ?c w i w'] ne \<open>ah_id a = ''idn''\<close> show ?thesis by simp
    next
      assume "ah_id a = ''libera''" "host = Inr (newLpHost lib ?c)"
      with s obtain h where "ho_start (lp_host_ops os lib) (ah_targets a) (newLpHost lib ?c) w = (None, h, w')" "ah_host a = Inr h"
        by (auto simp: builtin_ops_def sum_start)
      with lp_started_serves [of os lib "ah_targets a" ?c w h w'] ne \<open>ah_id a = ''libera''\<close> show ?thesis by simp
    qed
  qed
  moreover have "mset (concat (map ah_targets (rt_hosts rt'))) = mset (rt_targets rt')"
    using gs by (simp add: groups_ok_def)
  ultimately show ?thesis by blast
qed

text \<open>The application with one USB controller.\<close>

definition open_idn :: "unit idn_lib" where
  "open_idn = \<lparr>in_startServer = (\<lambda>services w. (None, w)), in_stopServer = id\<rparr>"

definition builtin_env :: "(u32, unit builtin_host, unit) link_env" where
  "builtin_env = \<lparr>le_registry = builtinRegistry True sample_proto,
     le_ops = builtin_ops open_idn open_os sample_proto, le_co = echo_controller, le_logPath = ''log'',
     le_tracePath = None\<rparr>"

lemma builtin_env_simps [simp]:
  "le_ops builtin_env = builtin_ops open_idn open_os sample_proto" "le_registry builtin_env = builtinRegistry True sample_proto"
  by (simp_all add: builtin_env_def)

lemma builtin_group_starts:
  assumes "pg_info g = rg_info idnRegistration \<and> pg_options g = options \<and> pg_targets g = [t]"
  shows "\<exists>a w. startActiveHostGroup builtin_env g us () = (Inr a, w)"
  using assms by (simp add: startActiveHostGroup_def createVirtualControllerHost_def builtin_infos idnRegistration_def
      builtin_ops_def sum_ops_def idn_host_ops_def startIdnHost_def newIdnHost_def startSession_def open_idn_def Let_def)

lemma builtin_startable: "startable builtin_env (rg_info idnRegistration)"
proof -
  have "\<exists>a. startActiveHostGroup builtin_env g us () = (Inr a, ())"
    if "pg_info g = rg_info idnRegistration" "pg_targets g = [t]" for g t us
    using builtin_group_starts [of g "pg_options g" t us] that by simp
  then show ?thesis
    by (simp add: startable_def builtin_env_def idnRegistration_def defaultVirtualControllerHost_def
        availableVirtualControllerHosts_def builtin_infos Let_def)
qed

lemma builtin_started:
  obtains rt where "freshStart builtin_env sample_inputs sample_link_options {} (initialLink builtin_env ()) = Some (True, rt)"
    "rt_hosts rt \<noteq> []"
proof -
  obtain rt where rt: "freshStart builtin_env sample_inputs sample_link_options {} (initialLink builtin_env ()) = Some (True, rt)"
    "sample_running (hi_id (rg_info idnRegistration)) rt"
    by (rule sample_start_reachable [OF builtin_startable])
  from rt(2) have "rt_hosts rt \<noteq> []" unfolding sample_running_def by (elim conjE exE) simp
  with rt(1) show thesis by (rule that)
qed

theorem builtin_link_serves_witness:
  "\<exists>rt. freshStart builtin_env sample_inputs sample_link_options {} (initialLink builtin_env ()) = Some (True, rt) \<and>
     rt_hosts rt \<noteq> [] \<and> mset (concat (map ah_targets (rt_hosts rt))) = mset (rt_targets rt)"
proof -
  obtain rt where rt: "freshStart builtin_env sample_inputs sample_link_options {} (initialLink builtin_env ()) = Some (True, rt)"
    "rt_hosts rt \<noteq> []" by (rule builtin_started)
  with conjunct1 [OF builtin_link_serves [OF builtin_env_simps rt(1)]] show ?thesis
    by (intro exI [of _ rt] conjI)
qed

text \<open>When no host is chosen and no controller is routed, as when the application is started
  without options, a start that succeeds leads to exactly one host, an IDN host that serves all
  targets, and there are at most 255 of them.\<close>

theorem default_link_is_idn:
  assumes "le_ops env = builtin_ops ilib os lib" "le_registry env = builtinRegistry idnFirst lib"
    "lo_virtualControllerHostId options = []" "lo_virtualControllerRoutes options = []"
    "freshStart env inp options sel rt = Some (True, rt')"
  shows "\<exists>a i. rt_hosts rt' = [a] \<and> ah_id a = ''idn'' \<and> ah_host a = Inl i \<and> length (rt_targets rt') \<le> 255 \<and>
    mset (map is_target (ih_sessions i)) = mset (rt_targets rt')"
proof -
  have lk: "linked env options sel (rt_infos rt') rt'"
    using builtin.freshStart_result [OF conjI [OF assms(1,2)] assms(5)] by (simp add: start_result_def)
  then obtain gs where gs: "groups_ok env options (rt_targets rt') gs" "map ah_targets (rt_hosts rt') = map pg_targets gs"
      "map host_key (rt_hosts rt') = map group_key gs"
    and st: "\<forall>a \<in> set (rt_hosts rt'). started_from env (lo_sliceDurationUs options) a" and ne: "rt_targets rt' \<noteq> []"
    by (auto simp: linked_def)
  have def_idn: "defaultVirtualControllerHost (builtinRegistry idnFirst lib) = Some (rg_info idnRegistration)"
    by (simp add: defaultVirtualControllerHost_def availableVirtualControllerHosts_def builtin_infos idnRegistration_def
        liberaHostInfo_def Let_def)
  let ?key = "(''idn'', ''idn'', lo_virtualControllerHostOptions options)"
  have "target_key env options t = Some ?key" for t
    using assms(2-4) def_idn by (simp add: target_key_def resolveHost_def fallbackHost_def routesByControllerId_def
        instanceKeyFor_def optionsFor_def idnRegistration_def Let_def)
  with gs(1) have keys: "\<forall>g \<in> set gs. group_key g = ?key"
    unfolding groups_ok_def by (metis option.inject last_in_set)
  have "gs \<noteq> []" using gs(1) ne by (auto simp: groups_ok_def)
  moreover have "distinct (map group_key gs)" using gs(1) by (simp add: groups_ok_def)
  ultimately obtain g where g: "gs = [g]" using keys
    by (cases gs; cases "tl gs") auto
  with gs(2,3) keys obtain a where a: "rt_hosts rt' = [a]" "host_key a = ?key" "ah_targets a = pg_targets g" by auto
  have ts: "mset (ah_targets a) = mset (rt_targets rt')" using gs(1) g a by (simp add: groups_ok_def)
  let ?c = "\<lparr>cfg_sliceDurationUs = lo_sliceDurationUs options, cfg_options = ah_options a\<rparr>"
  from st a obtain host w w' where c: "createVirtualControllerHost ''idn'' ?c (builtinRegistry idnFirst lib) = Inr host"
    and s: "ho_start (builtin_ops ilib os lib) (ah_targets a) host w = (None, ah_host a, w')"
    unfolding started_from_def assms(1,2) by (auto simp: host_key_def)
  from builtin_created [OF c] s obtain i where
    "ho_start (idn_host_ops ilib) (ah_targets a) (newIdnHost ?c) w = (None, i, w')" "ah_host a = Inl i"
    by (auto simp: builtin_ops_def sum_start)
  with idn_started_serves [OF this(1)] a ts mset_eq_length [OF ts] show ?thesis
    by (simp add: idn_serves_def host_key_def del: mset_map)
qed

theorem default_link_is_idn_witness:
  "\<exists>rt a i. freshStart builtin_env sample_inputs sample_link_options {} (initialLink builtin_env ()) = Some (True, rt) \<and>
     rt_hosts rt = [a] \<and> ah_host a = Inl i \<and> length (ih_sessions i) = length (rt_targets rt)"
proof -
  obtain rt where rt: "freshStart builtin_env sample_inputs sample_link_options {} (initialLink builtin_env ()) = Some (True, rt)"
    by (rule builtin_started)
  from default_link_is_idn [OF builtin_env_simps sample_link_options_simps(1,2) rt]
  obtain a i where a: "rt_hosts rt = [a]" "ah_host a = Inl i" "mset (map is_target (ih_sessions i)) = mset (rt_targets rt)"
    by (elim exE conjE)
  with rt mset_eq_length [OF a(3)] show ?thesis by (intro exI [of _ rt] exI [of _ a] exI [of _ i]) simp
qed

end
