(* ===== verification/Gui_Thms.thy ===== *)
theory Gui_Thms
  imports Gui_Settings Builtin_Hosts
begin

text \<open>
  The properties of the main window: one task at a time, where it sends the controllers it
  starts, that its settings survive, that it comes to rest, and what closing it leaves.
\<close>

section \<open>One task at a time\<close>

lemma snapshot_frame: "rt_terminated (snd (snapshotLink env rt)) = rt_terminated rt"
  by (simp add: snapshotLink_def split: prod.splits)

text \<open>C7: Whatever is clicked, in whatever order frames, calls of tasks, the monitor and the
  targets take their turns, at most one of scan, start and stop is under way, the flags of the
  window tell which, and the link is in a state it reaches by calls made one after the other.\<close>

theorem gui_one_task:
  assumes "gui_reachable env sys"
  shows "length (gy_tasks sys) \<le> 1 \<and> list_all (\<lambda>t. flags (gy_gui sys) = flagsOf t) (gy_tasks sys) \<and>
    flags (gy_gui sys) \<in> {noFlags, (True, False, False), (False, True, False), (False, False, True)} \<and>
    link_reachable env (gy_link sys)"
proof -
  have f: "flagsOf t \<in> {noFlags, (True, False, False), (False, True, False), (False, False, True)}" for t
    by (cases t) simp_all
  have ok: "tasks_ok sys" by (rule reachable_tasks_ok [OF assms])
  have "flags (gy_gui sys) = noFlags \<or> (\<exists>t. flags (gy_gui sys) = flagsOf t)"
    using ok by (auto simp: tasks_ok_def split: list.splits)
  then have "flags (gy_gui sys) \<in> {noFlags, (True, False, False), (False, True, False), (False, False, True)}"
    using f by (elim disjE exE) simp_all
  moreover have "length (gy_tasks sys) \<le> 1 \<and> list_all (\<lambda>t. flags (gy_gui sys) = flagsOf t) (gy_tasks sys)"
    using ok by (auto simp: tasks_ok_def split: list.splits)
  ultimately show ?thesis using gui_link_reachable [OF assms] by blast
qed

definition no_files :: gui_files where
  "no_files = \<lparr>gf_disabledTypes = None, gf_defaultHost = None, gf_routes = None, gf_enabled = None\<rparr>"

theorem gui_one_task_witness:
  "\<exists>sys. gui_reachable builtin_env sys \<and> length (gy_tasks sys) = 1 \<and>
     flags (gy_gui sys) = (True, False, False) \<and> link_reachable builtin_env (gy_link sys)"
proof -
  let ?sys = "openSystem builtin_env () fmempty no_files"
  have r: "gui_reachable builtin_env ?sys" by (rule gui_reachable.opened)
  have l: "length (gy_tasks ?sys) = 1"
    by (simp add: openSystem_def openGui_def launchScan_def call_def List.map_filter_def Let_def)
  have f: "flags (gy_gui ?sys) = (True, False, False)"
    by (simp add: openSystem_def openGui_def launchScan_def call_def flags_def Let_def)
  from gui_one_task [OF r] r l f show ?thesis by blast
qed

section \<open>What is started\<close>

text \<open>C8: A start that a frame launches is for the controllers that are enabled and linkable in
  the snapshot the frame has read, and there is one; each of them is sent to the host that the
  window shows for it, and every host it is given is registered, so that the link never refuses
  the start for an unknown host: it finds its default host, and divides any targets of the
  selection into groups.\<close>

theorem gui_start_routes:
  assumes "registry_inv (le_registry env)" "availableVirtualControllerHosts (le_registry env) \<noteq> []"
    and "LaunchStart opts sel \<in> set (gs_calls (guiFrame (le_registry env) inp g))"
  shows "let g' = guiFrame (le_registry env) inp g in
    sel \<noteq> {} \<and> sel = linkableIds (gi_snapshot inp) \<inter> gs_enabledControllers g' \<and>
    (\<forall>c \<in> sel - {[]}. \<exists>info. resolveHost env opts (routesByControllerId (lo_virtualControllerRoutes opts) c) = Inr info \<and>
       hi_id info = configuredHostId g' c \<and> findVirtualControllerHost (hi_id info) (le_registry env) = Some info) \<and>
    fallbackHost env opts \<noteq> None \<and>
    (\<forall>ts. targetIdSet ts \<subseteq> sel \<longrightarrow> (\<exists>groups. groupTargets env opts ts [] = Inr groups))"
proof -
  let ?reg = "le_registry env" and ?g' = "guiFrame (le_registry env) inp g"
  have "StartTask opts sel \<in> set (launches ?g')"
    using assms(3) by (force simp: launches_def List.map_filter_def)
  from frame_start [OF assms(1,2) this] have ok: "hosts_ok ?reg ?g'" and sel: "sel \<noteq> {}" "finite sel"
      "sel = linkableIds (gi_snapshot inp) \<inter> gs_enabledControllers ?g'" and opts: "opts = startOptions ?g' sel"
    by blast+
  have "\<exists>info. resolveHost env opts (routesByControllerId (lo_virtualControllerRoutes opts) c) = Inr info \<and>
      hi_id info = configuredHostId ?g' c \<and> findVirtualControllerHost (hi_id info) ?reg = Some info"
    if c: "c \<in> sel" "c \<noteq> []" for c
  proof -
    from resolve_selected [OF assms(1) ok sel(2) c] obtain info where
      i: "resolveHost env opts (routesByControllerId (lo_virtualControllerRoutes opts) c) = Inr info"
        "hi_id info = configuredHostId ?g' c" unfolding opts by blast
    have "isAvailable ?reg (hi_id info)" unfolding i(2) by (rule configuredHostId_ok [OF ok])
    then obtain info' where f: "findVirtualControllerHost (hi_id info) ?reg = Some info'"
      using isAvailable_find [OF assms(1)] by blast
    with selected_route [OF sel(2) c(2), of ?g'] c(1) i have "info' = info"
      using isAvailable_nonempty [OF assms(1) \<open>isAvailable ?reg (hi_id info)\<close>]
      by (simp add: opts startOptions_def resolveHost_def Let_def)
    with f i show ?thesis by blast
  qed
  moreover have "\<exists>groups. groupTargets env opts ts [] = Inr groups" if "targetIdSet ts \<subseteq> sel" for ts
  proof (rule groupTargets_all, rule ballI)
    fix t assume "t \<in> set ts"
    with that have "ti_id (lt_info t) \<in> sel" by (auto simp: targetIdSet_def)
    from resolve_any [OF assms(1) ok sel(2) this] show
      "\<exists>info. resolveHost env opts (routesByControllerId (lo_virtualControllerRoutes opts) (ti_id (lt_info t))) = Inr info"
      unfolding opts .
  qed
  moreover have "fallbackHost env opts \<noteq> None" using fallback_ok [OF assms(1) ok, of sel] unfolding opts by blast
  ultimately show ?thesis using sel unfolding Let_def by blast
qed

text \<open>A window opened with one enabled controller, whose first scan finds it.\<close>

definition scanned_snapshot :: runtime_snapshot where
  "scanned_snapshot = \<lparr>sn_state = Stopped, sn_statusMessage = [], sn_lastError = [], sn_activeHostId = [],
     sn_activeHostDisplayName = [], sn_stopRequested = False, sn_hasDiscoveryResults = True,
     sn_discoveredControllers = 1, sn_startedEndpoints = 0,
     sn_discovered = [\<lparr>dc_label = ''Laser'', dc_id = ''1'', dc_type = ''USB'', dc_driverId = [],
       dc_maxPointRate = 0, dc_usage = [], dc_linkable = True, dc_note = []\<rparr>],
     sn_endpoints = [], sn_recentLogs = []\<rparr>"

definition scanned_input :: gui_input where
  "scanned_input = \<lparr>gi_scanReady = True, gi_startReady = False, gi_stopReady = False,
     gi_snapshot = scanned_snapshot, gi_managers = [sample_manager ''USB'' ''USB'' ''usb'' True], gi_action = None\<rparr>"

definition enabled_files :: gui_files where
  "enabled_files = no_files\<lparr>gf_enabled := Some (printLines [''1''])\<rparr>"

lemma enabled_loaded: "loadEnabledControllers (Some (printLines [''1''])) = {''1''}"
  using settingLines_print [of "[''1'']"] by (simp add: loadEnabledControllers_def storable_def trimmed_def isBlankChar_def)

lemma builtin_registry_inv: "registry_inv (builtinRegistry idnFirst lib)"
  unfolding builtinRegistry_def Let_def by (rule registry_inv_all)

lemma builtin_available [simp]: "availableVirtualControllerHosts (builtinRegistry True lib) = [rg_info idnRegistration, liberaHostInfo lib]"
  by (simp add: availableVirtualControllerHosts_def builtin_infos)

lemma scanned_frame:
  assumes "gi_scanReady inp" "gi_action inp = None" "linkableIds (gi_snapshot inp) = {''1''}"
  obtains h where "guiFrame (builtinRegistry True sample_proto) inp (openGui (builtinRegistry True sample_proto) fmempty enabled_files) =
      launchSelectedStart {''1''} h" "gs_calls h = []" "gs_controllerHostRoutes h = fmempty"
    "gs_linkOptions h = default_options\<lparr>lo_selectedControllerDrivers := fmempty, lo_virtualControllerHostId := ''idn''\<rparr>"
proof -
  let ?reg = "builtinRegistry True sample_proto"
  let ?g = "openGui ?reg fmempty enabled_files"
  let ?g1 = "collectFutures inp (?g\<lparr>gs_calls := []\<rparr>)"
  let ?g2 = "checkRoutes ?reg (checkDefaultHost ?reg ?g1)"
  have g: "gs_scanInFlight ?g" "\<not> gs_startInFlight ?g" "\<not> gs_stopInFlight ?g" "\<not> gs_rescanInFlight ?g"
    "gs_enabledControllers ?g = {''1''}" "gs_controllerHostRoutes ?g = fmempty"
    "gs_linkOptions ?g = default_options\<lparr>lo_selectedControllerDrivers := fmempty, lo_virtualControllerHostId := ''idn''\<rparr>"
    using enabled_loaded by (simp_all add: openGui_def launchScan_def call_def enabled_files_def no_files_def
        loadControllerHostRoutes_def settingLines_def startupHostId_def loadDefaultVirtualControllerHostId_def
        loadDisabledControllerTypes_def defaultVirtualControllerHost_def idnRegistration_def liberaHostInfo_def
        default_options_def Let_def)
  then have 1: "gs_enabledControllers ?g1 = {''1''}" "gs_linkSyncPending ?g1" "\<not> taskInFlight ?g1" "\<not> gs_rescanInFlight ?g1"
    "gs_controllerHostRoutes ?g1 = fmempty" "gs_calls ?g1 = []" "gs_linkOptions ?g1 = gs_linkOptions ?g"
    using assms(1) by (simp_all add: collectFutures_def taskInFlight_def Let_def)
  have av: "isAvailable ?reg ''idn''" by (simp add: isAvailable_def idnRegistration_def)
  have e2: "?g2 = ?g1" using 1(5,7) g(7) av by (simp add: checkRoutes_def checkDefaultHost_def Let_def)
  have e: "checkEnabled (gi_snapshot inp) ?g2 = ?g1" unfolding e2 using 1(1) assms(3) by (simp add: checkEnabled_def)
  have s: "selectedLinkableIds (gi_snapshot inp) ?g1 = {''1''}" using 1(1) assms(3) by (simp add: selectedLinkableIds_def)
  have "guiFrame ?reg inp ?g = schedule (gi_snapshot inp) ?g1" unfolding guiFrame_def Let_def e assms(2) by simp
  also have "\<dots> = launchSelectedStart {''1''} (?g1\<lparr>gs_linkSyncPending := False\<rparr>)"
    using 1 s by (simp add: schedule_def Let_def)
  finally show thesis by (rule that) (use 1 g in simp_all)
qed

lemma scanned_frame_starts:
  "\<exists>opts. LaunchStart opts {''1''} \<in> set (gs_calls (guiFrame (builtinRegistry True sample_proto) scanned_input
     (openGui (builtinRegistry True sample_proto) fmempty enabled_files)))"
proof -
  have "gi_scanReady scanned_input" "gi_action scanned_input = None" "linkableIds (gi_snapshot scanned_input) = {''1''}"
    by (simp_all add: scanned_input_def linkableIds_def scanned_snapshot_def)
  then obtain h where "guiFrame (builtinRegistry True sample_proto) scanned_input
      (openGui (builtinRegistry True sample_proto) fmempty enabled_files) = launchSelectedStart {''1''} h" "gs_calls h = []"
    by (rule scanned_frame)
  then show ?thesis by (simp add: launchSelectedStart_def call_def)
qed

theorem gui_start_routes_witness:
  "\<exists>opts info. fallbackHost builtin_env opts \<noteq> None \<and>
     resolveHost builtin_env opts (routesByControllerId (lo_virtualControllerRoutes opts) ''1'') = Inr info"
proof -
  obtain opts where l: "LaunchStart opts {''1''} \<in> set (gs_calls (guiFrame (le_registry builtin_env) scanned_input
      (openGui (builtinRegistry True sample_proto) fmempty enabled_files)))" using scanned_frame_starts by auto
  have "registry_inv (le_registry builtin_env)" "availableVirtualControllerHosts (le_registry builtin_env) \<noteq> []"
    by (simp_all add: builtin_registry_inv)
  note r = gui_start_routes [OF this l, unfolded Let_def]
  from r have f: "fallbackHost builtin_env opts \<noteq> None" by (elim conjE)
  from bspec [OF conjunct1 [OF conjunct2 [OF conjunct2 [OF r]]], of "''1''"] obtain info where
    "resolveHost builtin_env opts (routesByControllerId (lo_virtualControllerRoutes opts) ''1'') = Inr info"
    by auto
  with f show ?thesis by blast
qed

section \<open>Settings\<close>

text \<open>C16: After any frames, a window opened on the files as they are then has the same enabled
  controllers, the same routes, the same disabled controller types and, once it has looked for
  it, the same default host, provided that identifiers have no line breaks, no blanks at their
  ends, controllers' no tabs, and do not look like comments.\<close>

theorem settings_survive_restart:
  assumes "storable_registry reg" "\<forall>inp \<in> set inps. storable_input inp"
  shows "let g = runFrames reg drivers files inps; g' = openGui reg drivers' (gs_files g) in
    gs_enabledControllers g' = gs_enabledControllers g \<and>
    gs_controllerHostRoutes g' = gs_controllerHostRoutes g \<and>
    gs_disabledControllerTypes g' = gs_disabledControllerTypes g \<and>
    checkedHost reg (lo_virtualControllerHostId (gs_linkOptions g')) =
      checkedHost reg (lo_virtualControllerHostId (gs_linkOptions g))"
proof -
  let ?g = "runFrames reg drivers files inps"
  have "all_saved reg ?g" unfolding runFrames_def
    by (rule frames_saved [OF open_saved [OF assms(1)] assms])
  then show ?thesis
    by (simp add: all_saved_def enabled_saved_def routes_saved_def types_saved_def host_saved_def loadedTypes_def
        openGui_def launchScan_def call_def Let_def)
qed

definition power_input :: gui_input where
  "power_input = scanned_input\<lparr>gi_action := Some (PowerClicked ''1'')\<rparr>"

lemma power_enables: "gs_enabledControllers (runFrames (builtinRegistry True sample_proto) fmempty no_files [power_input]) = {''1''}"
proof -
  let ?reg = "builtinRegistry True sample_proto"
  have o: "gs_enabledControllers (openGui ?reg fmempty no_files) = {}"
    by (simp add: openGui_def launchScan_def call_def no_files_def loadEnabledControllers_def settingLines_def Let_def)
  have l: "linkableIds scanned_snapshot = {''1''}" by (simp add: linkableIds_def scanned_snapshot_def)
  have i: "gi_snapshot power_input = scanned_snapshot" "gi_action power_input = Some (PowerClicked ''1'')"
    by (simp_all add: power_input_def scanned_input_def)
  have c: "gs_enabledControllers (checkEnabled scanned_snapshot (checkRoutes ?reg (checkDefaultHost ?reg
      (collectFutures power_input ((openGui ?reg fmempty no_files)\<lparr>gs_calls := []\<rparr>))))) = {}"
    by (simp add: checkEnabled_def checkRoutes_def checkDefaultHost_def collectFutures_def saveRoutes_def saveEnabled_def o Let_def)
  show ?thesis
    by (simp add: runFrames_def guiFrame_def i clickPower_def l c Let_def saveEnabled_def)
qed

theorem settings_survive_restart_witness:
  "\<exists>files. gs_enabledControllers (openGui (builtinRegistry True sample_proto) fmempty files) = {''1''}"
proof -
  let ?reg = "builtinRegistry True sample_proto"
  have "storable_input power_input"
    by (simp add: storable_input_def power_input_def scanned_input_def scanned_snapshot_def storable_def trimmed_def isBlankChar_def set_managerTypes)
  moreover have "storable_registry ?reg"
    by (simp add: storable_registry_def builtin_registry_inv idnRegistration_def liberaHostInfo_def trimmed_def isBlankChar_def)
  ultimately show ?thesis
    using settings_survive_restart [of ?reg "[power_input]" fmempty no_files fmempty] power_enables
    by (simp add: Let_def) blast
qed

end
