(* ===== verification/Gui_Live.thy ===== *)
theory Gui_Live
  imports Gui_Thms
begin

text \<open>
  The window left alone: within four rounds of finishing tasks and drawing a frame it comes to
  rest; and what closing it leaves of the link and of the hosts it started, which are watched for
  that. Discovery is given passes in which it ends.
\<close>

section \<open>Rounds\<close>

definition discoveryEnds :: "'c link_inputs \<Rightarrow> bool" where
  "discoveryEnds inp \<longleftrightarrow> (\<forall>timeoutMs. discoverControllers timeoutMs (li_started inp) (li_polls inp) \<noteq> None)"

definition quietInput :: "('c, 'h, 'w) link_env \<Rightarrow> ('c, 'h, 'w) gui_system \<Rightarrow> gui_input" where
  "quietInput env sys = \<lparr>gi_scanReady = True, gi_startReady = True, gi_stopReady = True,
     gi_snapshot = fst (snapshotLink env (gy_link sys)), gi_managers = [], gi_action = None\<rparr>"

text \<open>The tasks under way end, and a frame is drawn in which nothing is clicked; when the process
  has ended, nothing happens any more.\<close>

definition quietRound ::
  "('c, 'h, 'w) link_env \<Rightarrow> 'c link_inputs \<Rightarrow> ('c, 'h, 'w) gui_system \<Rightarrow> ('c, 'h, 'w) gui_system option" where
  "quietRound env inp sys =
     (if rt_terminated (gy_link sys) then Some sys
      else case finishTasks env inp (gy_tasks sys) (gy_link sys) of
        None \<Rightarrow> None
      | Some rt \<Rightarrow>
          (let sys' = sys\<lparr>gy_link := rt, gy_tasks := []\<rparr>
           in Some (if rt_terminated rt then sys' else frameStep env (quietInput env sys') sys')))"

fun quietRounds ::
  "('c, 'h, 'w) link_env \<Rightarrow> 'c link_inputs list \<Rightarrow> ('c, 'h, 'w) gui_system \<Rightarrow> ('c, 'h, 'w) gui_system option" where
  "quietRounds env [] sys = Some sys"
| "quietRounds env (inp # inps) sys =
     (case quietRound env inp sys of None \<Rightarrow> None | Some sys' \<Rightarrow> quietRounds env inps sys')"

section \<open>Calls end\<close>

lemma discovery_returns: "discoveryEnds inp \<Longrightarrow> (runDiscovery inp options rt = None) = False"
  by (simp add: runDiscovery_def discoveryEnds_def split: option.splits)

lemma scan_returns: "discoveryEnds inp \<Longrightarrow> (scanLink env inp options rt = None) = False"
  by (auto simp: scanLink_def discovery_returns Let_def split: if_splits option.splits)

lemma fresh_returns:
  assumes "discoveryEnds inp"
  shows "(freshStart env inp options sel rt = None) = False"
proof -
  have "(startDiscovered env inp options sel r = None) = False" for r
    by (simp add: startDiscovered_def discovery_returns [OF assms] split: option.splits if_splits)
  then show ?thesis by (auto simp only: freshStart_def Let_def option.distinct split: if_splits)
qed

lemma start_returns:
  assumes "discoveryEnds inp"
  shows "(startLink env inp options sel rt = None) = False"
proof -
  have "(updateRunning env inp options sel r = None) = False" for r
    unfolding updateRunning_def by (auto simp only: Let_def fresh_returns [OF assms] option.distinct split: if_splits prod.splits)
  then show ?thesis by (auto simp only: startLink_def fresh_returns [OF assms] split: if_splits)
qed

lemma task_returns:
  assumes "discoveryEnds inp"
  shows "\<exists>rt'. link_step env (taskEvent inp t) rt = Some rt'"
proof (cases t)
  case (ScanTask options)
  with scan_returns [OF assms, of env options rt] show ?thesis by auto
next
  case (StartTask options sel)
  with start_returns [OF assms, of env options sel rt] show ?thesis by auto
qed simp

lemma tasks_return: "discoveryEnds inp \<Longrightarrow> \<exists>rt'. finishTasks env inp ts rt = Some rt'"
proof (induction ts arbitrary: rt)
  case (Cons t ts)
  obtain rt1 where "link_step env (taskEvent inp t) rt = Some rt1" using task_returns [OF Cons.prems] by blast
  with Cons show ?case by simp
qed simp

section \<open>A quiet frame\<close>

text \<open>How far the window is from rest.\<close>

definition atRank :: "nat \<Rightarrow> ('c, 'h, 'w) gui_system \<Rightarrow> bool" where
  "atRank n sys \<longleftrightarrow>
     (let g = gy_gui sys; ts = gy_tasks sys; p = gs_linkSyncPending g; r = gs_rescanInFlight g in
      (ts = [] \<and> flags g = noFlags \<and> \<not> r \<and> (p \<longrightarrow> 2 \<le> n)) \<or>
      (1 \<le> n \<and> \<not> p \<and> flags g = (False, True, False) \<and> (\<exists>options sel. ts = [StartTask options sel])) \<or>
      (1 \<le> n \<and> \<not> p \<and> \<not> r \<and> flags g = (False, False, True) \<and> ts = [StopTask]) \<or>
      (3 \<le> n \<and> r \<and> flags g = (False, False, True) \<and> ts = [StopTask]))"

lemma checks_pending [simp]:
  "gs_linkSyncPending (checkDefaultHost reg g) = gs_linkSyncPending g"
  "gs_rescanInFlight (checkDefaultHost reg g) = gs_rescanInFlight g"
  "gs_linkSyncPending (checkRoutes reg g) = gs_linkSyncPending g"
  "gs_rescanInFlight (checkRoutes reg g) = gs_rescanInFlight g"
  "gs_linkSyncPending (checkEnabled sn g) = gs_linkSyncPending g"
  "gs_rescanInFlight (checkEnabled sn g) = gs_rescanInFlight g"
  by (simp_all add: checkDefaultHost_def checkRoutes_def saveRoutes_def checkEnabled_def saveEnabled_def Let_def)

text \<open>What the end of a frame does when no task is under way.\<close>

definition scheduled :: "bool \<Rightarrow> bool \<Rightarrow> bool \<Rightarrow> gui_state \<Rightarrow> bool" where
  "scheduled r p running g' \<longleftrightarrow>
     (let p' = gs_linkSyncPending g'; r' = gs_rescanInFlight g'; ts = launches g' in
      if r \<and> running then flags g' = (False, False, True) \<and> ts = [StopTask] \<and> r'
      else
        (flags g' = (False, True, False) \<and> (\<exists>options sel. ts = [StartTask options sel]) \<and> \<not> p' \<and> (r \<or> p)) \<or>
        (flags g' = (False, False, True) \<and> ts = [StopTask] \<and> \<not> p' \<and> \<not> r' \<and> \<not> r \<and> p) \<or>
        (flags g' = noFlags \<and> ts = [] \<and> \<not> r' \<and> (p' \<longrightarrow> r)))"

lemma launched_start:
  assumes "sel \<noteq> {}" "flags g = noFlags" "launches g = []"
  shows "flags (launchSelectedStart sel g) = (False, True, False)"
    "\<exists>options. launches (launchSelectedStart sel g) = [StartTask options sel]"
    "gs_linkSyncPending (launchSelectedStart sel g) = gs_linkSyncPending g"
  using assms by (simp_all add: launchSelectedStart_def launches_def call_def flags_def List.map_filter_def)

lemma launched_stop:
  assumes "flags g = noFlags" "launches g = []"
  shows "flags (launchStop g) = (False, False, True)" "launches (launchStop g) = [StopTask]"
    "gs_linkSyncPending (launchStop g) = gs_linkSyncPending g" "gs_rescanInFlight (launchStop g) = gs_rescanInFlight g"
  using assms by (simp_all add: launchStop_def launches_def call_def flags_def List.map_filter_def)

lemma schedule_scheduled:
  assumes "flags g = noFlags" "launches g = []"
  shows "scheduled (gs_rescanInFlight g) (gs_linkSyncPending g) (linkRunning sn) (schedule sn g)"
proof -
  let ?sel = "selectedLinkableIds sn g" and ?g = "g\<lparr>gs_linkSyncPending := False\<rparr>"
  have g: "flags ?g = noFlags" "launches ?g = []" using assms by simp_all
  note start = launched_start [OF _ g] and stop = launched_stop [OF g] launched_stop [OF assms]
  show ?thesis
    using assms start [of ?sel] stop
    by (auto simp: schedule_def scheduled_def taskInFlight_flags Let_def)
qed

lemma quiet_frame:
  assumes "gy_tasks sys = []" "flags (gy_gui sys) = noFlags \<or> (\<exists>t. flags (gy_gui sys) = flagsOf t)"
  shows "scheduled (gs_rescanInFlight (gy_gui sys) \<and> \<not> gs_startInFlight (gy_gui sys))
      (gs_linkSyncPending (gy_gui sys) \<or> gs_scanInFlight (gy_gui sys))
      (rt_state (gy_link sys) \<in> {Running, StopRequested}) (gy_gui (frameStep env (quietInput env sys) sys))"
    and "gy_tasks (frameStep env (quietInput env sys) sys) = launches (gy_gui (frameStep env (quietInput env sys) sys))"
proof -
  let ?inp = "quietInput env sys" and ?reg = "le_registry env"
  let ?g1 = "collectFutures ?inp ((gy_gui sys)\<lparr>gs_calls := []\<rparr>)"
  let ?g2 = "checkEnabled (gi_snapshot ?inp) (checkRoutes ?reg (checkDefaultHost ?reg ?g1))"
  have ready: "gi_scanReady ?inp" "gi_startReady ?inp" "gi_stopReady ?inp" "gi_action ?inp = None"
    by (simp_all add: quietInput_def)
  have g: "gy_gui (frameStep env ?inp sys) = schedule (gi_snapshot ?inp) ?g2"
    by (simp add: frameStep_def guiFrame_def ready Let_def)
  have st: "sn_state (gi_snapshot ?inp) = rt_state (gy_link sys)"
    by (simp add: quietInput_def snapshotLink_def split: prod.splits)
  have "flags ?g1 = noFlags" unfolding flags_collect by (simp add: ready)
  then have f: "flags ?g2 = noFlags" by simp
  have "launches ((gy_gui sys)\<lparr>gs_calls := []\<rparr>) = []" by (simp add: launches_def List.map_filter_def)
  then have l: "launches ?g2 = []" by simp
  have r: "gs_rescanInFlight ?g2 = (gs_rescanInFlight (gy_gui sys) \<and> \<not> gs_startInFlight (gy_gui sys))"
    "gs_linkSyncPending ?g2 = (gs_linkSyncPending (gy_gui sys) \<or> gs_scanInFlight (gy_gui sys))"
    unfolding checks_pending by (simp_all add: collectFutures_def ready Let_def)
  from schedule_scheduled [OF f l, of "gi_snapshot ?inp"] show "scheduled (gs_rescanInFlight (gy_gui sys) \<and> \<not> gs_startInFlight (gy_gui sys))
      (gs_linkSyncPending (gy_gui sys) \<or> gs_scanInFlight (gy_gui sys))
      (rt_state (gy_link sys) \<in> {Running, StopRequested}) (gy_gui (frameStep env ?inp sys))"
    unfolding g r st by simp
  show "gy_tasks (frameStep env ?inp sys) = launches (gy_gui (frameStep env ?inp sys))"
    using assms(1) by (simp add: frameStep_def launches_def Let_def)
qed


lemma scheduled_rank:
  assumes "scheduled r p running (gy_gui sys)" "gy_tasks sys = launches (gy_gui sys)"
  shows "atRank (if r \<and> running then 3 else if r then 2 else if p then 1 else 0) sys"
  using assms unfolding scheduled_def atRank_def Let_def by (auto split: if_splits)

text \<open>A round brings the window nearer to rest, or the process has ended.\<close>

lemma stop_task_stops:
  "finishTasks env inp [StopTask] rt = Some rt' \<Longrightarrow> rt_state rt' = Stopped"
  by (auto simp: stopLink_def Let_def)

lemma round_from:
  assumes "quietRound env inp sys = Some sys'" "\<not> rt_terminated (gy_link sys')"
    "flags (gy_gui sys) = noFlags \<or> (\<exists>t. flags (gy_gui sys) = flagsOf t)"
  shows "\<exists>running. (gy_tasks sys = [StopTask] \<longrightarrow> \<not> running) \<and>
    scheduled (gs_rescanInFlight (gy_gui sys) \<and> \<not> gs_startInFlight (gy_gui sys))
      (gs_linkSyncPending (gy_gui sys) \<or> gs_scanInFlight (gy_gui sys)) running (gy_gui sys') \<and>
    gy_tasks sys' = launches (gy_gui sys')"
proof -
  obtain rt where rt: "finishTasks env inp (gy_tasks sys) (gy_link sys) = Some rt" "\<not> rt_terminated (gy_link sys)"
    using assms(1,2) by (auto simp: quietRound_def split: if_splits option.splits)
  let ?s = "sys\<lparr>gy_link := rt, gy_tasks := []\<rparr>"
  have "\<not> rt_terminated rt" using assms(1,2) rt by (auto simp: quietRound_def Let_def split: if_splits)
  then have s: "sys' = frameStep env (quietInput env ?s) ?s" using assms(1) rt by (simp add: quietRound_def Let_def)
  have "rt_state rt \<notin> {Running, StopRequested}" if "gy_tasks sys = [StopTask]"
    using stop_task_stops [of env inp "gy_link sys" rt] rt that by simp
  then show ?thesis
    using quiet_frame [of ?s env] assms(3) unfolding s by (intro exI [of _ "rt_state rt \<in> {Running, StopRequested}"]) auto
qed

lemma atRank_flags: "atRank n sys \<Longrightarrow> flags (gy_gui sys) = noFlags \<or> (\<exists>t. flags (gy_gui sys) = flagsOf t)"
  unfolding atRank_def Let_def by (metis flagsOf.simps(2,3))

lemma atRank_mono: "atRank m sys \<Longrightarrow> m \<le> n \<Longrightarrow> atRank n sys"
  unfolding atRank_def Let_def by auto

lemma atRank_step:
  assumes "quietRound env inp sys = Some sys'" "\<not> rt_terminated (gy_link sys')" "atRank n sys"
  shows "atRank (n - 1) sys'"
proof -
  let ?g = "gy_gui sys"
  let ?r = "gs_rescanInFlight ?g \<and> \<not> gs_startInFlight ?g" and ?p = "gs_linkSyncPending ?g \<or> gs_scanInFlight ?g"
  obtain running where r: "gy_tasks sys = [StopTask] \<longrightarrow> \<not> running" "scheduled ?r ?p running (gy_gui sys')"
    "gy_tasks sys' = launches (gy_gui sys')" using round_from [OF assms(1,2) atRank_flags [OF assms(3)]] by blast
  have "(if ?r \<and> running then 3 else if ?r then 2 else if ?p then 1 else 0) \<le> n - 1"
    using assms(3) r(1) unfolding atRank_def Let_def by (auto simp: flags_def)
  then show ?thesis by (rule atRank_mono [OF scheduled_rank [OF r(2,3)]])
qed

lemma rounds_from:
  assumes "discoveryEnds inp"
  shows "\<exists>sys'. quietRound env inp sys = Some sys'"
  using tasks_return [OF assms, of env "gy_tasks sys" "gy_link sys"] by (auto simp: quietRound_def Let_def)

lemma rounds_return:
  assumes "\<forall>inp \<in> set inps. discoveryEnds inp"
  shows "\<exists>sys'. quietRounds env inps sys = Some sys'"
  using assms
proof (induction inps arbitrary: sys)
  case (Cons inp inps)
  obtain sys1 where "quietRound env inp sys = Some sys1" using rounds_from Cons.prems by (metis list.set_intros(1))
  with Cons show ?case by simp
qed simp

lemma terminated_round:
  "quietRound env inp sys = Some sys' \<Longrightarrow> rt_terminated (gy_link sys) \<Longrightarrow> rt_terminated (gy_link sys')"
  by (simp add: quietRound_def)

lemma terminated_rounds:
  "quietRounds env inps sys = Some sys' \<Longrightarrow> rt_terminated (gy_link sys) \<Longrightarrow> rt_terminated (gy_link sys')"
  by (induction inps arbitrary: sys) (auto simp: quietRound_def split: option.splits)

lemma rounds_rank:
  assumes "quietRounds env inps sys = Some sys'" "\<not> rt_terminated (gy_link sys')" "atRank n sys"
  shows "atRank (n - length inps) sys'"
  using assms
proof (induction inps arbitrary: sys n)
  case (Cons inp inps)
  from Cons.prems(1) obtain sys1 where 1: "quietRound env inp sys = Some sys1" "quietRounds env inps sys1 = Some sys'"
    by (auto split: option.splits)
  have "\<not> rt_terminated (gy_link sys1)" using terminated_rounds [OF 1(2)] Cons.prems(2) by blast
  from Cons.IH [OF 1(2) Cons.prems(2) atRank_step [OF 1(1) this Cons.prems(3)]] show ?case by simp
qed simp

section \<open>Watching the hosts of the window\<close>

text \<open>The states of the window that follow a given one.\<close>

inductive gui_run :: "('c, 'h, 'w) link_env \<Rightarrow> ('c, 'h, 'w) gui_system \<Rightarrow> ('c, 'h, 'w) gui_system \<Rightarrow> bool" for env sys0 where
  here: "gui_run env sys0 sys0"
| frame: "gui_run env sys0 sys \<Longrightarrow> \<not> rt_terminated (gy_link sys) \<Longrightarrow> input_fits env inp sys \<Longrightarrow>
    gui_run env sys0 (frameStep env inp sys)"
| task: "gui_run env sys0 sys \<Longrightarrow> \<not> rt_terminated (gy_link sys) \<Longrightarrow> gy_tasks sys = ts @ t # us \<Longrightarrow>
    link_step env (taskEvent inp t) (gy_link sys) = Some rt \<Longrightarrow>
    gui_run env sys0 (sys\<lparr>gy_link := rt, gy_tasks := ts @ us\<rparr>)"
| activity: "gui_run env sys0 sys \<Longrightarrow> \<not> rt_terminated (gy_link sys) \<Longrightarrow> background ev \<Longrightarrow>
    link_step env ev (gy_link sys) = Some rt \<Longrightarrow> gui_run env sys0 (sys\<lparr>gy_link := rt\<rparr>)"

lemma gui_run_reachable: "gui_run env (openSystem env w drivers files) sys \<Longrightarrow> gui_reachable env sys"
  by (induction rule: gui_run.induct) (blast intro: gui_reachable.intros)+

lemma reachable_gui_run: "gui_reachable env sys \<Longrightarrow> \<exists>w drivers files. gui_run env (openSystem env w drivers files) sys"
  by (induction rule: gui_reachable.induct) (blast intro: gui_run.intros)+

text \<open>The link of the window goes through steps of the link.\<close>

lemma directCall_run:
  assumes "link_run env rt0 rt" "\<not> rt_terminated rt"
  shows "link_run env rt0 (directCall c rt) \<and> \<not> rt_terminated (directCall c rt)"
proof (cases c)
  case CallRequestStop
  have "link_run env rt0 (requestStop rt)" by (rule link_run.step [OF assms, of RequestStop]) simp
  with CallRequestStop assms show ?thesis by (simp add: requestStop_def Let_def)
next
  case CallInvalidate
  have "link_run env rt0 (invalidateDiscoveryCache rt)" by (rule link_run.step [OF assms, of Invalidate]) simp
  with CallInvalidate assms show ?thesis by (simp add: invalidateDiscoveryCache_def)
qed (use assms in simp_all)

lemma directCalls_run:
  "link_run env rt0 rt \<Longrightarrow> \<not> rt_terminated rt \<Longrightarrow> link_run env rt0 (fold directCall cs rt)"
  by (induction cs arbitrary: rt) (simp_all add: directCall_run)

lemma gui_link_run: "gui_run env sys0 sys \<Longrightarrow> link_run env (gy_link sys0) (gy_link sys)"
proof (induction rule: gui_run.induct)
  case here
  show ?case by (rule link_run.here)
next
  case (frame sys inp)
  let ?rt = "snd (snapshotLink env (gy_link sys))"
  have "link_run env (gy_link sys0) ?rt" by (rule link_run.step [OF frame.IH frame.hyps(2), of Snapshot]) simp
  moreover have "\<not> rt_terminated ?rt" using frame by (simp add: snapshotLink_def split: prod.splits)
  ultimately show ?case by (simp add: frameStep_def Let_def directCalls_run)
next
  case (task sys ts t us inp rt)
  have "link_run env (gy_link sys0) rt" by (rule link_run.step [OF task.IH task.hyps(2,4)])
  then show ?case by simp
next
  case (activity sys ev rt)
  have "link_run env (gy_link sys0) rt" by (rule link_run.step [OF activity.IH activity.hyps(2,4)])
  then show ?case by simp
qed

text \<open>Without the numbers and the ledger, the watched window is the window.\<close>

definition unwatchSystem :: "('c, 'h numbered, 'w ledger) gui_system \<Rightarrow> ('c, 'h, 'w) gui_system" where
  "unwatchSystem sys = \<lparr>gy_gui = gy_gui sys, gy_link = unwatch (gy_link sys), gy_tasks = gy_tasks sys\<rparr>"

lemma finishTasks_unwatch:
  "finishTasks env inp ts (unwatch rt) = map_option unwatch (finishTasks (watchedEnv env) inp ts rt)"
  by (induction ts arbitrary: rt) (simp_all add: link_step_unwatch split: option.split)

lemma closeGui_unwatch:
  "closeGui env inp (unwatchSystem sys) = map_option unwatch (closeGui (watchedEnv env) inp sys)"
  using finishTasks_unwatch [of env inp "gy_tasks sys" "requestStop (gy_link sys)"]
  by (simp add: closeGui_def unwatchSystem_def option.map_comp comp_def stopLink_unwatch)

text \<open>The window reads which hosts there are, and no more of the registry.\<close>

lemma isAvailable_watched: "isAvailable (watchedRegistry reg) = isAvailable reg"
  by (rule ext) (simp add: isAvailable_def)

lemma click_watched: "click (watchedRegistry reg) inp action = click reg inp action"
  by (rule ext) (cases action; simp only: click.simps clickRoute_def chooseDefaultHost_def isAvailable_watched)

lemma guiFrame_watched [simp]: "guiFrame (watchedRegistry reg) inp g = guiFrame reg inp g"
  unfolding guiFrame_def checkDefaultHost_def checkRoutes_def click_watched isAvailable_watched watched_registry_simps ..

lemma startupHostId_watched [simp]: "startupHostId (watchedRegistry reg) files = startupHostId reg files"
  unfolding startupHostId_def watched_registry_simps ..

lemma openGui_watched [simp]: "openGui (watchedRegistry reg) drivers files = openGui reg drivers files"
  unfolding openGui_def startupHostId_watched ..

lemma unwatch_directCalls: "unwatch (fold directCall cs rt) = fold directCall cs (unwatch rt)"
proof (induction cs arbitrary: rt)
  case (Cons c cs)
  then show ?case by (cases c) simp_all
qed simp

lemma snapshot_unwatch:
  "fst (snapshotLink env (unwatch rt)) = fst (snapshotLink (watchedEnv env) rt)"
  "snd (snapshotLink env (unwatch rt)) = unwatch (snd (snapshotLink (watchedEnv env) rt))"
  by (simp_all add: snapshotLink_unwatch)

lemma frameStep_unwatch: "frameStep env inp (unwatchSystem sys) = unwatchSystem (frameStep (watchedEnv env) inp sys)"
  by (simp add: frameStep_def unwatchSystem_def snapshot_unwatch unwatch_directCalls Let_def)

lemma input_fits_unwatch: "input_fits env inp (unwatchSystem sys) = input_fits (watchedEnv env) inp sys"
  by (simp add: input_fits_def unwatchSystem_def snapshot_unwatch)

lemma gui_run_unwatch: "gui_run (watchedEnv env) sys0 sys \<Longrightarrow> gui_run env (unwatchSystem sys0) (unwatchSystem sys)"
proof (induction rule: gui_run.induct)
  case here
  show ?case by (rule gui_run.here)
next
  case (frame sys inp)
  have "\<not> rt_terminated (gy_link (unwatchSystem sys))" using frame.hyps(2) by (simp add: unwatchSystem_def)
  from gui_run.frame [OF frame.IH this] frame.hyps(3) show ?case by (simp add: frameStep_unwatch input_fits_unwatch)
next
  case (task sys ts t us inp rt)
  have "\<not> rt_terminated (gy_link (unwatchSystem sys))" "gy_tasks (unwatchSystem sys) = ts @ t # us"
    "link_step env (taskEvent inp t) (gy_link (unwatchSystem sys)) = Some (unwatch rt)"
    using task.hyps(2-4) by (simp_all add: unwatchSystem_def link_step_unwatch)
  from gui_run.task [OF task.IH this] show ?case by (simp add: unwatchSystem_def)
next
  case (activity sys ev rt)
  have "\<not> rt_terminated (gy_link (unwatchSystem sys))"
    "link_step env ev (gy_link (unwatchSystem sys)) = Some (unwatch rt)"
    using activity.hyps(2,4) by (simp_all add: unwatchSystem_def link_step_unwatch)
  from gui_run.activity [OF activity.IH this(1) activity.hyps(3) this(2)] show ?case by (simp add: unwatchSystem_def)
qed

lemma openSystem_unwatch: "unwatchSystem (openSystem (watchedEnv env) (noHosts w) drivers files) = openSystem env w drivers files"
  by (simp add: openSystem_def unwatchSystem_def Let_def)

section \<open>Properties\<close>

text \<open>C13: Left alone, the window comes to rest: when in each of four rounds the task under way
  ends, whatever it comes to, and then a frame is drawn in which nothing is clicked, all the
  calls return, and in the end no task is under way and no change is pending, unless a start
  has ended the process.\<close>

theorem gui_settles:
  assumes "gui_reachable env sys" "length inps = 4" "\<forall>inp \<in> set inps. discoveryEnds inp"
  shows "\<exists>sys'. quietRounds env inps sys = Some sys' \<and> (rt_terminated (gy_link sys') \<or>
    (gy_tasks sys' = [] \<and> \<not> taskInFlight (gy_gui sys') \<and> \<not> gs_rescanInFlight (gy_gui sys') \<and>
     \<not> gs_linkSyncPending (gy_gui sys')))"
proof -
  obtain sys' where r: "quietRounds env inps sys = Some sys'" using rounds_return [OF assms(3)] by blast
  have "atRank 0 sys'" if "\<not> rt_terminated (gy_link sys')"
  proof -
    obtain inp rest where i: "inps = inp # rest" "length rest = 3" using assms(2) by (cases inps) auto
    with r obtain sys1 where 1: "quietRound env inp sys = Some sys1" "quietRounds env rest sys1 = Some sys'"
      by (auto split: option.splits)
    have n: "\<not> rt_terminated (gy_link sys1)" using terminated_rounds [OF 1(2)] that by blast
    have "flags (gy_gui sys) = noFlags \<or> (\<exists>t. flags (gy_gui sys) = flagsOf t)"
      using reachable_tasks_ok [OF assms(1)] by (auto simp: tasks_ok_def split: list.splits)
    from round_from [OF 1(1) n this] obtain r p running where
      "scheduled r p running (gy_gui sys1)" "gy_tasks sys1 = launches (gy_gui sys1)" by blast
    then have "atRank 3 sys1" by (rule atRank_mono [OF scheduled_rank]) simp
    from rounds_rank [OF 1(2) that this] i(2) show ?thesis by simp
  qed
  then show ?thesis using r by (auto simp: atRank_def taskInFlight_flags Let_def)
qed

definition stopping_inputs :: "u32 link_inputs" where
  "stopping_inputs = sample_inputs\<lparr>li_polls := [\<lparr>dp_stop = True, dp_current = [], dp_changedAt = 0,
     dp_settledAt = 0, dp_elapsedAt = 0\<rparr>]\<rparr>"

lemma stopping_ends: "discoveryEnds stopping_inputs"
  by (simp add: discoveryEnds_def stopping_inputs_def discoverControllers_def)

theorem gui_settles_witness:
  "\<exists>sys'. quietRounds builtin_env (replicate 4 stopping_inputs) (openSystem builtin_env () fmempty no_files) = Some sys' \<and>
     (rt_terminated (gy_link sys') \<or> gy_tasks sys' = [])"
  using gui_settles [OF gui_reachable.opened [of builtin_env "()" fmempty no_files], of "replicate 4 stopping_inputs"]
    stopping_ends by auto

text \<open>C14: Closing the window waits for the task under way and stops the link: it returns when
  discovery does, and leaves the link stopped, without hosts, targets or monitor thread, and no
  host that was ever started still runs: in the ledger of its hosts, in which each host that is
  started is entered and struck only when it has stopped, none is left. The watched window
  does what the window does without the ledger.\<close>

theorem gui_close_stops_all:
  assumes "linked_hosts (le_ops env) (le_registry env)"
    "gui_run (watchedEnv env) (openSystem (watchedEnv env) (noHosts w) drivers files) sys" "discoveryEnds inp"
  shows "\<exists>rt. closeGui (watchedEnv env) inp sys = Some rt \<and> closeGui env inp (unwatchSystem sys) = Some (unwatch rt) \<and>
    gui_reachable env (unwatchSystem sys) \<and>
    rt_state rt = Stopped \<and> rt_hosts rt = [] \<and> rt_targets rt = [] \<and> \<not> rt_monitor rt \<and>
    (\<forall>h \<in> set (rt_destroyed rt). \<not> ho_running (le_ops env) (fst h)) \<and> runningHosts (rt_world rt) = {}"
proof -
  let ?env = "watchedEnv env" and ?sys0 = "openSystem (watchedEnv env) (noHosts w) drivers files"
  note loc = linked_hosts.watched_linked_hosts [OF assms(1)] and vh = linked_hosts.axioms(1) [OF assms(1)]
  have env: "le_ops ?env = watched (le_ops env) \<and> le_registry ?env = watchedRegistry (le_registry env)" by simp
  let ?inv = "\<lambda>rt. linked_hosts.link_inv (watched (le_ops env)) (le_co env) rt \<and> all_held rt"
  have step: "?inv rt'" if "link_step ?env ev rt = Some rt'" "?inv rt" for ev rt rt'
    using linked_hosts.link_step_inv [OF loc env that(1)] virtual_host.all_held_step [OF vh refl that(1)] that(2) by simp
  have steps: "?inv rt'" if "finishTasks ?env inp ts rt = Some rt'" "?inv rt" for ts rt rt'
    using that
  proof (induction ts arbitrary: rt)
    case (Cons t ts)
    then obtain rt1 where "link_step ?env (taskEvent inp t) rt = Some rt1" "finishTasks ?env inp ts rt1 = Some rt'"
      by (auto split: option.splits)
    with Cons step show ?case by blast
  qed simp
  have run: "link_run ?env (initialLink ?env (noHosts w)) (gy_link sys)"
    using gui_link_run [OF assms(2)] by (simp add: openSystem_def Let_def)
  have "?inv (gy_link sys)"
    using linked_hosts.reachable_link_inv [OF loc env link_run_reachable [OF run]]
      virtual_host.all_held_run [OF vh refl run all_held_initial] by simp
  then have i: "?inv (requestStop (gy_link sys))" using step [of RequestStop "gy_link sys"] by simp
  obtain rt where rt: "finishTasks ?env inp (gy_tasks sys) (requestStop (gy_link sys)) = Some rt"
    using tasks_return [OF assms(3)] by blast
  note inv = steps [OF rt i]
  have "?inv (stopLink ?env rt)" by (rule step [of Stop]) (use inv in simp_all)
  then have "\<forall>h \<in> set (rt_destroyed (stopLink ?env rt)). \<not> ho_running (le_ops env) (fst h)"
    by (simp add: linked_hosts.link_inv_def [OF loc] virtual_host.dead_def [OF linked_hosts.axioms(1) [OF loc]])
  moreover have "runningHosts (rt_world (stopLink ?env rt)) = {}"
    using virtual_host.none_runs_stopped [OF vh refl] inv by blast
  moreover have c: "closeGui ?env inp sys = Some (stopLink ?env rt)" using rt by (simp add: closeGui_def)
  moreover have "closeGui env inp (unwatchSystem sys) = Some (unwatch (stopLink ?env rt))"
    unfolding closeGui_unwatch c by simp
  moreover have "gui_reachable env (unwatchSystem sys)"
    using gui_run_reachable [OF gui_run_unwatch [OF assms(2), unfolded openSystem_unwatch]] .
  ultimately show ?thesis by (intro exI [of _ "stopLink ?env rt"]) simp
qed

lemma first_ends: "discoveryEnds (first_inputs cancelled)"
  by (simp add: discoveryEnds_def first_inputs_def sample_polls_def discoverControllers_def Let_def split: if_split)

text \<open>A window with one enabled controller: the first scan finds it, the next frame launches its
  start, and the window is closed while that is under way.\<close>

lemma first_scan:
  assumes "lo_discoveryTimeoutMs options = 5000"
  obtains rt where "scanLink env (first_inputs c) options (initialLink env w) = Some (True, rt)" "rt_state rt = Stopped"
    "rt_infos rt = [sample_controller]" "rt_discovered rt = buildDiscoveredControllerSnapshots [Some sample_controller]"
    "rt_hosts rt = []" "rt_targets rt = []" "\<not> rt_monitor rt" "\<not> rt_terminated rt" "rt_world rt = w"
proof -
  have d: "runDiscovery (first_inputs c) options r = Some ([sample_controller],
      r\<lparr>rt_log := rt_log r @ List.map_filter libraryLine (li_libraryLog (first_inputs c))\<rparr>)" for r :: "(u32, 'a, 'b) runtime"
    using assms by (simp add: runDiscovery_def first_discovery)
  show thesis
    by (rule that, simp add: scanLink_def d Let_def initialLink_def discoveryFailed_def)
      (simp_all add: setState_def say_def clearLog_def configureLiberaSystem_def)
qed

lemma window_starts:
  obtains sys opts h where
    "gui_run (watchedEnv builtin_env) (openSystem (watchedEnv builtin_env) (noHosts ()) fmempty enabled_files) sys"
    "gy_tasks sys = [StartTask opts {''1''}]" "rt_state (gy_link sys) = Stopped" "rt_infos (gy_link sys) = [sample_controller]"
    "rt_hosts (gy_link sys) = []" "\<not> rt_monitor (gy_link sys)" "rt_world (gy_link sys) = noHosts ()"
    "opts = (gs_linkOptions h)\<lparr>lo_virtualControllerRoutes := selectedRoutes h {''1''}\<rparr>" "gs_controllerHostRoutes h = fmempty"
    "gs_linkOptions h = default_options\<lparr>lo_selectedControllerDrivers := fmempty, lo_virtualControllerHostId := ''idn''\<rparr>"
proof -
  let ?env = "watchedEnv builtin_env" and ?reg = "builtinRegistry True sample_proto"
  let ?g = "openGui ?reg fmempty enabled_files" and ?sys0 = "openSystem ?env (noHosts ()) fmempty enabled_files"
  have o: "gy_gui ?sys0 = ?g" "gy_link ?sys0 = initialLink ?env (noHosts ())" "\<exists>options. gy_tasks ?sys0 = [ScanTask options] \<and>
      lo_discoveryTimeoutMs options = 5000"
    by (simp_all add: openSystem_def openGui_def launchScan_def call_def default_options_def List.map_filter_def Let_def)
  then obtain options where t: "gy_tasks ?sys0 = [] @ ScanTask options # []" "lo_discoveryTimeoutMs options = 5000" by auto
  obtain rt where rt: "scanLink ?env (first_inputs False) options (initialLink ?env (noHosts ())) = Some (True, rt)" "rt_state rt = Stopped"
    "rt_infos rt = [sample_controller]" "rt_discovered rt = buildDiscoveredControllerSnapshots [Some sample_controller]"
    "rt_hosts rt = []" "rt_targets rt = []" "\<not> rt_monitor rt" "\<not> rt_terminated rt" "rt_world rt = noHosts ()"
    by (rule first_scan [OF t(2)])
  let ?sys1 = "?sys0\<lparr>gy_link := rt, gy_tasks := [] @ []\<rparr>"
  have "\<not> rt_terminated (gy_link ?sys0)" by (simp add: o initialLink_def)
  moreover have "link_step ?env (taskEvent (first_inputs False) (ScanTask options)) (gy_link ?sys0) = Some rt"
    using rt(1) by (simp add: o)
  ultimately have r1: "gui_run ?env ?sys0 ?sys1" by (rule gui_run.task [OF gui_run.here _ t(1)])
  let ?inp = "quietInput ?env ?sys1" and ?sys2 = "frameStep ?env (quietInput ?env ?sys1) ?sys1"
  have i: "gi_scanReady ?inp" "gi_action ?inp = None" by (simp_all add: quietInput_def)
  have sn: "sn_discovered (gi_snapshot ?inp) = buildDiscoveredControllerSnapshots [Some sample_controller]"
    using rt(4) by (simp add: quietInput_def snapshotLink_def split: prod.split)
  have l: "linkableIds (gi_snapshot ?inp) = {''1''}"
    unfolding linkableIds_def sn by (simp add: buildDiscoveredControllerSnapshots_def List.map_filter_def
        makeDiscoveredControllerSnapshot_def shouldLinkController_def unlinkableReason_def sample_controller_def Let_def)
  obtain h where h: "guiFrame ?reg ?inp ?g = launchSelectedStart {''1''} h" "gs_calls h = []" "gs_controllerHostRoutes h = fmempty"
    "gs_linkOptions h = default_options\<lparr>lo_selectedControllerDrivers := fmempty, lo_virtualControllerHostId := ''idn''\<rparr>"
    by (rule scanned_frame [OF i l])
  let ?opts = "(gs_linkOptions h)\<lparr>lo_virtualControllerRoutes := selectedRoutes h {''1''}\<rparr>"
  have f: "guiFrame ?reg ?inp (gy_gui ?sys1) = call (LaunchStart ?opts {''1''}) (h\<lparr>gs_startInFlight := True\<rparr>)"
    using h(1) o(1) by (simp add: launchSelectedStart_def)
  have snap: "snd (snapshotLink ?env rt) = rt\<lparr>rt_store := rt_store rt\<rparr>" using rt(6) by (simp add: snapshotLink_def)
  have s2: "gy_tasks ?sys2 = [StartTask ?opts {''1''}]" "gy_link ?sys2 = rt"
    using h(2) snap f by (simp_all add: frameStep_def call_def List.map_filter_def Let_def)
  have "input_fits ?env ?inp ?sys1" by (simp add: input_fits_def quietInput_def)
  then have "gui_run ?env ?sys0 ?sys2" using rt(8) by (intro gui_run.frame [OF r1]) simp_all
  then show thesis by (rule that [OF _ s2(1) _ _ _ _ _ refl h(3,4)]) (use s2(2) rt in simp_all)
qed

lemma window_first:
  assumes "gs_controllerHostRoutes h = fmempty"
    "gs_linkOptions h = default_options\<lparr>lo_selectedControllerDrivers := fmempty, lo_virtualControllerHostId := ''idn''\<rparr>"
    "opts = (gs_linkOptions h)\<lparr>lo_virtualControllerRoutes := selectedRoutes h {''1''}\<rparr>"
  shows "first_start builtin_env (rg_info idnRegistration) opts {''1''}"
proof -
  have find: "findVirtualControllerHost ''idn'' (builtinRegistry True sample_proto) = Some (rg_info idnRegistration)"
    by (simp add: findVirtualControllerHost_def builtin_infos)
  have r: "lo_virtualControllerRoutes opts = [\<lparr>vr_controllerId = ''1'', vr_hostId = ''idn'', vr_hostInstanceKey = [],
      vr_options = lo_virtualControllerHostOptions opts\<rparr>]"
    using assms by (simp add: selectedRoutes_def configuredHostId_def List.map_filter_def)
  have o: "lo_virtualControllerHostId opts = ''idn''" "lo_maxDacs opts = 0" "lo_discoveryTimeoutMs opts = 5000"
    using assms by (simp_all add: default_options_def)
  show ?thesis
    using find by (simp add: first_start_def o r fallbackHost_def isControllerSelected_def sample_controller_def
        routesByControllerId_def resolveHost_def instanceKeyFor_def optionsFor_def Let_def)
qed

theorem gui_close_stops_all_witness:
  "\<exists>sys opts rt. gui_run (watchedEnv builtin_env) (openSystem (watchedEnv builtin_env) (noHosts ()) fmempty enabled_files) sys \<and>
     gy_tasks sys = [StartTask opts {''1''}] \<and>
     closeGui (watchedEnv builtin_env) (first_inputs False) sys = Some rt \<and>
     startedHosts (rt_world rt) = 1 \<and> runningHosts (rt_world rt) = {} \<and> rt_state rt = Stopped \<and> rt_hosts rt = []"
proof -
  let ?env = "watchedEnv builtin_env"
  have loc: "linked_hosts (le_ops builtin_env) (le_registry builtin_env)"
    unfolding builtin_env_simps by (rule builtin.linked_hosts_axioms)
  obtain sys opts h where run: "gui_run ?env (openSystem ?env (noHosts ()) fmempty enabled_files) sys"
    and t: "gy_tasks sys = [StartTask opts {''1''}]"
    and l: "rt_state (gy_link sys) = Stopped" "rt_infos (gy_link sys) = [sample_controller]" "rt_hosts (gy_link sys) = []"
      "\<not> rt_monitor (gy_link sys)" "rt_world (gy_link sys) = noHosts ()"
    and h: "opts = (gs_linkOptions h)\<lparr>lo_virtualControllerRoutes := selectedRoutes h {''1''}\<rparr>" "gs_controllerHostRoutes h = fmempty"
      "gs_linkOptions h = default_options\<lparr>lo_selectedControllerDrivers := fmempty, lo_virtualControllerHostId := ''idn''\<rparr>"
    by (rule window_starts)
  let ?rt = "requestStop (gy_link sys)"
  have rt: "rt_state ?rt = Stopped" "rt_infos ?rt \<in> {[], [sample_controller]}" "rt_world ?rt = noHosts ()" "rt_hosts ?rt = []"
    "\<not> rt_monitor ?rt" using l by (simp_all add: requestStop_def Let_def)
  have "\<forall>g t. pg_info g = rg_info idnRegistration \<and> pg_options g = lo_virtualControllerHostOptions opts \<and> pg_targets g = [t] \<longrightarrow>
      (\<exists>a w'. startActiveHostGroup builtin_env g (lo_sliceDurationUs opts) () = (Inr a, w'))"
    using builtin_group_starts by blast
  from first_host_started [OF window_first [OF h(2,3,1)] this rt, where cancelled = False] obtain rt' where
    f: "freshStart ?env (first_inputs False) opts {''1''} ?rt = Some (True, rt')" "startedHosts (rt_world rt') = 1" by auto
  have c: "closeGui ?env (first_inputs False) sys = Some (stopLink ?env rt')"
    using t f(1) rt(1) by (simp add: closeGui_def startLink_def)
  from gui_close_stops_all [OF loc run first_ends, of False] c have "runningHosts (rt_world (stopLink ?env rt')) = {}" by auto
  with run t c f(2) show ?thesis by (intro exI [of _ sys] exI [of _ opts] exI [of _ "stopLink ?env rt'"]) simp
qed

section \<open>Changes that are dropped\<close>

lemma checks_calls [simp]:
  "gs_calls (checkDefaultHost reg g) = gs_calls g" "gs_calls (checkRoutes reg g) = gs_calls g"
  "gs_calls (checkEnabled sn g) = gs_calls g" "gs_calls (collectFutures inp g) = gs_calls g"
  "gs_disabledControllerTypes (checkDefaultHost reg g) = gs_disabledControllerTypes g"
  "gs_disabledControllerTypes (checkRoutes reg g) = gs_disabledControllerTypes g"
  "gs_disabledControllerTypes (checkEnabled sn g) = gs_disabledControllerTypes g"
  "gs_disabledControllerTypes (collectFutures inp g) = gs_disabledControllerTypes g"
  "gs_enabledControllers (checkDefaultHost reg g) = gs_enabledControllers g"
  "gs_enabledControllers (checkRoutes reg g) = gs_enabledControllers g"
  "gs_enabledControllers (collectFutures inp g) = gs_enabledControllers g"
  "gs_windows (checkDefaultHost reg g) = gs_windows g" "gs_windows (checkRoutes reg g) = gs_windows g"
  "gs_windows (collectFutures inp g) = gs_windows g"
  by (simp_all add: checkDefaultHost_def checkRoutes_def saveRoutes_def checkEnabled_def saveEnabled_def
      collectFutures_def Let_def)

lemma checkEnabled_empty: "gs_enabledControllers g = {} \<Longrightarrow> checkEnabled sn g = g"
  by (simp add: checkEnabled_def)

text \<open>A change of the settings while a scan is under way.\<close>

lemma sync_scanning:
  assumes "flags g = (True, False, False)"
  shows "flags (requestDiscoverySettingsSync sn g) = flags g" "gs_calls (requestDiscoverySettingsSync sn g) = gs_calls g"
    "gs_rescanInFlight (requestDiscoverySettingsSync sn g) = gs_rescanInFlight g"
proof -
  have s: "gs_scanInFlight g" "\<not> gs_startInFlight g" using assms by (simp_all add: flags_def)
  then show "gs_calls (requestDiscoverySettingsSync sn g) = gs_calls g"
    "gs_rescanInFlight (requestDiscoverySettingsSync sn g) = gs_rescanInFlight g"
    "flags (requestDiscoverySettingsSync sn g) = flags g"
    by (simp_all add: requestDiscoverySettingsSync_def taskInFlight_def flags_def Let_def)
qed

text \<open>When a controller type is switched on or off during a scan, and no controller is
  enabled, the change is kept and saved but never applied: the frame of the click and the one
  that sees the scan end make no call, and nothing is left pending.\<close>

theorem discovery_change_dropped:
  assumes "flags g = (True, False, False)" "\<not> gs_rescanInFlight g" "gs_enabledControllers g = {}"
    "SettingsWindow \<in> gs_windows g" and "gi_action inp = Some (TypeToggled type)" "type \<noteq> []" "type \<in> set (gi_managerTypes inp)" "\<not> gi_scanReady inp"
    and "gi_action inp' = None" "gi_scanReady inp'" "\<not> linkRunning (gi_snapshot inp')"
  shows "let g1 = guiFrame reg inp g; g2 = guiFrame reg inp' g1 in
    gs_calls g1 = [] \<and> gs_calls g2 = [] \<and> (type \<in> gs_disabledControllerTypes g2 \<longleftrightarrow> type \<notin> gs_disabledControllerTypes g) \<and>
    \<not> taskInFlight g2 \<and> \<not> gs_rescanInFlight g2 \<and> \<not> gs_linkSyncPending g2"
proof -
  let ?h = "checkRoutes reg (checkDefaultHost reg (collectFutures inp (g\<lparr>gs_calls := []\<rparr>)))"
  have f: "flags ?h = (True, False, False)" "\<not> gs_rescanInFlight ?h" "gs_enabledControllers ?h = {}" "gs_calls ?h = []"
      "gs_disabledControllerTypes ?h = gs_disabledControllerTypes g" "SettingsWindow \<in> gs_windows ?h"
    using assms(1-4,8) by (simp_all add: flags_collect collectFutures_def Let_def) (simp_all add: flags_def)
  have e: "guiFrame reg inp g = schedule (gi_snapshot inp) (toggleType inp type ?h)"
    using f(3,6) by (simp add: guiFrame_def assms(5) checkEnabled_empty inWindow_def Let_def)
  define g1 where "g1 = toggleType inp type ?h"
  have 1: "flags g1 = (True, False, False)" "\<not> gs_rescanInFlight g1" "gs_enabledControllers g1 = {}" "gs_calls g1 = []"
    "type \<in> gs_disabledControllerTypes g1 \<longleftrightarrow> type \<notin> gs_disabledControllerTypes g"
    using f assms(6,7) by (simp_all add: g1_def toggleType_def sync_scanning Let_def)
  have e1: "guiFrame reg inp g = g1" unfolding e g1_def [symmetric]
    using 1(1) by (simp add: schedule_def taskInFlight_flags Let_def)
  let ?k = "checkRoutes reg (checkDefaultHost reg (collectFutures inp' (g1\<lparr>gs_calls := []\<rparr>)))"
  have k: "flags ?k = noFlags" "\<not> gs_rescanInFlight ?k" "gs_linkSyncPending ?k" "gs_enabledControllers ?k = {}" "gs_calls ?k = []"
    "gs_disabledControllerTypes ?k = gs_disabledControllerTypes g1"
    using 1 assms(10) by (simp_all add: flags_collect collectFutures_def Let_def) (simp_all add: flags_def)
  have "guiFrame reg inp' g1 = schedule (gi_snapshot inp') ?k"
    using k(4) by (simp add: guiFrame_def assms(9) checkEnabled_empty Let_def)
  also have "\<dots> = ?k\<lparr>gs_linkSyncPending := False\<rparr>"
    using k assms(11) by (simp add: schedule_def taskInFlight_flags selectedLinkableIds_def Let_def)
  finally show ?thesis unfolding Let_def e1 using k 1 by (simp add: taskInFlight_flags)
qed

theorem discovery_change_dropped_witness:
  "\<exists>inp inp'. let g = (openGui (builtinRegistry True sample_proto) fmempty no_files)\<lparr>gs_windows := {SettingsWindow}\<rparr>;
     g2 = guiFrame (builtinRegistry True sample_proto) inp' (guiFrame (builtinRegistry True sample_proto) inp g) in
     ''USB'' \<in> gs_disabledControllerTypes g2 \<and> gs_calls g2 = [] \<and> \<not> gs_linkSyncPending g2"
proof -
  let ?reg = "builtinRegistry True sample_proto"
  let ?g = "(openGui ?reg fmempty no_files)\<lparr>gs_windows := {SettingsWindow}\<rparr>"
  let ?inp = "scanned_input\<lparr>gi_scanReady := False, gi_action := Some (TypeToggled ''USB'')\<rparr>"
  have g: "flags ?g = (True, False, False)" "\<not> gs_rescanInFlight ?g" "gs_enabledControllers ?g = {}"
      "''USB'' \<notin> gs_disabledControllerTypes ?g" "SettingsWindow \<in> gs_windows ?g"
    by (simp_all add: openGui_def launchScan_def call_def flags_def no_files_def loadEnabledControllers_def
        settingLines_def loadDisabledControllerTypes_def default_options_def Let_def)
  have i: "gi_action ?inp = Some (TypeToggled ''USB'')" "''USB'' \<in> set (gi_managerTypes ?inp)" "\<not> gi_scanReady ?inp"
      "gi_action scanned_input = None" "gi_scanReady scanned_input" "\<not> linkRunning (gi_snapshot scanned_input)"
    by (simp_all add: scanned_input_def scanned_snapshot_def set_managerTypes)
  from discovery_change_dropped [OF g(1-3,5) i(1) _ i(2-6), of ?reg] g(4)
  show ?thesis by (intro exI [of _ ?inp] exI [of _ scanned_input]) (simp add: Let_def)
qed

end
