(* ===== verification/Main_Program.thy ===== *)
theory Main_Program
  imports Gui_Live
begin

text \<open>
  The command line program, \<open>main.cpp\<close>: options, AVB settings, one start of all controllers, and
  the link on its own until a signal arrives. The result is the exit code, the lines on the
  error stream, and the link as its destructor leaves it, if one was made. The events are what
  happens while the main thread sleeps.
\<close>

section \<open>The program\<close>

fun whileRunning :: "('c, 'h, 'w) link_env \<Rightarrow> 'c link_event list \<Rightarrow> ('c, 'h, 'w) runtime \<Rightarrow> ('c, 'h, 'w) runtime" where
  "whileRunning env [] rt = rt"
| "whileRunning env (ev # evs) rt =
     whileRunning env evs (if background ev then the (link_step env ev rt) else rt)"

definition mainProgram ::
  "('c, 'h, 'w) link_env \<Rightarrow> 'c link_inputs \<Rightarrow> string list \<Rightarrow> string \<Rightarrow> avb_file \<Rightarrow> avb_state \<Rightarrow> 'w \<Rightarrow>
   'c link_event list \<Rightarrow> (int \<times> string list \<times> ('c, 'h, 'w) runtime option) option" where
  "mainProgram env inp args path avbFile avb w evs =
     (case parseOptions (le_registry env) args default_options of
        (Help, options) \<Rightarrow> Some (0, [], None)
      | (Error, options) \<Rightarrow> Some (1, [], None)
      | (Ok, options) \<Rightarrow>
          (let errs = (case fst (loadAvbSettings path avbFile avb) of Inl err \<Rightarrow> [err] | Inr u \<Rightarrow> []) in
           case startAll env inp options (initialLink env w) of
             None \<Rightarrow> None
           | Some (False, rt) \<Rightarrow> Some (1, errs, Some (stopLink env rt))
           | Some (True, rt) \<Rightarrow> Some (0, errs, Some (stopLink env (stopLink env (whileRunning env evs rt))))))"

section \<open>What it leaves\<close>

lemma background_steps: "background ev \<Longrightarrow> \<exists>rt'. link_step env ev rt = Some rt' \<and> rt_terminated rt' = rt_terminated rt"
  by (cases ev) (simp_all add: monitorTick_def)

text \<open>Without the ledger of its hosts, the watched program is the program.\<close>

lemma whileRunning_unwatch: "whileRunning env evs (unwatch rt) = unwatch (whileRunning (watchedEnv env) evs rt)"
proof (induction evs arbitrary: rt)
  case (Cons ev evs)
  have "unwatch (the (link_step (watchedEnv env) ev rt)) = the (link_step env ev (unwatch rt))" if "background ev"
    using background_steps [OF that, of "watchedEnv env" rt] by (auto simp: link_step_unwatch)
  with Cons.IH [symmetric] show ?case by simp
qed simp

lemma parseOptions_watched [simp]: "parseOptions (watchedRegistry reg) args options = parseOptions reg args options"
proof (induction reg args options rule: parseOptions.induct)
  case (1 reg options)
  show ?case by (simp add: finishOptions_def)
next
  case (2 reg arg rest options)
  show ?case
  proof (cases "arg = ''--help'' \<or> arg = ''--no-auto-latency''")
    case True
    then show ?thesis using 2(1) by auto
  next
    case False
    show ?thesis
    proof (cases rest)
      case (Cons val rest')
      show ?thesis
      proof (cases "setValueOption arg val options")
        case (Some options')
        from 2(2) [OF _ _ Cons Some] False Cons Some show ?thesis by simp
      qed (use False Cons in simp)
    qed (use False in simp)
  qed
qed

lemma mainProgram_unwatch:
  "mainProgram env inp args path avbFile avb w evs =
     map_option (\<lambda>(code, errs, link). (code, errs, map_option unwatch link))
       (mainProgram (watchedEnv env) inp args path avbFile avb (noHosts w) evs)"
proof -
  have start: "startAll env inp options (initialLink env w) =
      map_option (apsnd unwatch) (startAll (watchedEnv env) inp options (initialLink (watchedEnv env) (noHosts w)))" for options
    using startLink_unwatch [of env inp options "{}" "initialLink (watchedEnv env) (noHosts w)"] by (simp add: startAll_def)
  show ?thesis
    by (simp add: mainProgram_def start stopLink_unwatch [symmetric] whileRunning_unwatch [symmetric] Let_def
        split: prod.split parse_result.split option.split bool.split)
qed

context linked_hosts
begin

lemma whileRunning_inv:
  assumes env: "le_ops env = ops \<and> le_registry env = reg"
  shows "link_inv (le_co env) rt \<Longrightarrow> link_inv (le_co env) (whileRunning env evs rt) \<and>
    rt_terminated (whileRunning env evs rt) = rt_terminated rt"
proof (induction evs arbitrary: rt)
  case (Cons ev evs)
  let ?rt = "if background ev then the (link_step env ev rt) else rt"
  have "link_inv (le_co env) ?rt \<and> rt_terminated ?rt = rt_terminated rt"
    using background_steps [of ev env rt] link_step_inv [OF env _ Cons.prems, of ev] Cons.prems by auto
  with Cons.IH [of ?rt] show ?case by simp
qed simp

end

context virtual_host
begin

lemma whileRunning_held:
  "le_ops env = ops \<Longrightarrow> all_held rt \<Longrightarrow> all_held (whileRunning (watchedEnv env) evs rt)"
proof (induction evs arbitrary: rt)
  case (Cons ev evs)
  have "all_held (if background ev then the (link_step (watchedEnv env) ev rt) else rt)"
    using background_steps [of ev "watchedEnv env" rt] all_held_step [OF Cons.prems(1), of ev rt] Cons.prems(2) by auto
  from Cons.IH [OF Cons.prems(1) this] show ?case by simp
qed simp

end

text \<open>C10: The program ends when discovery does and a signal comes: with code 0 after a call for
  help or when the link was started, else with code 1; and when it has made a link, no host
  that it started is left running, whatever happened in between: in the ledger of its hosts, in
  which each host that is started is entered and struck only when it has stopped, none is left;
  and no thread object was overwritten. The watched program does what the program does without
  the ledger.\<close>

theorem main_leaves_nothing:
  assumes "linked_hosts (le_ops env) (le_registry env)" "discoveryEnds inp"
  shows "\<exists>code errs link.
    mainProgram (watchedEnv env) inp args path avbFile avb (noHosts w) evs = Some (code, errs, link) \<and>
    mainProgram env inp args path avbFile avb w evs = Some (code, errs, map_option unwatch link) \<and>
    (code = 0 \<longleftrightarrow> (case parseOptions (le_registry env) args default_options of
        (Help, options) \<Rightarrow> True
      | (Error, options) \<Rightarrow> False
      | (Ok, options) \<Rightarrow> \<exists>rt. startAll env inp options (initialLink env w) = Some (True, rt))) \<and>
    code \<in> {0, 1} \<and> (case link of None \<Rightarrow> True
      | Some rt \<Rightarrow> rt_state rt = Stopped \<and> rt_hosts rt = [] \<and> \<not> rt_monitor rt \<and> \<not> rt_terminated rt \<and>
          (\<forall>h \<in> set (rt_destroyed rt). \<not> ho_running (le_ops env) (fst h)) \<and> runningHosts (rt_world rt) = {})"
proof -
  let ?env = "watchedEnv env" and ?rt0 = "initialLink (watchedEnv env) (noHosts w)"
  note loc = linked_hosts.watched_linked_hosts [OF assms(1)] and vh = linked_hosts.axioms(1) [OF assms(1)]
  have env: "le_ops ?env = watched (le_ops env) \<and> le_registry ?env = watchedRegistry (le_registry env)" by simp
  let ?inv = "linked_hosts.link_inv (watched (le_ops env)) (le_co ?env)"
  obtain res options where p: "parseOptions (le_registry env) args default_options = (res, options)" by fastforce
  show ?thesis
  proof (cases res)
    case Ok
    have s0: "startAll ?env inp options ?rt0 = freshStart ?env inp options {} ?rt0"
      by (simp add: startAll_def startLink_def initialLink_def)
    obtain ok rt where s: "startAll ?env inp options ?rt0 = Some (ok, rt)"
      using fresh_returns [OF assms(2), of ?env options "{}" ?rt0] s0 by auto
    have s': "startAll env inp options (initialLink env w) = Some (ok, unwatch rt)"
      using startLink_unwatch [of env inp options "{}" ?rt0] s by (simp add: startAll_def)
    have fresh: "freshStart ?env inp options {} ?rt0 = Some (ok, rt)" using s s0 by simp
    have "?inv ?rt0" using linked_hosts.reachable_link_inv [OF loc env link_reachable.initial] .
    then have i: "?inv rt" using linked_hosts.link_inv_fresh [OF loc env] fresh by simp
    have h: "all_held rt" by (rule virtual_host.all_held_fresh [OF vh refl fresh all_held_initial])
    have t: "\<not> rt_terminated rt"
      using linked_hosts.freshStart_result [OF loc env fresh] by (auto simp: start_result_def initialLink_def split: if_splits)
    let ?before = "if ok then stopLink ?env (whileRunning ?env evs rt) else rt"
    let ?final = "stopLink ?env ?before"
    have "all_held ?before" using h virtual_host.whileRunning_held [OF vh refl h]
        virtual_host.all_held_step [OF vh refl, of Stop "whileRunning ?env evs rt"] by simp
    then have none: "runningHosts (rt_world ?final) = {}" by (rule virtual_host.none_runs_stopped [OF vh refl])
    have "?inv ?final" using linked_hosts.link_inv_stop [OF loc env] linked_hosts.whileRunning_inv [OF loc env i] i by simp
    then have d: "\<forall>h \<in> set (rt_destroyed ?final). \<not> ho_running (le_ops env) (fst h)"
      by (simp add: linked_hosts.link_inv_def [OF loc] virtual_host.dead_def [OF linked_hosts.axioms(1) [OF loc]])
    have "\<not> rt_terminated ?final" using t linked_hosts.whileRunning_inv [OF loc env i] by simp
    moreover have m: "mainProgram ?env inp args path avbFile avb (noHosts w) evs = Some (if ok then 0 else 1,
        case fst (loadAvbSettings path avbFile avb) of Inl err \<Rightarrow> [err] | Inr u \<Rightarrow> [], Some ?final)"
      using p Ok s by (simp add: mainProgram_def Let_def)
    ultimately show ?thesis
      using p Ok s' d none unfolding mainProgram_unwatch [of env] m by (cases ok) simp_all
  qed (simp_all add: mainProgram_def p)
qed

text \<open>One start, with one controller: a host was started, and none runs in the end.\<close>

lemma builtin_first:
  obtains rt where "freshStart (watchedEnv builtin_env) (first_inputs cancelled) (default_options\<lparr>lo_autoLatency := False\<rparr>) {}
      (initialLink (watchedEnv builtin_env) (noHosts ())) = Some (\<not> cancelled, rt)" "startedHosts (rt_world rt) = 1"
proof -
  have "first_start builtin_env (rg_info idnRegistration) (default_options\<lparr>lo_autoLatency := False\<rparr>) {}"
    using builtin_startable by (intro first_start_default) (simp_all add: startable_def default_options_def)
  moreover have "\<forall>g t. pg_info g = rg_info idnRegistration \<and> pg_options g = lo_virtualControllerHostOptions
      (default_options\<lparr>lo_autoLatency := False\<rparr>) \<and> pg_targets g = [t] \<longrightarrow> (\<exists>a w'. startActiveHostGroup builtin_env g
      (lo_sliceDurationUs (default_options\<lparr>lo_autoLatency := False\<rparr>)) () = (Inr a, w'))"
    using builtin_group_starts by blast
  ultimately show thesis by (rule first_host_started [OF _ _ initial_first]) (rule that)
qed

theorem main_leaves_nothing_witness:
  "\<exists>errs rt. mainProgram (watchedEnv builtin_env) (first_inputs False) [''--no-auto-latency''] ''avb'' AvbAbsent sample_avb
      (noHosts ()) [] = Some (0, errs, Some rt) \<and> startedHosts (rt_world rt) = 1 \<and> runningHosts (rt_world rt) = {} \<and>
     rt_state rt = Stopped \<and> rt_hosts rt = []"
proof -
  let ?env = "watchedEnv builtin_env" and ?options = "default_options\<lparr>lo_autoLatency := False\<rparr>"
  have loc: "linked_hosts (le_ops builtin_env) (le_registry builtin_env)"
    unfolding builtin_env_simps by (rule builtin.linked_hosts_axioms)
  obtain rt where rt: "freshStart ?env (first_inputs False) ?options {} (initialLink ?env (noHosts ())) = Some (True, rt)"
    "startedHosts (rt_world rt) = 1" using builtin_first [of False] by auto
  have "parseOptions (builtinRegistry True sample_proto) [''--no-auto-latency''] default_options = (Ok, ?options)"
    by (simp add: finishOptions_def default_options_def)
  moreover have "startAll ?env (first_inputs False) ?options (initialLink ?env (noHosts ())) = Some (True, rt)"
    using rt(1) by (simp add: startAll_def startLink_def initialLink_def)
  ultimately obtain errs where m: "mainProgram ?env (first_inputs False) [''--no-auto-latency''] ''avb'' AvbAbsent sample_avb
      (noHosts ()) [] = Some (0, errs, Some (stopLink ?env (stopLink ?env rt)))"
    by (simp add: mainProgram_def Let_def del: parseOptions.simps)
  from main_leaves_nothing [OF loc first_ends, of False "[''--no-auto-latency'']" "''avb''" AvbAbsent sample_avb "()" "[]"] m
  have "runningHosts (rt_world (stopLink ?env (stopLink ?env rt))) = {}" by auto
  with m rt(2) show ?thesis by (intro exI [of _ errs] exI [of _ "stopLink ?env (stopLink ?env rt)"]) simp
qed

end
