(* ===== verification/Running_Link.thy ===== *)
theory Running_Link
  imports Runtime_Thms
begin

text \<open>
  What a running link is made of, in every state it reaches: its monitor thread exists, its
  targets are the store's, and each of them is one of the targets of a host that runs.
\<close>

section \<open>Targets and their names\<close>

text \<open>A target of the link points to a target of the store with the same data.\<close>

abbreviation sinfos :: "('c, 'h, 'w) runtime \<Rightarrow> target_info list" where
  "sinfos rt \<equiv> map t_info (rt_store rt)"

definition refs_ok :: "target_info list \<Rightarrow> link_target list \<Rightarrow> bool" where
  "refs_ok infos ts \<longleftrightarrow> (\<forall>t \<in> set ts. lt_ref t < length infos \<and> infos ! lt_ref t = lt_info t)"

lemma refs_ok_grow: "refs_ok infos ts \<Longrightarrow> refs_ok (infos @ ext) ts"
  by (auto simp: refs_ok_def nth_append)

lemma step_info: "t_info (target_step co clk ev t) = t_info t"
proof (cases ev)
  case (Call c)
  then show ?thesis
    by (cases c) (simp_all add: libera_sink_def frame_simps setScannerSync_def resetTarget_def Let_def)
qed (simp_all add: frame_simps snd_status logStatsIfDue_def Let_def case_prod_unfold snd_stats)

section \<open>Connecting controllers\<close>

definition grows :: "('c, 'h, 'w) runtime \<Rightarrow> link_target list \<Rightarrow> ('c, 'h, 'w) runtime \<Rightarrow> link_target list \<Rightarrow> bool" where
  "grows rt ts rt' ts' \<longleftrightarrow>
     (\<exists>ext. sinfos rt' = sinfos rt @ ext) \<and> (refs_ok (sinfos rt) ts \<longrightarrow> refs_ok (sinfos rt') ts')"

lemma grows_refl [simp]: "grows rt ts rt ts"
  by (simp add: grows_def)

lemma grows_trans: "grows rt ts rt1 ts1 \<Longrightarrow> grows rt1 ts1 rt2 ts2 \<Longrightarrow> grows rt ts rt2 ts2"
  unfolding grows_def by (metis append.assoc)

lemma grows_steps [simp]:
  "grows rt ts (rt\<lparr>rt_statusMessage := m\<rparr>) ts"
  "grows rt ts (say b l (rt\<lparr>rt_statusMessage := m\<rparr>)) ts"
  "grows rt ts (say b l rt) ts"
  by (simp_all add: grows_def)

lemma grows_new:
  "grows rt ts (rt\<lparr>rt_statusMessage := m, rt_store := rt_store rt @ [T]\<rparr>)
     (ts @ [\<lparr>lt_ref = length (rt_store rt), lt_info = t_info T\<rparr>])"
  by (auto simp: grows_def refs_ok_def nth_append)

lemma connectControllers_grows:
  assumes "connectControllers env inp options sel k infos ts rt = (ts', rt')"
  shows "grows rt ts rt' ts'"
  using assms
proof (induction infos arbitrary: k ts rt)
  case (Cons info infos)
  have "\<exists>rt1 ts1. grows rt ts rt1 ts1 \<and>
    ((ts', rt') = (ts1, rt1) \<or> connectControllers env inp options sel (Suc k) infos ts1 rt1 = (ts', rt'))"
    using Cons.prems unfolding connectControllers.simps Let_def
    by (simp del: newTarget_info split: if_splits option.splits) (metis grows_refl grows_steps grows_new)+
  then obtain rt1 ts1 where 1: "grows rt ts rt1 ts1"
    "(ts', rt') = (ts1, rt1) \<or> connectControllers env inp options sel (Suc k) infos ts1 rt1 = (ts', rt')" by blast
  from 1(2) show ?case
  proof
    assume "(ts', rt') = (ts1, rt1)"
    with 1(1) show ?thesis by simp
  next
    assume "connectControllers env inp options sel (Suc k) infos ts1 rt1 = (ts', rt')"
    from grows_trans [OF 1(1) Cons.IH [OF this]] show ?thesis .
  qed
qed simp

text \<open>The same for the targets that an update connects.\<close>

definition map_ok :: "target_info list \<Rightarrow> (string \<rightharpoonup> link_target) \<Rightarrow> bool" where
  "map_ok infos byId \<longleftrightarrow> (\<forall>i t. byId i = Some t \<longrightarrow> lt_ref t < length infos \<and> infos ! lt_ref t = lt_info t)"

definition map_grows :: "('c, 'h, 'w) runtime \<Rightarrow> (string \<rightharpoonup> link_target) \<Rightarrow> ('c, 'h, 'w) runtime \<Rightarrow> (string \<rightharpoonup> link_target) \<Rightarrow> bool" where
  "map_grows rt byId rt' byId' \<longleftrightarrow>
     (\<exists>ext. sinfos rt' = sinfos rt @ ext) \<and> (map_ok (sinfos rt) byId \<longrightarrow> map_ok (sinfos rt') byId')"

lemma map_grows_refl [simp]: "map_grows rt m rt m"
  by (simp add: map_grows_def)

lemma map_grows_trans: "map_grows rt m rt1 m1 \<Longrightarrow> map_grows rt1 m1 rt2 m2 \<Longrightarrow> map_grows rt m rt2 m2"
  unfolding map_grows_def by (metis append.assoc)

lemma map_grows_steps [simp]:
  "map_grows rt m (rt\<lparr>rt_statusMessage := s\<rparr>) m" "map_grows rt m (say b l (rt\<lparr>rt_statusMessage := s\<rparr>)) m"
  "map_grows rt m (say b l rt) m"
  by (simp_all add: map_grows_def)

lemma map_grows_new:
  "map_grows rt m (rt\<lparr>rt_statusMessage := s, rt_store := rt_store rt @ [T]\<rparr>)
     (m(ti_id (t_info T) \<mapsto> \<lparr>lt_ref = length (rt_store rt), lt_info = t_info T\<rparr>))"
proof -
  have "map_ok (sinfos rt @ [t_info T]) (m(i \<mapsto> \<lparr>lt_ref = length (rt_store rt), lt_info = t_info T\<rparr>))"
    if "map_ok (sinfos rt) m" for i
    using that unfolding map_ok_def by (auto simp: nth_append less_Suc_eq simp del: nth_map)
  then show ?thesis by (simp add: map_grows_def)
qed

lemma connectMissing_grows:
  assumes "connectMissing env inp options k infos missing byId rt = (missing', byId', rt')"
  shows "map_grows rt byId rt' byId'"
  using assms
proof (induction infos arbitrary: k missing byId rt)
  case (Cons info infos)
  have "\<exists>rt1 m b. map_grows rt byId rt1 b \<and> connectMissing env inp options (Suc k) infos m b rt1 = (missing', byId', rt')"
    using Cons.prems unfolding connectMissing.simps Let_def
    by (simp del: newTarget_info split: if_splits option.splits) (metis map_grows_refl map_grows_steps map_grows_new)+
  then obtain rt1 m b where 1: "map_grows rt byId rt1 b"
    "connectMissing env inp options (Suc k) infos m b rt1 = (missing', byId', rt')" by blast
  from map_grows_trans [OF 1(1) Cons.IH [OF 1(2)]] show ?case .
qed simp

lemma targetsById_ok: "refs_ok infos ts \<Longrightarrow> map_ok infos (targetsById ts)"
proof -
  assume r: "refs_ok infos ts"
  have fold: "map_ok infos (foldl (\<lambda>m t. if m (ti_id (lt_info t)) = None then m(ti_id (lt_info t) \<mapsto> t) else m) m ts)"
    if "refs_ok infos ts" "map_ok infos m" for ts m
    using that
  proof (induction ts arbitrary: m)
    case (Cons t ts)
    have "map_ok infos (if m (ti_id (lt_info t)) = None then m(ti_id (lt_info t) \<mapsto> t) else m)"
      using Cons.prems by (auto simp: map_ok_def refs_ok_def)
    then show ?case using Cons.IH Cons.prems(1) by (simp add: refs_ok_def)
  qed simp
  have "map_ok infos Map.empty" by (simp add: map_ok_def)
  from fold [OF r this] show ?thesis unfolding targetsById_def .
qed

lemma updateTargets_grows:
  assumes "updateTargets env inp options selected rt = (byId, rt1)" "refs_ok (sinfos rt) (rt_targets rt)"
  shows "(\<exists>ext. sinfos rt1 = sinfos rt @ ext) \<and> map_ok (sinfos rt1) byId"
proof (cases "{i \<in> selected. targetsById (rt_targets rt) i = None} = {}")
  case True
  with assms targetsById_ok [OF assms(2)] show ?thesis by (auto simp: updateTargets_def Let_def)
next
  case False
  let ?rt0 = "configureLiberaSystem options rt"
  obtain m b rt2 where c: "connectMissing env inp options 0 (rt_infos ?rt0)
      {i \<in> selected. targetsById (rt_targets rt) i = None} (targetsById (rt_targets rt)) ?rt0 = (m, b, rt2)"
    by (rule prod_cases3)
  have "byId = b" "rt1 = reportMissing m rt2"
    using assms(1) False unfolding updateTargets_def Let_def c if_not_P [OF False] by simp_all
  with connectMissing_grows [OF c] targetsById_ok [OF assms(2)] show ?thesis by (simp add: map_grows_def)
qed

lemma map_ok_filter: "map_ok infos byId \<Longrightarrow> refs_ok infos (List.map_filter byId ids)"
  by (auto simp: map_ok_def refs_ok_def List.map_filter_def)

section \<open>The invariant\<close>

text \<open>The targets' data, and the targets of a running link among the hosts.\<close>

definition refs_inv :: "('c, 'h, 'w) runtime \<Rightarrow> bool" where
  "refs_inv rt \<longleftrightarrow> refs_ok (sinfos rt) (rt_targets rt)"

definition served_inv :: "('c, 'h, 'w) runtime \<Rightarrow> bool" where
  "served_inv rt \<longleftrightarrow> (rt_state rt = Running \<longrightarrow> rt_monitor rt \<and> rt_targets rt \<noteq> [] \<and>
     targetIdSet (rt_targets rt) = (\<Union>a \<in> set (rt_hosts rt). targetIdSet (ah_targets a)))"

lemma refs_inv_cong: "rt_store rt' = rt_store rt \<Longrightarrow> rt_targets rt' = rt_targets rt \<Longrightarrow> refs_inv rt' = refs_inv rt"
  by (simp add: refs_inv_def)

lemma refs_inv_stop [simp]: "refs_inv (stopLink env rt)"
  by (simp add: refs_inv_def refs_ok_def)

text \<open>The targets of a group list are those that were grouped.\<close>

lemma groups_targets: "groups_ok env options ts gs \<Longrightarrow> (\<Union>g \<in> set gs. targetIdSet (pg_targets g)) = targetIdSet ts"
proof -
  assume "groups_ok env options ts gs"
  then have "set_mset (mset (concat (map pg_targets gs))) = set_mset (mset ts)" unfolding groups_ok_def by (elim conjE) simp
  then have "set (concat (map pg_targets gs)) = set ts" by simp
  then show ?thesis by (simp add: targetIdSet_def flip: image_UN)
qed

lemma linked_served: "linked env options sel infos rt \<Longrightarrow> served_inv rt"
proof -
  assume l: "linked env options sel infos rt"
  then obtain gs where gs: "groups_ok env options (rt_targets rt) gs" "map ah_targets (rt_hosts rt) = map pg_targets gs"
    by (auto simp: linked_def)
  have "(\<Union>a \<in> set (rt_hosts rt). targetIdSet (ah_targets a)) = \<Union> (targetIdSet ` set (map ah_targets (rt_hosts rt)))" by simp
  also have "\<dots> = (\<Union>g \<in> set gs. targetIdSet (pg_targets g))" unfolding gs(2) by simp
  finally show ?thesis using l groups_targets [OF gs(1)] by (simp add: linked_def served_inv_def)
qed

context linked_hosts
begin

lemma startTargets_refs:
  assumes env: "le_ops env = ops \<and> le_registry env = reg" and s: "startTargets env inp options sel rt = (ok, rt')" and "refs_inv rt"
  shows "refs_inv rt'"
proof -
  obtain ts rt1 where c: "connectControllers env inp options sel 0 (rt_infos rt) [] rt = (ts, rt1)" by fastforce
  have "refs_ok (sinfos rt) []" by (simp add: refs_ok_def)
  with connectControllers_grows [OF c] have g: "\<exists>ext. sinfos rt1 = sinfos rt @ ext" "refs_ok (sinfos rt1) ts"
    by (simp_all add: grows_def)
  have 1: "refs_inv rt1"
    using connectControllers_frame [OF c] g(1) assms(3) refs_ok_grow by (auto simp: refs_inv_def link_frame_def)
  have failed: "refs_inv rt'" if "failStart e r = (ok, rt') \<or> cancelStart r = (ok, rt')" "refs_inv r" for e r
    using that failStart_fields [of e r ok rt'] cancelStart_fields [of r ok rt'] by (auto simp: refs_inv_def)
  show ?thesis
  proof (cases "li_stopConnected inp \<or> ts = []")
    case True
    with s c have "\<exists>e. failStart e rt1 = (ok, rt') \<or> cancelStart rt1 = (ok, rt')"
      by (auto simp: startTargets_def split: if_splits)
    with failed 1 show ?thesis by blast
  next
    case False
    show ?thesis
    proof (cases "groupTargets env options ts []")
      case (Inl e)
      with False s c have "failStart e rt1 = (ok, rt')" by (simp add: startTargets_def)
      with failed 1 show ?thesis by blast
    next
      case (Inr gs)
      obtain res rt2 where h: "startHostGroups env inp (lo_sliceDurationUs options) 0 gs [] rt1 = (res, rt2)" by fastforce
      have 2: "rt_store rt2 = rt_store rt1" "rt_targets rt2 = rt_targets rt1"
        using startHostGroups_result [OF env h] by (simp_all add: host_frame_def)
      show ?thesis
      proof (cases res)
        case (Inl e)
        have "refs_inv rt2" using 1 2 by (simp add: refs_inv_def)
        moreover have "\<exists>e. failStart e rt2 = (ok, rt') \<or> cancelStart rt2 = (ok, rt')"
          using False s c \<open>groupTargets env options ts [] = Inr gs\<close> h Inl
          by (cases e) (auto simp: startTargets_def split: if_splits)
        ultimately show ?thesis using failed by blast
      next
        case (Inr hosts)
        with False s c \<open>groupTargets env options ts [] = Inr gs\<close> h have "enterRunning env options ts hosts rt2 = (ok, rt')"
          by (simp add: startTargets_def)
        then have "rt_store rt' = rt_store rt2" "rt_targets rt' = ts"
          by (auto simp: enterRunning_def Let_def split: if_splits)
        with 2 g(2) show ?thesis by (simp add: refs_inv_def)
      qed
    qed
  qed
qed

lemma freshStart_refs:
  assumes env: "le_ops env = ops \<and> le_registry env = reg" and s: "freshStart env inp options sel rt = Some (ok, rt')" and inv: "refs_inv rt"
  shows "refs_inv rt'"
  using s
proof (cases rule: freshStart_cases)
  case kept
  with inv show ?thesis by (simp add: refs_inv_def same_link_def)
next
  case (targets rt1)
  have "refs_inv rt1" using inv targets(3) by (simp add: refs_inv_def same_link_def)
  with startTargets_refs [OF env targets(2)] show ?thesis .
qed (use inv in simp)

lemma freshStart_served:
  assumes env: "le_ops env = ops \<and> le_registry env = reg" and s: "freshStart env inp options sel rt = Some (ok, rt')" and inv: "served_inv rt"
  shows "served_inv rt'"
proof (cases "rt_state rt' = Running")
  case True
  with freshStart_result [OF env s] consider "rt' = rt" | "linked env options sel (rt_infos rt') rt'"
    by (auto simp: start_result_def split: if_splits)
  then show ?thesis using inv linked_served by cases simp_all
qed (simp add: served_inv_def)

lemma matched_served:
  assumes "matched gs {..<length gs} hosts" "groups_ok env options ts gs"
  shows "(\<Union>a \<in> set hosts. targetIdSet (ah_targets a)) = targetIdSet ts"
proof -
  note m = matched_all [OF assms(1)]
  have "(\<Union>a \<in> set hosts. targetIdSet (ah_targets a)) = (\<Union>g \<in> set gs. targetIdSet (pg_targets g))"
  proof (intro subset_antisym UN_least)
    fix a assume "a \<in> set hosts"
    with m obtain g where "g \<in> set gs" "host_for a g" by blast
    then show "targetIdSet (ah_targets a) \<subseteq> (\<Union>g \<in> set gs. targetIdSet (pg_targets g))" by (auto simp: host_for_def)
  next
    fix g assume "g \<in> set gs"
    with m obtain a where "a \<in> set hosts" "host_for a g" by blast
    then show "targetIdSet (pg_targets g) \<subseteq> (\<Union>a \<in> set hosts. targetIdSet (ah_targets a))" by (auto simp: host_for_def)
  qed
  with groups_targets [OF assms(2)] show ?thesis by simp
qed

lemma updateRunning_served:
  assumes env: "le_ops env = ops \<and> le_registry env = reg" and u: "updateRunning env inp options sel rt = Some (ok, rt')"
    and inv: "refs_inv rt" "served_inv rt" "\<forall>a \<in> set (rt_hosts rt). active_ok a" and st: "rt_state rt = Running"
  shows "refs_inv rt' \<and> served_inv rt'"
proof -
  have upd: "\<exists>ext. sinfos rt1 = sinfos rt @ ext" "map_ok (sinfos rt1) byId"
    if "updateTargets env inp options sel rt = (byId, rt1)" for byId rt1
    using updateTargets_grows [OF that] inv(1) by (simp_all add: refs_inv_def)
  show ?thesis
    using u
  proof (cases rule: updateRunning_cases)
    case stop
    then show ?thesis by (simp add: served_inv_def)
  next
    case restart
    have "refs_inv (stopLink env r)" "served_inv (stopLink env r)" for r
      by (simp_all add: served_inv_def)
    with freshStart_refs [OF env restart(3)] freshStart_served [OF env restart(3)] show ?thesis by blast
  next
    case (unknown byId rt1 e)
    from upd(1) [OF unknown(2)] updateTargets_frame [OF unknown(2)] inv(1) have "refs_inv rt1"
      by (auto simp: refs_inv_def refs_ok_grow)
    with failStart_fields [OF unknown(3)] show ?thesis by (simp add: refs_inv_def served_inv_def)
  next
    case (nobody byId rt1)
    then show ?thesis by (simp add: served_inv_def)
  next
    case (selection byId rt1 ds groups)
    note f = updateTargets_frame [OF selection(2)]
    from f inv(3) have run: "\<forall>a \<in> set (rt_hosts rt1). active_ok a" by simp
    note r = applySelection_result [OF env selection(6) run]
    have ds: "refs_ok (sinfos rt1) ds" using map_ok_filter [OF upd(2) [OF selection(2)]] selection(3) by simp
    have gs: "groups_ok env options ds groups"
      using groupTargets_ok [OF selection(5), of "[]"] by (simp add: groups_ok_def [of _ _ "[]"])
    show ?thesis
    proof (cases ok)
      case True
      with r have m: "rt_targets rt' = ds" "matched groups {..<length groups} (rt_hosts rt')" by simp_all
      have "served_inv rt'"
        using matched_served [OF m(2) gs] m(1) r True f inv(2) st selection(4) by (simp add: served_inv_def)
      with m(1) ds r show ?thesis by (simp add: refs_inv_def)
    next
      case False
      with r show ?thesis by (simp add: refs_inv_def refs_ok_def served_inv_def)
    qed
  qed
qed

end

text \<open>The steps that only read the targets leave their data alone.\<close>

lemma infos_update: "i < length store \<Longrightarrow> t_info t = t_info (store ! i) \<Longrightarrow> map t_info (store[i := t]) = map t_info store"
  by (simp add: list_eq_iff_nth_eq nth_list_update)

lemma logTargets_infos: "map t_info (logTargets env clks ts store) = map t_info store"
proof -
  have "map t_info (foldl (\<lambda>s t. if lt_ref t < length s
      then s[lt_ref t := logStatsIfDue (le_co env) (clks (lt_ref t)) (s ! lt_ref t)] else s) s ts) = map t_info s" for s
  proof (induction ts arbitrary: s)
    case (Cons t ts)
    have "map t_info (if lt_ref t < length s
        then s[lt_ref t := logStatsIfDue (le_co env) (clks (lt_ref t)) (s ! lt_ref t)] else s) = map t_info s"
      using infos_update [of "lt_ref t" s] step_info [of "le_co env" "clks (lt_ref t)" LogTick "s ! lt_ref t"] by simp
    with Cons.IH show ?case by simp
  qed simp
  then show ?thesis by (simp add: logTargets_def)
qed

lemma targetSnapshots_infos: "map t_info (snd (targetSnapshots co hosts ts store)) = map t_info store"
proof (induction ts arbitrary: store)
  case (Cons t ts)
  show ?case
  proof (cases "lt_ref t < length store")
    case True
    let ?r = "targetSnapshot co (activeHostForTarget hosts (ti_id (lt_info t))) (store ! lt_ref t)"
    have "snd ?r = target_step co undefined Status (store ! lt_ref t)"
      by (simp add: targetSnapshot_def Let_def targetStatusSnapshot_def split: prod.splits)
    then have "map t_info (store[lt_ref t := snd ?r]) = map t_info store"
      using infos_update [OF True, of "snd ?r"] step_info [of co undefined Status "store ! lt_ref t"] by simp
    with Cons.IH [of "store[lt_ref t := snd ?r]"] True show ?thesis
      by (cases ?r; cases "targetSnapshots co hosts ts (store[lt_ref t := snd ?r])") simp
  next
    case False
    with Cons.IH show ?thesis by simp
  qed
qed simp


context linked_hosts
begin

lemma link_step_served:
  assumes env: "le_ops env = ops \<and> le_registry env = reg" and s: "link_step env ev rt = Some rt'"
    and inv: "refs_inv rt" "served_inv rt" "link_inv (le_co env) rt"
  shows "refs_inv rt' \<and> served_inv rt'"
proof (cases ev)
  case (Scan inp options)
  with s obtain ok where scan: "scanLink env inp options rt = Some (ok, rt')" by auto
  have "rt_store rt' = rt_store rt \<and> rt_targets rt' = rt_targets rt \<and> (rt' = rt \<or> rt_state rt' \<noteq> Running)"
    using scan unfolding scanLink_def Let_def
    by (auto split: if_splits option.splits dest!: runDiscovery_fields)
  with inv refs_inv_cong show ?thesis by (auto simp: served_inv_def)
next
  case (Start inp options sel)
  with s obtain ok where st: "startLink env inp options sel rt = Some (ok, rt')" by auto
  show ?thesis
  proof (cases "rt_state rt = Running")
    case True
    let ?rt1 = "rt\<lparr>rt_statusMessage := ''Updating link...''\<rparr>"
    have "updateRunning env inp options sel ?rt1 = Some (ok, rt')" using st True by (simp add: startLink_def)
    moreover have "refs_inv ?rt1" "served_inv ?rt1" "\<forall>a \<in> set (rt_hosts ?rt1). active_ok a"
      using inv by (simp_all add: refs_inv_def served_inv_def link_inv_def)
    moreover have "rt_state ?rt1 = Running" using True by simp
    ultimately show ?thesis by (rule updateRunning_served [OF env])
  next
    case False
    with st have f: "freshStart env inp options sel rt = Some (ok, rt')" by (simp add: startLink_def)
    with freshStart_refs [OF env f inv(1)] freshStart_served [OF env f inv(2)] show ?thesis by blast
  qed
next
  case (Monitor clks)
  with s have rt': "rt' = monitorTick env clks rt" by simp
  with inv show ?thesis
    by (auto simp: monitorTick_def refs_inv_def served_inv_def logTargets_infos)
next
  case Snapshot
  with s have "rt' = rt\<lparr>rt_store := snd (targetSnapshots (le_co env) (rt_hosts rt) (rt_targets rt) (rt_store rt))\<rparr>"
    by (auto simp: snapshotLink_def Let_def split: prod.splits)
  with inv show ?thesis by (simp add: refs_inv_def served_inv_def targetSnapshots_infos)
next
  case (TargetActivity i clk tev)
  with s inv show ?thesis
    using infos_update [of i "rt_store rt" "target_step (le_co env) clk tev (rt_store rt ! i)"]
    by (auto simp: refs_inv_def served_inv_def step_info split: if_splits)
next
  case RequestStop
  with s have rt': "rt' = requestStop rt" by simp
  have "rt_state (requestStop rt) = Running \<Longrightarrow> rt_state rt = Running"
    by (simp add: requestStop_def Let_def split: if_splits)
  with inv show ?thesis by (simp add: rt' refs_inv_def served_inv_def)
next
  case Stop
  with s have "rt' = stopLink env rt" by simp
  then show ?thesis by (simp add: served_inv_def)
next
  case Invalidate
  with s inv show ?thesis by (auto simp: invalidateDiscoveryCache_def refs_inv_def served_inv_def)
qed

lemma reachable_served:
  assumes env: "le_ops env = ops \<and> le_registry env = reg" and "link_reachable env rt"
  shows "refs_inv rt \<and> served_inv rt"
  using assms(2)
proof induction
  case (initial w)
  then show ?case by (simp add: refs_inv_def refs_ok_def served_inv_def initialLink_def)
next
  case (stepped rt ev rt')
  then show ?case using link_step_served [OF env] reachable_link_inv [OF env] by blast
qed

end

end
