(* ===== verification/Link_Display.thy ===== *)
theory Link_Display
  imports Running_Link Gui
begin

text \<open>
  What the window shows of the link: the endpoints of a snapshot are the link's targets, each
  with the running host that serves it, and a controller shown as online is one of them.
\<close>

section \<open>The endpoints of a snapshot\<close>

text \<open>The part of an endpoint that says what it is and where it is presented.\<close>

definition shown :: "endpoint_snapshot \<Rightarrow> string \<times> string \<times> string \<times> vc_endpoint option" where
  "shown s = (es_id s, es_hostId s, es_hostDisplayName s, es_endpoint s)"

definition shown_for :: "'h active_host list \<Rightarrow> string \<Rightarrow> string \<times> string \<times> string \<times> vc_endpoint option" where
  "shown_for hosts i =
     (case activeHostForTarget hosts i of
        None \<Rightarrow> (i, [], [], None)
      | Some a \<Rightarrow> (i, ah_id a, ah_displayName a, endpointForTarget (ah_endpoints a) i))"

lemma targetSnapshot_shown:
  assumes "targetSnapshot co (activeHostForTarget hosts i) t = (s, t')" "ti_id (t_info t) = i"
  shows "shown s = shown_for hosts i \<and> t_info t' = t_info t"
proof -
  have "shown s = shown_for hosts i"
    using assms by (auto simp: targetSnapshot_def shown_def shown_for_def Let_def split: prod.splits option.splits)
  moreover have "t' = target_step co undefined Status t"
    using assms(1) by (auto simp: targetSnapshot_def Let_def targetStatusSnapshot_def split: prod.splits)
  ultimately show ?thesis using step_info by metis
qed

lemma targetSnapshots_shown:
  assumes "refs_ok (map t_info store) ts"
  shows "map shown (fst (targetSnapshots co hosts ts store)) = map (shown_for hosts \<circ> ti_id \<circ> lt_info) ts"
  using assms
proof (induction ts arbitrary: store)
  case (Cons t ts)
  let ?i = "ti_id (lt_info t)"
  from Cons.prems have t: "lt_ref t < length store" "t_info (store ! lt_ref t) = lt_info t"
    by (simp_all add: refs_ok_def) (metis nth_map)
  obtain s t' where r: "targetSnapshot co (activeHostForTarget hosts ?i) (store ! lt_ref t) = (s, t')" by fastforce
  with targetSnapshot_shown [OF r] t have st: "shown s = shown_for hosts ?i" "t_info t' = t_info (store ! lt_ref t)" by simp_all
  obtain ss store' where q: "targetSnapshots co hosts ts (store[lt_ref t := t']) = (ss, store')" by fastforce
  have "refs_ok (map t_info (store[lt_ref t := t'])) ts"
    using Cons.prems unfolding infos_update [of "lt_ref t" store t', OF t(1) st(2)] by (simp add: refs_ok_def del: nth_map)
  from Cons.IH [OF this] q r st t(1) show ?case by simp
qed simp

lemma activeHost_served:
  assumes "i \<in> targetIdSet (ah_targets a)" "a \<in> set hosts"
  obtains b where "activeHostForTarget hosts i = Some b" "b \<in> set hosts" "i \<in> targetIdSet (ah_targets b)"
proof (cases "activeHostForTarget hosts i")
  case None
  with assms show ?thesis by (auto simp: activeHostForTarget_def find_None_iff targetIdSet_def)
next
  case (Some b)
  then have "b \<in> set hosts \<and> (\<exists>t \<in> set (ah_targets b). ti_id (lt_info t) = i)"
    by (auto simp: activeHostForTarget_def find_Some_iff)
  with Some that show ?thesis by (auto simp: targetIdSet_def)
qed

section \<open>What is shown\<close>

text \<open>An endpoint of the snapshot, as the host presents it.\<close>

definition presented :: "('h \<Rightarrow> bool) \<Rightarrow> 'h active_host list \<Rightarrow> endpoint_snapshot \<Rightarrow> bool" where
  "presented running hosts s \<longleftrightarrow> (\<exists>a \<in> set hosts. running (ah_host a) \<and> es_id s \<in> targetIdSet (ah_targets a) \<and>
     es_hostId s = ah_id a \<and> es_hostDisplayName s = ah_displayName a \<and>
     es_endpoint s = endpointForTarget (ah_endpoints a) (es_id s))"

text \<open>C5: In every state the link reaches, a snapshot lists exactly the link's targets. While the
  link runs it has its monitor thread and at least one target, and the snapshot names for each
  target a running host that serves it and the endpoint the host has for it. A controller is
  shown as online exactly when the link runs and one of its hosts serves the controller.\<close>

theorem snapshot_shows_link:
  assumes "linked_hosts (le_ops env) (le_registry env)" "link_reachable env rt"
  shows "map es_id (sn_endpoints (fst (snapshotLink env rt))) = map (ti_id \<circ> lt_info) (rt_targets rt) \<and>
    (rt_state rt \<noteq> Running \<or> rt_monitor rt \<and> sn_endpoints (fst (snapshotLink env rt)) \<noteq> [] \<and>
       list_all (presented (ho_running (le_ops env)) (rt_hosts rt)) (sn_endpoints (fst (snapshotLink env rt)))) \<and>
    (hostStateLabel (fst (snapshotLink env rt)) g controller = ''Online'') =
      (rt_state rt = Running \<and> list_ex (\<lambda>a. dc_id controller \<in> targetIdSet (ah_targets a)) (rt_hosts rt))"
proof -
  let ?sn = "fst (snapshotLink env rt)" and ?hosts = "rt_hosts rt"
  note env = conjI [OF refl refl]
  from linked_hosts.reachable_served [OF assms(1) env assms(2)]
  have inv: "refs_ok (sinfos rt) (rt_targets rt)" "served_inv rt" by (simp_all add: refs_inv_def)
  have run: "\<forall>a \<in> set ?hosts. ho_running (le_ops env) (ah_host a)"
    using linked_hosts.reachable_link_inv [OF assms(1) env assms(2)] linked_hosts.axioms(1) [OF assms(1)]
    by (simp add: linked_hosts.link_inv_def [OF assms(1)] virtual_host.active_ok_def)
  have st: "sn_state ?sn = rt_state rt" by (simp add: snapshotLink_def split: prod.splits)
  have eps: "map shown (sn_endpoints ?sn) = map (shown_for ?hosts \<circ> ti_id \<circ> lt_info) (rt_targets rt)"
    using targetSnapshots_shown [OF inv(1), of "le_co env" ?hosts]
    by (cases "targetSnapshots (le_co env) ?hosts (rt_targets rt) (rt_store rt)") (simp add: snapshotLink_def)
  have fst_for: "fst (shown_for ?hosts i) = i" for i by (simp add: shown_for_def split: option.split)
  have "map es_id (sn_endpoints ?sn) = map fst (map shown (sn_endpoints ?sn))" by (simp add: shown_def)
  also have "\<dots> = map (ti_id \<circ> lt_info) (rt_targets rt)" unfolding eps by (simp add: fst_for)
  finally have ids: "map es_id (sn_endpoints ?sn) = map (ti_id \<circ> lt_info) (rt_targets rt)" .
  have idset: "es_id ` set (sn_endpoints ?sn) = targetIdSet (rt_targets rt)"
    using arg_cong [OF ids, of set] by (simp add: targetIdSet_def image_comp)
  have pres: "presented (ho_running (le_ops env)) ?hosts s" if "rt_state rt = Running" "s \<in> set (sn_endpoints ?sn)" for s
  proof -
    have "es_id s \<in> (\<Union>a \<in> set ?hosts. targetIdSet (ah_targets a))"
      using that idset inv(2) by (auto simp: served_inv_def)
    then obtain a where "a \<in> set ?hosts" "es_id s \<in> targetIdSet (ah_targets a)" by blast
    then obtain b where b: "activeHostForTarget ?hosts (es_id s) = Some b" "b \<in> set ?hosts" "es_id s \<in> targetIdSet (ah_targets b)"
      by (metis activeHost_served)
    have "shown s \<in> shown_for ?hosts ` targetIdSet (rt_targets rt)"
      using that(2) arg_cong [OF eps, of set] by (auto simp: targetIdSet_def image_comp)
    then have "shown s = shown_for ?hosts (es_id s)" using fst_for by (metis fst_conv imageE shown_def)
    with b run show ?thesis by (auto simp: presented_def shown_def shown_for_def)
  qed
  have "(hostStateLabel ?sn g controller = ''Online'') = (dc_id controller \<in> targetIdSet (rt_targets rt) \<and> rt_state rt = Running)"
    by (simp add: hostStateLabel_def Let_def st idset)
  moreover have "(sn_endpoints ?sn = []) = (rt_targets rt = [])" using ids by (metis map_is_Nil_conv)
  ultimately show ?thesis
    using ids pres inv(2) by (auto simp: served_inv_def list_all_iff list_ex_iff)
qed

theorem snapshot_shows_link_witness:
  "\<exists>rt. link_reachable sample_env rt \<and> rt_state rt = Running \<and>
     hostStateLabel (fst (snapshotLink sample_env rt))
       (openGui (le_registry sample_env) fmempty
          \<lparr>gf_disabledTypes = None, gf_defaultHost = None, gf_routes = None, gf_enabled = None\<rparr>)
       (makeDiscoveredControllerSnapshot sample_controller) = ''Online''"
proof -
  obtain rt where rt: "link_reachable sample_env rt" "sample_running ''etherdream'' rt" by (rule sample_started)
  let ?c = "makeDiscoveredControllerSnapshot sample_controller"
  have "dc_id ?c = ''1''" by (simp add: makeDiscoveredControllerSnapshot_def sample_controller_def Let_def case_prod_unfold)
  with rt(2) have "rt_state rt = Running \<and> list_ex (\<lambda>a. dc_id ?c \<in> targetIdSet (ah_targets a)) (rt_hosts rt)"
    by (auto simp: sample_running_def targetIdSet_def)
  with snapshot_shows_link [OF sample_hosts rt(1), of _ ?c] rt(1) show ?thesis by blast
qed

end
