(* ===== verification/Row_Geometry.thy ===== *)
theory Row_Geometry
  imports Floats "HOL-Library.Word"
begin

unbundle bit_operations_syntax

text \<open>
  How the main window lays out and draws the row of a controller, \<open>gui_main.cpp\<close>: the boxes of
  the two nodes and of what can be clicked, the wire between them with its gaps and its moving
  stripes, lights, buttons and clipped labels. Coordinates are \<open>float\<close> values. Drawing makes a
  list of commands for the graphics library; what the library measures (the size of a text, the
  time, whether the mouse is over a box) is an argument.
\<close>

section \<open>Drawing commands\<close>

type_synonym vec = "rat \<times> rat"
type_synonym box = "vec \<times> vec"

text \<open>A colour: red, green, blue and opacity.\<close>

datatype colour = Col (red: "8 word") (green: "8 word") (blue: "8 word") (alpha: "8 word")

definition colourAnd :: "colour \<Rightarrow> colour \<Rightarrow> colour" where
  "colourAnd c d = Col (red c AND red d) (green c AND green d) (blue c AND blue d) (alpha c AND alpha d)"

datatype draw_cmd =
    RectFilled box colour rat
  | RectOutline box colour rat rat
  | CircleFilled vec rat colour
  | CircleOutline vec rat colour rat
  | Line vec vec colour rat
  | QuadFilled vec vec vec vec colour
  | ArcTo vec rat rat rat
  | StrokePath colour rat
  | Label vec colour string
  | Icon rat vec colour
  | PushClip box
  | PopClip

section \<open>Boxes\<close>

definition linkNodeStatusCenter :: "box \<Rightarrow> vec" where
  "linkNodeStatusCenter b = (case b of ((x0, y0), (x1, y1)) \<Rightarrow> (f32 (x1 - 18), f32 (f32 (y0 + y1) / 2)))"

definition linkNodeInfoCenter :: "box \<Rightarrow> vec" where
  "linkNodeInfoCenter b = (case b of ((x0, y0), (x1, y1)) \<Rightarrow> (f32 (x1 - 40), f32 (f32 (y0 + y1) / 2)))"

definition linkNodePowerCenter :: "box \<Rightarrow> vec" where
  "linkNodePowerCenter b = (case b of ((x0, y0), (x1, y1)) \<Rightarrow> (f32 (x0 + 18), f32 (f32 (y0 + y1) / 2)))"

definition centeredRect :: "vec \<Rightarrow> rat \<Rightarrow> box" where
  "centeredRect center extent = (case center of (x, y) \<Rightarrow>
     ((f32 (x - f32 (extent / 2)), f32 (y - f32 (extent / 2))), (f32 (x + f32 (extent / 2)), f32 (y + f32 (extent / 2)))))"

text \<open>Whether a box is clicked, hovered and held; an empty box is none of them.\<close>

record mouse =
  mo_hovers :: "box \<Rightarrow> bool"
  mo_down :: bool
  mo_clicked :: bool

definition emptyBox :: "box \<Rightarrow> bool" where
  "emptyBox b = (case b of ((x0, y0), (x1, y1)) \<Rightarrow> x1 \<le> x0 \<or> y1 \<le> y0)"

definition hitTestRect :: "mouse \<Rightarrow> box \<Rightarrow> bool \<Rightarrow> bool \<times> bool \<times> bool" where
  "hitTestRect mouse b disabled =
     (if emptyBox b then (False, False, False)
      else (mo_hovers mouse b \<and> \<not> disabled \<and> mo_clicked mouse, mo_hovers mouse b,
            mo_hovers mouse b \<and> \<not> disabled \<and> mo_down mouse))"

definition clampTo :: "rat \<Rightarrow> rat \<Rightarrow> rat \<Rightarrow> rat" where
  "clampTo v lo hi = (if v < lo then lo else if hi < v then hi else v)"

text \<open>The widths of the two nodes of a row, and the boxes of the row at the cursor.\<close>

definition availableNodeWidth :: "rat \<Rightarrow> rat" where
  "availableNodeWidth rowWidth = max 1 (f32 (f32 (rowWidth - 8) - 56))"

definition nodeWidths :: "rat \<Rightarrow> rat \<times> rat" where
  "nodeWidths available =
     (let hostWidth = clampTo (f32 (available * f32 (46 / 100))) 220 360;
          controllerWidth = clampTo (f32 (available * f32 (42 / 100))) 210 380
      in if available < f32 (hostWidth + controllerWidth)
         then (let h = (if available \<le> 2 then f32 (available / 2)
                        else clampTo (f32 (available * f32 (52 / 100))) 1 (f32 (available - 1)))
               in (h, f32 (available - h)))
         else (hostWidth, controllerWidth))"

record row_layout =
  rl_host :: box
  rl_controller :: box
  rl_wireStart :: vec
  rl_wireEnd :: vec
  rl_hostInfo :: box
  rl_hostPower :: box
  rl_hostSelector :: box
  rl_controllerInfo :: box

definition rowLayout :: "rat \<Rightarrow> vec \<Rightarrow> row_layout" where
  "rowLayout contentWidth cursor = (case cursor of (x, y) \<Rightarrow>
     (let rowWidth = max (f32 (contentWidth - 4)) 72;
          right = f32 (x + rowWidth);
          centerY = f32 (f32 (y + 2) + 20);
          widths = nodeWidths (availableNodeWidth rowWidth);
          hostLeft = f32 (x + 4); hostTop = f32 (centerY - 20);
          host = ((hostLeft, hostTop), (f32 (hostLeft + fst widths), f32 (hostTop + 40)));
          controllerRight = f32 (right - 4);
          controller = ((f32 (controllerRight - snd widths), f32 (centerY - 20)), (controllerRight, f32 (centerY + 20)));
          info = centeredRect (linkNodeInfoCenter host) 24;
          power = centeredRect (linkNodePowerCenter host) 28
      in \<lparr>rl_host = host, rl_controller = controller,
          rl_wireStart = (fst (snd host), centerY), rl_wireEnd = (fst (fst controller), centerY),
          rl_hostInfo = info, rl_hostPower = power,
          rl_hostSelector = ((f32 (fst (snd power) + 4), hostTop),
             (max hostLeft (f32 (fst (fst info) - 4)), snd (snd host))),
          rl_controllerInfo = centeredRect (linkNodeInfoCenter controller) 24\<rparr>))"

text \<open>What the mouse does in a row.\<close>

record row_hits =
  rh_selectorClicked :: bool
  rh_selectorHovered :: bool
  rh_powerClicked :: bool
  rh_powerHovered :: bool
  rh_powerActive :: bool
  rh_hostInfoHovered :: bool
  rh_controllerInfoHovered :: bool

definition rowHits :: "mouse \<Rightarrow> row_layout \<Rightarrow> bool \<Rightarrow> bool \<Rightarrow> row_hits" where
  "rowHits mouse l disabled selectorDisabled =
     (case hitTestRect mouse (rl_hostSelector l) selectorDisabled of (sc, sh, _) \<Rightarrow>
      case hitTestRect mouse (rl_hostPower l) disabled of (pc, ph, pa) \<Rightarrow>
      case hitTestRect mouse (rl_hostInfo l) False of (_, hi, _) \<Rightarrow>
      case hitTestRect mouse (rl_controllerInfo l) False of (_, ci, _) \<Rightarrow>
        \<lparr>rh_selectorClicked = sc, rh_selectorHovered = sh, rh_powerClicked = pc, rh_powerHovered = ph,
         rh_powerActive = pa, rh_hostInfoHovered = hi, rh_controllerInfoHovered = ci\<rparr>)"

section \<open>The wire\<close>

definition cutGap :: "rat \<Rightarrow> rat \<Rightarrow> rat \<times> rat \<Rightarrow> (rat \<times> rat) list" where
  "cutGap gapStart gapEnd segment =
     (if gapEnd \<le> fst segment \<or> snd segment \<le> gapStart then [segment]
      else (if fst segment < gapStart then [(fst segment, gapStart)] else []) @
           (if gapEnd < snd segment then [(gapEnd, snd segment)] else []))"

definition subtractWireGap :: "(rat \<times> rat) list \<Rightarrow> rat \<Rightarrow> rat \<Rightarrow> (rat \<times> rat) list" where
  "subtractWireGap segments gapStart gapEnd =
     (if gapEnd \<le> gapStart then segments else concat (map (cutGap gapStart gapEnd) segments))"

definition wireGaps :: "rat \<Rightarrow> rat \<Rightarrow> bool \<Rightarrow> bool \<Rightarrow> (rat \<times> rat) list" where
  "wireGaps start stop hostBreak controllerBreak =
     (let wireLength = f32 (stop - start);
          gapWidth = min 24 (max 10 (f32 (wireLength * f32 (12 / 100))));
          inset = min 44 (f32 (wireLength * f32 (32 / 100)));
          gap = (\<lambda>center. (f32 (center - f32 (gapWidth / 2)), f32 (center + f32 (gapWidth / 2))))
      in (if hostBreak then [gap (f32 (start + inset))] else []) @
         (if controllerBreak then [gap (f32 (stop - inset))] else []))"

definition wireSegments :: "rat \<Rightarrow> rat \<Rightarrow> bool \<Rightarrow> bool \<Rightarrow> (rat \<times> rat) list" where
  "wireSegments start stop hostBreak controllerBreak =
     foldl (\<lambda>segments gap. subtractWireGap segments (fst gap) (snd gap)) [(start, stop)]
       (wireGaps start stop hostBreak controllerBreak)"

text \<open>The stripes start at multiples of the spacing; the loop ends when one starts behind the wire.\<close>

partial_function (option) stripePositions :: "rat \<Rightarrow> rat \<Rightarrow> rat list option" where
  "stripePositions x stop =
     (if x < stop then Option.bind (stripePositions (f32 (x + 26)) stop) (\<lambda>xs. Some (x # xs)) else Some [])"

definition stripeOffset :: "rat \<Rightarrow> rat" where
  "stripeOffset time = (let t = f64 (time * 150) in f32 (t - 26 * of_int \<lfloor>t / 26\<rfloor>))"

definition stripesAt :: "(rat \<times> rat) list \<Rightarrow> rat \<Rightarrow> (rat \<times> rat) list" where
  "stripesAt segments x =
     filter (\<lambda>s. f32 (fst s + 2) < snd s) (map (\<lambda>segment. (max x (fst segment), min (f32 (x + 14)) (snd segment))) segments)"

definition flowColor :: colour where "flowColor = Col 66 213 142 255"
definition wireShadow :: colour where "wireShadow = Col 17 22 28 200"
definition breakColor :: colour where "breakColor = Col 238 87 78 255"

definition drawSegment :: "rat \<Rightarrow> bool \<Rightarrow> rat \<times> rat \<Rightarrow> draw_cmd list" where
  "drawSegment y lit segment =
     (if snd segment \<le> fst segment then []
      else [Line (fst segment, f32 (y + 1)) (snd segment, f32 (y + 1)) wireShadow 6,
            Line (fst segment, y) (snd segment, y) (if lit then Col 20 88 56 255 else Col 87 98 112 210)
              (f32 ((if lit then 32 else 22) / 10))])"

definition drawStripe :: "rat \<Rightarrow> rat \<times> rat \<Rightarrow> draw_cmd" where
  "drawStripe y s =
     (let upper = f32 (y - f32 (21 / 10)); lower = f32 (y + f32 (21 / 10))
      in QuadFilled (f32 (fst s + 4), upper) (f32 (snd s + 4), upper) (f32 (snd s - 4), lower) (f32 (fst s - 4), lower) flowColor)"

definition drawBreak :: "rat \<Rightarrow> rat \<times> rat \<Rightarrow> draw_cmd list" where
  "drawBreak y gap =
     (let leftX = f32 (fst gap + 3); rightX = f32 (snd gap - 3); width = f32 (22 / 10)
      in [Line (leftX, f32 (y - 8)) (f32 (leftX + 8), f32 (y + 8)) breakColor width,
          Line (f32 (rightX - 8), f32 (y - 8)) (rightX, f32 (y + 8)) breakColor width])"

definition wireStripes :: "rat \<Rightarrow> (rat \<times> rat) list \<Rightarrow> rat \<Rightarrow> rat \<Rightarrow> (rat \<times> rat) list option" where
  "wireStripes time segments start stop =
     map_option (\<lambda>xs. concat (map (stripesAt segments) xs))
       (stripePositions (f32 (f32 (start - 26) + stripeOffset time)) stop)"

definition drawVirtualWire :: "rat \<Rightarrow> vec \<Rightarrow> vec \<Rightarrow> bool \<Rightarrow> bool \<Rightarrow> bool \<Rightarrow> bool \<Rightarrow> draw_cmd list option" where
  "drawVirtualWire time start stop lit flowing hostBreak controllerBreak =
     (if fst stop \<le> f32 (fst start + 4) then Some []
      else (let segments = wireSegments (fst start) (fst stop) hostBreak controllerBreak;
                gaps = wireGaps (fst start) (fst stop) hostBreak controllerBreak;
                y = snd start
            in map_option (\<lambda>stripes. concat (map (drawSegment y lit) segments) @ map (drawStripe y) stripes @
                                     concat (map (drawBreak y) gaps))
                 (if flowing then wireStripes time segments (fst start) (fst stop) else Some [])))"

section \<open>Lights, buttons and labels\<close>

definition drawStatusLight :: "vec \<Rightarrow> rat \<Rightarrow> colour \<Rightarrow> bool \<Rightarrow> draw_cmd list" where
  "drawStatusLight center radius color glow =
     (if glow then [CircleFilled center (f32 (radius * f32 (21 / 10))) (colourAnd color (Col 255 255 255 55))] else []) @
     [CircleFilled center radius color, CircleOutline center radius (Col 255 255 255 110) 1]"

definition drawInfoIcon :: "vec \<Rightarrow> vec \<Rightarrow> bool \<Rightarrow> draw_cmd list" where
  "drawInfoIcon iconSize center hovered =
     [Icon 13 (f32 (fst center - f32 (fst iconSize / 2)), f32 (f32 (snd center - f32 (snd iconSize / 2)) + 1 / 2))
        (if hovered then Col 225 235 245 255 else Col 139 154 171 220)]"

definition powerFill :: "bool \<Rightarrow> bool \<Rightarrow> bool \<Rightarrow> bool \<Rightarrow> bool \<Rightarrow> colour" where
  "powerFill selected pending disabled hovered active =
     (if disabled then Col 42 47 54 150 else if active then Col 218 145 65 255
      else if pending then Col 142 103 28 255 else if selected \<or> pending then Col 174 84 0 255
      else if hovered then Col 39 47 57 255 else Col 20 25 32 245)"

definition powerBorder :: "bool \<Rightarrow> bool \<Rightarrow> bool \<Rightarrow> colour" where
  "powerBorder powered disabled hovered =
     (if disabled then Col 96 104 114 130 else if powered then Col 216 132 24 255
      else if hovered then Col 150 160 172 240 else Col 92 106 124 220)"

definition powerIcon :: "bool \<Rightarrow> bool \<Rightarrow> bool \<Rightarrow> colour" where
  "powerIcon powered disabled hovered =
     (if disabled then Col 132 136 142 185 else if powered \<or> hovered then Col 255 255 255 255 else Col 150 166 185 235)"

definition drawPowerButton :: "vec \<Rightarrow> bool \<Rightarrow> bool \<Rightarrow> bool \<Rightarrow> bool \<Rightarrow> bool \<Rightarrow> draw_cmd list" where
  "drawPowerButton center selected pending disabled hovered active =
     (let powered = selected \<or> pending; icon = powerIcon powered disabled hovered;
          pi' = f32 (31415926535 / 10000000000); stroke = f32 (18 / 10)
      in [CircleFilled center 11 (powerFill selected pending disabled hovered active),
          CircleOutline center 11 (powerBorder powered disabled hovered) (f32 (12 / 10)),
          ArcTo center (f32 (52 / 10)) (f32 (pi' * (7 / 4))) (f32 (pi' * (13 / 4))), StrokePath icon stroke,
          Line (fst center, f32 (snd center - 7)) (fst center, f32 (snd center - f32 (12 / 10))) icon stroke])"

definition drawClippedText :: "(string \<Rightarrow> vec) \<Rightarrow> box \<Rightarrow> string \<Rightarrow> colour \<Rightarrow> draw_cmd list" where
  "drawClippedText textSize b txt' color =
     (if txt' = [] \<or> emptyBox b then []
      else (case b of ((x0, y0), (x1, y1)) \<Rightarrow>
        [PushClip b,
         Label (x0, f32 (y0 + max 0 (f32 (f32 (f32 (y1 - y0) - snd (textSize txt')) / 2)))) color txt', PopClip]))"

definition drawLinkNode :: "(string \<Rightarrow> vec) \<Rightarrow> box \<Rightarrow> string \<Rightarrow> colour \<Rightarrow> colour \<Rightarrow> colour \<Rightarrow> colour \<Rightarrow> bool \<Rightarrow>
    string \<Rightarrow> colour \<Rightarrow> bool \<Rightarrow> draw_cmd list" where
  "drawLinkNode textSize b label fill border textColor light glow secondary secondaryColor reservePowerButton =
     (case b of ((x0, y0), (x1, y1)) \<Rightarrow>
      (let textX = f32 (x0 + (if reservePowerButton then 40 else 12)); textEnd = f32 (x1 - 56);
           splitY = f32 (y0 + f32 (f32 (y1 - y0) * f32 (52 / 100)))
       in [RectFilled b fill 8, RectOutline b border 8 (f32 (12 / 10))] @
          drawStatusLight (linkNodeStatusCenter b) (55 / 10) light glow @
          (if secondary = []
           then drawClippedText textSize ((textX, f32 (y0 + 4)), (textEnd, f32 (y1 - 4))) label textColor
           else drawClippedText textSize ((textX, f32 (y0 + 2)), (textEnd, f32 (splitY + 1))) label textColor @
                drawClippedText textSize ((textX, f32 (splitY - 1)), (textEnd, f32 (y1 - 2))) secondary secondaryColor)))"

end
