(* ===== verification/Row_View.thy ===== *)
theory Row_View
  imports Gui Row_Geometry
begin

text \<open>
  What the windows of \<open>gui_main.cpp\<close> show: the row of a controller with its lights, colours, texts,
  tooltips and the choice of its host; the overview with its buttons; the default host in the
  settings; the log. Texts are lists of lines; \<open>g\<close> is the state of the window when the part is
  drawn.
\<close>

section \<open>The state of a controller\<close>

definition endpointOf :: "runtime_snapshot \<Rightarrow> string \<Rightarrow> endpoint_snapshot option" where
  "endpointOf sn controllerId = find (\<lambda>e. es_id e = controllerId) (sn_endpoints sn)"

record row_status =
  rs_active :: bool
  rs_selected :: bool
  rs_pending :: bool
  rs_online :: bool
  rs_failed :: bool
  rs_controllerOnline :: bool
  rs_flowing :: bool

definition rowStatus :: "runtime_snapshot \<Rightarrow> gui_state \<Rightarrow> discovered_snapshot \<Rightarrow> row_status" where
  "rowStatus sn g c =
     (let endpoint = endpointOf sn (dc_id c);
          active = (endpoint \<noteq> None);
          selected = (dc_id c \<in> gs_enabledControllers g);
          online = (active \<and> sn_state sn = Running)
      in \<lparr>rs_active = active, rs_selected = selected,
          rs_pending = (dc_linkable c \<and> selected \<and> \<not> active \<and>
            (gs_startInFlight g \<or> gs_stopInFlight g \<or> gs_linkSyncPending g \<or> gs_rescanInFlight g)),
          rs_online = online, rs_failed = (selected \<and> \<not> active \<and> sn_state sn = Failed),
          rs_controllerOnline = dc_linkable c,
          rs_flowing = (online \<and> (case endpoint of None \<Rightarrow> False
             | Some e \<Rightarrow> 0 < ss_receivedPoints (es_stats e) \<and> 0 < ss_observedInputPointRate (es_stats e)))\<rparr>)"

section \<open>Colours\<close>

definition hostLight :: "row_status \<Rightarrow> colour" where
  "hostLight s =
     (if rs_online s then Col 65 234 130 255 else if rs_failed s then Col 236 73 66 255
      else if rs_pending s then Col 240 188 65 255 else if rs_selected s then Col 88 164 255 255
      else Col 95 101 112 255)"

definition controllerLight :: "row_status \<Rightarrow> colour" where
  "controllerLight s =
     (if rs_active s then Col 65 234 130 255 else if \<not> rs_controllerOnline s then Col 236 73 66 255
      else if rs_selected s then Col 88 164 255 255 else Col 95 101 112 255)"

definition hostFill :: "row_status \<Rightarrow> colour" where
  "hostFill s =
     (if rs_online s then Col 20 48 39 245 else if rs_failed s then Col 58 27 28 245
      else if rs_selected s then Col 22 36 54 245 else Col 27 31 38 235)"

definition controllerFill :: "row_status \<Rightarrow> colour" where
  "controllerFill s =
     (if rs_active s then Col 20 48 39 245 else if \<not> rs_controllerOnline s then Col 58 27 28 245
      else if rs_selected s then Col 22 36 54 245 else Col 27 31 38 235)"

definition rowBorder :: "bool \<Rightarrow> colour" where
  "rowBorder lit = (if lit then Col 86 210 142 230 else Col 82 98 118 190)"

definition hostBorder :: "row_status \<Rightarrow> bool \<Rightarrow> colour" where
  "hostBorder s selectorLit = (if selectorLit then Col 128 181 222 230 else rowBorder (rs_online s))"

definition rowTextColor :: "bool \<Rightarrow> colour" where
  "rowTextColor disabled = (if disabled then Col 145 150 158 210 else Col 228 234 240 255)"

definition rowSecondaryColor :: "bool \<Rightarrow> colour" where
  "rowSecondaryColor disabled = (if disabled then Col 118 125 136 205 else Col 166 179 192 235)"

text \<open>The colour of the link's state, as fractions.\<close>

fun statusColor :: "runtime_state \<Rightarrow> rat \<times> rat \<times> rat" where
  "statusColor Running = (f32 (40 / 100), f32 (88 / 100), f32 (55 / 100))"
| "statusColor Scanning = (f32 (95 / 100), f32 (78 / 100), f32 (32 / 100))"
| "statusColor Starting = (f32 (95 / 100), f32 (78 / 100), f32 (32 / 100))"
| "statusColor StopRequested = (f32 (95 / 100), f32 (78 / 100), f32 (32 / 100))"
| "statusColor Failed = (f32 (95 / 100), f32 (34 / 100), f32 (34 / 100))"
| "statusColor Stopped = (f32 (68 / 100), f32 (72 / 100), f32 (78 / 100))"

section \<open>Texts of a row\<close>

definition hostInfoForId :: "'h registry \<Rightarrow> string \<Rightarrow> vc_host_info option" where
  "hostInfoForId reg hostId = find (\<lambda>info. hi_id info = hostId) (availableVirtualControllerHosts reg)"

definition hostDisplayName :: "'h registry \<Rightarrow> string \<Rightarrow> string" where
  "hostDisplayName reg hostId =
     (case hostInfoForId reg hostId of
        Some info \<Rightarrow> hi_displayName info
      | None \<Rightarrow> if hostId \<noteq> [] then hostId else ''Virtual Controller'')"

definition usingDefaultHost :: "gui_state \<Rightarrow> string \<Rightarrow> bool" where
  "usingDefaultHost g controllerId \<longleftrightarrow>
     (case fmlookup (gs_controllerHostRoutes g) controllerId of None \<Rightarrow> True | Some h \<Rightarrow> h = [])"

definition hostProtocolLabel :: "'h registry \<Rightarrow> runtime_snapshot \<Rightarrow> gui_state \<Rightarrow> discovered_snapshot \<Rightarrow> string" where
  "hostProtocolLabel reg sn g c =
     (let configured = hostDisplayName reg (configuredHostId g (dc_id c)) in
      case endpointOf sn (dc_id c) of
        None \<Rightarrow> configured
      | Some e \<Rightarrow> if es_hostDisplayName e \<noteq> [] then es_hostDisplayName e else configured)"

definition hostDacLabel :: "runtime_snapshot \<Rightarrow> discovered_snapshot \<Rightarrow> string" where
  "hostDacLabel sn c =
     (case Option.bind (endpointOf sn (dc_id c)) es_endpoint of
        None \<Rightarrow> dc_label c
      | Some e \<Rightarrow> if ep_label e \<noteq> [] then ep_label e else dc_label c)"

definition rowAddressLabel :: "runtime_snapshot \<Rightarrow> discovered_snapshot \<Rightarrow> string" where
  "rowAddressLabel sn c = endpointAddressLabel (Option.bind (endpointOf sn (dc_id c)) es_endpoint)"

datatype line = Plain string | Dimmed string | Wrapped string | Coloured "rat \<times> rat \<times> rat" string | Separator

definition lastErrorLines :: "runtime_snapshot \<Rightarrow> bool \<Rightarrow> line list" where
  "lastErrorLines sn failed =
     (if sn_lastError sn \<noteq> [] \<and> failed then [Separator, Wrapped (''Last error: '' @ sn_lastError sn)] else [])"

definition addressLines :: "runtime_snapshot \<Rightarrow> discovered_snapshot \<Rightarrow> line list" where
  "addressLines sn c =
     (if rowAddressLabel sn c \<noteq> [] then [Dimmed (''Address: '' @ rowAddressLabel sn c)] else [])"

definition hostTooltip :: "'h registry \<Rightarrow> runtime_snapshot \<Rightarrow> gui_state \<Rightarrow> discovered_snapshot \<Rightarrow> line list" where
  "hostTooltip reg sn g c =
     (let configured = configuredHostId g (dc_id c) in
      [Plain (hostDacLabel sn c), Dimmed (''Protocol: '' @ hostProtocolLabel reg sn g c)] @
      (case hostInfoForId reg configured of
         Some info \<Rightarrow> [Dimmed (''ID: '' @ hi_id info)]
       | None \<Rightarrow> if configured \<noteq> [] then [Dimmed (''ID: '' @ configured)] else []) @
      [Dimmed (''Route: '' @ (if usingDefaultHost g (dc_id c) then ''Default'' else ''Per-controller''))] @
      addressLines sn c @ [Plain (''State: '' @ hostStateLabel sn g c)] @
      lastErrorLines sn (rs_failed (rowStatus sn g c)))"

definition controllerTooltip :: "runtime_snapshot \<Rightarrow> gui_state \<Rightarrow> discovered_snapshot \<Rightarrow> line list" where
  "controllerTooltip sn g c =
     [Plain (dc_label c), Plain (''Type: '' @ dc_type c), Dimmed (''ID: '' @ dc_id c)] @
     addressLines sn c @ [Plain (''State: '' @ controllerStateLabel sn g c)] @
     (if dc_note c \<noteq> [] then [Separator, Wrapped (''Reason: '' @ dc_note c)] else []) @
     lastErrorLines sn (rs_failed (rowStatus sn g c))"

text \<open>The tooltip that is shown, if any.\<close>

definition rowTooltip ::
  "'h registry \<Rightarrow> runtime_snapshot \<Rightarrow> gui_state \<Rightarrow> discovered_snapshot \<Rightarrow> row_hits \<Rightarrow> bool \<Rightarrow> line list option" where
  "rowTooltip reg sn g c hits popupOpen =
     (if popupOpen then None
      else if rh_controllerInfoHovered hits then Some (controllerTooltip sn g c)
      else if rh_hostInfoHovered hits then Some (hostTooltip reg sn g c) else None)"

text \<open>The choice of a host: for each entry its label, whether it is marked, and what is clicked.\<close>

definition routeChoices :: "'h registry \<Rightarrow> gui_state \<Rightarrow> string \<Rightarrow> (string \<times> bool \<times> gui_action) list" where
  "routeChoices reg g controllerId =
     (''Default: '' @ hostDisplayName reg (lo_virtualControllerHostId (gs_linkOptions g)), usingDefaultHost g controllerId,
        RouteDefaultClicked controllerId) #
     map (\<lambda>info. (hi_displayName info,
            \<not> usingDefaultHost g controllerId \<and> configuredHostId g controllerId = hi_id info,
            RouteHostClicked controllerId (hi_id info)))
       (availableVirtualControllerHosts reg)"

section \<open>Drawing a row\<close>

definition drawRow ::
  "'h registry \<Rightarrow> runtime_snapshot \<Rightarrow> gui_state \<Rightarrow> discovered_snapshot \<Rightarrow> (string \<Rightarrow> vec) \<Rightarrow> vec \<Rightarrow> rat \<Rightarrow>
   row_layout \<Rightarrow> row_hits \<Rightarrow> draw_cmd list option" where
  "drawRow reg sn g c textSize iconSize time l hits =
     (let s = rowStatus sn g c;
          disabled = (\<not> dc_linkable c);
          selectorDisabled = (disabled \<or> availableVirtualControllerHosts reg = [])
      in map_option (\<lambda>wire.
           drawLinkNode textSize (rl_host l) (hostDacLabel sn c) (hostFill s)
             (hostBorder s (rh_selectorHovered hits \<and> \<not> selectorDisabled)) (rowTextColor disabled) (hostLight s)
             (rs_online s) (hostProtocolLabel reg sn g c) (rowSecondaryColor disabled) True @
           drawPowerButton (linkNodePowerCenter (rl_host l)) (rs_selected s) (rs_pending s) disabled
             (rh_powerHovered hits) (rh_powerActive hits) @
           drawInfoIcon iconSize (linkNodeInfoCenter (rl_host l)) (rh_hostInfoHovered hits) @
           wire @
           drawLinkNode textSize (rl_controller l) (dc_label c) (controllerFill s) (rowBorder (rs_active s))
             (rowTextColor disabled) (controllerLight s) (rs_active s) [] (Col 168 178 190 235) False @
           drawInfoIcon iconSize (linkNodeInfoCenter (rl_controller l)) (rh_controllerInfoHovered hits))
         (drawVirtualWire time (rl_wireStart l) (rl_wireEnd l) (rs_online s) (rs_flowing s)
            (\<not> rs_online s) (\<not> rs_controllerOnline s)))"

text \<open>The clicks of a row: the power button, and the box that opens the choice of the host.\<close>

definition rowAction :: "row_hits \<Rightarrow> string \<Rightarrow> gui_action option" where
  "rowAction hits controllerId = (if rh_powerClicked hits then Some (PowerClicked controllerId) else None)"

section \<open>The overview\<close>

text \<open>A button: its label, whether it is disabled, and what a click on it is.\<close>

definition scanButton :: "gui_state \<Rightarrow> string \<times> bool \<times> gui_action" where
  "scanButton g =
     (if gs_scanInFlight g then (''Scanning...'', True, RescanClicked)
      else if gs_rescanInFlight g then (''Rescanning...'', True, RescanClicked)
      else (''RESCAN'', gs_startInFlight g \<or> gs_stopInFlight g, RescanClicked))"

definition linkableCount :: "runtime_snapshot \<Rightarrow> nat" where
  "linkableCount sn = length (filter dc_linkable (sn_discovered sn))"

definition selectedLinkableCount :: "runtime_snapshot \<Rightarrow> gui_state \<Rightarrow> nat" where
  "selectedLinkableCount sn g =
     length (filter (\<lambda>c. dc_linkable c \<and> dc_id c \<in> gs_enabledControllers g) (sn_discovered sn))"

definition bulkButton :: "runtime_snapshot \<Rightarrow> gui_state \<Rightarrow> string \<times> bool \<times> gui_action" where
  "bulkButton sn g =
     (if allControllersRunning sn then ''STOP ALL'' else ''START ALL'',
      taskInFlight g \<or> gs_rescanInFlight g \<or> linkableCount sn = 0, BulkClicked)"

definition errorRed :: "rat \<times> rat \<times> rat" where
  "errorRed = (f32 (95 / 100), f32 (34 / 100), f32 (34 / 100))"

definition overviewLines :: "runtime_snapshot \<Rightarrow> gui_state \<Rightarrow> line list" where
  "overviewLines sn g =
     [Coloured (statusColor (sn_state sn)) (runtimeStateLabel (sn_state sn)), Wrapped (sn_statusMessage sn),
      (if sn_lastError sn \<noteq> [] \<and> sn_state sn = Failed then Coloured errorRed (sn_lastError sn)
       else Dimmed (to_string (linkableCount sn) @ '' linkable controllers | '' @
              to_string (selectedLinkableCount sn g) @ '' enabled | '' @
              to_string (sn_startedEndpoints sn) @ '' active endpoints''))]"

definition discoveryHint :: "runtime_snapshot \<Rightarrow> line list" where
  "discoveryHint sn =
     (if sn_discovered sn = [] \<and> sn_hasDiscoveryResults sn
      then [Wrapped ''No controllers were found during the last scan. Check connections or plugins, then rescan.'']
      else if sn_discovered sn \<noteq> [] \<and> linkableCount sn = 0
      then [Wrapped ''Controllers were discovered, but none of them are currently linkable.''] else [])"

section \<open>The default host and the log\<close>

datatype host_choice = NoneRegistered | HostChoice bool string "(string \<times> bool \<times> gui_action) list" "string option"

definition defaultHostChoice :: "'h registry \<Rightarrow> gui_state \<Rightarrow> host_choice" where
  "defaultHostChoice reg g =
     (let hostId = lo_virtualControllerHostId (gs_linkOptions g); info = hostInfoForId reg hostId in
      if availableVirtualControllerHosts reg = [] then NoneRegistered
      else HostChoice (taskInFlight g \<or> gs_rescanInFlight g)
             (case info of Some i \<Rightarrow> hi_displayName i | None \<Rightarrow> hostId)
             (map (\<lambda>i. (hi_displayName i, hi_id i = hostId, DefaultHostChosen (hi_id i))) (availableVirtualControllerHosts reg))
             (case info of Some i \<Rightarrow> (if hi_description i \<noteq> [] then Some (hi_description i) else None) | None \<Rightarrow> None))"

definition logLines :: "runtime_snapshot \<Rightarrow> line list" where
  "logLines sn =
     (if sn_recentLogs sn = [] then [Dimmed ''No logs yet.'']
      else map (\<lambda>l. if sn_lastError sn \<noteq> [] \<and> l = sn_lastError sn then Coloured errorRed l else Plain l) (sn_recentLogs sn))"

end
