(* ===== verification/Row_Geometry_Thms.thy ===== *)
theory Row_Geometry_Thms
  imports Row_Geometry
begin

text \<open>
  What is drawn and clicked in a row: the wire leaves out exactly its gaps and its stripes end,
  and a click hits at most one of the power button and the host selector.
\<close>

section \<open>Sums of coordinates\<close>

lemma binexp_unique:
  assumes "pow2 e \<le> q" "q < pow2 (e + 1)"
  shows "binexp q = e"
proof -
  have q: "0 < q" using assms(1) pow2_pos(1) [of e] by linarith
  have "\<not> e < binexp q" using pow2_le [of "e + 1" "binexp q"] binexp_bounds(1) [OF q] assms(2) by auto
  moreover have "\<not> binexp q < e" using pow2_le [of "binexp q + 1" e] binexp_bounds(2) [OF q] assms(1) by auto
  ultimately show ?thesis by simp
qed

lemma fround_idem [simp]:
  assumes "0 < p"
  shows "fround p (fround p q) = fround p q"
proof -
  have pos: "fround p (fround_pos p r) = fround_pos p r" if r: "0 < r" for r
  proof (cases "fround_pos p r = pow2 (binexp r + 1)")
    case True
    then show ?thesis using assms by simp
  next
    case False
    let ?u = "pow2 (binexp r + 1 - int p)"
    have b: "binexp (fround_pos p r) = binexp r"
      using fround_pos_bounds [OF r assms] False by (intro binexp_unique) simp_all
    have d: "fround_pos p r = of_int (round_even (r / ?u)) * ?u" by (simp add: fround_pos_def Let_def)
    then have "fround_pos p r / ?u = of_int (round_even (r / ?u))" by (simp add: field_simps)
    then have "fround_pos p (fround_pos p r) = of_int (round_even (r / ?u)) * ?u"
      by (simp only: fround_pos_def [of p "fround_pos p r"] b Let_def round_even_of_int)
    then show ?thesis using fround_pos_ge0 [OF r assms] d by (simp add: fround_def)
  qed
  consider "q = 0" | "0 < q" | "q < 0" by linarith
  then show ?thesis
  proof cases
    case 2
    with pos [of q] show ?thesis by (simp add: fround_def [of p q])
  next
    case 3
    with pos [of "- q"] show ?thesis by (simp add: fround_def [of p q])
  qed simp
qed

lemma f32_integer:
  assumes "\<bar>k\<bar> < 2 ^ 24"
  shows "f32 (of_int k) = of_int k"
proof -
  consider "k = 0" | "0 < k" | "0 < - k" by linarith
  then show ?thesis
  proof cases
    case 2
    with assms show ?thesis by (intro fround_of_int) simp_all
  next
    case 3
    with assms have "f32 (of_int (- k)) = of_int (- k)" by (intro fround_of_int) simp_all
    then show ?thesis by simp
  qed simp
qed

text \<open>On a screen, a sum is rounded by less than one.\<close>

lemma f32_sum_ge:
  assumes "- (2 ^ 23) \<le> x" "x \<le> 2 ^ 23" "0 \<le> k" "k \<le> 64"
  shows "x + k - 1 < f32 (x + k)"
proof -
  let ?n = "\<lfloor>x + k\<rfloor>"
  have "x + k < of_int ?n + 1" "of_int ?n \<le> x + k" by linarith+
  with assms have "(of_int ?n :: rat) < of_int (2 ^ 24)" "of_int (- (2 ^ 24)) < (of_int ?n :: rat)" by auto
  then have "\<bar>?n\<bar> < 2 ^ 24" unfolding of_int_less_iff by linarith
  then have "of_int ?n \<le> f32 (x + k)" using fround_mono [of "of_int ?n" "x + k" 24] f32_integer by simp
  with \<open>x + k < of_int ?n + 1\<close> show ?thesis by linarith
qed

section \<open>The wire\<close>

definition covered :: "(rat \<times> rat) list \<Rightarrow> rat set" where
  "covered segments = (\<Union>s \<in> set segments. {fst s ..< snd s})"

definition in_order :: "(rat \<times> rat) list \<Rightarrow> bool" where
  "in_order segments \<longleftrightarrow> sorted_wrt (\<lambda>s t. snd s \<le> fst t) segments \<and> list_all (\<lambda>s. fst s < snd s) segments"

lemma covered_simps [simp]: "covered [] = {}" "covered (s # ss) = {fst s ..< snd s} \<union> covered ss"
  "covered (ss @ ts) = covered ss \<union> covered ts"
  by (auto simp: covered_def)

lemma cutGap_covered: "gapStart < gapEnd \<Longrightarrow> covered (cutGap gapStart gapEnd s) = {fst s ..< snd s} - {gapStart ..< gapEnd}"
  by (auto simp: cutGap_def)

lemma cutGap_order:
  assumes "gapStart < gapEnd" "fst s < snd s"
  shows "in_order (cutGap gapStart gapEnd s)" "t \<in> set (cutGap gapStart gapEnd s) \<Longrightarrow> fst s \<le> fst t \<and> snd t \<le> snd s"
  using assms by (auto simp: cutGap_def in_order_def split: if_splits)

lemma in_order_append:
  "in_order (ss @ ts) \<longleftrightarrow> in_order ss \<and> in_order ts \<and> (\<forall>s \<in> set ss. \<forall>t \<in> set ts. snd s \<le> fst t)"
  by (auto simp: in_order_def sorted_wrt_append)

lemma subtract_covered: "covered (subtractWireGap segments gapStart gapEnd) = covered segments - {gapStart ..< gapEnd}"
proof (cases "gapEnd \<le> gapStart")
  case False
  then have "covered (concat (map (cutGap gapStart gapEnd) segments)) = covered segments - {gapStart ..< gapEnd}"
    by (induction segments) (auto simp: cutGap_covered)
  with False show ?thesis by (simp add: subtractWireGap_def)
qed (simp add: subtractWireGap_def)

lemma cut_within:
  assumes "gapStart < gapEnd" "list_all (\<lambda>s. fst s < snd s) segments" "t \<in> set (concat (map (cutGap gapStart gapEnd) segments))"
  shows "\<exists>s \<in> set segments. fst s \<le> fst t \<and> snd t \<le> snd s"
proof -
  obtain s where s: "s \<in> set segments" "t \<in> set (cutGap gapStart gapEnd s)" using assms(3) by auto
  then have "fst s < snd s" using assms(2) by (simp add: list_all_iff)
  with cutGap_order(2) [OF assms(1) this s(2)] s(1) show ?thesis by blast
qed

lemma subtract_order: "in_order segments \<Longrightarrow> in_order (subtractWireGap segments gapStart gapEnd)"
proof (cases "gapEnd \<le> gapStart")
  case False
  assume "in_order segments"
  then have "in_order (concat (map (cutGap gapStart gapEnd) segments))"
  proof (induction segments)
    case (Cons s ss)
    let ?rest = "concat (map (cutGap gapStart gapEnd) ss)"
    have s: "fst s < snd s" "in_order ss" "list_all (\<lambda>s. fst s < snd s) ss" "\<forall>t \<in> set ss. snd s \<le> fst t"
      using Cons.prems by (auto simp: in_order_def)
    have "snd a \<le> fst b" if a: "a \<in> set (cutGap gapStart gapEnd s)" and b: "b \<in> set ?rest" for a b
    proof -
      have g: "gapStart < gapEnd" using False by simp
      obtain t where t: "t \<in> set ss" "fst t \<le> fst b" using cut_within [OF g s(3) b] by blast
      have "snd a \<le> snd s" using cutGap_order(2) [OF g s(1) a] by simp
      also have "snd s \<le> fst t" using s(4) t(1) by blast
      finally show ?thesis using t(2) by simp
    qed
    with Cons.IH [OF s(2)] cutGap_order(1) [of gapStart gapEnd s] s(1) False show ?case
      by (simp add: in_order_append)
  qed (simp add: in_order_def)
  with False show ?thesis by (simp add: subtractWireGap_def)
qed (simp add: subtractWireGap_def)

lemma subtract_all:
  "in_order segments \<Longrightarrow>
     covered (foldl (\<lambda>ss gap. subtractWireGap ss (fst gap) (snd gap)) segments gaps) = covered segments - covered gaps \<and>
     in_order (foldl (\<lambda>ss gap. subtractWireGap ss (fst gap) (snd gap)) segments gaps)"
  by (induction gaps arbitrary: segments) (auto simp: subtract_covered subtract_order)

lemma segment_within:
  assumes "covered segments \<subseteq> {start ..< stop}" "in_order segments" "s \<in> set segments"
  shows "start \<le> fst s" "fst s < stop"
proof -
  have "fst s < snd s" using assms(2,3) by (auto simp: in_order_def list_all_iff)
  then have "fst s \<in> covered segments" using assms(3) by (auto simp: covered_def)
  then show "start \<le> fst s" "fst s < stop" using assms(1) by auto
qed

section \<open>The stripes\<close>

lemma stripePositions_end:
  assumes "- (2 ^ 23) \<le> x" "stop \<le> 2 ^ 22"
  shows "\<exists>xs. stripePositions x stop = Some xs \<and> list_all (\<lambda>y. x \<le> y \<and> y < stop) xs"
  using assms(1)
proof (induction "nat \<lceil>stop - x\<rceil>" arbitrary: x rule: less_induct)
  case less
  show ?case
  proof (cases "x < stop")
    case True
    let ?x = "f32 (x + 26)"
    have "x + 25 < ?x" using f32_sum_ge [of x 26] less.prems True assms(2) by simp
    moreover from this have "nat \<lceil>stop - ?x\<rceil> < nat \<lceil>stop - x\<rceil>" using True by linarith
    ultimately obtain xs where "stripePositions ?x stop = Some xs" "list_all (\<lambda>y. ?x \<le> y \<and> y < stop) xs"
      using less.hyps [of ?x] less.prems by fastforce
    with True \<open>x + 25 < ?x\<close> show ?thesis
      by (subst stripePositions.simps) (auto simp: list_all_iff)
  qed (simp add: stripePositions.simps)
qed

lemma stripeOffset_ge: "0 \<le> stripeOffset time"
proof -
  have "26 * of_int \<lfloor>t / 26\<rfloor> \<le> (t :: rat)" for t by linarith
  then show ?thesis by (simp add: stripeOffset_def Let_def fround_nonneg)
qed

definition on_wire :: "(rat \<times> rat) list \<Rightarrow> rat \<times> rat \<Rightarrow> bool" where
  "on_wire segments stripe \<longleftrightarrow> (\<exists>s \<in> set segments. fst s \<le> fst stripe \<and> fst stripe < snd stripe \<and> snd stripe \<le> snd s)"

lemma stripesAt_on_wire:
  assumes "- (2 ^ 23) \<le> x" "x < stop" "stop \<le> 2 ^ 22" "start \<le> stop" "- (2 ^ 22) \<le> start"
    "covered segments \<subseteq> {start ..< stop}" "in_order segments"
  shows "list_all (on_wire segments) (stripesAt segments x)"
proof -
  have "on_wire segments (max x (fst s), min (f32 (x + 14)) (snd s))"
    if s: "s \<in> set segments" "f32 (max x (fst s) + 2) < min (f32 (x + 14)) (snd s)" for s
  proof -
    have "- (2 ^ 23) \<le> max x (fst s)" "max x (fst s) \<le> 2 ^ 23"
      using segment_within [OF assms(6,7) s(1)] assms(1-5) by simp_all
    from f32_sum_ge [OF this, of 2] s show ?thesis by (auto simp: on_wire_def intro!: bexI [OF _ s(1)])
  qed
  then show ?thesis by (auto simp: stripesAt_def list_all_iff)
qed

lemma list_all_concat: "list_all P (concat xss) = list_all (list_all P) xss"
  by (induction xss) auto

lemma wireStripes_end:
  assumes "- (2 ^ 22) \<le> start" "start \<le> stop" "stop \<le> 2 ^ 22" "covered segments \<subseteq> {start ..< stop}" "in_order segments"
  shows "\<exists>stripes. wireStripes time segments start stop = Some stripes \<and> list_all (on_wire segments) stripes"
proof -
  have "f32 (- (2 ^ 23)) = - (2 ^ 23)" using f32_integer [of "- (2 ^ 23)"] by simp
  then have s: "- (2 ^ 23) \<le> f32 (start - 26)" using fround_mono [of "- (2 ^ 23)" "start - 26" 24] assms(1) by simp
  have "f32 (f32 (start - 26)) \<le> f32 (f32 (start - 26) + stripeOffset time)"
    using stripeOffset_ge [of time] by (intro fround_mono) simp_all
  with s have x: "- (2 ^ 23) \<le> f32 (f32 (start - 26) + stripeOffset time)" by simp
  obtain xs where xs: "stripePositions (f32 (f32 (start - 26) + stripeOffset time)) stop = Some xs"
    "list_all (\<lambda>y. f32 (f32 (start - 26) + stripeOffset time) \<le> y \<and> y < stop) xs"
    using stripePositions_end [OF x assms(3)] by blast
  have "list_all (on_wire segments) (stripesAt segments y)" if "y \<in> set xs" for y
    using that xs(2) x assms by (intro stripesAt_on_wire [of y stop start]) (auto simp: list_all_iff)
  with xs(1) show ?thesis by (simp add: wireStripes_def list_all_concat list_all_iff)
qed


text \<open>C15: On a screen, drawing a wire ends. The segments are drawn from left to right, without
  overlap, and cover exactly the part of the wire that no gap takes away; without a break there
  is one segment, the whole wire. Every stripe that moves along the wire starts and ends on one
  segment, so that nothing flows across a gap.\<close>

theorem wire_drawn:
  assumes "- (2 ^ 22) \<le> fst start" "fst start < fst stop" "fst stop \<le> 2 ^ 22"
  shows "let segments = wireSegments (fst start) (fst stop) hostBreak controllerBreak;
      gaps = wireGaps (fst start) (fst stop) hostBreak controllerBreak in
    covered segments = {fst start ..< fst stop} - covered gaps \<and> in_order segments \<and>
    length gaps = of_bool hostBreak + of_bool controllerBreak \<and> (gaps \<noteq> [] \<or> segments = [(fst start, fst stop)]) \<and>
    (\<exists>stripes. wireStripes time segments (fst start) (fst stop) = Some stripes \<and> list_all (on_wire segments) stripes) \<and>
    drawVirtualWire time start stop lit flowing hostBreak controllerBreak \<noteq> None"
proof -
  let ?segments = "wireSegments (fst start) (fst stop) hostBreak controllerBreak"
  let ?gaps = "wireGaps (fst start) (fst stop) hostBreak controllerBreak"
  have s: "covered ?segments = {fst start ..< fst stop} - covered ?gaps \<and> in_order ?segments"
    using subtract_all [of "[(fst start, fst stop)]" ?gaps] assms(2) by (simp add: wireSegments_def in_order_def)
  then obtain stripes where w: "wireStripes time ?segments (fst start) (fst stop) = Some stripes" "list_all (on_wire ?segments) stripes"
    using wireStripes_end [of "fst start" "fst stop" ?segments time] assms by auto
  have "length ?gaps = of_bool hostBreak + of_bool controllerBreak" by (simp add: wireGaps_def Let_def)
  moreover have "?gaps \<noteq> [] \<or> ?segments = [(fst start, fst stop)]" by (cases ?gaps) (simp_all add: wireSegments_def)
  moreover have "drawVirtualWire time start stop lit flowing hostBreak controllerBreak \<noteq> None"
    using w(1) by (simp add: drawVirtualWire_def Let_def)
  ultimately show ?thesis using s w unfolding Let_def by (intro conjI exI) simp_all
qed

theorem wire_drawn_witness:
  "covered (wireSegments 100 400 True False) = {100 ..< 400} - {132 ..< 156} \<and>
   drawVirtualWire 1 (100, 20) (400, 20) True True False False \<noteq> None"
proof -
  have g: "wireGaps 100 400 True False = [(132, 156)]" by code_simp
  show ?thesis
    using wire_drawn [of "(100, 20)" "(400, 20)" True False 1 True True]
      wire_drawn [of "(100, 20)" "(400, 20)" False False 1 True True]
    by (simp add: g Let_def)
qed

section \<open>Clicks\<close>

text \<open>A box contains its left and upper edges only.\<close>

definition contains :: "box \<Rightarrow> vec \<Rightarrow> bool" where
  "contains b p = (case b of ((x0, y0), (x1, y1)) \<Rightarrow> x0 \<le> fst p \<and> fst p < x1 \<and> y0 \<le> snd p \<and> snd p < y1)"

lemma hit_contains:
  "fst (hitTestRect mouse b disabled) \<Longrightarrow> mo_hovers mouse b \<and> \<not> disabled \<and> mo_clicked mouse"
  by (auto simp: hitTestRect_def split: if_splits)

lemma selector_right_of_power: "fst (snd (rl_hostPower (rowLayout w cursor))) \<le> fst (fst (rl_hostSelector (rowLayout w cursor)))"
proof -
  have idem: "f32 x \<le> f32 (f32 x + 4)" for x
    using fround_mono [of "f32 x" "f32 x + 4" 24] by simp
  show ?thesis by (simp add: rowLayout_def Let_def centeredRect_def idem split: prod.splits)
qed

text \<open>A click in a controller's row either selects the controller, or opens the choice of its
  host, or neither, but never both; in the row of a controller that cannot be linked it does
  neither, and where there is no host, no choice is opened.\<close>

theorem row_click_unique:
  assumes "\<forall>b. mo_hovers mouse b \<longrightarrow> contains b pointer"
  shows "let h = rowHits mouse (rowLayout contentWidth cursor) disabled (disabled \<or> noHosts) in
    \<not> (rh_selectorClicked h \<and> rh_powerClicked h) \<and> \<not> (rh_selectorHovered h \<and> rh_powerHovered h) \<and>
    (disabled \<longrightarrow> \<not> rh_selectorClicked h \<and> \<not> rh_powerClicked h \<and> \<not> rh_powerActive h) \<and>
    (noHosts \<longrightarrow> \<not> rh_selectorClicked h)"
proof -
  let ?l = "rowLayout contentWidth cursor"
  have "\<not> (contains (rl_hostSelector ?l) pointer \<and> contains (rl_hostPower ?l) pointer)"
    using selector_right_of_power [of contentWidth cursor] by (auto simp: contains_def split: prod.splits)
  then have "\<not> (mo_hovers mouse (rl_hostSelector ?l) \<and> mo_hovers mouse (rl_hostPower ?l))" using assms by blast
  then show ?thesis by (auto simp: rowHits_def hitTestRect_def Let_def)
qed

lemma power_box:
  "rl_hostPower (rowLayout w (x, y)) =
     (let upper = f32 (f32 (f32 (y + 2) + 20) - 20)
      in centeredRect (f32 (f32 (x + 4) + 18), f32 (f32 (upper + f32 (upper + 40)) / 2)) 28)"
  by (simp add: rowLayout_def linkNodePowerCenter_def Let_def)

definition sample_mouse :: mouse where
  "sample_mouse = \<lparr>mo_hovers = (\<lambda>b. contains b (18, 20)), mo_down = True, mo_clicked = True\<rparr>"

theorem row_click_unique_witness:
  "let h = rowHits sample_mouse (rowLayout 700 (0, 0)) False False in rh_powerClicked h \<and> \<not> rh_selectorClicked h"
proof -
  have "rl_hostPower (rowLayout 700 (0, 0)) = ((8, 8), (36, 36))"
    unfolding power_box by (simp add: centeredRect_def)
  then have "rh_powerClicked (rowHits sample_mouse (rowLayout 700 (0, 0)) False False)"
    by (simp add: rowHits_def hitTestRect_def sample_mouse_def contains_def emptyBox_def split: prod.split)
  moreover have "\<not> (rh_selectorClicked (rowHits sample_mouse (rowLayout 700 (0, 0)) False (False \<or> False)) \<and>
      rh_powerClicked (rowHits sample_mouse (rowLayout 700 (0, 0)) False (False \<or> False)))"
    using row_click_unique [of sample_mouse "(18, 20)" 700 "(0, 0)" False False] by (simp add: sample_mouse_def Let_def)
  ultimately show ?thesis by (simp add: Let_def)
qed

end
