(* ===== verification/Row_View_Thms.thy ===== *)
theory Row_View_Thms
  imports Row_View Row_Geometry_Thms Gui_Thms
begin

text \<open>
  What the windows show agrees with what they do: lights agree with the texts beside them, the
  choice of a host marks what was chosen, and a disabled button does nothing.
\<close>

section \<open>Lights and texts\<close>

lemma endpointOf_None: "(endpointOf sn i = None) = (i \<notin> es_id ` set (sn_endpoints sn))"
  by (auto simp: endpointOf_def find_None_iff)

lemma hostStateLabel_status:
  "hostStateLabel sn g c = (let s = rowStatus sn g c in
     if rs_online s then ''Online'' else if rs_failed s then ''Failed'' else if rs_pending s then ''Starting''
     else if rs_selected s then ''Enabled'' else ''Off'')"
  by (simp only: hostStateLabel_def rowStatus_def Let_def row_status.simps endpointOf_None not_not)

lemma controllerStateLabel_status:
  "controllerStateLabel sn g c = (let s = rowStatus sn g c in
     if \<not> rs_controllerOnline s then ''Unavailable'' else if rs_active s then ''Linked''
     else if rs_pending s then ''Starting'' else if rs_selected s then ''Enabled'' else ''Off'')"
  by (simp only: controllerStateLabel_def rowStatus_def Let_def row_status.simps endpointOf_None not_not)

definition lightOf :: "string \<Rightarrow> colour" where
  "lightOf label =
     (if label = ''Online'' then Col 65 234 130 255 else if label = ''Failed'' then Col 236 73 66 255
      else if label = ''Starting'' then Col 240 188 65 255 else if label = ''Enabled'' then Col 88 164 255 255
      else Col 95 101 112 255)"

lemma host_light: "hostLight (rowStatus sn g c) = lightOf (hostStateLabel sn g c)"
  unfolding hostStateLabel_status Let_def hostLight_def lightOf_def by simp

lemma hostStateLabel_cases:
  "hostStateLabel sn g c \<in> {''Online'', ''Failed'', ''Starting'', ''Enabled'', ''Off''}"
  unfolding hostStateLabel_status Let_def by simp

lemma lightOf_inject:
  assumes "l \<in> {''Online'', ''Failed'', ''Starting'', ''Enabled'', ''Off''}"
    "m \<in> {''Online'', ''Failed'', ''Starting'', ''Enabled'', ''Off''}"
  shows "(lightOf l = lightOf m) = (l = m)"
  using assms by (auto simp: lightOf_def)

text \<open>C28: The light of a host has one colour for each of the five states its tooltip can name,
  so that light and text never disagree. The light of a controller is green exactly when the
  link has an endpoint for it; then its tooltip says that it is linked, unless the controller
  is listed as one that cannot be linked. Points are shown flowing along the wire only while the
  host is online, so never over the gap at the host.\<close>

theorem row_shows_state:
  "let s = rowStatus sn g c; s' = rowStatus sn' g' c' in
     (hostLight s = hostLight s') = (hostStateLabel sn g c = hostStateLabel sn' g' c') \<and>
     (hostLight s = Col 65 234 130 255) = (endpointOf sn (dc_id c) \<noteq> None \<and> sn_state sn = Running) \<and>
     (controllerLight s = Col 65 234 130 255) = (endpointOf sn (dc_id c) \<noteq> None) \<and>
     (controllerStateLabel sn g c = ''Linked'') = (controllerLight s = Col 65 234 130 255 \<and> dc_linkable c) \<and>
     (controllerStateLabel sn g c = ''Unavailable'') = (\<not> dc_linkable c) \<and>
     \<not> (rs_flowing s \<and> \<not> rs_online s)"
proof -
  let ?s = "rowStatus sn g c"
  have "(hostLight ?s = hostLight (rowStatus sn' g' c')) = (hostStateLabel sn g c = hostStateLabel sn' g' c')"
    unfolding host_light by (rule lightOf_inject [OF hostStateLabel_cases hostStateLabel_cases])
  moreover have "(hostLight ?s = Col 65 234 130 255) = rs_online ?s" by (simp add: hostLight_def)
  moreover have "(controllerLight ?s = Col 65 234 130 255) = rs_active ?s" by (simp add: controllerLight_def)
  moreover have "(controllerStateLabel sn g c = ''Linked'') = (rs_controllerOnline ?s \<and> rs_active ?s)"
    "(controllerStateLabel sn g c = ''Unavailable'') = (\<not> rs_controllerOnline ?s)"
    unfolding controllerStateLabel_status Let_def by simp_all
  moreover have "rs_online ?s = (endpointOf sn (dc_id c) \<noteq> None \<and> sn_state sn = Running)"
    "rs_active ?s = (endpointOf sn (dc_id c) \<noteq> None)" "rs_controllerOnline ?s = dc_linkable c"
    "\<not> (rs_flowing ?s \<and> \<not> rs_online ?s)"
    by (auto simp: rowStatus_def Let_def)
  ultimately show ?thesis unfolding Let_def by (intro conjI) auto
qed

section \<open>The choice of a host\<close>

lemma saveRoutes_state [simp]:
  "gs_controllerHostRoutes (saveRoutes g) = gs_controllerHostRoutes g" "gs_linkOptions (saveRoutes g) = gs_linkOptions g"
  by (simp_all add: saveRoutes_def)

lemma selectionChanged_state [simp]:
  "gs_controllerHostRoutes (selectionChanged g) = gs_controllerHostRoutes g"
  "gs_linkOptions (selectionChanged g) = gs_linkOptions g"
  by (simp_all add: selectionChanged_def call_def Let_def)

lemma marked_info:
  assumes "distinct (map hi_id infos)" "h \<in> hi_id ` set infos"
  shows "map hi_id (filter (\<lambda>i. h = hi_id i) infos) = [h]"
proof -
  have "map hi_id (filter (\<lambda>i. h = hi_id i) infos) = filter (\<lambda>k. h = k) (map hi_id infos)"
    by (simp add: filter_map comp_def)
  also have "\<dots> = [h]" using assms by (intro filter_only) simp_all
  finally show ?thesis .
qed

text \<open>C9: The choice of a host for a controller offers the default and every registered host. After
  one of them is clicked, exactly that one is marked, or the default if the host clicked is the
  default, and the controller is sent to the host that was clicked; only the routes of other
  controllers stay as they were.\<close>

theorem route_choice_marked:
  assumes "registry_inv reg" "controllerId \<in> dc_id ` set (sn_discovered (gi_snapshot inp))"
    "action \<in> (\<lambda>c. snd (snd c)) ` set (routeChoices reg g controllerId)"
  shows "let g' = click reg inp action g; host = lo_virtualControllerHostId (gs_linkOptions g) in
    map (\<lambda>c. snd (snd c)) (filter (\<lambda>c. fst (snd c)) (routeChoices reg g' controllerId)) =
      [if action = RouteHostClicked controllerId host then RouteDefaultClicked controllerId else action] \<and>
    configuredHostId g' controllerId =
      (case action of RouteHostClicked c h \<Rightarrow> h | _ \<Rightarrow> host) \<and>
    fmdrop controllerId (gs_controllerHostRoutes g') = fmdrop controllerId (gs_controllerHostRoutes g)"
proof -
  let ?infos = "availableVirtualControllerHosts reg" and ?host = "lo_virtualControllerHostId (gs_linkOptions g)"
  have inv: "distinct (map hi_id ?infos)" "\<forall>i \<in> set ?infos. hi_id i \<noteq> []"
    using assms(1) by (auto simp: registry_inv_def availableVirtualControllerHosts_def)
  have marks: "map (\<lambda>c. snd (snd c)) (filter (\<lambda>c. fst (snd c)) (routeChoices reg g' controllerId)) =
      (if usingDefaultHost g' controllerId then [RouteDefaultClicked controllerId]
       else map (RouteHostClicked controllerId \<circ> hi_id) (filter (\<lambda>i. configuredHostId g' controllerId = hi_id i) ?infos))" for g'
    by (simp add: routeChoices_def filter_map comp_def)
  have dropped: "usingDefaultHost g' controllerId \<and> configuredHostId g' controllerId = ?host \<and>
      fmdrop controllerId (gs_controllerHostRoutes g') = fmdrop controllerId (gs_controllerHostRoutes g)"
    if "gs_controllerHostRoutes g' = fmdrop controllerId (gs_controllerHostRoutes g)" "gs_linkOptions g' = gs_linkOptions g" for g'
    using that by (simp add: usingDefaultHost_def configuredHostId_def)
  consider "action = RouteDefaultClicked controllerId"
    | h where "action = RouteHostClicked controllerId h" "h \<in> hi_id ` set ?infos"
    using assms(3) by (auto simp: routeChoices_def)
  then show ?thesis
  proof cases
    case 1
    let ?g = "click reg inp action g"
    have "gs_controllerHostRoutes ?g = fmdrop controllerId (gs_controllerHostRoutes g)" "gs_linkOptions ?g = gs_linkOptions g"
      using 1 assms(2) by (simp_all add: clickRoute_def Let_def)
    from dropped [OF this] show ?thesis using 1 by (simp add: marks Let_def)
  next
    case 2
    let ?g = "click reg inp action g"
    have o: "gs_linkOptions ?g = gs_linkOptions g" using 2 assms(2) by (simp add: clickRoute_def Let_def)
    have r: "gs_controllerHostRoutes ?g = (if h = ?host then fmdrop controllerId (gs_controllerHostRoutes g)
        else fmupd controllerId h (gs_controllerHostRoutes g))"
      using 2 assms(2) by (simp add: clickRoute_def isAvailable_def Let_def)
    show ?thesis
    proof (cases "h = ?host")
      case True
      with r o dropped [of ?g] show ?thesis using 2 by (simp add: marks Let_def)
    next
      case False
      have "h \<noteq> []" using 2(2) inv(2) by auto
      then have "\<not> usingDefaultHost ?g controllerId" "configuredHostId ?g controllerId = h"
        using r False by (simp_all add: usingDefaultHost_def configuredHostId_def)
      moreover have "map (RouteHostClicked controllerId \<circ> hi_id) (filter (\<lambda>i. h = hi_id i) ?infos) = [RouteHostClicked controllerId h]"
        using arg_cong [OF marked_info [OF inv(1) 2(2)], of "map (RouteHostClicked controllerId)"] by simp
      ultimately show ?thesis using r False 2(1) by (simp add: marks Let_def fmdrop_fmupd_same)
    qed
  qed
qed

lemma offered_action:
  "h \<in> set (map hi_id (availableVirtualControllerHosts reg)) \<Longrightarrow>
     RouteHostClicked controllerId h \<in> (\<lambda>c. snd (snd c)) ` set (routeChoices reg g controllerId)"
  by (auto simp: routeChoices_def image_image)

definition route_input :: gui_input where
  "route_input = scanned_input\<lparr>gi_action := None\<rparr>"

theorem route_choice_marked_witness:
  "let reg = builtinRegistry True sample_proto; g = openGui reg fmempty no_files in
   configuredHostId (click reg route_input (RouteHostClicked ''1'' ''idn'') g) ''1'' = ''idn''"
proof -
  let ?reg = "builtinRegistry True sample_proto"
  let ?g = "openGui ?reg fmempty no_files"
  have "set (map hi_id (availableVirtualControllerHosts ?reg)) = {''idn'', ''libera''}"
    by (auto simp: availableVirtualControllerHosts_def builtin_infos idnRegistration_def liberaHostInfo_def)
  then have offered: "RouteHostClicked ''1'' ''idn'' \<in> (\<lambda>c. snd (snd c)) ` set (routeChoices ?reg ?g ''1'')"
    using offered_action [of "''idn''" ?reg] by simp
  have listed: "''1'' \<in> dc_id ` set (sn_discovered (gi_snapshot route_input))"
    by (simp add: route_input_def scanned_input_def scanned_snapshot_def)
  have inv: "registry_inv ?reg" by (rule builtin_registry_inv)
  note r = route_choice_marked [OF inv listed offered, unfolded Let_def]
  show ?thesis using conjunct1 [OF conjunct2 [OF r]] by (simp add: Let_def)
qed

section \<open>Buttons\<close>

lemma disabled_scan: "fst (snd (scanButton g)) = (click reg inp RescanClicked g = g)"
proof (cases "fst (snd (scanButton g))")
  case True
  then have "gs_scanInFlight g \<or> gs_rescanInFlight g \<or> gs_startInFlight g \<or> gs_stopInFlight g"
    by (auto simp: scanButton_def split: if_splits)
  with True show ?thesis by (simp add: clickRescan_def)
next
  case False
  then have f: "\<not> gs_scanInFlight g" "\<not> gs_rescanInFlight g" "\<not> gs_startInFlight g" "\<not> gs_stopInFlight g"
    by (auto simp: scanButton_def split: if_splits)
  have "gs_rescanInFlight (click reg inp RescanClicked g) \<or> gs_scanInFlight (click reg inp RescanClicked g)"
    using f by (simp add: clickRescan_def launchScan_def call_def)
  with f False show ?thesis by metis
qed

lemma linkable_none: "(linkableCount sn = 0) = (linkableIds sn = {})"
  by (auto simp: linkableCount_def linkableIds_def filter_empty_conv)

lemma disabled_bulk: "fst (snd (bulkButton (gi_snapshot inp) g)) \<Longrightarrow> click reg inp BulkClicked g = g"
  by (auto simp: bulkButton_def clickBulk_def linkable_none)

lemma default_choices:
  "defaultHostChoice reg g = HostChoice True preview choices desc \<Longrightarrow> click reg inp (DefaultHostChosen h) g = g"
  by (auto simp: defaultHostChoice_def chooseDefaultHost_def inWindow_def Let_def split: if_splits)

lemma selected_count:
  assumes "distinct (map dc_id (sn_discovered sn))"
  shows "selectedLinkableCount sn g = card (selectedLinkableIds sn g)"
proof -
  let ?cs = "filter (\<lambda>c. dc_linkable c \<and> dc_id c \<in> gs_enabledControllers g) (sn_discovered sn)"
  have "distinct (map dc_id ?cs)" using assms by (simp add: distinct_map_filter)
  then have "card (set (map dc_id ?cs)) = length (map dc_id ?cs)" by (rule distinct_card)
  moreover have "set (map dc_id ?cs) = selectedLinkableIds sn g"
    by (auto simp: selectedLinkableIds_def linkableIds_def)
  ultimately show ?thesis by (simp add: selectedLinkableCount_def)
qed

text \<open>The scan button is disabled exactly when a click on it would change nothing; while the
  button for all controllers or the choice of the default host is disabled, neither does
  anything. The number of enabled controllers that the overview shows is the number that a start
  would link.\<close>

theorem buttons_match_clicks:
  assumes "distinct (map dc_id (sn_discovered (gi_snapshot inp)))"
  shows "fst (snd (scanButton g)) = (click reg inp RescanClicked g = g) \<and>
    (fst (snd (bulkButton (gi_snapshot inp) g)) \<longrightarrow> click reg inp BulkClicked g = g) \<and>
    (\<forall>preview choices desc. defaultHostChoice reg g = HostChoice True preview choices desc \<longrightarrow>
       click reg inp (DefaultHostChosen h) g = g) \<and>
    selectedLinkableCount (gi_snapshot inp) g = card (selectedLinkableIds (gi_snapshot inp) g) \<and>
    linkableCount (gi_snapshot inp) = card (linkableIds (gi_snapshot inp))"
proof -
  have "linkableCount (gi_snapshot inp) = card (linkableIds (gi_snapshot inp))"
    using distinct_card [of "map dc_id (filter dc_linkable (sn_discovered (gi_snapshot inp)))"] assms
    by (simp add: linkableCount_def linkableIds_def distinct_map_filter)
  then show ?thesis
    using disabled_scan disabled_bulk default_choices selected_count [OF assms] by blast
qed

theorem buttons_match_clicks_witness:
  "selectedLinkableCount (gi_snapshot scanned_input) (openGui (builtinRegistry True sample_proto) fmempty enabled_files) =
   card (selectedLinkableIds (gi_snapshot scanned_input) (openGui (builtinRegistry True sample_proto) fmempty enabled_files))"
proof -
  have "distinct (map dc_id (sn_discovered (gi_snapshot scanned_input)))"
    by (simp add: scanned_input_def scanned_snapshot_def)
  from buttons_match_clicks [OF this] show ?thesis by blast
qed

end
