(* ===== verification/Avb_Window.thy ===== *)
theory Avb_Window
  imports Settings_Thms Prelude
begin

text \<open>
  The AVB window, \<open>LiberaAvbWindow.cpp\<close>: which interfaces are used, at which rate and with which
  banks. The library that manages them is a parameter; what it offers as interfaces and banks
  is read once a second and an input of the frame that reads it. One widget is clicked in a
  frame at most; what is drawn is left out.
\<close>

section \<open>State\<close>

record avb_device =
  dv_uid :: string
  dv_pointRateMutable :: bool
  dv_supportedPointRates :: "u32 list"

text \<open>The library: its settings, and changes of them, which it may refuse.\<close>

record 'm avb_library =
  al_configured :: "'m \<Rightarrow> avb_state"
  al_setDeviceEnabled :: "string \<Rightarrow> bool \<Rightarrow> 'm \<Rightarrow> bool \<times> 'm"
  al_setPreferredPointRate :: "string \<Rightarrow> u32 \<Rightarrow> 'm \<Rightarrow> bool \<times> 'm"
  al_setHalfXYOutput :: "string \<Rightarrow> bool \<Rightarrow> 'm \<Rightarrow> bool \<times> 'm"

record avb_window_state =
  aw_wasOpen :: bool
  aw_lastRefresh :: int
  aw_devices :: "avb_device list"
  aw_controllers :: "(string \<times> string) list"
      \<comment> \<open>banks and their interfaces\<close>
  aw_lastError :: string

record 'm avb_app =
  ap_window :: avb_window_state
  ap_library :: 'm
  ap_file :: avb_file

datatype avb_click =
    RefreshClicked
  | DeviceToggled string
  | RateChosen string u32
  | HalfXYToggled string
  | ForgetClicked string
  | RetryClicked

record avb_input =
  ai_open :: bool
  ai_locked :: bool
  ai_now :: int
  ai_devices :: "avb_device list"
  ai_controllers :: "(string \<times> string) list"
  ai_saveFails :: "avb_file option"
  ai_click :: "avb_click option"

section \<open>A frame\<close>

definition setError :: "string \<Rightarrow> 'm avb_app \<Rightarrow> 'm avb_app" where
  "setError err a = a\<lparr>ap_window := (ap_window a)\<lparr>aw_lastError := err\<rparr>\<rparr>"

definition saveSettings :: "'m avb_library \<Rightarrow> string \<Rightarrow> avb_input \<Rightarrow> 'm avb_app \<Rightarrow> 'm avb_app" where
  "saveSettings lib path inp a =
     (case saveAvbSettings path (ai_saveFails inp) (al_configured lib (ap_library a)) of
        (result, file) \<Rightarrow>
          a\<lparr>ap_file := file,
            ap_window := (ap_window a)\<lparr>aw_lastError := (case result of Inl err \<Rightarrow> err | Inr u \<Rightarrow> []),
                                       aw_lastRefresh := 0\<rparr>\<rparr>)"

definition refreshDevices :: "avb_input \<Rightarrow> avb_window_state \<Rightarrow> avb_window_state" where
  "refreshDevices inp w =
     (let w1 = (if \<not> aw_wasOpen w \<or> 1000000000 \<le> ai_now inp - aw_lastRefresh w
                then w\<lparr>aw_devices := ai_devices inp, aw_controllers := ai_controllers inp, aw_lastRefresh := ai_now inp\<rparr>
                else w)
      in w1\<lparr>aw_wasOpen := True\<rparr>)"

definition usesDevice :: "'m avb_library \<Rightarrow> string \<Rightarrow> 'm avb_app \<Rightarrow> bool" where
  "usesDevice lib uid a \<longleftrightarrow> uid \<in> av_deviceUid ` set (as_configuredDevices (al_configured lib (ap_library a)))"

definition listed :: "string \<Rightarrow> 'm avb_app \<Rightarrow> bool" where
  "listed uid a \<longleftrightarrow> uid \<in> dv_uid ` set (aw_devices (ap_window a))"

text \<open>A change that the library may refuse; one it accepts is saved.\<close>

definition tryChange ::
  "'m avb_library \<Rightarrow> string \<Rightarrow> avb_input \<Rightarrow> ('m \<Rightarrow> bool \<times> 'm) \<Rightarrow> string \<Rightarrow> 'm avb_app \<Rightarrow> bool \<times> 'm avb_app" where
  "tryChange lib path inp change refusal a =
     (case change (ap_library a) of
        (True, m) \<Rightarrow> (True, saveSettings lib path inp (a\<lparr>ap_library := m\<rparr>))
      | (False, m) \<Rightarrow> (False, setError refusal (a\<lparr>ap_library := m\<rparr>)))"

text \<open>The result says whether controllers may be discovered differently now.\<close>

fun avbClick ::
  "'m avb_library \<Rightarrow> string \<Rightarrow> avb_input \<Rightarrow> avb_click \<Rightarrow> 'm avb_app \<Rightarrow> bool \<times> 'm avb_app" where
  "avbClick lib path inp RefreshClicked a =
     (False, a\<lparr>ap_window := (ap_window a)\<lparr>aw_lastRefresh := 0\<rparr>\<rparr>)"
| "avbClick lib path inp (DeviceToggled uid) a =
     (if ai_locked inp \<or> \<not> listed uid a then (False, a)
      else tryChange lib path inp (al_setDeviceEnabled lib uid (\<not> usesDevice lib uid a))
             ''This interface is no longer available. Refresh the interface list.'' a)"
| "avbClick lib path inp (RateChosen uid rate) a =
     (if ai_locked inp \<or> \<not> usesDevice lib uid a \<or>
         \<not> list_ex (\<lambda>d. dv_uid d = uid \<and> dv_pointRateMutable d \<and> rate \<in> set (dv_supportedPointRates d)) (aw_devices (ap_window a))
      then (False, a)
      else tryChange lib path inp (al_setPreferredPointRate lib uid rate)
             ''The point rate could not be changed. Refresh the interface list.'' a)"
| "avbClick lib path inp (HalfXYToggled bank) a =
     (if ai_locked inp \<or> \<not> list_ex (\<lambda>(i, uid). i = bank \<and> usesDevice lib uid a \<and> listed uid a) (aw_controllers (ap_window a))
      then (False, a)
      else (False, snd (tryChange lib path inp
             (al_setHalfXYOutput lib bank (bank \<notin> set (as_halfXYOutputControllers (al_configured lib (ap_library a)))))
             ''The bank output setting could not be changed.'' a)))"
| "avbClick lib path inp (ForgetClicked uid) a =
     (if ai_locked inp \<or> \<not> usesDevice lib uid a \<or> listed uid a then (False, a)
      else (True, saveSettings lib path inp (a\<lparr>ap_library := snd (al_setDeviceEnabled lib uid False (ap_library a))\<rparr>)))"
| "avbClick lib path inp RetryClicked a =
     (if aw_lastError (ap_window a) = [] then (False, a) else (False, saveSettings lib path inp a))"

definition drawAvbWindow :: "'m avb_library \<Rightarrow> string \<Rightarrow> avb_input \<Rightarrow> 'm avb_app \<Rightarrow> bool \<times> 'm avb_app" where
  "drawAvbWindow lib path inp a =
     (if \<not> ai_open inp then (False, a\<lparr>ap_window := (ap_window a)\<lparr>aw_wasOpen := False\<rparr>\<rparr>)
      else
        let a1 = a\<lparr>ap_window := refreshDevices inp (ap_window a)\<rparr>
        in case ai_click inp of None \<Rightarrow> (False, a1) | Some c \<Rightarrow> avbClick lib path inp c a1)"

text \<open>The application starts with the file loaded, and its message in the window.\<close>

definition startAvb :: "'m avb_library \<Rightarrow> string \<Rightarrow> avb_file \<Rightarrow> 'm \<Rightarrow> 'm avb_app" where
  "startAvb lib path file m =
     \<lparr>ap_window = \<lparr>aw_wasOpen = False, aw_lastRefresh = 0, aw_devices = [], aw_controllers = [],
        aw_lastError = (case fst (loadAvbSettings path file no_avb) of Inl err \<Rightarrow> err | Inr u \<Rightarrow> [])\<rparr>,
      ap_library = m, ap_file = file\<rparr>"

section \<open>Properties\<close>

text \<open>What the window relies on: a change that is refused changes nothing, and identifiers and
  rates stay such that a file can hold them.\<close>

definition keepsSettings :: "'m avb_library \<Rightarrow> ('m \<Rightarrow> bool \<times> 'm) \<Rightarrow> bool" where
  "keepsSettings lib change \<longleftrightarrow>
     (\<forall>m. (\<not> fst (change m) \<longrightarrow> al_configured lib (snd (change m)) = al_configured lib m) \<and>
          (avb_storable (al_configured lib m) \<longrightarrow> avb_storable (al_configured lib (snd (change m)))))"

definition library_ok :: "'m avb_library \<Rightarrow> bool" where
  "library_ok lib \<longleftrightarrow>
     (\<forall>uid b. keepsSettings lib (al_setDeviceEnabled lib uid b)) \<and>
     (\<forall>uid r. r \<noteq> 0 \<longrightarrow> keepsSettings lib (al_setPreferredPointRate lib uid r)) \<and>
     (\<forall>bank b. keepsSettings lib (al_setHalfXYOutput lib bank b))"

definition saved :: "'m avb_library \<Rightarrow> string \<Rightarrow> 'm avb_app \<Rightarrow> bool" where
  "saved lib path a \<longleftrightarrow> avb_storable (al_configured lib (ap_library a)) \<and>
     (aw_lastError (ap_window a) = [] \<longrightarrow>
        loadAvbSettings path (ap_file a) no_avb = (Inr (), al_configured lib (ap_library a)))"

lemma saveSettings_saved:
  "avb_storable (al_configured lib (ap_library a)) \<Longrightarrow> saved lib path (saveSettings lib path inp a)"
  using avb_text_read [of "al_configured lib (ap_library a)"]
  by (auto simp: saved_def saveSettings_def saveAvbSettings_def loadAvbSettings_def split: option.splits)

lemma tryChange_saved:
  assumes "saved lib path a" "keepsSettings lib change" "refusal \<noteq> []"
  shows "saved lib path (snd (tryChange lib path inp change refusal a))"
proof -
  obtain b m where c: "change (ap_library a) = (b, m)" by fastforce
  with assms(1,2) have "avb_storable (al_configured lib m)"
    unfolding keepsSettings_def saved_def by (metis snd_conv)
  then show ?thesis
    using c assms(3) saveSettings_saved [of lib "a\<lparr>ap_library := m\<rparr>"]
    by (cases b) (simp_all add: tryChange_def setError_def saved_def)
qed

lemma saved_cong:
  "ap_library a = ap_library b \<Longrightarrow> ap_file a = ap_file b \<Longrightarrow>
     aw_lastError (ap_window a) = aw_lastError (ap_window b) \<Longrightarrow> saved lib path a = saved lib path b"
  by (simp add: saved_def)

text \<open>Rates on offer are not zero.\<close>

definition rates_ok :: "avb_device list \<Rightarrow> bool" where
  "rates_ok ds \<longleftrightarrow> list_all (\<lambda>d. 0 \<notin> set (dv_supportedPointRates d)) ds"

lemma click_keeps_saved:
  assumes "saved lib path a" "library_ok lib" "rates_ok (aw_devices (ap_window a))"
  shows "saved lib path (snd (avbClick lib path inp c a))"
proof (cases c)
  case RefreshClicked
  have "saved lib path (a\<lparr>ap_window := (ap_window a)\<lparr>aw_lastRefresh := 0\<rparr>\<rparr>) = saved lib path a"
    by (rule saved_cong) simp_all
  with RefreshClicked assms(1) show ?thesis by simp
next
  case (DeviceToggled uid)
  then show ?thesis using assms tryChange_saved [OF assms(1)] by (simp add: library_ok_def)
next
  case (RateChosen uid rate)
  have "rate \<noteq> 0" if "list_ex (\<lambda>d. dv_uid d = uid \<and> dv_pointRateMutable d \<and> rate \<in> set (dv_supportedPointRates d)) (aw_devices (ap_window a))"
    using that assms(3) by (auto simp: list_ex_iff rates_ok_def list_all_iff)
  then show ?thesis using RateChosen assms tryChange_saved [OF assms(1)] by (simp add: library_ok_def)
next
  case (HalfXYToggled bank)
  then show ?thesis using assms tryChange_saved [OF assms(1)] by (simp add: library_ok_def)
next
  case (ForgetClicked uid)
  have "keepsSettings lib (al_setDeviceEnabled lib uid False)" using assms(2) by (simp add: library_ok_def)
  with assms(1) have "avb_storable (al_configured lib (snd (al_setDeviceEnabled lib uid False (ap_library a))))"
    unfolding keepsSettings_def saved_def by blast
  with ForgetClicked assms(1) show ?thesis by (simp add: saveSettings_saved)
next
  case RetryClicked
  have "avb_storable (al_configured lib (ap_library a))" using assms(1) by (simp add: saved_def)
  with RetryClicked show ?thesis by (simp add: saveSettings_saved assms(1))
qed

lemma frame_keeps_saved:
  assumes "saved lib path a" "library_ok lib" "rates_ok (aw_devices (ap_window a))" "rates_ok (ai_devices inp)"
  shows "saved lib path (snd (drawAvbWindow lib path inp a)) \<and> rates_ok (aw_devices (ap_window (snd (drawAvbWindow lib path inp a))))"
proof -
  let ?a1 = "a\<lparr>ap_window := refreshDevices inp (ap_window a)\<rparr>"
  have 1: "saved lib path ?a1 = saved lib path a" "saved lib path (a\<lparr>ap_window := (ap_window a)\<lparr>aw_wasOpen := False\<rparr>\<rparr>) = saved lib path a"
    by (rule saved_cong; simp add: refreshDevices_def Let_def)+
  have r: "rates_ok (aw_devices (ap_window ?a1))" using assms(3,4) by (simp add: refreshDevices_def Let_def)
  have s: "saved lib path (snd (avbClick lib path inp c ?a1))" for c by (rule click_keeps_saved [OF _ assms(2) r]) (simp add: 1 assms(1))
  have "aw_devices (ap_window (snd (avbClick lib path inp c b))) = aw_devices (ap_window b)" for c b
    by (cases c) (simp_all add: tryChange_def saveSettings_def setError_def split: prod.splits bool.splits)
  then show ?thesis using 1 s r assms(1,3) by (simp add: drawAvbWindow_def Let_def split: option.split)
qed

text \<open>The application after a series of frames.\<close>

definition runAvb :: "'m avb_library \<Rightarrow> string \<Rightarrow> avb_input list \<Rightarrow> 'm avb_app \<Rightarrow> 'm avb_app" where
  "runAvb lib path inps a = fold (\<lambda>inp a. snd (drawAvbWindow lib path inp a)) inps a"

text \<open>C35: Whatever is clicked in the AVB window, unless it shows an error the file holds the
  settings of the library, so that the next start of the application has them; and while the
  window is locked, no settings change and no new discovery is asked for. The library is
  assumed to change nothing when it refuses, and to keep identifiers and rates that a file can
  hold.\<close>

theorem avb_window_saved:
  assumes "library_ok lib" "al_configured lib m = snd (loadAvbSettings path file no_avb)"
    "avb_storable (al_configured lib m)" "\<forall>inp \<in> set inps. rates_ok (ai_devices inp)"
  shows "let a = runAvb lib path inps (startAvb lib path file m) in
    (aw_lastError (ap_window a) \<noteq> [] \<or>
     loadAvbSettings path (ap_file a) no_avb = (Inr (), al_configured lib (ap_library a))) \<and>
    (\<forall>inp. ai_locked inp \<longrightarrow> \<not> fst (drawAvbWindow lib path inp a) \<and>
       ap_library (snd (drawAvbWindow lib path inp a)) = ap_library a)"
proof -
  let ?a = "startAvb lib path file m"
  have "saved lib path ?a"
    using assms(2,3) by (cases "loadAvbSettings path file no_avb") (auto simp: saved_def startAvb_def loadAvbSettings_def
        invalidLine_def split: avb_file.splits sum.splits)
  moreover have "rates_ok (aw_devices (ap_window ?a))" by (simp add: startAvb_def rates_ok_def)
  moreover have "saved lib path (runAvb lib path inps b)"
    if "saved lib path b" "rates_ok (aw_devices (ap_window b))" "\<forall>inp \<in> set inps. rates_ok (ai_devices inp)" for b
    using that
  proof (induction inps arbitrary: b)
    case (Cons inp inps)
    with frame_keeps_saved [OF Cons.prems(1) assms(1) Cons.prems(2), of inp] show ?case by (simp add: runAvb_def)
  qed (simp add: runAvb_def)
  ultimately have "saved lib path (runAvb lib path inps ?a)" using assms(4) by blast
  moreover have "\<not> fst (drawAvbWindow lib path inp b) \<and> ap_library (snd (drawAvbWindow lib path inp b)) = ap_library b"
    if "ai_locked inp" for inp and b :: "'a avb_app"
  proof (cases "ai_click inp")
    case (Some c)
    with that show ?thesis by (cases c) (simp_all add: drawAvbWindow_def Let_def saveSettings_def split: prod.splits)
  qed (simp add: drawAvbWindow_def Let_def)
  ultimately show ?thesis unfolding Let_def saved_def by blast
qed

text \<open>A library that keeps the interfaces in use and refuses the rest.\<close>

definition plain_avb :: "avb_state avb_library" where
  "plain_avb = \<lparr>al_configured = id,
     al_setDeviceEnabled = (\<lambda>uid enabled m.
       if uid = [] \<or> newline \<in> set uid then (False, m)
       else (True, m\<lparr>as_configuredDevices := filter (\<lambda>d. av_deviceUid d \<noteq> uid) (as_configuredDevices m) @
         (if enabled then [\<lparr>av_deviceUid = uid, av_preferredPointRate = 48000\<rparr>] else [])\<rparr>)),
     al_setPreferredPointRate = (\<lambda>uid rate m. (False, m)), al_setHalfXYOutput = (\<lambda>bank b m. (False, m))\<rparr>"

lemma plain_avb_ok: "library_ok plain_avb"
  by (auto simp: library_ok_def keepsSettings_def plain_avb_def avb_storable_def)

definition toggle_input :: avb_input where
  "toggle_input = \<lparr>ai_open = True, ai_locked = False, ai_now = 0,
     ai_devices = [\<lparr>dv_uid = ''a'', dv_pointRateMutable = False, dv_supportedPointRates = []\<rparr>],
     ai_controllers = [], ai_saveFails = None, ai_click = Some (DeviceToggled ''a'')\<rparr>"

theorem avb_window_saved_witness:
  "\<exists>file. loadAvbSettings ''avb'' file no_avb =
     (Inr (), \<lparr>as_configuredDevices = [\<lparr>av_deviceUid = ''a'', av_preferredPointRate = 48000\<rparr>], as_halfXYOutputControllers = []\<rparr>)"
proof -
  let ?a = "runAvb plain_avb ''avb'' [toggle_input] (startAvb plain_avb ''avb'' AvbAbsent no_avb)"
  have a: "aw_lastError (ap_window ?a) = []" "al_configured plain_avb (ap_library ?a) =
      \<lparr>as_configuredDevices = [\<lparr>av_deviceUid = ''a'', av_preferredPointRate = 48000\<rparr>], as_halfXYOutputControllers = []\<rparr>"
    by (simp_all add: runAvb_def drawAvbWindow_def toggle_input_def startAvb_def loadAvbSettings_def no_avb_def
        refreshDevices_def listed_def tryChange_def usesDevice_def plain_avb_def saveSettings_def saveAvbSettings_def Let_def)
  have "al_configured plain_avb no_avb = snd (loadAvbSettings ''avb'' AvbAbsent no_avb)"
    "avb_storable (al_configured plain_avb no_avb)" "\<forall>inp \<in> set [toggle_input]. rates_ok (ai_devices inp)"
    by (simp_all add: plain_avb_def loadAvbSettings_def avb_storable_def no_avb_def toggle_input_def rates_ok_def)
  from avb_window_saved [OF plain_avb_ok this] a show ?thesis unfolding Let_def by metis
qed

end
