(* ===== verification/Traffic.thy ===== *)
theory Traffic
  imports Libera_Server_Thms Libera_Target_Thms Idn_Thms Discovery
begin

text \<open>
  Hosts and targets together. What happens to one target is a history: the calls of the host
  that serves it, in their order, interleaved in any way with the callbacks of the laser
  controller, the status readings and the log of the monitor thread, each with the clock it
  sees. The properties connect what a host model emits with the state of the target model.
\<close>

type_synonym target_history = "(clock \<times> target_event) list"

fun run_target :: "'c controller_ops \<Rightarrow> target_history \<Rightarrow> 'c target \<Rightarrow> 'c target" where
  "run_target co [] t = t"
| "run_target co ((clk, ev) # hist) t = run_target co hist (target_step co clk ev t)"

definition host_calls :: "target_history \<Rightarrow> sink_call list" where
  "host_calls hist = List.map_filter (\<lambda>e. case snd e of Call c \<Rightarrow> Some c | _ \<Rightarrow> None) hist"

lemma host_calls_simps [simp]:
  "host_calls [] = []" "host_calls ((clk, Call c) # hist) = c # host_calls hist"
  "host_calls ((clk, Fill req) # hist) = host_calls hist" "host_calls ((clk, Status) # hist) = host_calls hist"
  "host_calls ((clk, LogTick) # hist) = host_calls hist"
  "host_calls (xs @ ys) = host_calls xs @ host_calls ys"
  by (simp_all add: host_calls_def List.map_filter_def)

lemma run_target_append [simp]: "run_target co (xs @ ys) t = run_target co ys (run_target co xs t)"
  by (induction co xs t rule: run_target.induct) simp_all

lemma run_target_reachable: "target_reachable co t \<Longrightarrow> target_reachable co (run_target co hist t)"
  by (induction co hist t rule: run_target.induct) (simp_all add: target_reachable.stepped)

text \<open>Without calls an empty queue stays empty, and then the callback gets dark points only.\<close>

lemma no_calls_empty:
  "host_calls hist = [] \<Longrightarrow> t_pendingPoints t = [] \<Longrightarrow> t_pendingPoints (run_target co hist t) = []"
proof (induction hist arbitrary: t)
  case (Cons e hist)
  obtain clk ev where e: "e = (clk, ev)" by fastforce
  with Cons.prems have "t_pendingPoints (target_step co clk ev t) = []" "host_calls hist = []"
    using fill_pending_le [of co clk _ "[]" t] by (cases ev; simp add: frame_simps)+
  with Cons.IH e show ?case by simp
qed simp

lemma history_split:
  assumes "host_calls hist = cs @ [c]"
  shows "\<exists>pre clk post. hist = pre @ (clk, Call c) # post \<and> host_calls post = []"
  using assms
proof (induction hist rule: rev_induct)
  case (snoc e hist)
  obtain clk ev where e: "e = (clk, ev)" by fastforce
  show ?case
  proof (cases ev)
    case (Call c')
    with snoc.prems e show ?thesis by (intro exI [of _ hist] exI [of _ clk] exI [of _ "[]"]) simp
  qed (use snoc e in \<open>auto simp del: append.assoc simp: append.assoc [symmetric]\<close>,
       (metis append_Cons append_Nil2 append.assoc host_calls_simps(1,3-6))+)
qed simp

lemma reset_last_empty:
  assumes "host_calls hist \<noteq> []" "last (host_calls hist) = Reset"
  shows "t_pendingPoints (run_target co hist t) = []"
proof -
  from assms obtain cs where "host_calls hist = cs @ [Reset]" by (metis append_butlast_last_id)
  from history_split [OF this] obtain pre clk post where h: "hist = pre @ (clk, Call Reset) # post" "host_calls post = []"
    by blast
  have "t_pendingPoints (target_step co clk (Call Reset) s) = []" for s
    using lt.queue_reset by (simp add: libera_sink_def)
  with h show ?thesis by (simp add: no_calls_empty)
qed

lemma empty_dark:
  assumes "isDark (co_defaultPoint co)" "t_pendingPoints t = []"
  shows "\<forall>p \<in> set (fst (fillFromQueue co clk req [] t)). isDark p"
proof (cases "rq_maximumPointsRequired req = 0")
  case True
  then show ?thesis by (simp add: fill_none)
next
  case False
  then show ?thesis
    using assms(2) fallback_dark [OF assms(1)] fill_take(1) [OF False, of clk t co "[]"]
      fill_hold(1) [OF False, of clk t co "[]"]
    by (cases "holdsBack clk req t") auto
qed

section \<open>Hosts that are done leave the laser dark\<close>

text \<open>C12: Whatever the clients of a Libera endpoint did and however the laser controller's
  callbacks came in between, the target stays a target that its own operations produce, within
  its capacity; and once the endpoint is available again and has been used, the target's queue
  is empty and the callback returns dark points only.\<close>

theorem released_endpoint_dark:
  assumes "lp_run lib evs (startedServer info options tcpPort index) = (acts, sv)"
    "host_calls hist = sink_calls acts" "target_reachable co t" "isDark (co_defaultPoint co)"
  shows "let t' = run_target co hist t in
    target_reachable co t' \<and> length (t_pendingPoints t') \<le> t_maxQueuedPoints t' \<and>
    (endpointAvailability sv = Available \<and> sink_calls acts \<noteq> [] \<longrightarrow>
       t_pendingPoints t' = [] \<and> (\<forall>p \<in> set (fst (fillFromQueue co clk req [] t')). isDark p))"
proof -
  let ?t = "run_target co hist t"
  have r: "target_reachable co ?t" by (rule run_target_reachable [OF assms(3)])
  then have "length (t_pendingPoints ?t) \<le> t_maxQueuedPoints ?t" by (rule lt.queue_bound [OF reachable_inv])
  moreover have "t_pendingPoints ?t = []" if "endpointAvailability sv = Available" "sink_calls acts \<noteq> []"
  proof -
    have inv: "server_inv sv (sink_calls acts)" using lp_run_inv [OF assms(1) started_inv] by simp
    from that(1) have "\<not> sv_owned sv" by (simp add: endpointAvailability_def split: if_splits)
    with inv have "quiet (sink_calls acts)" by (rule unowned_quiet)
    with that(2) have "last (host_calls hist) = Reset" by (simp add: assms(2) quiet_def)
    with that(2) show ?thesis by (intro reset_last_empty) (simp_all add: assms(2))
  qed
  ultimately show ?thesis using r empty_dark [OF assms(4), of ?t clk req] by (auto simp: Let_def)
qed

definition hello_then_close :: "server_event list" where
  "hello_then_close = [SvAccept (Some True), SvSession 0 (got RecHello []), SvSession 0 (got RecReady []),
     SvSession 0 (got RecClose []), SvSession 0 (got RecClose [])]"

definition reset_twice :: target_history where
  "reset_twice = [(\<lambda>_. 0, Call Reset), (\<lambda>_. 0, Fill sample_fill), (\<lambda>_. 0, Call Reset), (\<lambda>_. 0, Status)]"

lemma echo_dark: "isDark (co_defaultPoint echo_controller)"
  by (simp add: isDark_def echo_controller_def)

theorem released_endpoint_dark_witness:
  "case lp_run sample_proto hello_then_close sample_server of (acts, sv) \<Rightarrow>
     sink_calls acts = [Reset, Reset] \<and>
     list_all isDark (fst (fillFromQueue echo_controller (\<lambda>k. 0) sample_fill []
       (run_target echo_controller reset_twice sample_target)))"
proof -
  obtain acts sv where r: "lp_run sample_proto hello_then_close sample_server = (acts, sv)" by fastforce
  then have a: "sink_calls acts = [Reset, Reset]" "endpointAvailability sv = Available"
    by (simp_all add: hello_then_close_def run_defs endpointAvailability_def releaseSession_def split: prod.splits) auto
  have "host_calls reset_twice = sink_calls acts" by (simp add: reset_twice_def a)
  from released_endpoint_dark [OF r this sample_reachable echo_dark] a r show ?thesis
    by (simp add: Let_def list_all_iff)
qed

text \<open>
  What a session of the IDN host does to its target from start to stop: a reset, the calls of
  the driver loop, whose thread is joined, and a reset.
\<close>

definition idn_session_calls :: "idn_session \<Rightarrow> driver_pass list \<Rightarrow> (nat \<times> sink_call) list" where
  "idn_session_calls s ps =
     (case startSession s of (c1, s1) \<Rightarrow>
        c1 @ map (Pair (lt_ref (is_target s))) (fst (driverLoop ps newDriver)) @ fst (stopSession s1))"

text \<open>A session of the IDN host touches only the target it was made for; when it has been
  stopped, whatever it had submitted in between, the target's queue is empty and the callback
  returns dark points only.\<close>

theorem stopped_idn_session_dark:
  assumes "\<not> is_running s" "target_reachable co t" "isDark (co_defaultPoint co)"
    "host_calls hist = map snd (idn_session_calls s ps)"
  shows "let t' = run_target co hist t in
    fst ` set (idn_session_calls s ps) = {lt_ref (is_target s)} \<and>
    target_reachable co t' \<and> t_pendingPoints t' = [] \<and>
    (\<forall>p \<in> set (fst (fillFromQueue co clk req [] t')). isDark p)"
proof -
  let ?t = "run_target co hist t"
  have c: "idn_session_calls s ps = (lt_ref (is_target s), Reset) #
      map (Pair (lt_ref (is_target s))) (fst (driverLoop ps newDriver)) @ [(lt_ref (is_target s), Reset)]"
    using assms(1) by (simp add: idn_session_calls_def startSession_def stopSession_def)
  have "host_calls hist \<noteq> []" "last (host_calls hist) = Reset" by (simp_all add: assms(4) c)
  then have "t_pendingPoints ?t = []" by (rule reset_last_empty)
  moreover have "fst ` set (idn_session_calls s ps) = {lt_ref (is_target s)}" by (auto simp: c)
  moreover have r: "target_reachable co ?t" by (rule run_target_reachable [OF assms(2)])
  ultimately show ?thesis using empty_dark [OF assms(3), of ?t clk req] by (simp add: Let_def)
qed

theorem stopped_idn_session_dark_witness:
  "let t = run_target echo_controller reset_twice sample_target in
     t_pendingPoints t = [] \<and> list_all isDark (fst (fillFromQueue echo_controller (\<lambda>k. 0) sample_fill [] t))"
proof -
  let ?s = "\<lparr>is_target = \<lparr>lt_ref = 0, lt_info = t_info sample_target\<rparr>, is_serviceId = 1, is_virtualControllerId = [],
    is_sliceDurationUs = 15000, is_running = False\<rparr>"
  have "host_calls reset_twice = map snd (idn_session_calls ?s [wave_pass_of None])"
    by (simp add: reset_twice_def idn_session_calls_def startSession_def stopSession_def driverPass_def
        wave_pass_of_def newDriver_def Let_def)
  from stopped_idn_session_dark [OF _ sample_reachable echo_dark this] show ?thesis
    by (simp add: Let_def list_all_iff)
qed

section \<open>The command line bounds every target\<close>

lemma run_latency:
  assumes "t_latencyMs t \<le> t_maxLatencyMs t" "unat (t_maxLatencyMs t) \<le> 3000000000"
  shows "t_latencyMs t \<le> t_latencyMs (run_target co hist t) \<and>
    t_latencyMs (run_target co hist t) \<le> t_maxLatencyMs t \<and>
    t_maxLatencyMs (run_target co hist t) = t_maxLatencyMs t \<and>
    t_maxQueuedPoints (run_target co hist t) = t_maxQueuedPoints t"
  using assms
proof (induction co hist t rule: run_target.induct)
  case (2 co clk ev hist t)
  have call: "t_latencyMs (apply_sink_call (libera_sink co) clk c t) = t_latencyMs t \<and>
      t_maxLatencyMs (apply_sink_call (libera_sink co) clk c t) = t_maxLatencyMs t" for c
    by (cases c) (simp_all add: libera_sink_def frame_simps)
  have "t_latencyMs t \<le> t_latencyMs (target_step co clk ev t) \<and>
      t_latencyMs (target_step co clk ev t) \<le> t_maxLatencyMs t \<and>
      t_maxLatencyMs (target_step co clk ev t) = t_maxLatencyMs t \<and>
      t_maxQueuedPoints (target_step co clk ev t) = t_maxQueuedPoints t"
    using fill_latency [OF 2(2,3), of co clk _ "[]"] 2(2) call
    by (cases ev) (simp_all add: frame_simps lt.capacity_apply)
  with 2 show ?case by (auto intro: order_trans)
qed simp

text \<open>C34: Options that the command line accepts bound every target for its whole life: whatever
  hosts, callbacks and monitor do, its queue holds at most the configured number of points, at
  least 1000, and its latency stays between the configured one and the configured cap, which is
  at most 30 seconds.\<close>

theorem command_line_bounds_targets:
  assumes "parseOptions registry args default_options = (Ok, options)"
  shows "case run_target co hist (makeLiberaTarget co controller info options) of t \<Rightarrow>
    length (t_pendingPoints t) \<le> t_maxQueuedPoints t \<and> t_maxQueuedPoints t = lo_maxQueuedPoints options \<and>
    1000 \<le> lo_maxQueuedPoints options \<and> lo_latencyMs options \<le> t_latencyMs t \<and>
    t_latencyMs t \<le> lo_maxLatencyMs options \<and> lo_maxLatencyMs options \<le> 30000"
proof -
  let ?t = "makeLiberaTarget co controller info options"
  have o: "1000 \<le> lo_maxQueuedPoints options" "lo_maxLatencyMs options \<le> 30000" "lo_latencyMs options \<le> lo_maxLatencyMs options"
    using options_ok_parse [OF options_ok_default assms] by (simp_all add: options_ok_def)
  then have n: "t_latencyMs ?t = lo_latencyMs options" "t_maxLatencyMs ?t = lo_maxLatencyMs options"
    "t_maxQueuedPoints ?t = lo_maxQueuedPoints options"
    by (simp_all add: makeLiberaTarget_def newLiberaTarget_def Let_def frame_simps)
  have "unat (lo_maxLatencyMs options) \<le> 3000000000" using o(2) by (simp add: word_le_nat_alt)
  with run_latency [of ?t co hist] o n
  have l: "lo_latencyMs options \<le> t_latencyMs (run_target co hist ?t) \<and>
      t_latencyMs (run_target co hist ?t) \<le> lo_maxLatencyMs options \<and>
      t_maxQueuedPoints (run_target co hist ?t) = lo_maxQueuedPoints options" by simp
  have "target_reachable co (run_target co hist ?t)"
    by (rule run_target_reachable) (simp add: makeLiberaTarget_def target_reachable.created)
  then have "length (t_pendingPoints (run_target co hist ?t)) \<le> t_maxQueuedPoints (run_target co hist ?t)"
    by (rule lt.queue_bound [OF reachable_inv])
  with l o show ?thesis by simp
qed

theorem command_line_bounds_targets_witness:
  "t_latencyMs (run_target echo_controller reset_twice (makeLiberaTarget echo_controller 0 sample_controller
     (default_options\<lparr>lo_autoLatency := False\<rparr>))) \<le> 1500"
proof -
  have "parseOptions (empty_registry :: unit registry) [''--no-auto-latency''] default_options =
      (Ok, default_options\<lparr>lo_autoLatency := False\<rparr>)"
    by (simp add: finishOptions_def default_options_def)
  from command_line_bounds_targets [OF this, of echo_controller reset_twice 0 sample_controller]
  show ?thesis by (simp add: default_options_def)
qed

end
