(* ===== verification/Runtime_Logger.thy ===== *)
theory Runtime_Logger
  imports Prelude
begin

text \<open>
  \<open>RuntimeLogger\<close> of \<open>LinkRuntime.cpp\<close>: the last lines in memory, the last error, and the log
  file with its two rotated backups. The file system is seen through the three paths the
  logger uses, as optional contents; removing and renaming existing files succeed, opening
  the log file may fail (an argument of \<open>append\<close>). The formatted time stamp is an argument
  too, and the echo to the standard streams is not represented.
\<close>

record log_files =
  lf_current :: "string option"
  lf_firstBackup :: "string option"
  lf_secondBackup :: "string option"

record runtime_logger =
  rl_lines :: "string list"
  rl_lastError :: string
  rl_persistentBytes :: nat
  rl_files :: log_files

definition maxLines :: nat where
  "maxLines = 250"

definition maxPersistentBytes :: nat where
  "maxPersistentBytes = 5 * 1024 * 1024"

definition newRuntimeLogger :: "log_files \<Rightarrow> runtime_logger" where
  "newRuntimeLogger files = \<lparr>rl_lines = [], rl_lastError = [],
     rl_persistentBytes = (case lf_current files of None \<Rightarrow> 0 | Some content \<Rightarrow> length content),
     rl_files = files\<rparr>"

definition clearLogger :: "runtime_logger \<Rightarrow> runtime_logger" where
  "clearLogger l = l\<lparr>rl_lines := [], rl_lastError := []\<rparr>"

definition rotatePersistentLogsLocked :: "runtime_logger \<Rightarrow> runtime_logger" where
  "rotatePersistentLogsLocked l =
     (let f0 = (rl_files l)\<lparr>lf_secondBackup := None\<rparr>;
          f1 = (if lf_firstBackup f0 \<noteq> None
                then f0\<lparr>lf_secondBackup := lf_firstBackup f0, lf_firstBackup := None\<rparr> else f0);
          f2 = (if lf_current f1 \<noteq> None
                then f1\<lparr>lf_firstBackup := lf_current f1, lf_current := None\<rparr> else f1)
      in l\<lparr>rl_files := f2, rl_persistentBytes := 0\<rparr>)"

definition formatLine :: "string \<Rightarrow> bool \<Rightarrow> string \<Rightarrow> string" where
  "formatLine stamp isError line =
     stamp @ (if isError then '' ERROR '' else '' INFO  '') @ line @ [char_of (10 :: nat)]"

definition appendPersistentLineLocked ::
  "bool \<Rightarrow> string \<Rightarrow> bool \<Rightarrow> string \<Rightarrow> runtime_logger \<Rightarrow> runtime_logger" where
  "appendPersistentLineLocked opens stamp isError line l =
     (let output = formatLine stamp isError line;
          l1 = (if maxPersistentBytes < rl_persistentBytes l + length output
                then rotatePersistentLogsLocked l else l)
      in if opens
         then l1\<lparr>rl_files := (rl_files l1)\<lparr>lf_current :=
                   Some ((case lf_current (rl_files l1) of None \<Rightarrow> [] | Some content \<Rightarrow> content) @ output)\<rparr>,
                 rl_persistentBytes := rl_persistentBytes l1 + length output\<rparr>
         else l1)"

definition appendLine ::
  "bool \<Rightarrow> string \<Rightarrow> bool \<Rightarrow> string \<Rightarrow> runtime_logger \<Rightarrow> runtime_logger" where
  "appendLine opens stamp isError line l =
     (let pushed = rl_lines l @ [line];
          l1 = l\<lparr>rl_lines := (if maxLines < length pushed then tl pushed else pushed)\<rparr>;
          l2 = (if isError then l1\<lparr>rl_lastError := line\<rparr> else l1)
      in appendPersistentLineLocked opens stamp isError line l2)"

definition logInfo :: "bool \<Rightarrow> string \<Rightarrow> string \<Rightarrow> runtime_logger \<Rightarrow> runtime_logger" where
  "logInfo opens stamp line l = appendLine opens stamp False line l"

definition logError :: "bool \<Rightarrow> string \<Rightarrow> string \<Rightarrow> runtime_logger \<Rightarrow> runtime_logger" where
  "logError opens stamp line l = appendLine opens stamp True line l"

section \<open>Histories of the log\<close>

text \<open>One call: whether the file opens, the time stamp, the severity and the line.\<close>

type_synonym log_call = "bool \<times> string \<times> bool \<times> string"

fun run_log :: "log_call list \<Rightarrow> runtime_logger \<Rightarrow> runtime_logger" where
  "run_log [] l = l"
| "run_log ((opens, stamp, isError, line) # cs) l = run_log cs (appendLine opens stamp isError line l)"

fun call_line :: "log_call \<Rightarrow> string" where
  "call_line (opens, stamp, isError, line) = line"

fun call_output :: "log_call \<Rightarrow> string" where
  "call_output (opens, stamp, isError, line) = formatLine stamp isError line"

definition content_of :: "string option \<Rightarrow> string" where
  "content_of c = (case c of None \<Rightarrow> [] | Some s \<Rightarrow> s)"

lemma content_of_simps [simp]: "content_of None = []" "content_of (Some s) = s"
  by (simp_all add: content_of_def)

definition last_n :: "nat \<Rightarrow> 'a list \<Rightarrow> 'a list" where
  "last_n n xs = drop (length xs - n) xs"

lemma length_last_n [simp]: "length (last_n n xs) = min n (length xs)"
  by (simp add: last_n_def)

lemma last_n_push:
  assumes "0 < n"
  shows "(if n < length (last_n n xs @ [x]) then tl (last_n n xs @ [x]) else last_n n xs @ [x]) =
     last_n n (xs @ [x])"
proof (cases "n \<le> length xs")
  case True
  with assms have "last_n n xs \<noteq> []" by (simp flip: length_greater_0_conv)
  moreover have "tl (last_n n xs) = drop (Suc (length xs) - n) xs"
    using True by (simp add: last_n_def tl_drop drop_Suc Suc_diff_le)
  ultimately show ?thesis using True assms by (simp add: last_n_def)
next
  case False
  then show ?thesis by (simp add: last_n_def)
qed

lemma append_lines:
  assumes "rl_lines l = last_n maxLines xs"
  shows "rl_lines (appendLine opens stamp isError line l) = last_n maxLines (xs @ [line])"
proof -
  have "rl_lines (appendLine opens stamp isError line l) =
      (if maxLines < length (rl_lines l @ [line]) then tl (rl_lines l @ [line]) else rl_lines l @ [line])"
    by (simp add: appendLine_def appendPersistentLineLocked_def rotatePersistentLogsLocked_def Let_def)
  also have "\<dots> = last_n maxLines (xs @ [line])"
    unfolding assms by (rule last_n_push) (simp add: maxLines_def)
  finally show ?thesis .
qed

lemma run_log_lines:
  "rl_lines l = last_n maxLines xs \<Longrightarrow>
     rl_lines (run_log cs l) = last_n maxLines (xs @ map call_line cs)"
proof (induction cs l arbitrary: xs rule: run_log.induct)
  case (1 l)
  then show ?case by simp
next
  case (2 opens stamp isError line cs l)
  from 2(1) [OF append_lines [OF 2(2)]] show ?case by simp
qed

text \<open>The bytes of the file are counted, and the backups are complete files.\<close>

definition logger_inv :: "runtime_logger \<Rightarrow> bool" where
  "logger_inv l \<longleftrightarrow> rl_persistentBytes l = length (content_of (lf_current (rl_files l)))"

definition all_log :: "runtime_logger \<Rightarrow> string" where
  "all_log l = content_of (lf_secondBackup (rl_files l)) @
     content_of (lf_firstBackup (rl_files l)) @ content_of (lf_current (rl_files l))"

lemma logger_inv_new: "logger_inv (newRuntimeLogger files)"
  by (simp add: logger_inv_def newRuntimeLogger_def content_of_def split: option.split)

lemma logger_inv_append: "logger_inv l \<Longrightarrow> logger_inv (appendLine opens stamp isError line l)"
  by (auto simp: logger_inv_def appendLine_def appendPersistentLineLocked_def Let_def
      rotatePersistentLogsLocked_def content_of_def split: option.splits)

lemma append_size:
  assumes "logger_inv l" "length (formatLine stamp isError line) \<le> maxPersistentBytes"
    "length (content_of (lf_current (rl_files l))) \<le> maxPersistentBytes"
  shows "length (content_of (lf_current (rl_files (appendLine opens stamp isError line l))))
    \<le> maxPersistentBytes"
  using assms
  by (auto simp: logger_inv_def appendLine_def appendPersistentLineLocked_def Let_def
      rotatePersistentLogsLocked_def content_of_def split: option.splits)

lemma append_all_log:
  "\<exists>lost. all_log l @ formatLine stamp isError line = lost @ all_log (appendLine True stamp isError line l)"
proof (cases "maxPersistentBytes < rl_persistentBytes l + length (formatLine stamp isError line)")
  case True
  show ?thesis
    using True
    by (cases "lf_firstBackup (rl_files l)"; cases "lf_current (rl_files l)")
      (auto simp: all_log_def appendLine_def appendPersistentLineLocked_def Let_def
        rotatePersistentLogsLocked_def content_of_def)
next
  case False
  then show ?thesis
    by (cases isError; intro exI [of _ "[]"])
      (simp_all add: all_log_def appendLine_def appendPersistentLineLocked_def Let_def content_of_def)
qed

lemma run_log_all:
  assumes "\<forall>c \<in> set cs. fst c"
  shows "\<exists>lost. all_log l @ concat (map call_output cs) = lost @ all_log (run_log cs l)"
  using assms
proof (induction cs l rule: run_log.induct)
  case (1 l)
  then show ?case by simp
next
  case (2 opens stamp isError line cs l)
  then have o: "opens = True" by simp
  obtain a where a: "all_log l @ formatLine stamp isError line =
      a @ all_log (appendLine True stamp isError line l)" using append_all_log by blast
  obtain b where b: "all_log (appendLine True stamp isError line l) @ concat (map call_output cs) =
      b @ all_log (run_log cs (appendLine True stamp isError line l))"
    using 2 o by auto
  have "all_log l @ concat (map call_output ((opens, stamp, isError, line) # cs)) =
      (a @ b) @ all_log (run_log ((opens, stamp, isError, line) # cs) l)"
    using arg_cong [OF a, of "\<lambda>x. x @ concat (map call_output cs)"] b by (simp add: o)
  then show ?case by blast
qed

lemma run_log_size:
  assumes "logger_inv l" "\<forall>c \<in> set cs. length (call_output c) \<le> maxPersistentBytes"
    "length (content_of (lf_current (rl_files l))) \<le> maxPersistentBytes"
  shows "length (content_of (lf_current (rl_files (run_log cs l)))) \<le> maxPersistentBytes"
  using assms
  by (induction cs l rule: run_log.induct) (simp_all add: logger_inv_append append_size)

section \<open>Properties\<close>

text \<open>The lines shown to the user are the last 250 lines logged, in order, whatever the
  severity and whether or not the log file could be opened.\<close>

theorem logger_keeps_last_lines:
  "rl_lines (run_log cs (clearLogger l)) = last_n 250 (map call_line cs)"
  using run_log_lines [of "clearLogger l" "[]" cs]
  by (simp add: clearLogger_def last_n_def maxLines_def)

text \<open>If every formatted line fits, the log file never exceeds 5 MiB once it started below
  that; and as long as the file can be opened nothing written is lost except from the oldest
  end: the two backups and the current file hold a suffix of everything ever logged.\<close>

theorem logger_rotation:
  assumes "\<forall>c \<in> set cs. fst c \<and> length (call_output c) \<le> 5242880"
    "length (content_of (lf_current files)) \<le> 5242880"
  shows "let l = newRuntimeLogger files; l' = run_log cs l in
    length (content_of (lf_current (rl_files l'))) \<le> 5242880 \<and>
    (\<exists>lost. all_log l @ concat (map call_output cs) = lost @ all_log l')"
proof -
  have "logger_inv (newRuntimeLogger files)" by (rule logger_inv_new)
  moreover have "rl_files (newRuntimeLogger files) = files" by (simp add: newRuntimeLogger_def)
  ultimately show ?thesis
    using run_log_size [of "newRuntimeLogger files" cs] run_log_all [of cs "newRuntimeLogger files"] assms
    by (simp add: Let_def maxPersistentBytes_def)
qed

definition no_log_files :: log_files where
  "no_log_files = \<lparr>lf_current = None, lf_firstBackup = None, lf_secondBackup = None\<rparr>"

theorem logger_rotation_witness:
  "length (content_of (lf_current (rl_files (run_log [(True, ''t'', False, ''a'')]
     (newRuntimeLogger no_log_files))))) \<le> 5242880"
  using logger_rotation [of "[(True, ''t'', False, ''a'')]" no_log_files]
  by (simp add: Let_def formatLine_def no_log_files_def)

end
