(* ===== verification/Host_System.thy ===== *)
theory Host_System
  imports Ether_Dream_Host
begin

text \<open>
  The functions of \<open>EtherDreamVirtualControllerHost.cpp\<close> that ask the operating system: what
  \<open>getifaddrs\<close>, \<open>popen\<close>, \<open>system\<close> and a probing socket answer is in \<open>'o raw_os\<close>, and \<open>host_os\<close>
  makes of it the system that the rest of the host uses. The Linux branches are modelled.
\<close>

section \<open>The interfaces of the machine\<close>

text \<open>An entry of the list: the socket addresses are numbers in host order.\<close>

datatype socket_address = Inet u32 | OtherFamily

record raw_ifaddr =
  ra_name :: "string option"
  ra_addr :: "socket_address option"
  ra_netmask :: "u32 option"
  ra_broadaddr :: "u32 option"
  ra_up :: bool
  ra_loopback :: bool

definition interfaceAddress :: "raw_ifaddr \<Rightarrow> interface_address option" where
  "interfaceAddress it =
     (case ra_addr it of
        Some (Inet addr) \<Rightarrow>
          (if \<not> ra_up it then None
           else case ra_netmask it of
             None \<Rightarrow> None
           | Some netmask \<Rightarrow> Some
              \<lparr>ia_name = (case ra_name it of Some n \<Rightarrow> n | None \<Rightarrow> []),
               ia_address = hostToIpv4 addr, ia_netmask = hostToIpv4 netmask,
               ia_broadcast = (case ra_broadaddr it of Some b \<Rightarrow> hostToIpv4 b | None \<Rightarrow> []),
               ia_addressHost = addr, ia_netmaskHost = netmask,
               ia_broadcastHost = (case ra_broadaddr it of Some b \<Rightarrow> b
                                   | None \<Rightarrow> (addr AND netmask) OR NOT netmask),
               ia_loopback = ra_loopback it\<rparr>)
      | _ \<Rightarrow> None)"

definition interfaceAddresses :: "raw_ifaddr list option \<Rightarrow> interface_address list" where
  "interfaceAddresses addrs = (case addrs of None \<Rightarrow> [] | Some its \<Rightarrow> List.map_filter interfaceAddress its)"

section \<open>Commands\<close>

text \<open>\<open>fgets\<close> with room for \<open>k\<close> characters: what it reads, and what is left.\<close>

fun fgets :: "nat \<Rightarrow> string \<Rightarrow> string \<times> string" where
  "fgets 0 input = ([], input)"
| "fgets (Suc k) [] = ([], [])"
| "fgets (Suc k) (c # cs) =
     (if c = CHR 0x0A then ([c], cs) else case fgets k cs of (line, rest) \<Rightarrow> (c # line, rest))"

lemma fgets_split: "fgets k input = (line, rest) \<Longrightarrow> input = line @ rest"
  by (induction k input arbitrary: line rule: fgets.induct) (auto split: if_splits prod.splits)

lemma fgets_progress: "fgets (Suc k) (c # cs) = (line, rest) \<Longrightarrow> line \<noteq> []"
  by (auto split: if_splits prod.splits)

text \<open>The loop over \<open>fgets\<close>: the buffer is appended as a C string, up to its first zero byte.\<close>

function readPipe :: "nat \<Rightarrow> string \<Rightarrow> string" where
  "readPipe buffer input =
     (if input = [] \<or> buffer < 2 then []
      else case fgets (buffer - 1) input of
        (line, rest) \<Rightarrow> takeWhile (\<lambda>c. c \<noteq> CHR 0x00) line @ readPipe buffer rest)"
  by pat_completeness auto

termination readPipe
proof (relation "measure (\<lambda>(buffer, input). length input)")
  fix buffer input line rest
  assume 2: "\<not> (input = [] \<or> buffer < 2)" "(line, rest) = fgets (buffer - 1) input"
  then have f: "fgets (buffer - 1) input = (line, rest)" by simp
  obtain c cs where "input = c # cs" using 2(1) by (meson neq_Nil_conv)
  moreover obtain k where "buffer - 1 = Suc k" using 2(1) not0_implies_Suc [of "buffer - 1"] by auto
  moreover note f
  ultimately have "line \<noteq> []" using fgets_progress [of k c cs line rest] by simp
  with fgets_split [OF f] show "((buffer, rest), (buffer, input)) \<in> measure (\<lambda>(buffer, input). length input)" by simp
qed simp

declare readPipe.simps [simp del]

lemma readPipe_plain: "CHR 0x00 \<notin> set input \<Longrightarrow> 2 \<le> buffer \<Longrightarrow> readPipe buffer input = input"
proof (induction buffer input rule: readPipe.induct)
  case (1 buffer input)
  show ?case
  proof (cases "input = []")
    case False
    obtain line rest where f: "fgets (buffer - 1) input = (line, rest)" by fastforce
    note split = fgets_split [OF f]
    have "readPipe buffer rest = rest" using 1 False f split by simp
    moreover have "takeWhile (\<lambda>c. c \<noteq> CHR 0x00) line = line" using 1(2) split by (auto simp: takeWhile_eq_all_conv)
    ultimately show ?thesis using False 1(3) split unfolding readPipe.simps [of buffer input] f by simp
  qed (simp add: readPipe.simps)
qed

definition readCommandOutput :: "(string \<Rightarrow> string option) \<Rightarrow> string \<Rightarrow> string option" where
  "readCommandOutput popen command = map_option (readPipe 256) (popen command)"

text \<open>The status of \<open>system\<close>, with \<open>WIFEXITED\<close> and \<open>WEXITSTATUS\<close> written out.\<close>

definition systemCommandSucceeded :: "int \<Rightarrow> bool" where
  "systemCommandSucceeded status =
     (if status = -1 then False
      else if status AND 127 = 0 then drop_bit 8 status AND 255 = 0
      else status = 0)"

section \<open>The system\<close>

record 'o raw_os =
  ro_ifaddrs :: "'o \<Rightarrow> raw_ifaddr list option"
  ro_popen :: "'o \<Rightarrow> string \<Rightarrow> string option"
  ro_system :: "string \<Rightarrow> 'o \<Rightarrow> int \<times> 'o"
  ro_tcpOpen :: "'o \<Rightarrow> bool"
  ro_makeAddress :: "string \<Rightarrow> bool"
  ro_tcpBind :: "string \<Rightarrow> u16 \<Rightarrow> 'o \<Rightarrow> bool"
  ro_socket :: "socket_call \<Rightarrow> 'o \<Rightarrow> string option \<times> 'o"

text \<open>The acceptor that probes an address is closed again when the function returns.\<close>

definition canBindAddress :: "'o raw_os \<Rightarrow> string \<Rightarrow> u16 \<Rightarrow> 'o \<Rightarrow> bool" where
  "canBindAddress raw address port w =
     (if \<not> ro_tcpOpen raw w then False
      else if \<not> ro_makeAddress raw address then False
      else ro_tcpBind raw address port w)"

definition host_os :: "'o raw_os \<Rightarrow> 'o os_ops" where
  "host_os raw =
     \<lparr>os_interfaces = (\<lambda>w. interfaceAddresses (ro_ifaddrs raw w)),
      os_readCommand = (\<lambda>command w. readCommandOutput (ro_popen raw w) command),
      os_canBind = canBindAddress raw,
      os_system = (\<lambda>command w. case ro_system raw command w of (status, w') \<Rightarrow> (systemCommandSucceeded status, w')),
      os_socket = ro_socket raw\<rparr>"

end
