(* ===== verification/App_Paths.thy ===== *)
theory App_Paths
  imports Host_System Settings
begin

text \<open>
  Where the application keeps its files, and the commands it runs for the user:
  \<open>LiberaPaths.cpp\<close>, the path functions of \<open>gui_main.cpp\<close>, \<open>AvbSettings.cpp\<close> and \<open>LinkRuntime.cpp\<close>,
  the file dialog of \<open>LiberaFileDialog_other.cpp\<close> and the restart of \<open>LiberaPluginsWindow.cpp\<close>. The
  Linux branches are modelled; paths are POSIX texts, the environment is a map.
\<close>

section \<open>Paths\<close>

text \<open>\<open>operator/\<close> of \<open>std::filesystem::path\<close>: an absolute right side replaces the left.\<close>

definition joinPath :: "string \<Rightarrow> string \<Rightarrow> string" where
  "joinPath p q =
     (if q \<noteq> [] \<and> hd q = CHR ''/'' then q
      else if p = [] \<or> last p = CHR ''/'' then p @ q
      else p @ ''/'' @ q)"

type_synonym environment = "string \<rightharpoonup> string"

definition envValue :: "environment \<Rightarrow> string \<Rightarrow> string" where
  "envValue env name = (case env name of Some v \<Rightarrow> v | None \<Rightarrow> [])"

definition defaultSettingsDirectory :: "environment \<Rightarrow> string \<Rightarrow> string" where
  "defaultSettingsDirectory env currentPath =
     (let xdgConfig = envValue env ''XDG_CONFIG_HOME''; home = envValue env ''HOME'';
          baseDir = (if xdgConfig \<noteq> [] then xdgConfig
                     else if home \<noteq> [] then joinPath home ''.config'' else [])
      in joinPath (if baseDir = [] then currentPath else baseDir) ''LiberaLink'')"

text \<open>The files below the settings directory.\<close>

datatype app_file =
    DisabledControllerTypes
  | DefaultVirtualControllerHost
  | ControllerHostRoutes
  | EnabledControllers
  | AvbSettingsFile
  | PersistentLog

definition appFilePath :: "string \<Rightarrow> app_file \<Rightarrow> string" where
  "appFilePath settingsDirectory f =
     (case f of
        DisabledControllerTypes \<Rightarrow> joinPath settingsDirectory ''disabled-controller-types.txt''
      | DefaultVirtualControllerHost \<Rightarrow> joinPath settingsDirectory ''default-virtual-controller-host.txt''
      | ControllerHostRoutes \<Rightarrow> joinPath settingsDirectory ''controller-host-routes.txt''
      | EnabledControllers \<Rightarrow> joinPath settingsDirectory ''enabled-controllers.txt''
      | AvbSettingsFile \<Rightarrow> joinPath settingsDirectory ''avb-settings.txt''
      | PersistentLog \<Rightarrow> joinPath (joinPath settingsDirectory ''logs'') ''libera-link.log'')"

lemma joinPath_inject: "q \<noteq> [] \<Longrightarrow> r \<noteq> [] \<Longrightarrow> hd q \<noteq> CHR ''/'' \<Longrightarrow> hd r \<noteq> CHR ''/'' \<Longrightarrow> joinPath p q = joinPath p r \<Longrightarrow> q = r"
  by (auto simp: joinPath_def split: if_splits)

lemma joinPath_prefix: "hd q \<noteq> CHR ''/'' \<Longrightarrow> \<exists>s. joinPath p q = p @ s"
  by (auto simp: joinPath_def)

lemma joinPath_assoc: "p \<noteq> [] \<Longrightarrow> q \<noteq> [] \<Longrightarrow> hd q \<noteq> CHR ''/'' \<Longrightarrow> last q \<noteq> CHR ''/'' \<Longrightarrow> r \<noteq> [] \<Longrightarrow> hd r \<noteq> CHR ''/'' \<Longrightarrow>
    joinPath (joinPath p q) r = joinPath p (q @ ''/'' @ r)"
  by (auto simp: joinPath_def)

text \<open>The name of a file below the directory.\<close>

definition appFileName :: "app_file \<Rightarrow> string" where
  "appFileName f =
     (case f of
        DisabledControllerTypes \<Rightarrow> ''disabled-controller-types.txt''
      | DefaultVirtualControllerHost \<Rightarrow> ''default-virtual-controller-host.txt''
      | ControllerHostRoutes \<Rightarrow> ''controller-host-routes.txt''
      | EnabledControllers \<Rightarrow> ''enabled-controllers.txt''
      | AvbSettingsFile \<Rightarrow> ''avb-settings.txt''
      | PersistentLog \<Rightarrow> ''logs/libera-link.log'')"

lemma appFilePath_name: "dir \<noteq> [] \<Longrightarrow> appFilePath dir f = joinPath dir (appFileName f)"
  by (cases f) (simp_all add: appFilePath_def appFileName_def joinPath_assoc)

lemma appFileName_inject: "appFileName f = appFileName g \<Longrightarrow> f = g"
  by (cases f; cases g) (simp_all add: appFileName_def)

lemma appFileName_relative: "appFileName f \<noteq> [] \<and> hd (appFileName f) \<noteq> CHR ''/''"
  by (cases f) (simp_all add: appFileName_def)

lemma settings_dir_nonempty: "defaultSettingsDirectory env cwd \<noteq> []"
  by (simp add: defaultSettingsDirectory_def joinPath_def Let_def)

text \<open>The files are kept apart, whatever the environment: writing one changes no other.\<close>

theorem app_files_distinct:
  "inj (appFilePath (defaultSettingsDirectory env cwd)) \<and>
   (\<exists>s. appFilePath (defaultSettingsDirectory env cwd) f = defaultSettingsDirectory env cwd @ s)"
proof -
  let ?d = "defaultSettingsDirectory env cwd"
  have "inj (appFilePath ?d)"
  proof (rule injI)
    fix f g assume "appFilePath ?d f = appFilePath ?d g"
    then have "joinPath ?d (appFileName f) = joinPath ?d (appFileName g)"
      by (simp add: appFilePath_name settings_dir_nonempty)
    then have "appFileName f = appFileName g" using appFileName_relative joinPath_inject by blast
    then show "f = g" by (rule appFileName_inject)
  qed
  moreover have "\<exists>s. appFilePath ?d f = ?d @ s"
    using joinPath_prefix appFileName_relative by (simp add: appFilePath_name settings_dir_nonempty)
  ultimately show ?thesis by blast
qed

section \<open>Choosing a file\<close>

definition doubleQuote :: char where
  "doubleQuote = CHR 0x22"

definition openFileCommand :: "string option \<Rightarrow> string list \<Rightarrow> string" where
  "openFileCommand title extensions =
     ''zenity --file-selection'' @
     (case title of
        None \<Rightarrow> []
      | Some t \<Rightarrow> if t = [] then [] else '' --title='' @ [doubleQuote] @ t @ [doubleQuote]) @
     (if extensions = [] then []
      else '' --file-filter='' @ [doubleQuote] @
        concat (map (\<lambda>i. (if i \<noteq> 0 then '' '' else []) @ ''*.'' @ extensions ! i) [0..<length extensions]) @ [doubleQuote]) @
     '' 2>/dev/null''"

definition openFileDialog :: "(string \<Rightarrow> string option) \<Rightarrow> string option \<Rightarrow> string list \<Rightarrow> string" where
  "openFileDialog popen title extensions =
     (case popen (openFileCommand title extensions) of
        None \<Rightarrow> []
      | Some output \<Rightarrow> trimLogLine (readPipe 1024 output))"

definition choosePluginFile :: "(string \<Rightarrow> string option) \<Rightarrow> string \<Rightarrow> string option" where
  "choosePluginFile popen pluginPackageExtension =
     (let picked = openFileDialog popen (Some ''Choose a Libera plugin to install'') [pluginPackageExtension]
      in if picked = [] then None else Some picked)"

text \<open>The path the dialog prints is the file that is chosen, without the line end.\<close>

lemma chosen_file:
  assumes "popen (openFileCommand title extensions) = Some (path @ [CHR 0x0A])"
    "set path \<inter> {CHR 0x00, CHR 0x0A, CHR 0x0D} = {}"
  shows "openFileDialog popen title extensions = path"
proof -
  have "readPipe 1024 (path @ [CHR 0x0A]) = path @ [CHR 0x0A]"
    using assms(2) by (intro readPipe_plain) auto
  moreover have "trimLogLine (path @ [CHR 0x0A]) = path" using assms(2) by (intro trimLogLine_line) auto
  ultimately show ?thesis using assms(1) by (simp add: openFileDialog_def)
qed

section \<open>Restarting\<close>

text \<open>The command of \<open>relaunchAndExit\<close>, if the link of the executable can be read.\<close>

definition relaunchCommand :: "string option \<Rightarrow> string option" where
  "relaunchCommand executable =
     (case executable of
        None \<Rightarrow> None
      | Some path \<Rightarrow>
          (let buffer = take 4095 path
           in if buffer = [] then None
              else Some (''(sleep 0.4; '' @ [doubleQuote] @ buffer @ [doubleQuote] @ '') &'')))"

text \<open>What a shell reads of a text in double quotes, up to the closing one; \<open>None\<close> where it would
  expand something.\<close>

fun quotedWord :: "string \<Rightarrow> (string \<times> string) option" where
  "quotedWord [] = None"
| "quotedWord (c # cs) =
     (if c = doubleQuote then Some ([], cs)
      else if c = CHR ''$'' \<or> c = CHR 0x60 then None
      else if c = backslash
      then (case cs of
              [] \<Rightarrow> None
            | d # ds \<Rightarrow> map_option (\<lambda>(w, rest). ((if d \<in> {doubleQuote, CHR ''$'', CHR 0x60, backslash} then [d] else [c, d]) @ w, rest))
                (quotedWord ds))
      else map_option (\<lambda>(w, rest). (c # w, rest)) (quotedWord cs))"

lemma quotedWord_plain:
  "set path \<inter> {doubleQuote, CHR ''$'', CHR 0x60, backslash} = {} \<Longrightarrow>
     quotedWord (path @ doubleQuote # rest) = Some (path, rest)"
  by (induction path) auto

lemma quotedWord_expands:
  "set path \<inter> {doubleQuote, backslash} = {} \<Longrightarrow> set path \<inter> {CHR ''$'', CHR 0x60} \<noteq> {} \<Longrightarrow>
     quotedWord (path @ doubleQuote # rest) = None"
  by (induction path) auto

text \<open>The program that is started again is the executable as long as its path has none of the
  characters that are special between double quotes; a dollar sign or a backtick is expanded.\<close>

lemma relaunch_runs_executable:
  assumes "path \<noteq> []" "length path \<le> 4095" "set path \<inter> {doubleQuote, backslash} = {}"
  shows "\<exists>command. relaunchCommand (Some path) = Some (''(sleep 0.4; '' @ doubleQuote # command) \<and>
    quotedWord command = (if set path \<inter> {CHR ''$'', CHR 0x60} = {} then Some (path, '') &'') else None)"
proof -
  have "relaunchCommand (Some path) = Some (''(sleep 0.4; '' @ doubleQuote # (path @ doubleQuote # '') &''))"
    using assms(1,2) by (simp add: relaunchCommand_def Let_def)
  moreover have "quotedWord (path @ doubleQuote # '') &'') =
      (if set path \<inter> {CHR ''$'', CHR 0x60} = {} then Some (path, '') &'') else None)"
    using quotedWord_plain [of path "'') &''"] quotedWord_expands [OF assms(3), of "'') &''"] assms(3) by auto
  ultimately show ?thesis by blast
qed

end
