(* ===== verification/Io_Trace.thy ===== *)
theory Io_Trace
  imports App_Paths Libera_Target
begin

text \<open>
  The IO trace of \<open>LinkRuntime.cpp\<close>: when it is on, where its file is, and the line that
  \<open>tracePointVector\<close> writes about a vector of points. The file system is a map from paths to
  contents; whether the file can be opened and the time are arguments. The operations of the
  target call it when they are done; it reads the points only.
\<close>

section \<open>Switch and path\<close>

definition readEnvVar :: "environment \<Rightarrow> string \<Rightarrow> string option" where
  "readEnvVar env name = (case env name of None \<Rightarrow> None | Some v \<Rightarrow> if v = [] then None else Some v)"

definition envFlagEnabled :: "environment \<Rightarrow> string \<Rightarrow> bool" where
  "envFlagEnabled env name =
     (case readEnvVar env name of
        None \<Rightarrow> False
      | Some v \<Rightarrow> map tolower v \<notin> {''0'', ''false'', ''off'', ''no''})"

definition ioTraceEnabled :: "environment \<Rightarrow> bool" where
  "ioTraceEnabled env = envFlagEnabled env ''LIBERA_LINK_TRACE_IO''"

text \<open>The separator added is a backslash on every system.\<close>

definition ioTracePath :: "environment \<Rightarrow> string" where
  "ioTracePath env =
     (case readEnvVar env ''LIBERA_LINK_TRACE_PATH'' of
        Some configured \<Rightarrow> configured
      | None \<Rightarrow>
          (case (case readEnvVar env ''TEMP'' of None \<Rightarrow> readEnvVar env ''TMP'' | Some temp \<Rightarrow> Some temp) of
             None \<Rightarrow> ''libera-link-io.log''
           | Some temp \<Rightarrow>
               (if last temp \<noteq> backslash \<and> last temp \<noteq> CHR ''/'' then temp @ [backslash] else temp) @
               ''libera-link-io.log''))"

type_synonym file_system = "string \<rightharpoonup> string"

definition writeIoTraceLine :: "environment \<Rightarrow> bool \<Rightarrow> string \<Rightarrow> file_system \<Rightarrow> file_system" where
  "writeIoTraceLine env opens line fs =
     (if \<not> ioTraceEnabled env \<or> \<not> opens then fs
      else fs(ioTracePath env \<mapsto> (case fs (ioTracePath env) of None \<Rightarrow> [] | Some content \<Rightarrow> content) @ line @ [newline]))"

section \<open>The hash of the points\<close>

text \<open>The bits of a \<open>float\<close>; the zeros of the model are positive.\<close>

definition floatBits :: "rat \<Rightarrow> u32" where
  "floatBits q =
     (if q = 0 then 0
      else let e = binexp \<bar>q\<bar>; mantissa = round_even (\<bar>q\<bar> / pow2 (e - 23))
        in (if q < 0 then push_bit 31 1 else 0) OR push_bit 23 (of_int (e + 127)) OR
           (of_int mantissa AND 0x7FFFFF))"

definition floatBytes :: "rat \<Rightarrow> u64 list" where
  "floatBytes v = map (\<lambda>byte. ucast (drop_bit (byte * 8) (floatBits v) AND 0xFF)) [0..<4]"

definition hashByte :: "u64 \<Rightarrow> u64 \<Rightarrow> u64" where
  "hashByte hash byte = (hash XOR byte) * 1099511628211"

definition pointBytes :: "laser_point \<Rightarrow> u64 list" where
  "pointBytes p = concat (map floatBytes [lp_x p, lp_y p, lp_r p, lp_g p, lp_b p, lp_i p, lp_u1 p, lp_u2 p])"

definition hashLaserPoints :: "laser_point list \<Rightarrow> u64" where
  "hashLaserPoints points = foldl hashByte 1469598103934665603 (concat (map pointBytes points))"

section \<open>The line\<close>

text \<open>What is counted: the ranges start at the first point and are 0 without points.\<close>

record trace_summary =
  tr_count :: nat
  tr_lit :: nat
  tr_blank :: nat
  tr_rgbNonzero :: nat
  tr_intensityNonzero :: nat
  tr_nonCenter :: nat
  tr_minX :: rat
  tr_maxX :: rat
  tr_minY :: rat
  tr_maxY :: rat
  tr_hash :: u64

definition notCentered :: "laser_point \<Rightarrow> bool" where
  "notCentered p \<longleftrightarrow> f32 (1 / 1000) < \<bar>lp_x p\<bar> \<or> f32 (1 / 1000) < \<bar>lp_y p\<bar>"

definition summarizePoints :: "laser_point list \<Rightarrow> trace_summary" where
  "summarizePoints points =
     (let lit = countLitPoints points;
          start = (case points of [] \<Rightarrow> (0, 0) | p # ps \<Rightarrow> (lp_x p, lp_y p))
      in \<lparr>tr_count = length points, tr_lit = lit, tr_blank = length points - lit,
          tr_rgbNonzero = length (filter (\<lambda>p. 0 < lp_r p \<or> 0 < lp_g p \<or> 0 < lp_b p) points),
          tr_intensityNonzero = length (filter (\<lambda>p. 0 < lp_i p) points),
          tr_nonCenter = length (filter notCentered points),
          tr_minX = foldl (\<lambda>m p. min m (lp_x p)) (fst start) points,
          tr_maxX = foldl (\<lambda>m p. max m (lp_x p)) (fst start) points,
          tr_minY = foldl (\<lambda>m p. min m (lp_y p)) (snd start) points,
          tr_maxY = foldl (\<lambda>m p. max m (lp_y p)) (snd start) points,
          tr_hash = hashLaserPoints points\<rparr>)"

text \<open>A number as an output stream prints it: six significant digits, without trailing zeros, with
  an exponent when that is below -4 or above 5.\<close>

definition pow10 :: "int \<Rightarrow> rat" where
  "pow10 e = (if 0 \<le> e then 10 ^ nat e else 1 / 10 ^ nat (- e))"

definition decimalExponent :: "rat \<Rightarrow> int" where
  "decimalExponent q = (case quotient_of q of (a, b) \<Rightarrow>
     (let e = int (length (to_string (nat a))) - int (length (to_string (nat b)))
      in if pow10 e \<le> q then e else e - 1))"

definition significant :: "rat \<Rightarrow> nat \<times> int" where
  "significant q =
     (let e = decimalExponent q; m = nat (round_even (q / pow10 (e - 5)))
      in if m = 1000000 then (100000, e + 1) else (m, e))"

definition joinFraction :: "string \<Rightarrow> string \<Rightarrow> string" where
  "joinFraction whole places =
     (let kept = rev (dropWhile (\<lambda>c. c = CHR ''0'') (rev places)) in if kept = [] then whole else whole @ ''.'' @ kept)"

definition showFloat :: "rat \<Rightarrow> string" where
  "showFloat v =
     (if v = 0 then ''0''
      else case significant \<bar>v\<bar> of (m, e) \<Rightarrow>
        (if v < 0 then ''-'' else []) @
        (let ds = to_string m in
         if 0 \<le> e \<and> e < 6 then joinFraction (take (nat e + 1) ds) (drop (nat e + 1) ds)
         else if -4 \<le> e \<and> e < 0 then joinFraction ''0'' (replicate (nat (- e) - 1) CHR ''0'' @ ds)
         else joinFraction (take 1 ds) (drop 1 ds) @ ''e'' @ (if e < 0 then ''-'' else ''+'') @
           (let es = to_string (nat \<bar>e\<bar>) in if length es < 2 then CHR ''0'' # es else es)))"

definition hex16 :: "u64 \<Rightarrow> string" where
  "hex16 w = map (\<lambda>i. hexDigit (unat (drop_bit (60 - 4 * i) w AND 0xF))) [0..<16]"

definition appendPointSummary :: "string \<Rightarrow> laser_point \<Rightarrow> string" where
  "appendPointSummary label p =
     '' '' @ label @ ''=('' @ showFloat (lp_x p) @ '','' @ showFloat (lp_y p) @ '','' @ showFloat (lp_r p) @ '','' @
     showFloat (lp_g p) @ '','' @ showFloat (lp_b p) @ '','' @ showFloat (lp_i p) @ '')''"

definition appendVectorSummary :: "laser_point list \<Rightarrow> string" where
  "appendVectorSummary points =
     (if points = [] then []
      else appendPointSummary ''first'' (hd points) @ appendPointSummary ''mid'' (points ! (length points div 2)) @
           appendPointSummary ''last'' (last points))"

definition traceLine :: "nat \<Rightarrow> string \<Rightarrow> string \<Rightarrow> laser_point list \<Rightarrow> string \<Rightarrow> string" where
  "traceLine nowMs label targetLabel points extra =
     (let s = summarizePoints points in
      ''ms='' @ to_string nowMs @ '' phase='' @ label @ '' target='' @ [doubleQuote] @ targetLabel @ [doubleQuote] @
      '' count='' @ to_string (tr_count s) @ '' lit='' @ to_string (tr_lit s) @ '' blank='' @ to_string (tr_blank s) @
      '' rgb_nonzero='' @ to_string (tr_rgbNonzero s) @ '' i_nonzero='' @ to_string (tr_intensityNonzero s) @
      '' noncenter='' @ to_string (tr_nonCenter s) @
      '' x_range=['' @ showFloat (tr_minX s) @ '','' @ showFloat (tr_maxX s) @ '']'' @
      '' y_range=['' @ showFloat (tr_minY s) @ '','' @ showFloat (tr_maxY s) @ '']'' @
      '' hash=0x'' @ hex16 (tr_hash s) @ (if extra = [] then [] else '' '' @ extra) @ appendVectorSummary points)"

definition tracePointVector ::
  "environment \<Rightarrow> bool \<Rightarrow> nat \<Rightarrow> string \<Rightarrow> string \<Rightarrow> laser_point list \<Rightarrow> string \<Rightarrow> file_system \<Rightarrow> file_system" where
  "tracePointVector env opens nowMs label targetLabel points extra fs =
     (if \<not> ioTraceEnabled env then fs
      else writeIoTraceLine env opens (traceLine nowMs label targetLabel points extra) fs)"

section \<open>The hash tells single bytes apart\<close>

lemma prime_inverse: "(1099511628211 :: u64) * 14886173955864302971 = 1"
  by simp

lemma hashByte_inject_state: "hashByte h byte = hashByte h' byte \<Longrightarrow> h = h'"
proof -
  assume "hashByte h byte = hashByte h' byte"
  then have "hashByte h byte * 14886173955864302971 = hashByte h' byte * 14886173955864302971" by (rule arg_cong)
  then have "h XOR byte = h' XOR byte" by (simp only: hashByte_def mult.assoc prime_inverse mult_1_right)
  then have "(h XOR byte) XOR byte = (h' XOR byte) XOR byte" by (rule arg_cong)
  then show "h = h'" by (simp only: xor.assoc xor_self_eq xor.right_neutral)
qed

lemma hashByte_inject_byte: "hashByte h byte = hashByte h byte' \<Longrightarrow> byte = byte'"
proof -
  assume "hashByte h byte = hashByte h byte'"
  then have "hashByte byte h = hashByte byte' h" by (simp add: hashByte_def xor.commute)
  then show ?thesis by (rule hashByte_inject_state)
qed

lemma hash_fold_inject: "foldl hashByte h bytes = foldl hashByte h' bytes \<Longrightarrow> h = h'"
  by (induction bytes arbitrary: h h') (auto dest: hashByte_inject_state)

lemma hash_single_byte:
  assumes "byte \<noteq> byte'"
  shows "foldl hashByte h (front @ byte # back) \<noteq> foldl hashByte h (front @ byte' # back)"
proof
  assume "foldl hashByte h (front @ byte # back) = foldl hashByte h (front @ byte' # back)"
  then have "foldl hashByte (hashByte (foldl hashByte h front) byte) back =
      foldl hashByte (hashByte (foldl hashByte h front) byte') back" by simp
  from hashByte_inject_byte [OF hash_fold_inject [OF this]] assms show False by simp
qed

section \<open>What a line says\<close>

lemma foldl_min_le: "foldl (\<lambda>m p. min m (f p)) (a :: rat) ps \<le> a \<and> (\<forall>p \<in> set ps. foldl (\<lambda>m p. min m (f p)) a ps \<le> f p)"
proof (induction ps arbitrary: a)
  case (Cons p ps)
  from Cons.IH [of "min a (f p)"] show ?case by (auto simp: le_max_iff_disj)
qed simp

lemma foldl_max_ge: "a \<le> foldl (\<lambda>m p. max m (f p)) (a :: rat) ps \<and> (\<forall>p \<in> set ps. f p \<le> foldl (\<lambda>m p. max m (f p)) a ps)"
proof (induction ps arbitrary: a)
  case (Cons p ps)
  from Cons.IH [of "max a (f p)"] show ?case by (auto simp: max_def split: if_splits)
qed simp

lemma filter_length_mono: "(\<And>x. P x \<Longrightarrow> Q x) \<Longrightarrow> length (filter P xs) \<le> length (filter Q xs)"
  by (induction xs) auto

text \<open>The trace is a faithful account: every point lies in the ranges printed, the lit points are
  among those with a colour and among those with an intensity, lit and blank points add up, and
  the hash differs from that of any vector whose bytes differ in a single one. One line is
  appended to the one file, and nothing is written when the trace is off.\<close>

theorem trace_account:
  assumes "concat (map pointBytes points) = front @ byte # back" "concat (map pointBytes points') = front @ byte' # back"
    "byte \<noteq> byte'"
  shows "tr_lit (summarizePoints points) + tr_blank (summarizePoints points) = length points \<and>
    tr_lit (summarizePoints points) \<le> tr_rgbNonzero (summarizePoints points) \<and>
    tr_lit (summarizePoints points) \<le> tr_intensityNonzero (summarizePoints points) \<and>
    list_all (\<lambda>p. lp_x p \<in> {tr_minX (summarizePoints points)..tr_maxX (summarizePoints points)} \<and>
      lp_y p \<in> {tr_minY (summarizePoints points)..tr_maxY (summarizePoints points)}) points \<and>
    tr_hash (summarizePoints points) \<noteq> tr_hash (summarizePoints points') \<and>
    tracePointVector env opens nowMs label targetLabel points extra fs =
      (if ioTraceEnabled env \<and> opens
       then fs(ioTracePath env \<mapsto> (case fs (ioTracePath env) of None \<Rightarrow> [] | Some content \<Rightarrow> content) @
         traceLine nowMs label targetLabel points extra @ [newline])
       else fs)"
proof -
  let ?s = "summarizePoints points"
  have "tr_lit ?s + tr_blank ?s = length points"
    by (simp add: summarizePoints_def countLitPoints_def Let_def)
  moreover have "tr_lit ?s \<le> tr_rgbNonzero ?s" "tr_lit ?s \<le> tr_intensityNonzero ?s"
    by (auto simp: summarizePoints_def countLitPoints_def Let_def isLitPoint_def intro: filter_length_mono)
  moreover have "list_all (\<lambda>p. lp_x p \<in> {tr_minX ?s..tr_maxX ?s} \<and> lp_y p \<in> {tr_minY ?s..tr_maxY ?s}) points"
    by (auto simp: summarizePoints_def Let_def list_all_iff foldl_min_le foldl_max_ge)
  moreover have "tr_hash ?s \<noteq> tr_hash (summarizePoints points')"
    using hash_single_byte [OF assms(3)] assms(1,2) by (simp add: summarizePoints_def hashLaserPoints_def Let_def)
  moreover have "tracePointVector env opens nowMs label targetLabel points extra fs =
      (if ioTraceEnabled env \<and> opens
       then fs(ioTracePath env \<mapsto> (case fs (ioTracePath env) of None \<Rightarrow> [] | Some content \<Rightarrow> content) @
         traceLine nowMs label targetLabel points extra @ [newline])
       else fs)"
    by (simp add: tracePointVector_def writeIoTraceLine_def)
  ultimately show ?thesis by blast
qed

definition right_point :: "rat \<Rightarrow> laser_point" where
  "right_point x = \<lparr>lp_x = x, lp_y = 0, lp_r = 0, lp_g = 0, lp_b = 0, lp_i = 0, lp_u1 = 0, lp_u2 = 0\<rparr>"

lemma float_bytes:
  "floatBytes 1 = [0, 0, 0x80, 0x3F]" "floatBytes (1 / 2) = [0, 0, 0, 0x3F]" "floatBytes 0 = [0, 0, 0, 0]"
  by code_simp+

theorem trace_account_witness:
  "tr_hash (summarizePoints [right_point 1]) \<noteq> tr_hash (summarizePoints [right_point (1 / 2)]) \<and>
   tracePointVector [''LIBERA_LINK_TRACE_IO'' \<mapsto> ''1''] True 0 ''fill'' ''a'' [right_point 1] [] Map.empty ''libera-link-io.log'' =
     Some (traceLine 0 ''fill'' ''a'' [right_point 1] [] @ [newline])"
proof -
  let ?rest = "concat (replicate 7 [0, 0, 0, 0])"
  have p: "concat (map pointBytes [right_point 1]) = [0, 0] @ 0x80 # (0x3F # ?rest)"
    "concat (map pointBytes [right_point (1 / 2)]) = [0, 0] @ 0 # (0x3F # ?rest)"
    by (simp_all add: pointBytes_def right_point_def float_bytes numeral_eq_Suc)
  have on: "ioTraceEnabled [''LIBERA_LINK_TRACE_IO'' \<mapsto> ''1'']"
    "ioTracePath [''LIBERA_LINK_TRACE_IO'' \<mapsto> ''1''] = ''libera-link-io.log''"
    by (simp_all add: ioTraceEnabled_def envFlagEnabled_def readEnvVar_def ioTracePath_def tolower_def)
  from trace_account [OF p, of "[''LIBERA_LINK_TRACE_IO'' \<mapsto> ''1'']" True 0 "''fill''" "''a''" "[]" Map.empty] on
  show ?thesis by simp
qed

end
