(* ===== verification/Cli_Text.thy ===== *)
theory Cli_Text
  imports Cli Managers
begin

text \<open>
  What \<open>parseOptions\<close> prints (\<open>LinkRuntime.cpp\<close>): the usage text, with the registered hosts and
  controller managers, and the message of an error. A result is the text on the standard
  output and the text on the error stream.
\<close>

section \<open>The usage text\<close>

definition lineOf :: "string \<Rightarrow> string" where
  "lineOf str = str @ [newline]"

definition usageHost :: "vc_host_info \<Rightarrow> string" where
  "usageHost info = ''  '' @ hi_id info @ ''  '' @ hi_displayName info @
     (if hi_defaultSelection info then '' [default]'' else []) @
     (if hi_description info \<noteq> [] then '' - '' @ hi_description info else []) @ [newline]"

definition usageManager :: "manager_info \<Rightarrow> string" where
  "usageManager info = ''  '' @ mi_type info @ ''  '' @ mi_displayName info @
     (if mi_type info \<in> lo_disabledControllerTypes default_options then '' [default off]'' else []) @
     (if mi_description info \<noteq> [] then '' - '' @ mi_description info else []) @ [newline]"

definition usageLines :: "'h registry \<Rightarrow> string \<Rightarrow> string list" where
  "usageLines reg exe =
       [''Usage: '' @ exe @ '' [options]'',
        ''  --discovery-timeout-ms <ms>    Libera discovery wait time (default 5000)'',
        ''  --max-dacs <count>             Limit number of linked controllers (default all)'',
        ''  --virtual-controller <id>      Virtual controller to expose (default '' @
          (case defaultVirtualControllerHost reg of Some info \<Rightarrow> hi_id info | None \<Rightarrow> ''none'') @ '')'',
        ''  --virtual-controller-opt <key=value>'',
        ''                                  Pass a custom option to the selected virtual controller'',
        ''  --slice-us <us>                Driver slice duration in microseconds (default 15000)'',
        ''  --max-queue-points <count>     Max queued translated points per controller (default 300000)'',
        ''  --latency-ms <ms>              Target buffered latency in milliseconds (default 50)'',
        ''  --max-latency-ms <ms>          Max auto latency in milliseconds (default 1500)'',
        ''  --no-auto-latency              Disable automatic latency increase on underrun'',
        ''  --disable-controller-type <id> Disable a Libera controller manager type'',
        ''  --enable-controller-type <id>  Enable a default-disabled controller manager type'',
        ''  --help                         Show this message'']"

definition usageText :: "'h registry \<Rightarrow> manager_info list \<Rightarrow> string \<Rightarrow> string" where
  "usageText reg managers exe =
     concat (map lineOf (usageLines reg exe)) @
     (if availableVirtualControllerHosts reg = [] then []
      else lineOf [] @ lineOf ''Available virtual controllers:'' @
        concat (map usageHost (availableVirtualControllerHosts reg))) @
     (if managers = [] then []
      else lineOf [] @ lineOf ''Available controller types:'' @ concat (map usageManager managers))"

section \<open>Messages\<close>

text \<open>The message of an argument with a value that is refused; \<open>True\<close>: the usage text follows.\<close>

definition valueMessage :: "string \<Rightarrow> string \<Rightarrow> string \<times> bool" where
  "valueMessage arg val =
     (if arg = ''--virtual-controller-opt''
      then (lineOf (''Invalid virtual controller host option for '' @ arg @ '': expected key=value, got '' @ val), False)
      else if parseUnsigned val = None
      then (lineOf (''Invalid numeric value for '' @ arg @ '': '' @ val), False)
      else (lineOf (''Unknown option: '' @ arg), True))"

definition finishMessages :: "'h registry \<Rightarrow> string \<Rightarrow> link_options \<Rightarrow> string \<times> string" where
  "finishMessages reg usage options =
     (if lo_virtualControllerHostId options \<noteq> [] \<and>
         findVirtualControllerHost (lo_virtualControllerHostId options) reg = None
      then (usage, lineOf (''Unknown virtual controller host: '' @ lo_virtualControllerHostId options)) else ([], []))"

fun parseMessages :: "'h registry \<Rightarrow> string \<Rightarrow> string list \<Rightarrow> link_options \<Rightarrow> string \<times> string" where
  "parseMessages reg usage [] options = finishMessages reg usage options"
| "parseMessages reg usage (arg # rest) options =
     (if arg = ''--help'' then (usage, [])
      else if arg = ''--no-auto-latency''
      then parseMessages reg usage rest (options\<lparr>lo_autoLatency := False\<rparr>)
      else case rest of
        [] \<Rightarrow> (usage, lineOf (''Missing value for '' @ arg))
      | val # rest' \<Rightarrow>
          (case setValueOption arg val options of
             None \<Rightarrow> (case valueMessage arg val of (message, withUsage) \<Rightarrow> (if withUsage then usage else [], message))
           | Some options' \<Rightarrow> parseMessages reg usage rest' options'))"

section \<open>Results and messages\<close>

text \<open>An error is reported by one line on the error stream, help by the usage text alone, and an
  accepted command line prints nothing.\<close>

lemma messages_of_result:
  "fst (parseOptions reg args options) = r \<Longrightarrow>
   (case parseMessages reg usage args options of (out, err) \<Rightarrow>
      (case r of
         Ok \<Rightarrow> out = [] \<and> err = []
       | Help \<Rightarrow> out = usage \<and> err = []
       | Error \<Rightarrow> out \<in> {[], usage} \<and> (\<exists>line. err = lineOf line)))"
proof (induction reg usage args options arbitrary: r rule: parseMessages.induct)
  case (1 reg usage options)
  then show ?case by (auto simp: finishOptions_def finishMessages_def Let_def)
next
  case step: (2 reg usage arg rest options)
  show ?case
  proof (cases "arg = ''--help'' \<or> arg = ''--no-auto-latency'' \<or> rest = []")
    case True
    then consider "arg = ''--help''" | "arg = ''--no-auto-latency''" "arg \<noteq> ''--help''"
      | "rest = []" "arg \<noteq> ''--no-auto-latency''" "arg \<noteq> ''--help''" by blast
    then show ?thesis
    proof cases
      case 1
      with step.prems show ?thesis by simp
    next
      case 2
      have eqs: "parseOptions reg (arg # rest) options = parseOptions reg rest (options\<lparr>lo_autoLatency := False\<rparr>)"
        "parseMessages reg usage (arg # rest) options = parseMessages reg usage rest (options\<lparr>lo_autoLatency := False\<rparr>)"
        using 2 by simp_all
      have "fst (parseOptions reg rest (options\<lparr>lo_autoLatency := False\<rparr>)) = r" using step.prems eqs(1) by simp
      from step.IH(1) [OF 2(2,1) this] show ?thesis unfolding eqs .
    next
      case 3
      with step.prems show ?thesis by auto
    qed
  next
    case False
    then obtain val rest' where rest: "rest = val # rest'" by (cases rest) auto
    show ?thesis
    proof (cases "setValueOption arg val options")
      case None
      obtain message withUsage where v: "valueMessage arg val = (message, withUsage)" by fastforce
      have "parseOptions reg (arg # rest) options = (Error, options)"
        "parseMessages reg usage (arg # rest) options = (if withUsage then usage else [], message)"
        using None False rest v by simp_all
      moreover obtain line where "message = lineOf line" using v by (auto simp only: valueMessage_def Pair_inject split: if_splits)
      ultimately show ?thesis using step.prems by auto
    next
      case (Some options')
      have eqs: "parseOptions reg (arg # rest) options = parseOptions reg rest' options'"
        "parseMessages reg usage (arg # rest) options = parseMessages reg usage rest' options'"
        using False rest Some by simp_all
      have r: "fst (parseOptions reg rest' options') = r" using step.prems eqs(1) by simp
      have "arg \<noteq> ''--help''" "arg \<noteq> ''--no-auto-latency''" using False by simp_all
      from step.IH(2) [OF this rest Some r] show ?thesis unfolding eqs .
    qed
  qed
qed

text \<open>The defaults that the usage text names are those of the options.\<close>

lemma usage_names_defaults:
  "{''  --discovery-timeout-ms <ms>    Libera discovery wait time (default '' @
      to_string (unat (lo_discoveryTimeoutMs default_options)) @ '')'',
    ''  --slice-us <us>                Driver slice duration in microseconds (default '' @
      to_string (unat (lo_sliceDurationUs default_options)) @ '')'',
    ''  --max-queue-points <count>     Max queued translated points per controller (default '' @
      to_string (lo_maxQueuedPoints default_options) @ '')'',
    ''  --latency-ms <ms>              Target buffered latency in milliseconds (default '' @
      to_string (unat (lo_latencyMs default_options)) @ '')'',
    ''  --max-latency-ms <ms>          Max auto latency in milliseconds (default '' @
      to_string (unat (lo_maxLatencyMs default_options)) @ '')''} \<subseteq> set (usageLines reg exe)"
proof -
  have d: "char_of (48 :: nat) = CHR ''0''" "char_of (49 :: nat) = CHR ''1''" "char_of (51 :: nat) = CHR ''3''"
      "char_of (53 :: nat) = CHR ''5''" by code_simp+
  have "to_string (unat (lo_discoveryTimeoutMs default_options)) = ''5000''"
      "to_string (unat (lo_sliceDurationUs default_options)) = ''15000''"
      "to_string (lo_maxQueuedPoints default_options) = ''300000''" "to_string (unat (lo_latencyMs default_options)) = ''50''"
      "to_string (unat (lo_maxLatencyMs default_options)) = ''1500''"
    by (simp_all add: default_options_def to_string_def dec_digits.simps d)
  then show ?thesis
    by (simp only: usageLines_def append.simps list.set insert_iff insert_subset empty_subsetI simp_thms)
qed

text \<open>An option that does not exist is called a numeric option when its value is not a number.\<close>

lemma unknown_option_called_numeric:
  assumes "parseUnsigned val = None" "parseKeyValue val = None"
    "arg \<notin> {''--help'', ''--no-auto-latency'', ''--virtual-controller'', ''--disable-controller-type'',
       ''--enable-controller-type'', ''--virtual-controller-opt''}"
  shows "parseMessages reg usage (arg # val # rest) options = ([], lineOf (''Invalid numeric value for '' @ arg @ '': '' @ val))"
  using assms by (simp add: setValueOption_def valueMessage_def)

end
