(* ===== verification/Ether_Dream_Device_Thms.thy ===== *)
theory Ether_Dream_Device_Thms
  imports Ether_Dream_Device_Props
begin

text \<open>
  The properties of a virtual Ether Dream device, each with an instance at a concrete device
  (\<open>sample_device\<close>) and byte codec (\<open>le_lib\<close>, little-endian as the protocol documents).
\<close>

section \<open>A concrete codec and device\<close>

definition le_lib :: ed_lib where
  "le_lib = \<lparr>el_lightCode = (\<lambda>s. case s of Ready \<Rightarrow> 0 | Estop \<Rightarrow> 3),
     el_playCode = (\<lambda>s. case s of PlaybackIdle \<Rightarrow> 0 | Prepared \<Rightarrow> 1 | Playing \<Rightarrow> 2),
     el_readLe16 = (\<lambda>bs. ucast (bs ! 0) OR push_bit 8 (ucast (bs ! 1))),
     el_readLe32 = (\<lambda>bs. ucast (bs ! 0) OR push_bit 8 (ucast (bs ! 1)) OR
       push_bit 16 (ucast (bs ! 2)) OR push_bit 24 (ucast (bs ! 3))),
     el_put8 = (\<lambda>b. [b]), el_put16 = (\<lambda>w. [ucast w, ucast (drop_bit 8 w)]),
     el_put32 = (\<lambda>w. [ucast w, ucast (drop_bit 8 w), ucast (drop_bit 16 w), ucast (drop_bit 24 w)]),
     el_validAddress = isValidIpv4, el_tcpPort = 7765, el_discoveryPort = 7654\<rparr>"

definition sample_options :: ed_options where
  "sample_options = makeEdOptions 7765 7654 \<lparr>cfg_sliceDurationUs = 0, cfg_options = fmempty\<rparr>"

definition sample_ed_info :: target_info where
  "sample_ed_info = \<lparr>ti_id = ''a'', ti_label = ''Laser'', ti_type = ''Helios'', ti_maxPointRate = 0\<rparr>"

definition sample_device :: ed_device where
  "sample_device = (newDevice sample_ed_info ''127.0.0.1'' (makeMacAddress sample_ed_info 0)
     sample_options)\<lparr>ed_running := True\<rparr>"

definition connected_device :: ed_device where
  "connected_device = snd (ed_step le_lib EdAccept sample_device)"

lemma sample_options_simps [simp]:
  "eo_maxPointRate sample_options = 100000" "eo_bufferCapacity sample_options = 3899"
  by (simp_all add: sample_options_def makeEdOptions_def optionU16_def optionU32_def Let_def)

lemma sample_device_reachable: "ed_reachable le_lib sample_device"
  unfolding sample_device_def by (rule ed_reachable.started) simp

lemma connected_reachable: "ed_reachable le_lib connected_device"
  unfolding connected_device_def
  by (rule ed_reachable.stepped [OF sample_device_reachable]) (rule prod.collapse [symmetric])

lemma connected_simps [simp]:
  "ed_session connected_device" "ed_running connected_device"
  "ed_pending connected_device = Some AwaitCommand"
  "ed_lightEngineState connected_device = Ready"
  "ed_playbackState connected_device = PlaybackIdle"
  by (simp_all add: connected_device_def ed_step_def sample_device_def newDevice_def
      handleAccepted_def startReadCommand_def sendResponse_def resetState_def)

section \<open>Every reachable device\<close>

text \<open>C20: After any sequence of connections, commands, read errors and timer events the point
  buffer is within its capacity, the queue of rate changes holds at most 100 admissible
  rates, a device in emergency stop is idle with nothing buffered, the shutter flag is set
  exactly while playing, and a read is pending exactly while a client is connected.\<close>

theorem device_invariant:
  assumes "ed_reachable lib d"
  shows "length (ed_pointBuffer d) \<le> unat (eo_bufferCapacity (ed_opts d)) \<and>
    length (ed_pointRateQueue d) \<le> 100 \<and>
    (\<forall>r \<in> set (ed_pointRateQueue d). 0 < r \<and> r \<le> eo_maxPointRate (ed_opts d)) \<and>
    (ed_lightEngineState d = Estop \<longrightarrow> ed_playbackState d = PlaybackIdle \<and> ed_pointBuffer d = []) \<and>
    (bit (ed_playbackFlags d) 0 \<longleftrightarrow> ed_playbackState d = Playing) \<and>
    (ed_session d \<longleftrightarrow> ed_pending d \<noteq> None)"
  using reachable_ed_inv [OF assms] by (simp add: ed_inv_def maxPointRateQueue_def rate_ok_def)

theorem device_invariant_witness:
  "length (ed_pointRateQueue connected_device) \<le> 100"
  using device_invariant [OF connected_reachable] by simp

section \<open>Safety\<close>

lemma sinkCalls_append [simp]: "sinkCalls (as @ bs) = sinkCalls as @ sinkCalls bs"
  by (induction as rule: sinkCalls.induct) auto

lemma sinkCalls_send [simp]:
  "sinkCalls (fst (sendResponse lib c r d)) = []" "sinkCalls (fst (sendVersion d)) = []"
  by (simp_all add: sendResponse_def sendVersion_def)

lemma sinkCalls_udp [simp]: "sinkCalls (map (\<lambda>a. SendUdp a p b) xs) = []"
  by (induction xs) auto

lemma sinkCalls_read [simp]: "ed_session d \<Longrightarrow> sinkCalls (fst (startReadCommand d)) = []"
  by (simp add: startReadCommand_def)

lemma startRead_state [simp]:
  "ed_lightEngineState (snd (startReadCommand d)) = ed_lightEngineState d"
  by (simp add: startReadCommand_def clearSession_def stopPlaybackLocked_def)

text \<open>The calls a connected device makes outside its playback timer are resets.\<close>

lemma read_calls:
  assumes "ed_session d"
  shows "set (sinkCalls (fst (handleRead lib bytes d))) \<subseteq> {Reset}"
proof (cases "ed_pending d")
  case None
  then show ?thesis by (simp add: handleRead_def)
next
  case (Some p)
  note defs = handleRead_def Let_def startReadCommand_def
  show ?thesis
  proof (cases p)
    case AwaitCommand
    have "set (sinkCalls (fst (handleCommand lib c d))) \<subseteq> {Reset}" for c
      using assms by (simp add: handleCommand_def handlePrepare_def handleStop_def handleClear_def
          handleEmergencyStop_def startReadCommand_def stopPlaybackLocked_def Let_def)
    with Some AwaitCommand show ?thesis by (simp add: handleRead_def)
  next
    case (AwaitBegin c)
    with Some assms show ?thesis by (simp add: defs readBegin_def)
  next
    case (AwaitRateChange c)
    with Some assms show ?thesis by (simp add: defs readRateChange_def)
  next
    case AwaitDataHeader
    with Some assms show ?thesis by (simp add: defs readDataHeader_def readDataPayload_def)
  next
    case (AwaitData n)
    with Some assms show ?thesis by (simp add: defs readDataPayload_def)
  qed
qed

lemma read_estop:
  assumes "ed_session d" "ed_lightEngineState d = Estop"
    "\<not> (ed_pending d = Some AwaitCommand \<and> bytes = [cmd CHR ''c''])"
  shows "ed_lightEngineState (snd (handleRead lib bytes d)) = Estop"
proof (cases "ed_pending d")
  case None
  then show ?thesis using assms by (simp add: handleRead_def)
next
  case (Some p)
  note defs = handleRead_def Let_def
  show ?thesis
  proof (cases p)
    case AwaitCommand
    have "ed_lightEngineState (snd (handleCommand lib c d)) = Estop" if "c \<noteq> cmd CHR ''c''" for c
      using assms that by (simp add: handleCommand_def handlePrepare_def handleStop_def
          handleEmergencyStop_def stopPlaybackLocked_def)
    moreover have "hd bytes \<noteq> cmd CHR ''c''" if "length bytes = 1"
      using assms(3) Some AwaitCommand that by (cases bytes) auto
    ultimately show ?thesis using Some AwaitCommand assms(2) by (simp add: handleRead_def)
  next
    case (AwaitBegin c)
    with Some assms show ?thesis by (simp add: defs readBegin_def)
  next
    case (AwaitRateChange c)
    with Some assms show ?thesis by (simp add: defs readRateChange_def)
  next
    case AwaitDataHeader
    with Some assms show ?thesis by (simp add: defs readDataHeader_def readDataPayload_def)
  next
    case (AwaitData n)
    with Some assms show ?thesis by (simp add: defs readDataPayload_def)
  qed
qed

text \<open>C25: While a client is connected, a device in emergency stop stays in it and submits no
  point to its target, whatever happens next, except that the client sends the clear command
  or that the host stops the device.\<close>

theorem estop_latches:
  assumes "ed_reachable lib d" "ed_session d" "ed_lightEngineState d = Estop"
    "ed_step lib ev d = (as, d')"
  shows "(\<forall>s. SubmitContinuous s \<notin> set (sinkCalls as)) \<and>
    (ed_lightEngineState d' = Estop \<or> ev = EdStop \<or>
     (ed_pending d = Some AwaitCommand \<and> ev = EdRead [cmd CHR ''c'']))"
proof -
  have inv: "ed_inv d" by (rule reachable_ed_inv [OF assms(1)])
  then have run: "ed_running d" and idle: "ed_playbackState d = PlaybackIdle"
    using assms(2,3) by (simp_all add: ed_inv_def)
  have step: "ed_handle lib ev d = (as, d')" using assms(4) run by (simp add: ed_step_def)
  show ?thesis
  proof (cases ev)
    case (EdRead bytes)
    with step have "as = fst (handleRead lib bytes d)" "d' = snd (handleRead lib bytes d)" by simp_all
    with read_calls [OF assms(2), of lib bytes] read_estop [OF assms(2,3), of bytes lib] EdRead
    show ?thesis by auto
  qed (use step assms(2,3) idle in \<open>auto simp: handleAccepted_def handleReadError_def
    clearSession_def stopPlaybackLocked_def playbackTick_def sendBroadcast_def Let_def split: if_splits\<close>)
qed

definition estopped_device :: ed_device where
  "estopped_device = snd (ed_step le_lib (EdRead [0]) connected_device)"

lemma estopped_simps:
  "ed_reachable le_lib estopped_device" "ed_session estopped_device"
  "ed_lightEngineState estopped_device = Estop"
proof -
  show "ed_reachable le_lib estopped_device"
    unfolding estopped_device_def
    by (rule ed_reachable.stepped [OF connected_reachable]) (rule prod.collapse [symmetric])
  have "(0 :: u8) \<notin> {cmd CHR ''?'', cmd CHR ''v'', cmd CHR ''p'', cmd CHR ''b'', cmd CHR ''u'',
      cmd CHR ''q'', cmd CHR ''d'', cmd CHR ''s'', cmd CHR ''c''}"
    by (simp add: cmd_def)
  then show "ed_session estopped_device" "ed_lightEngineState estopped_device = Estop"
    by (simp_all add: estopped_device_def ed_step_def handleRead_def handleCommand_def
        handleEmergencyStop_def startReadCommand_def stopPlaybackLocked_def)
qed

theorem estop_latches_witness:
  "\<forall>s. SubmitContinuous s \<notin> set (sinkCalls (fst (ed_step le_lib (EdPlaybackTimer 7) estopped_device)))"
  using estop_latches [OF estopped_simps prod.collapse [symmetric]] by blast

text \<open>A command byte the protocol does not know is an emergency stop: the device resets its
  target before it answers, and is left in emergency stop, idle, with nothing buffered, still
  reading commands.\<close>

theorem unknown_command_stops:
  assumes "ed_running d" "ed_session d" "ed_pending d = Some AwaitCommand"
    "c \<notin> set (map cmd ''?vpbuqdsc'')" "ed_step lib (EdRead [c]) d = (as, d')"
  shows "(\<exists>reply. as = [ToSink Reset, SendTcp reply]) \<and> ed_lightEngineState d' = Estop \<and>
    ed_playbackState d' = PlaybackIdle \<and> ed_pointBuffer d' = [] \<and> ed_pointRateQueue d' = [] \<and>
    ed_pending d' = Some AwaitCommand"
proof -
  have "handleCommand lib c d = andThen (handleEmergencyStop lib c d) startReadCommand"
    using assms(4) by (simp add: handleCommand_def)
  with assms(1-3,5) show ?thesis
    by (auto simp: ed_step_def handleRead_def handleEmergencyStop_def startReadCommand_def
        stopPlaybackLocked_def sendResponse_def)
qed

theorem unknown_command_stops_witness:
  "ed_lightEngineState (snd (ed_step le_lib (EdRead [255]) connected_device)) = Estop"
proof -
  have "(255 :: u8) \<notin> set (map cmd ''?vpbuqdsc'')" by (simp add: cmd_def)
  from unknown_command_stops [OF _ _ _ this prod.collapse [symmetric], of connected_device le_lib]
  show ?thesis by simp
qed

text \<open>When the connection fails, the device resets its target and is left idle, with
  nothing buffered and the session closed, ready for the next client; a second client that
  connects while a session is open changes nothing and is sent nothing.\<close>

theorem disconnect_stops:
  assumes "ed_reachable lib d" "ed_session d"
  shows "ed_step lib EdAccept d = ([], d) \<and>
    (case ed_step lib EdReadError d of (as, d') \<Rightarrow>
      as = [ToSink Reset] \<and> \<not> ed_session d' \<and> ed_playbackState d' = PlaybackIdle \<and>
      ed_pointBuffer d' = [] \<and>
      (case ed_step lib EdAccept d' of (_, d'') \<Rightarrow>
        ed_session d'' \<and> ed_pending d'' = Some AwaitCommand \<and> ed_lightEngineState d'' = Ready))"
proof -
  from reachable_ed_inv [OF assms(1)] assms(2) have "ed_running d" "ed_pending d \<noteq> None"
    by (simp_all add: ed_inv_def)
  then show ?thesis
    using assms(2)
    by (simp add: ed_step_def handleAccepted_def handleReadError_def clearSession_def
        stopPlaybackLocked_def resetState_def startReadCommand_def sendResponse_def)
qed

theorem disconnect_stops_witness:
  "fst (ed_step le_lib EdReadError connected_device) = [ToSink Reset]"
  using disconnect_stops [OF connected_reachable] by (simp split: prod.splits)

section \<open>Playback\<close>

text \<open>A playback tick that is due takes the first points of the buffer, at most as many as
  are due at the current rate, and submits exactly those, in order, as one slice with a
  rate; when the buffer runs short the device goes idle, marks the underflow and closes the
  shutter, otherwise it keeps playing.\<close>

theorem playback_tick_drains:
  assumes "ed_reachable lib d" "ed_playbackState d = Playing" "ed_playbackClockValid d"
    "pointsDue now d \<noteq> 0"
  defines "n \<equiv> min (pointsDue now d) (length (ed_pointBuffer d))"
  shows "case ed_step lib (EdPlaybackTimer now) d of (as, d') \<Rightarrow>
    ed_pointBuffer d' = drop n (ed_pointBuffer d) \<and>
    (if n = 0 then as = []
     else \<exists>s. as = [ToSink (SubmitContinuous s)] \<and>
       sl_points s = map bp_point (take n (ed_pointBuffer d)) \<and>
       (\<exists>rate. sl_effectivePointRate s = Some rate \<and> 0 < rate \<and> rate \<le> eo_maxPointRate (ed_opts d))) \<and>
    (if n < pointsDue now d
     then ed_playbackState d' = PlaybackIdle \<and> bit (ed_playbackFlags d') 1 \<and> \<not> bit (ed_playbackFlags d') 0
     else ed_playbackState d' = Playing)"
proof -
  have inv: "ed_inv d" by (rule reachable_ed_inv [OF assms(1)])
  then have run: "ed_running d" and rate: "rate_ok (ed_opts d) (ed_pointRate d)"
    and rates: "\<forall>r \<in> set (ed_pointRateQueue d). rate_ok (ed_opts d) r"
    using assms(2) unfolding ed_inv_def by auto
  then have nz: "ed_pointRate d \<noteq> 0" by (auto simp: rate_ok_def)
  let ?r = "drainPoints n [] (ed_pointRate d) (tickStart now d)"
  note pts = drain_points [of n "[]" "ed_pointRate d" "tickStart now d"]
  have b: "ed_pointBuffer (tickStart now d) = ed_pointBuffer d" by (simp add: tickStart_def)
  have eff: "rate_ok (ed_opts d) (fst (snd ?r))"
    by (rule drain_rate [OF rate]) (use rates in \<open>simp add: tickStart_def\<close>)
  have start: "ed_inv (tickStart now d)" "ed_playbackState (tickStart now d) = Playing"
    using inv assms(2) by (auto simp: tickStart_def ed_inv_def)
  have play: "ed_playbackState (snd (snd ?r)) = Playing" using drain_inv [OF start] by blast
  have under: "ed_pointBuffer (underflowPlayback u) = ed_pointBuffer u"
    "ed_playbackState (underflowPlayback u) = PlaybackIdle"
    "bit (ed_playbackFlags (underflowPlayback u)) 1" "\<not> bit (ed_playbackFlags (underflowPlayback u)) 0"
    for u by (simp_all add: underflowPlayback_def) (simp add: playbackFlagUnderflow_def bit_simps)
  have n0: "n = 0 \<longleftrightarrow> ed_pointBuffer d = []" using assms(4) by (auto simp: n_def min_def)
  show ?thesis
    using tick_drains [OF assms(2) nz assms(3,4)] run pts b eff play under n0
    by (simp add: ed_step_def n_def [symmetric] tickSubmission_def rate_ok_def Let_def)
qed

fun ed_run :: "ed_lib \<Rightarrow> ed_event list \<Rightarrow> ed_device \<Rightarrow> ed_device" where
  "ed_run lib [] d = d"
| "ed_run lib (ev # evs) d = ed_run lib evs (snd (ed_step lib ev d))"

lemma reachable_run: "ed_reachable lib d \<Longrightarrow> ed_reachable lib (ed_run lib evs d)"
proof (induction lib evs d rule: ed_run.induct)
  case (2 lib ev evs d)
  have "ed_reachable lib (snd (ed_step lib ev d))"
    by (rule ed_reachable.stepped [OF 2(2)]) (rule prod.collapse [symmetric])
  with 2(1) show ?case by simp
qed simp

text \<open>Prepare, one point, begin at one point per second, and a first tick.\<close>

definition playing_device :: ed_device where
  "playing_device = ed_run le_lib
     [EdRead [112], EdRead [100], EdRead [1, 0], EdRead (replicate 18 0), EdRead [98],
      EdRead [0, 0, 1, 0, 0, 0], EdPlaybackTimer 0] connected_device"

lemma playing_reachable: "ed_reachable le_lib playing_device"
  unfolding playing_device_def by (rule reachable_run [OF connected_reachable])

lemma playing_simps:
  "ed_playbackState playing_device = Playing" "ed_playbackClockValid playing_device"
  "pointsDue 1000000000 playing_device = 1" "length (ed_pointBuffer playing_device) = 1"
  by (simp_all add: playing_device_def connected_device_def sample_device_def newDevice_def
      ed_step_def handleAccepted_def resetState_def sendResponse_def startReadCommand_def
      handleRead_def handleCommand_def cmd_def handlePrepare_def readDataHeader_def
      readDataPayload_def readBegin_def le_lib_def bytesPerPoint_def Let_def playbackTick_def
      pointsDue_def tickAccumulator_def)

theorem playback_tick_drains_witness:
  "length (ed_pointBuffer (snd (ed_step le_lib (EdPlaybackTimer 1000000000) playing_device))) = 0"
  using playback_tick_drains [OF playing_reachable playing_simps(1,2), of 1000000000] playing_simps(3,4)
  by (simp add: split_beta)

section \<open>Point data and replies\<close>

definition in_range :: "laser_point \<Rightarrow> bool" where
  "in_range p \<longleftrightarrow> - 1 \<le> lp_x p \<and> lp_x p \<le> 1 \<and> - 1 \<le> lp_y p \<and> lp_y p \<le> 1 \<and>
     (\<forall>c \<in> {lp_r p, lp_g p, lp_b p, lp_i p, lp_u1 p, lp_u2 p}. 0 \<le> c \<and> c \<le> 1)"

lemma coord_range: "- 1 \<le> coordFromEd w \<and> coordFromEd w \<le> 1"
  by (simp add: coordFromEd_def Let_def std_clamp_bounds)

lemma channel_range: "0 \<le> channelFromEd w \<and> channelFromEd w \<le> 1"
  unfolding channelFromEd_def by (rule f32_channel_unit)

lemma decodePoint_range: "in_range (bp_point (decodePoint lib cursor))"
  using coord_range channel_range by (simp add: in_range_def decodePoint_def Let_def)

lemma decodePoints_range: "\<forall>p \<in> set (decodePoints lib n cursor). in_range (bp_point p)"
  by (induction lib n cursor rule: decodePoints.induct) (simp_all add: decodePoint_range)

lemma length_decodePoints [simp]: "length (decodePoints lib n cursor) = n"
  by (induction lib n cursor rule: decodePoints.induct) simp_all

text \<open>A complete data payload is buffered whole or not at all: a prepared or playing device
  out of emergency stop appends the points, if they fit, and acknowledges; otherwise the
  buffer is left as it is and the answer says full or invalid. The points have coordinates
  in [-1, 1] and colours in [0, 1], whatever the bytes are.\<close>

theorem data_payload_atomic:
  assumes "ed_running d" "ed_session d" "ed_pending d = Some (AwaitData n)"
    "length bytes = unat n * 18"
  shows "\<exists>points. length points = unat n \<and> (\<forall>p \<in> set points. in_range (bp_point p)) \<and>
    (case ed_step lib (EdRead bytes) d of (as, d') \<Rightarrow>
      ed_playbackState d' = ed_playbackState d \<and> ed_pending d' = Some AwaitCommand \<and>
      (\<exists>answer. as = [SendTcp (buildResponse lib (cmd CHR ''d'') answer d')] \<and>
        (if ed_playbackState d \<noteq> PlaybackIdle \<and> ed_lightEngineState d = Ready
         then if length (ed_pointBuffer d) + unat n \<le> unat (eo_bufferCapacity (ed_opts d))
              then answer = respAck \<and> ed_pointBuffer d' = ed_pointBuffer d @ points
              else answer = respFull \<and> ed_pointBuffer d' = ed_pointBuffer d
         else answer = respInvalid \<and> ed_pointBuffer d' = ed_pointBuffer d)))"
proof (intro exI [of _ "decodePoints lib (unat n) bytes"] conjI)
  have b: "buildResponse lib c r (u\<lparr>ed_pending := p\<rparr>) = buildResponse lib c r u" for c r u p
    by (simp add: buildResponse_def appendStatusLocked_def)
  show "case ed_step lib (EdRead bytes) d of (as, d') \<Rightarrow>
      ed_playbackState d' = ed_playbackState d \<and> ed_pending d' = Some AwaitCommand \<and>
      (\<exists>answer. as = [SendTcp (buildResponse lib (cmd CHR ''d'') answer d')] \<and>
        (if ed_playbackState d \<noteq> PlaybackIdle \<and> ed_lightEngineState d = Ready
         then if length (ed_pointBuffer d) + unat n \<le> unat (eo_bufferCapacity (ed_opts d))
              then answer = respAck \<and>
                ed_pointBuffer d' = ed_pointBuffer d @ decodePoints lib (unat n) bytes
              else answer = respFull \<and> ed_pointBuffer d' = ed_pointBuffer d
         else answer = respInvalid \<and> ed_pointBuffer d' = ed_pointBuffer d))"
    using assms
    by (simp add: ed_step_def handleRead_def bytesPerPoint_def readDataPayload_def Let_def
        sendResponse_def startReadCommand_def b)
qed (simp_all add: decodePoints_range)

definition loading_device :: ed_device where
  "loading_device = ed_run le_lib [EdRead [112], EdRead [100], EdRead [1, 0]] connected_device"

lemma loading_simps:
  "ed_running loading_device" "ed_session loading_device"
  "ed_pending loading_device = Some (AwaitData 1)" "ed_playbackState loading_device = Prepared"
  "ed_lightEngineState loading_device = Ready" "ed_pointBuffer loading_device = []"
  "ed_opts loading_device = sample_options"
  by (simp_all add: loading_device_def connected_device_def sample_device_def newDevice_def
      ed_step_def handleAccepted_def resetState_def sendResponse_def startReadCommand_def
      handleRead_def handleCommand_def cmd_def handlePrepare_def readDataHeader_def
      le_lib_def Let_def)

theorem data_payload_atomic_witness:
  "length (ed_pointBuffer (snd (ed_step le_lib (EdRead (replicate 18 255)) loading_device))) = 1"
  using data_payload_atomic [OF loading_simps(1-3), of "replicate 18 255" le_lib]
  by (auto simp: loading_simps split_beta)

text \<open>The widths of the codec, as the protocol documents them.\<close>

definition codec_ok :: "ed_lib \<Rightarrow> bool" where
  "codec_ok lib \<longleftrightarrow> (\<forall>b. length (el_put8 lib b) = 1) \<and> (\<forall>w. length (el_put16 lib w) = 2) \<and>
     (\<forall>w. length (el_put32 lib w) = 4)"

lemma response_length: "codec_ok lib \<Longrightarrow> length (buildResponse lib c r d) = 22"
  by (simp add: codec_ok_def buildResponse_def appendStatusLocked_def)

definition replies_ok :: "ed_action list \<Rightarrow> bool" where
  "replies_ok as \<longleftrightarrow> (\<forall>b. SendTcp b \<in> set as \<longrightarrow> length b = 22 \<or> length b = 32)"

lemma replies_ok_simps [simp]:
  "replies_ok []" "replies_ok (as @ bs) \<longleftrightarrow> replies_ok as \<and> replies_ok bs"
  "replies_ok (ToSink c # as) \<longleftrightarrow> replies_ok as"
  by (auto simp: replies_ok_def)

lemma replies_send [simp]:
  "codec_ok lib \<Longrightarrow> replies_ok (fst (sendResponse lib c r d))"
  "replies_ok (fst (sendVersion d))" "replies_ok (fst (sendBroadcast lib d))"
  "replies_ok (fst (startReadCommand d))" "replies_ok (fst (clearSession d))"
  by (auto simp: replies_ok_def sendResponse_def response_length sendVersion_def versionText_def
      sendBroadcast_def startReadCommand_def clearSession_def Let_def)

lemma replies_handlers:
  assumes "codec_ok lib"
  shows "replies_ok (fst (handleCommand lib c d))" "replies_ok (fst (readBegin lib c bytes d))"
    "replies_ok (fst (readRateChange lib c bytes d))" "replies_ok (fst (readDataHeader lib bytes d))"
    "replies_ok (fst (readDataPayload lib n bytes d))"
  using assms
  by (simp_all add: handleCommand_def handlePrepare_def handleStop_def handleClear_def
      handleEmergencyStop_def readBegin_def readRateChange_def readDataHeader_def
      readDataPayload_def Let_def)

text \<open>Everything written to the client is a whole message: with a codec of the documented
  widths every answer of every event is 22 bytes long, the version text 32.\<close>

theorem replies_complete:
  assumes "codec_ok lib" "ed_step lib ev d = (as, d')" "SendTcp b \<in> set as"
  shows "length b = 22 \<or> length b = 32"
proof -
  have "replies_ok (fst (handleRead lib bytes d))" for bytes
    using replies_handlers [OF assms(1)]
    by (simp add: handleRead_def split: option.split pending_read.split)
  moreover have "replies_ok (fst (playbackTick now d))" for now
    by (simp add: playbackTick_def Let_def case_prod_unfold)
  ultimately have "replies_ok (fst (ed_step lib ev d))"
    using assms(1)
    by (cases ev) (simp_all add: ed_step_def handleAccepted_def handleReadError_def)
  with assms(2,3) show ?thesis by (simp add: replies_ok_def)
qed

lemma le_lib_ok: "codec_ok le_lib"
  by (simp add: codec_ok_def le_lib_def)

theorem replies_complete_witness:
  "\<exists>b. SendTcp b \<in> set (fst (ed_step le_lib (EdRead [63]) connected_device)) \<and>
    (length b = 22 \<or> length b = 32)"
proof -
  let ?b = "buildResponse le_lib 63 respAck connected_device"
  have "SendTcp ?b \<in> set (fst (ed_step le_lib (EdRead [63]) connected_device))"
    by (simp add: ed_step_def handleRead_def handleCommand_def cmd_def sendResponse_def)
  with replies_complete [OF le_lib_ok prod.collapse [symmetric] this] show ?thesis by blast
qed

end
