(* ===== verification/Host_System_Thms.thy ===== *)
theory Host_System_Thms
  imports Host_System "HOL-Library.Multiset"
begin

text \<open>
  What the Ether Dream host gets from the machine, and what it leaves there: the address of a
  single device, and the aliases that were added and removed again.
\<close>

section \<open>The address of a single device\<close>

lemma interfaceAddresses_raw:
  assumes "a \<in> set (interfaceAddresses addrs)"
  obtains its it addr netmask where "addrs = Some its" "it \<in> set its" "interfaceAddress it = Some a" "ra_up it"
    "ra_addr it = Some (Inet addr)" "ra_netmask it = Some netmask" "ia_address a = hostToIpv4 addr"
    "ia_addressHost a = addr" "ia_loopback a = ra_loopback it" "ia_name a = (case ra_name it of Some n \<Rightarrow> n | None \<Rightarrow> [])"
proof -
  obtain its it where it: "addrs = Some its" "it \<in> set its" "interfaceAddress it = Some a"
    using assms by (auto simp: interfaceAddresses_def List.map_filter_def split: option.splits)
  then show ?thesis using that [OF it]
    by (auto simp: interfaceAddress_def split: option.splits socket_address.splits if_splits)
qed

text \<open>An entry of the machine's list that a device may use.\<close>

definition usable :: "ed_options \<Rightarrow> raw_ifaddr \<Rightarrow> u32 \<Rightarrow> bool" where
  "usable options it addr \<longleftrightarrow> ra_up it \<and> \<not> ra_loopback it \<and> ra_addr it = Some (Inet addr) \<and> ra_netmask it \<noteq> None \<and>
     (eo_interfaceName options = [] \<or> ra_name it = Some (eo_interfaceName options))"

definition entries :: "'o raw_os \<Rightarrow> 'o \<Rightarrow> raw_ifaddr list" where
  "entries raw w = (case ro_ifaddrs raw w of None \<Rightarrow> [] | Some its \<Rightarrow> its)"

lemma lanCandidates_set:
  "set (lanCandidates os options w) = {a \<in> set (os_interfaces os w). \<not> ia_loopback a \<and>
     (eo_interfaceName options = [] \<or> ia_name a = eo_interfaceName options)}"
  by (auto simp: lanCandidates_def Let_def split: option.splits)

lemma lanCandidates_first:
  assumes "defaultInterfaceName os w = Some d" "a \<in> set (lanCandidates os options w)" "ia_name a = d"
  shows "ia_name (hd (lanCandidates os options w)) = d"
proof -
  let ?cs = "filter (\<lambda>iface. \<not> ia_loopback iface \<and>
    \<not> (eo_interfaceName options \<noteq> [] \<and> ia_name iface \<noteq> eo_interfaceName options)) (os_interfaces os w)"
  have "a \<in> set (filter (\<lambda>iface. ia_name iface = d) ?cs)"
    using assms(2,3) by (auto simp: lanCandidates_set)
  then have "filter (\<lambda>iface. ia_name iface = d) ?cs \<noteq> []" by (metis empty_iff empty_set)
  then obtain b bs where b: "filter (\<lambda>iface. ia_name iface = d) ?cs = b # bs" by (meson neq_Nil_conv)
  have "b \<in> set (filter (\<lambda>iface. ia_name iface = d) ?cs)" unfolding b by simp
  moreover have "hd (lanCandidates os options w) = b"
    unfolding lanCandidates_def Let_def assms(1) option.case b by simp
  ultimately show ?thesis by simp
qed

lemma usable_listed:
  assumes "it \<in> set (entries raw w)" "usable options it addr"
  obtains a where "a \<in> set (lanCandidates (host_os raw) options w)" "ia_address a = hostToIpv4 addr"
    "ia_name a = (case ra_name it of Some n \<Rightarrow> n | None \<Rightarrow> [])"
proof -
  obtain netmask where m: "ra_netmask it = Some netmask" using assms(2) by (auto simp: usable_def)
  obtain its where its: "ro_ifaddrs raw w = Some its" "it \<in> set its"
    using assms(1) by (cases "ro_ifaddrs raw w") (auto simp: entries_def)
  obtain a where a: "interfaceAddress it = Some a" "ia_address a = hostToIpv4 addr" "\<not> ia_loopback a"
      "ia_name a = (case ra_name it of Some n \<Rightarrow> n | None \<Rightarrow> [])"
    using assms(2) m by (simp add: interfaceAddress_def usable_def)
  then have "a \<in> set (interfaceAddresses (ro_ifaddrs raw w))"
    using its by (force simp: interfaceAddresses_def List.map_filter_def)
  then have "a \<in> set (lanCandidates (host_os raw) options w)"
    using a assms(2) by (auto simp: lanCandidates_set host_os_def usable_def)
  with that a show ?thesis by blast
qed

lemma candidate_usable:
  assumes "a \<in> set (lanCandidates (host_os raw) options w)"
  obtains it where "it \<in> set (entries raw w)" "usable options it (ia_addressHost a)" "ia_address a = hostToIpv4 (ia_addressHost a)"
    "ia_name a = (case ra_name it of Some n \<Rightarrow> n | None \<Rightarrow> [])"
proof -
  from assms have "a \<in> set (interfaceAddresses (ro_ifaddrs raw w))" and c: "\<not> ia_loopback a"
      "eo_interfaceName options = [] \<or> ia_name a = eo_interfaceName options"
    by (simp_all add: lanCandidates_set host_os_def)
  from interfaceAddresses_raw [OF this(1)] obtain its it addr netmask where it: "ro_ifaddrs raw w = Some its" "it \<in> set its"
      "ra_up it" "ra_addr it = Some (Inet addr)" "ra_netmask it = Some netmask" "ia_address a = hostToIpv4 addr"
      "ia_addressHost a = addr" "ia_loopback a = ra_loopback it" "ia_name a = (case ra_name it of Some n \<Rightarrow> n | None \<Rightarrow> [])"
    by metis
  then have "usable options it (ia_addressHost a)"
    using c by (auto simp: usable_def split: option.splits)
  with it that show ?thesis by (simp add: entries_def)
qed

text \<open>C40: A single device on the LAN always gets an address, and no alias is made for it: the
  address of an IPv4 interface that is up, is not the loopback, has a netmask and the
  configured name, if any, and that is the one of the default route when the list has it; if
  there is no such interface, 127.0.0.1, even when another name was configured.\<close>

theorem single_device_address:
  assumes "eo_explicitAddresses options = []" "eo_ipMode options \<notin> {''explicit'', ''loopback''}"
    "eo_baseAddress options = []" "w = snd (cleanupAliases (host_os raw) m)"
  shows "\<exists>a. allocateAliases (host_os raw) options 1 m = (Inr [a], cleanupAliases (host_os raw) m) \<and>
    (if \<exists>it \<in> set (entries raw w). \<exists>addr. usable options it addr
     then \<exists>it \<in> set (entries raw w). \<exists>addr. usable options it addr \<and> a = hostToIpv4 addr \<and>
       (\<forall>d \<in> set (entries raw w). (\<exists>addr. usable options d addr) \<and> ra_name d \<noteq> None \<and>
          defaultInterfaceName (host_os raw) w = ra_name d \<longrightarrow> ra_name it = ra_name d)
     else a = ''127.0.0.1'')"
proof -
  let ?cs = "lanCandidates (host_os raw) options w" and ?m = "cleanupAliases (host_os raw) m"
  have alloc: "allocateAliases (host_os raw) options 1 m = allocateLan (host_os raw) options 1 ?m"
    using assms(1,2) by (simp add: allocateAliases_def Let_def)
  show ?thesis
  proof (cases "?cs = []")
    case True
    then have none: "\<not> (\<exists>it \<in> set (entries raw w). \<exists>addr. usable options it addr)"
      by (metis usable_listed empty_iff empty_set)
    have "allocateLan (host_os raw) options 1 ?m = (Inr [''127.0.0.1''], ?m)"
      using True assms(4) by (simp add: allocateLan_def Let_def)
    with alloc none show ?thesis by simp
  next
    case False
    define a where "a = hd ?cs"
    have a: "a \<in> set ?cs" using False by (simp add: a_def)
    obtain it where it: "it \<in> set (entries raw w)" "usable options it (ia_addressHost a)"
        "ia_address a = hostToIpv4 (ia_addressHost a)" "ia_name a = (case ra_name it of Some n \<Rightarrow> n | None \<Rightarrow> [])"
      by (rule candidate_usable [OF a])
    have "os_interfaces (host_os raw) w \<noteq> []" using a by (auto simp: lanCandidates_set)
    then have "allocateLan (host_os raw) options 1 ?m = (Inr [ia_address a], ?m)"
      using False assms(3,4) by (simp add: allocateLan_def Let_def a_def)
    moreover have best: "ra_name it = ra_name d" if d: "d \<in> set (entries raw w)" "usable options d addr" "ra_name d \<noteq> None"
        "defaultInterfaceName (host_os raw) w = ra_name d" for d addr
    proof -
      obtain n where n: "ra_name d = Some n" using d(3) by blast
      obtain b where b: "b \<in> set ?cs" "ia_name b = n" by (rule usable_listed [OF d(1,2)]) (simp add: n)
      have "n \<noteq> []" using d(4) n by (auto simp: defaultInterfaceName_def split: option.splits if_splits)
      moreover have "ia_name a = n" using lanCandidates_first [OF _ b] d(4) n by (simp add: a_def)
      ultimately show ?thesis using it(4) n by (auto split: option.splits)
    qed
    have "\<exists>it \<in> set (entries raw w). \<exists>addr. usable options it addr \<and> ia_address a = hostToIpv4 addr \<and>
       (\<forall>d \<in> set (entries raw w). (\<exists>addr. usable options d addr) \<and> ra_name d \<noteq> None \<and>
          defaultInterfaceName (host_os raw) w = ra_name d \<longrightarrow> ra_name it = ra_name d)"
      using it(1,2,3) best by blast
    moreover have "\<exists>it \<in> set (entries raw w). \<exists>addr. usable options it addr" using it(1,2) by blast
    ultimately show ?thesis using alloc by (intro exI [of _ "ia_address a"]) simp
  qed
qed

text \<open>A machine with a loopback and two network interfaces, the second on the default route.\<close>

definition sample_raw :: "unit raw_os" where
  "sample_raw = \<lparr>ro_ifaddrs = (\<lambda>w. Some
       [\<lparr>ra_name = Some ''lo'', ra_addr = Some (Inet 0x7F000001), ra_netmask = Some 0xFF000000,
         ra_broadaddr = None, ra_up = True, ra_loopback = True\<rparr>,
        \<lparr>ra_name = Some ''eth0'', ra_addr = Some (Inet 0x0A000005), ra_netmask = Some 0xFFFFFF00,
         ra_broadaddr = Some 0x0A0000FF, ra_up = True, ra_loopback = False\<rparr>,
        \<lparr>ra_name = Some ''wlan0'', ra_addr = Some (Inet 0xC0A80105), ra_netmask = Some 0xFFFFFF00,
         ra_broadaddr = Some 0xC0A801FF, ra_up = True, ra_loopback = False\<rparr>]),
     ro_popen = (\<lambda>w command. Some (''wlan0'' @ [CHR 0x0A])), ro_system = (\<lambda>command w. (0, ())),
     ro_tcpOpen = (\<lambda>w. True), ro_makeAddress = (\<lambda>a. True), ro_tcpBind = (\<lambda>a port w. True),
     ro_socket = (\<lambda>call w. (None, ()))\<rparr>"

definition auto_config :: host_config where
  "auto_config = \<lparr>cfg_sliceDurationUs = 0, cfg_options = fmempty\<rparr>"

theorem single_device_address_witness:
  "allocateAliases (host_os sample_raw) (makeEdOptions 7765 7654 auto_config) 1 ([], ()) =
     (Inr [hostToIpv4 0xC0A80105], ([], ()))"
proof -
  let ?o = "makeEdOptions 7765 7654 auto_config" and ?os = "host_os sample_raw"
  have o: "eo_explicitAddresses ?o = []" "eo_ipMode ?o = ''auto''" "eo_baseAddress ?o = []" "eo_interfaceName ?o = []"
    by (simp_all add: makeEdOptions_def auto_config_def optionString_def Let_def splitCsv.simps)
  have "readPipe 256 (''wlan0'' @ [CHR 0x0A]) = ''wlan0'' @ [CHR 0x0A]" by (rule readPipe_plain) simp_all
  then have d: "defaultInterfaceName ?os () = Some ''wlan0''"
    by (simp add: defaultInterfaceName_def host_os_def sample_raw_def readCommandOutput_def trim_def isspace_def)
  have c: "cleanupAliases ?os ([], ()) = ([], ())" by (simp add: cleanupAliases_def)
  obtain a where a: "allocateAliases ?os ?o 1 ([], ()) = (Inr [a], ([], ()))"
    "if \<exists>it \<in> set (entries sample_raw ()). \<exists>addr. usable ?o it addr
     then \<exists>it \<in> set (entries sample_raw ()). \<exists>addr. usable ?o it addr \<and> a = hostToIpv4 addr \<and>
       (\<forall>d \<in> set (entries sample_raw ()). (\<exists>addr. usable ?o d addr) \<and> ra_name d \<noteq> None \<and>
          defaultInterfaceName ?os () = ra_name d \<longrightarrow> ra_name it = ra_name d)
     else a = ''127.0.0.1''"
    using single_device_address [of ?o "()" sample_raw "([], ())"] o c by auto
  from a(2) have "a = hostToIpv4 0xC0A80105"
    unfolding d by (auto simp: entries_def sample_raw_def usable_def o)
  with a(1) show ?thesis by simp
qed

section \<open>Aliases are removed again\<close>

text \<open>A system together with the commands it ran and whether they succeeded.\<close>

type_synonym 'o history = "'o \<times> (string \<times> bool) list"

definition recorded :: "'o os_ops \<Rightarrow> 'o history os_ops" where
  "recorded os = \<lparr>os_interfaces = (\<lambda>w. os_interfaces os (fst w)),
     os_readCommand = (\<lambda>command w. os_readCommand os command (fst w)),
     os_canBind = (\<lambda>a port w. os_canBind os a port (fst w)),
     os_system = (\<lambda>command w. case os_system os command (fst w) of (ok, w') \<Rightarrow> (ok, (w', snd w @ [(command, ok)]))),
     os_socket = (\<lambda>call w. case os_socket os call (fst w) of (r, w') \<Rightarrow> (r, (w', snd w)))\<rparr>"

text \<open>The arguments of the commands of a history that added an alias, of those that removed one,
  and of those that were to remove one and failed.\<close>

definition added :: "(string \<times> bool) list \<Rightarrow> string list" where
  "added cs = map (drop 18 \<circ> fst) (filter (\<lambda>(c, ok). ok \<and> take 18 c = ''/sbin/ip addr add '') cs)"

definition removed :: "(string \<times> bool) list \<Rightarrow> string list" where
  "removed cs = map (drop 18 \<circ> fst) (filter (\<lambda>(c, ok). ok \<and> take 18 c = ''/sbin/ip addr del '') cs)"

definition refused :: "(string \<times> bool) list \<Rightarrow> string list" where
  "refused cs = map (drop 18 \<circ> fst) (filter (\<lambda>(c, ok). \<not> ok \<and> take 18 c = ''/sbin/ip addr del '') cs)"

text \<open>At every point, no more was removed, or tried to be, than had been added.\<close>

definition orderly :: "(string \<times> bool) list \<Rightarrow> bool" where
  "orderly cs \<longleftrightarrow> (\<forall>n. mset (removed (take n cs)) + mset (refused (take n cs)) \<subseteq># mset (added (take n cs)))"

definition alias_args :: "alias_record \<Rightarrow> string" where
  "alias_args rec = drop 18 (aliasCommand ''add'' rec)"

definition balanced :: "alias_record list \<Rightarrow> 'o history \<Rightarrow> bool" where
  "balanced recs w \<longleftrightarrow> orderly (snd w) \<and>
     mset (added (snd w)) = mset (removed (snd w)) + mset (refused (snd w)) + mset (map alias_args recs)"

lemma alias_command:
  "take 18 (aliasCommand ''add'' rec) = ''/sbin/ip addr add ''" "take 18 (aliasCommand ''del'' rec) = ''/sbin/ip addr del ''"
  "drop 18 (aliasCommand ''add'' rec) = alias_args rec" "drop 18 (aliasCommand ''del'' rec) = alias_args rec"
  by (simp_all add: aliasCommand_def alias_args_def Let_def)

lemma history_simps [simp]:
  "added [] = []" "removed [] = []" "refused [] = []" "added (cs @ ds) = added cs @ added ds"
  "removed (cs @ ds) = removed cs @ removed ds" "refused (cs @ ds) = refused cs @ refused ds"
  by (simp_all add: added_def removed_def refused_def)

lemma command_simps [simp]:
  "added [(aliasCommand ''add'' rec, ok)] = (if ok then [alias_args rec] else [])"
  "removed [(aliasCommand ''add'' rec, ok)] = []" "refused [(aliasCommand ''add'' rec, ok)] = []"
  "added [(aliasCommand ''del'' rec, ok)] = []"
  "removed [(aliasCommand ''del'' rec, ok)] = (if ok then [alias_args rec] else [])"
  "refused [(aliasCommand ''del'' rec, ok)] = (if ok then [] else [alias_args rec])"
  by (simp_all add: added_def removed_def refused_def alias_command)

lemma orderly_empty: "orderly []"
  by (simp add: orderly_def)

lemma orderly_append:
  assumes "orderly cs" "mset (removed (cs @ [c])) + mset (refused (cs @ [c])) \<subseteq># mset (added (cs @ [c]))"
  shows "orderly (cs @ [c])"
  unfolding orderly_def
proof
  fix n
  show "mset (removed (take n (cs @ [c]))) + mset (refused (take n (cs @ [c]))) \<subseteq># mset (added (take n (cs @ [c])))"
    using assms by (cases "n \<le> length cs") (simp_all add: orderly_def)
qed

lemma add_balanced:
  assumes "addAlias (recorded os) rec w = (ok, w')" "balanced recs w"
  shows "balanced (if ok then recs @ [rec] else recs) w'"
proof -
  have h: "snd w' = snd w @ [(aliasCommand ''add'' rec, ok)]"
    using assms(1) by (auto simp: addAlias_def recorded_def split: prod.splits)
  have "mset (removed (snd w)) + mset (refused (snd w)) \<subseteq># mset (added (snd w))"
    using assms(2) by (simp add: balanced_def)
  then have "orderly (snd w')" unfolding h
    using assms(2) by (intro orderly_append) (auto simp: balanced_def intro: subset_mset.order_trans)
  with assms(2) show ?thesis by (simp add: balanced_def h)
qed

lemma remove_balanced:
  assumes "balanced (recs @ [rec]) w"
  shows "balanced recs (removeAlias (recorded os) rec w)"
proof -
  obtain ok where h: "snd (removeAlias (recorded os) rec w) = snd w @ [(aliasCommand ''del'' rec, ok)]"
    by (cases "os_system os (aliasCommand ''del'' rec) (fst w)") (simp add: removeAlias_def recorded_def)
  have "orderly (snd w @ [(aliasCommand ''del'' rec, ok)])"
    using assms by (intro orderly_append) (simp_all add: balanced_def)
  with assms show ?thesis by (simp add: balanced_def h)
qed

text \<open>The manager's operations keep the balance with the list of aliases it holds.\<close>

abbreviation kept :: "'o history aliases \<Rightarrow> bool" where
  "kept m \<equiv> balanced (fst m) (snd m)"

lemma cleanup_balanced: "kept m \<Longrightarrow> kept (cleanupAliases (recorded os) m)"
proof -
  have "balanced (rev recs) w \<Longrightarrow> balanced [] (foldl (\<lambda>w rec. removeAlias (recorded os) rec w) w recs)" for recs and w :: "'a history"
  proof (induction recs arbitrary: w)
    case (Cons r recs)
    have "balanced (rev recs) (removeAlias (recorded os) r w)" using Cons.prems by (intro remove_balanced) simp
    with Cons.IH show ?case by simp
  qed simp
  from this [of "rev (fst m)" "snd m"] show "kept m \<Longrightarrow> ?thesis" by (simp add: cleanupAliases_def)
qed

lemma ensure_balanced:
  assumes "ensureAlias (recorded os) options rec m = (r, m')" "kept m"
  shows "kept m'"
proof -
  obtain recs w where m: "m = (recs, w)" by (rule prod.exhaust)
  obtain ok w1 where a: "addAlias (recorded os) rec w = (ok, w1)" by (rule prod.exhaust)
  have 1: "balanced (if ok then recs @ [rec] else recs) w1" using add_balanced [OF a] assms(2) m by simp
  show ?thesis
  proof (cases ok)
    case False
    with assms a m 1 show ?thesis by (auto simp: ensureAlias_def split: if_splits)
  next
    case True
    then have "balanced recs (removeAlias (recorded os) rec w1)" using 1 remove_balanced by simp
    with assms a m 1 True show ?thesis by (auto simp: ensureAlias_def split: if_splits)
  qed
qed

lemma loopback_balanced: "loopbackLoop (recorded os) options is addresses m = (r, m') \<Longrightarrow> kept m \<Longrightarrow> kept m'"
proof (induction "is" arbitrary: addresses m)
  case (Cons i "is")
  let ?rec = "\<lparr>ar_interfaceName = ''lo'', ar_address = ''127.0.0.'' @ to_string (i + 1), ar_netmask = ''255.0.0.0'',
                 ar_loopback = True\<rparr>"
  obtain r1 m1 where e: "ensureAlias (recorded os) options ?rec m = (r1, m1)" by (rule prod.exhaust)
  have "kept m1" by (rule ensure_balanced [OF e Cons.prems(2)])
  with Cons.prems(1) e Cons.IH show ?case by (cases r1) (auto simp: Let_def)
qed simp

lemma lan_balanced:
  "lanLoop ops options iface n network candidate existing allocated m = (r, m') \<Longrightarrow> ops = recorded os \<Longrightarrow> kept m \<Longrightarrow> kept m'"
proof (induction ops options iface n network candidate existing allocated m rule: lanLoop.induct)
  case (1 ops options iface n network candidate existing allocated m)
  let ?rec = "\<lparr>ar_interfaceName = ia_name iface, ar_address = hostToIpv4 candidate, ar_netmask = ia_netmask iface,
                 ar_loopback = False\<rparr>"
  let ?skip = "candidate \<in> set existing \<or> candidate = ia_addressHost iface \<or> hostToIpv4 candidate = []"
  show ?case
  proof (cases "network < candidate \<and> \<not> ?skip")
    case False
    with 1(3,4,5) 1(1) show ?thesis unfolding lanLoop.simps [of ops options iface n network candidate]
      by (auto split: if_splits)
  next
    case True
    obtain r1 m1 where e: "ensureAlias ops options ?rec m = (r1, m1)" by (rule prod.exhaust)
    have "kept m1" using ensure_balanced [OF e [unfolded 1(4)] 1(5)] .
    with 1(2-4) True e show ?thesis unfolding lanLoop.simps [of ops options iface n network candidate]
      by (cases r1) (auto simp: Let_def split: if_splits)
  qed
qed

lemma allocate_balanced:
  assumes "allocateAliases (recorded os) options n m = (r, m')" "kept m"
  shows "kept m'"
proof -
  let ?m = "cleanupAliases (recorded os) m"
  have m: "kept ?m" by (rule cleanup_balanced [OF assms(2)])
  have lan: "kept m2" if "allocateLan (recorded os) options n ?m = (r2, m2)" for r2 m2
    using that m by (auto simp: allocateLan_def Let_def split: if_splits sum.splits prod.splits option.splits dest: lan_balanced)
  show ?thesis
    using assms(1) m lan unfolding allocateAliases_def Let_def
    by (auto simp: allocateLoopback_def split: if_splits dest: loopback_balanced)
qed

text \<open>Starting devices makes socket calls only.\<close>

lemma startSockets_history: "startSockets (recorded os) d w = (r, w') \<Longrightarrow> snd w' = snd w"
  by (auto simp: startSockets_def recorded_def Let_def split: prod.splits option.splits if_splits)

lemma startDevices_history: "startDevices (recorded os) lib options i ts ds es w = (r, w') \<Longrightarrow> snd w' = snd w"
proof (induction ts arbitrary: i ds es w)
  case (Cons t ts)
  obtain lt address where t: "t = (lt, address)" by (rule prod.exhaust)
  obtain r1 w1 where d: "startDevice (recorded os) (newDevice (lt_info lt) address (makeMacAddress (lt_info lt) i) options) w = (r1, w1)"
    by (rule prod.exhaust)
  then have "snd w1 = snd w" by (auto simp: startDevice_def split: prod.splits option.splits dest: startSockets_history)
  with Cons d t show ?case by (cases r1) (auto simp: Let_def)
qed simp

lemma start_balanced:
  assumes "startEdHost (recorded os) lib ts h w = (err, h', w')" "balanced (eh_aliases h) w"
  shows "balanced (eh_aliases h') w'"
proof (cases "eh_active h \<or> ts = []")
  case True
  with assms show ?thesis by (auto simp: startEdHost_def split: if_splits)
next
  case False
  obtain r recs w1 where a: "allocateAliases (recorded os) (eh_options h) (length ts) (eh_aliases h, w) = (r, (recs, w1))"
    by (metis surj_pair)
  from allocate_balanced [OF a] assms(2) have 1: "balanced recs w1" by simp
  show ?thesis
  proof (cases r)
    case (Inl e)
    with assms(1) False a 1 show ?thesis by (auto simp: startEdHost_def)
  next
    case (Inr addresses)
    obtain q w2 where d: "startDevices (recorded os) lib (eh_options h) 0 (zip ts addresses) [] [] w1 = (q, w2)"
      by (rule prod.exhaust)
    have 2: "balanced recs w2" using 1 startDevices_history [OF d] by (simp add: balanced_def)
    then have "kept (cleanupAliases (recorded os) (recs, w2))" by (intro cleanup_balanced) simp
    with assms(1) False a Inr d 2 show ?thesis
      by (auto simp: startEdHost_def split: sum.splits prod.splits)
  qed
qed

text \<open>C30: Whatever comes of starting an Ether Dream host, once it is stopped it has asked the system
  for every address alias that it added to an interface of the machine to take it away again,
  with the same address, prefix and interface, after it was added and as often: the aliases
  added are those removed, and those that the system refused to remove, which stay. It holds
  no alias any more.\<close>

theorem aliases_removed_again:
  assumes "eh_aliases h = []" "startEdHost (recorded os) lib ts h (w, []) = (err, h1, w1)"
    "stopEdHost (recorded os) h1 w1 = (h2, w2)"
  shows "mset (added (snd w2)) = mset (removed (snd w2)) + mset (refused (snd w2)) \<and> orderly (snd w2) \<and> eh_aliases h2 = []"
proof -
  have "balanced (eh_aliases h1) w1"
    by (rule start_balanced [OF assms(2)]) (simp add: assms(1) balanced_def orderly_empty)
  then have k: "kept (cleanupAliases (recorded os) (eh_aliases h1, w1))" by (intro cleanup_balanced) simp
  have s: "eh_aliases h2 = []" "w2 = snd (cleanupAliases (recorded os) (eh_aliases h1, w1))"
    using assms(3) by (auto simp: stopEdHost_def cleanupAliases_def split: prod.splits)
  moreover have "fst (cleanupAliases (recorded os) (eh_aliases h1, w1)) = []" by (simp add: cleanupAliases_def)
  ultimately show ?thesis using k by (simp add: balanced_def)
qed

text \<open>A machine on which an address can be bound once a command has been run.\<close>

definition aliasing_raw :: "nat raw_os" where
  "aliasing_raw = \<lparr>ro_ifaddrs = (\<lambda>w. None), ro_popen = (\<lambda>w command. None), ro_system = (\<lambda>command w. (0, Suc w)),
     ro_tcpOpen = (\<lambda>w. True), ro_makeAddress = (\<lambda>a. True), ro_tcpBind = (\<lambda>a port w. 0 < w),
     ro_socket = (\<lambda>call w. (None, w))\<rparr>"

theorem aliases_removed_again_witness:
  "\<exists>h1 w1 h2 w2.
     startEdHost (recorded (host_os aliasing_raw)) plain_lib [sample_link_target] (newEdHost plain_lib loopback_config) (0, []) =
       (None, h1, w1) \<and> length (added (snd w1)) = 1 \<and> removed (snd w1) = [] \<and>
     stopEdHost (recorded (host_os aliasing_raw)) h1 w1 = (h2, w2) \<and> mset (added (snd w2)) = mset (removed (snd w2)) \<and>
     length (removed (snd w2)) = 1 \<and> refused (snd w2) = [] \<and> eh_aliases h2 = []"
proof -
  let ?h = "newEdHost plain_lib loopback_config" and ?os = "recorded (host_os aliasing_raw)"
  define rec where "rec = \<lparr>ar_interfaceName = ''lo'', ar_address = ''127.0.0.'' @ to_string 1, ar_netmask = ''255.0.0.0'',
                 ar_loopback = True\<rparr>"
  have o: "eo_explicitAddresses (eh_options ?h) = []" "eo_ipMode (eh_options ?h) = ''loopback''"
      "eo_autoManageAliases (eh_options ?h)"
    by (simp_all add: newEdHost_def makeEdOptions_def loopback_config_def optionString_def optionBool_def Let_def
        trim_def isspace_def splitCsv.simps)
  have act: "\<not> eh_active ?h" "eh_aliases ?h = []" by (simp_all add: newEdHost_def)
  have ok: "systemCommandSucceeded 0" by (simp add: systemCommandSucceeded_def)
  have alloc: "allocateAliases ?os (eh_options ?h) 1 ([], (0, [])) =
      (Inr [ar_address rec], ([rec], (1, [(aliasCommand ''add'' rec, True)])))"
    by (simp add: allocateAliases_def allocateLoopback_def o cleanupAliases_def ensureAlias_def addAlias_def Let_def
        recorded_def host_os_def canBindAddress_def aliasing_raw_def ok rec_def)
  have "\<exists>d. startDevice ?os d0 w = (Inr d, w)" for d0 and w :: "nat history"
    by (simp add: startDevice_def startSockets_def recorded_def host_os_def aliasing_raw_def Let_def)
  then obtain d where d: "startDevice ?os (newDevice (lt_info sample_link_target) (ar_address rec)
      (makeMacAddress (lt_info sample_link_target) 0) (eh_options ?h)) (1, [(aliasCommand ''add'' rec, True)]) =
      (Inr d, (1, [(aliasCommand ''add'' rec, True)]))" by blast
  obtain h1 where 1: "startEdHost ?os plain_lib [sample_link_target] ?h (0, []) =
      (None, h1, (1, [(aliasCommand ''add'' rec, True)]))" "eh_aliases h1 = [rec]"
    using alloc d by (simp add: startEdHost_def act)
  have "removeAlias ?os rec (1, [(aliasCommand ''add'' rec, True)]) =
      (2, [(aliasCommand ''add'' rec, True), (aliasCommand ''del'' rec, True)])"
    by (simp add: removeAlias_def recorded_def host_os_def aliasing_raw_def ok)
  then obtain h2 where 2: "stopEdHost ?os h1 (1, [(aliasCommand ''add'' rec, True)]) =
      (h2, (2, [(aliasCommand ''add'' rec, True), (aliasCommand ''del'' rec, True)]))"
    using 1(2) by (simp add: stopEdHost_def cleanupAliases_def)
  have "added (cs @ [c]) = added cs @ added [c]" "removed (cs @ [c]) = removed cs @ removed [c]"
    "refused (cs @ [c]) = refused cs @ refused [c]" for cs c by (rule history_simps)+
  from this [of "[(aliasCommand ''add'' rec, True)]" "(aliasCommand ''del'' rec, True)"]
  have "added [(aliasCommand ''add'' rec, True), (aliasCommand ''del'' rec, True)] = [alias_args rec]"
    "removed [(aliasCommand ''add'' rec, True), (aliasCommand ''del'' rec, True)] = [alias_args rec]"
    "refused [(aliasCommand ''add'' rec, True), (aliasCommand ''del'' rec, True)] = []" by simp_all
  with aliases_removed_again [OF act(2) 1(1) 2] 1(1) 2 show ?thesis
    by (intro exI [of _ h1] exI [of _ "(1, [(aliasCommand ''add'' rec, True)])"] exI [of _ h2]
      exI [of _ "(2, [(aliasCommand ''add'' rec, True), (aliasCommand ''del'' rec, True)])"]) simp
qed

end
