(* ===== verification/Spec2Isabelle.thy ===== *)
theory Spec2Isabelle
  imports Main_Program Link_Display Row_View_Thms Avb_Window Traffic Runtime_Logger Io_Trace Cli_Text
    Ether_Dream_Device_Thms Host_System_Thms
begin

text \<open>
  Verification of Libera Link: laser controllers found by the libera-laser library are
  re-exposed as virtual controllers of other protocols.

  \<^bold>\<open>The program.\<close> \<open>LinkRuntime\<close> (\<open>src/LinkRuntime.cpp\<close>) discovers controllers, connects the
  selected ones and wraps each in a \<open>LiberaTarget\<close>, a queue of laser points with its own
  point rate and latency. It sorts the targets into groups by the virtual controller host
  they are routed to, creates a host per group through the registry
  (\<open>virtual_controller/VirtualControllerHostRegistry.cpp\<close>) and starts it. A host accepts
  clients of its protocol and calls the sink of its targets (\<open>TargetSink\<close> of
  \<open>VirtualControllerHost.hpp\<close>); the controller's callback takes points from the target.
  A running link is updated in place when the selection changes. The application has the IDN
  and the Libera protocol host built in; the Ether Dream host is linked into the tests.
  The window (\<open>gui_main.cpp\<close>) and the command line program (\<open>main.cpp\<close>) drive the link: the window
  from tasks it launches between its frames, the program by one call.

  \<^bold>\<open>Theories.\<close>
  \<^item> \<open>Prelude\<close>, \<open>Floats\<close>, \<open>Text_Options\<close>, \<open>Os_Api\<close>: lists, words, clocks; IEEE rounding of
    rationals to the float and double formats; the text parsing helpers and host options; the
    socket and system calls as a parameter.
  \<^item> \<open>Host_Api\<close>: the data and the two interfaces of \<open>VirtualControllerHost.hpp\<close>; their laws are
    the locales \<open>target_sink\<close> and \<open>virtual_host\<close>.
  \<^item> \<open>Libera_Target\<close> models \<open>LiberaTarget\<close>; \<open>Libera_Target_Props\<close> and \<open>Libera_Target_Correct\<close>
    hold its lemmas, the invariant, the order of streams and the interpretation of
    \<open>target_sink\<close>; \<open>Libera_Target_Thms\<close> its properties.
  \<^item> \<open>Registry\<close>, \<open>Cli\<close>, \<open>Discovery\<close>, \<open>Runtime_Logger\<close>: the host registry with the locales
    \<open>host_directory\<close> and \<open>linked_hosts\<close> (hosts that obey \<open>virtual_host\<close> and a registry that
    creates them idle), the command line, the discovery loop and controller selection, the log.
    \<open>Cli_Text\<close> has the usage text and the messages of the command line, \<open>Io_Trace\<close> the lines that
    can be written about the points of a target, with their hash.
  \<^item> \<open>Ether_Dream_Net\<close>, \<open>Ether_Dream_Device\<close>, \<open>Ether_Dream_Host\<close> with their \<open>Props\<close> and
    \<open>Thms\<close>: addresses and aliases, the device's session and playback, the host's lifecycle
    and the interpretation of \<open>virtual_host\<close> (\<open>EtherDreamVirtualControllerHost.cpp\<close>).
    \<open>Host_System\<close> models the functions that ask the operating system for interfaces, commands and
    free addresses, on top of the calls themselves (\<open>raw_os\<close>); \<open>Host_System_Thms\<close> shows which
    address a single device gets and that for every alias added a removal is asked for, as often
    and afterwards, for which the commands of the host and their success are recorded.
  \<^item> \<open>Libera_Session\<close>, \<open>Libera_Wire\<close>, \<open>Libera_Server\<close>, \<open>Libera_Host\<close> model
    \<open>LiberaProtocolVirtualControllerHost.cpp\<close>: options, points and the handlers of records; the
    loops that read and write on a socket; the threads of one TCP server, interleaved in any
    order; the pool of servers and its dynamic targets. \<open>Libera_Server_Props\<close> has the invariant
    of a server, \<open>Libera_Server_Thms\<close> and \<open>Libera_Host_Thms\<close> the properties and the
    interpretation of \<open>virtual_host\<close>.
  \<^item> \<open>Idn_Host\<close> and \<open>Idn_Thms\<close>: samples, driver loop, sessions and host of
    \<open>IdnVirtualControllerHost.cpp\<close>, and the interpretation of \<open>virtual_host\<close>.
  \<^item> \<open>Runtime\<close> and \<open>Runtime_Update\<close> model \<open>LinkRuntime\<close>; \<open>Runtime_Props\<close> and \<open>Runtime_Start\<close> hold
    the lemmas, for any hosts that satisfy \<open>linked_hosts\<close>, and \<open>Runtime_Thms\<close> the properties.
    \<open>Running_Link\<close> shows that a running link has its monitor thread and a host for each target.
  \<^item> \<open>Watched_Hosts\<close> numbers each host when it is started and keeps, in the world of the hosts, a
    ledger of those that run, which only the operations of the hosts change; the locale
    \<open>accounted_hosts\<close> has its laws, which every \<open>virtual_host\<close> obeys when watched, and under them
    every operation of the link leaves only hosts running that the link holds. \<open>Watched_Runs\<close>
    shows that a watched link does what the link does, operation by operation, so that its runs
    are the link's runs. On them rests that no host is left running by a start that fails, by
    the window when it is closed, and by the command line program when it ends.
  \<^item> \<open>Builtin_Hosts\<close>: the sum of two kinds of hosts, the registry of the application, the
    interpretation of \<open>linked_hosts\<close> on them, and what a started link of the application serves.
  \<^item> \<open>Traffic\<close>: the calls of a host and the callbacks of the laser controller, interleaved on
    one target; what sessions that have ended, and an accepted command line, mean for it.

  \<^item> \<open>Settings\<close> and \<open>Settings_Thms\<close>: the files of the window (\<open>gui_main.cpp\<close>) and the AVB settings
    (\<open>AvbSettings.cpp\<close>), and what is loaded again of what was saved. \<open>Avb_Window\<close>: the window that
    changes the latter (\<open>LiberaAvbWindow.cpp\<close>). \<open>App_Paths\<close>: the settings directory and the paths of
    the files in it, and the commands of the file dialog and of the restart (\<open>LiberaPaths.cpp\<close>,
    \<open>LiberaFileDialog_other.cpp\<close>, \<open>LiberaPluginsWindow.cpp\<close>; the Linux branches).
  \<^item> \<open>Gui\<close> models the main window: its state, one definition per click, the frame that composes
    them, and the window together with the link as a step relation of frames, calls of tasks
    and activity of the link. \<open>Gui_Props\<close> shows that a frame launches at most one task,
    \<open>Gui_Start\<close> which hosts a start is given, \<open>Gui_Settings\<close> that the files follow the window;
    \<open>Gui_Thms\<close> and \<open>Gui_Live\<close> have the properties, among them that four rounds of finishing
    tasks and drawing bring the window to rest: a rescan needs a stop, a start, and one frame
    more to notice its end, and the first round may begin with any task. \<open>Link_Display\<close> relates
    what a snapshot and the state label of a controller say to the link.
  \<^item> \<open>Managers\<close>, \<open>Row_Geometry\<close> and \<open>Row_View\<close> model what that window shows: the rows of controller
    types and drivers in the settings; the layout of a controller's row, its hit tests and the
    commands that draw it; its colours, texts, tooltips and choices, the overview and the log.
    \<open>Row_Geometry_Thms\<close> shows that the wire between the nodes of a row leaves out exactly its gaps,
    that the loop over its stripes ends for coordinates of at most 4194304 pixels, below which a
    float addition always advances, and that a click hits one button; \<open>Row_View_Thms\<close> that lights,
    texts, marks and disabled buttons agree with the state and with what clicks do.
  \<^item> \<open>Main_Program\<close>: the command line program (\<open>main.cpp\<close>), from the arguments to the exit code.

  \<^bold>\<open>Conventions.\<close> Machine integers are words of their width, sizes of containers natural
  numbers; floats are rationals rounded after every operation. Time is an integer number of
  nanoseconds, and an operation that reads the clock takes a function from the reading's
  position to its value. What is not under \<open>src/\<close> is a parameter: the laser controller
  (\<open>controller_ops\<close>), the byte codecs and constants of the library (\<open>ed_lib\<close>, \<open>proto_lib\<close>), the
  operating system (\<open>os_ops\<close>), what discovery and connecting answer (\<open>link_inputs\<close>); so is the
  vendored IDN server (\<open>idn_lib\<close> and the buffers that \<open>getNextBuffer\<close> delivers). A call is one
  atomic step; where the code reads the stop flag during a call, the value read is an input.
  The threads of a Libera server take one step per record read. The discovery loop and the
  reading loops run on a finite list of passes and have no result when it is used up;
  \<open>discovery_terminates\<close> says which lists are enough. Everything else is total.

  A frame of the window reads at most one click. A call that a task makes on the link is one
  step too; while it has not been made, a snapshot may show anything, since the call may be
  under way.

  \<^bold>\<open>Not modelled.\<close> The set-up of the window system and of its fonts (\<open>LiberaApp.cpp\<close>), the styles of
  widgets, the logo and the calls that place widgets, which only call graphics libraries; the
  plugin panel, which is a function of the libera-laser library; showing a path in the file
  browser; the branches for other systems than Linux; fonts, which are data. The target's
  operations call the IO trace when they are done; those calls are left out of the operations,
  since the trace reads the points and changes nothing but its file.
\<close>

end
